(* ===== verification/Prelude.thy ===== *)
theory Prelude
  imports Main "HOL-Library.Word"
begin

text \<open>
  Shared ground of the development: byte strings, PostgreSQL errors as values, the C library
  helpers the components use (memchr, snprintf of integers), and the generic lemmas on lists and
  decimal numerals that several component theories need.

  A byte string of the C code (a pointer and a length) is a \<^typ>\<open>string\<close>: a list of
  \<^typ>\<open>char\<close>, and a \<^typ>\<open>char\<close> is exactly one octet, NUL included.
\<close>

unbundle bit_operations_syntax

named_theorems led_simps \<open>defining equations of the small ledger helpers\<close>
named_theorems wbuf_simps \<open>defining equations of the write buffer operations\<close>

type_synonym bytes = string
type_synonym Oid = nat

text \<open>
  The SQLSTATEs the modelled code raises. Each constructor is the name the source writes in
  \<open>errcode(...)\<close>; \<open>elog(ERROR, ...)\<close> reports \<open>ERRCODE_INTERNAL_ERROR\<close>.
\<close>

datatype sqlstate =
    ERRCODE_FEATURE_NOT_SUPPORTED
  | ERRCODE_PROGRAM_LIMIT_EXCEEDED
  | ERRCODE_UNIQUE_VIOLATION
  | ERRCODE_T_R_SERIALIZATION_FAILURE
  | ERRCODE_DATATYPE_MISMATCH
  | ERRCODE_INTERNAL_ERROR
  | ERRCODE_TRANSACTION_RESOLUTION_UNKNOWN
  | ERRCODE_QUERY_CANCELED
  | ERRCODE_ADMIN_SHUTDOWN
  | ERRCODE_CONNECTION_FAILURE
  | ERRCODE_PROTOCOL_VIOLATION
  | ERRCODE_OUT_OF_MEMORY
  | ERRCODE_FDW_ERROR
  | ERRCODE_FDW_INVALID_DATA_TYPE
  | ERRCODE_INVALID_PASSWORD
  | ERRCODE_INVALID_AUTHORIZATION_SPECIFICATION
  | ERRCODE_INSUFFICIENT_PRIVILEGE
  | ERRCODE_CANNOT_CONNECT_NOW
  | ERRCODE_LOCK_NOT_AVAILABLE
  | ERRCODE_READ_ONLY_SQL_TRANSACTION
  | ERRCODE_CONFIG_FILE_ERROR
  | ERRCODE_TRANSACTION_ROLLBACK
  | ERRCODE_TOO_MANY_CONNECTIONS
  | ERRCODE_INVALID_PARAMETER_VALUE
  | ERRCODE_NOT_NULL_VIOLATION
  | ERRCODE_CHECK_VIOLATION
  | ERRCODE_INVALID_TABLE_DEFINITION
  | ERRCODE_DATETIME_VALUE_OUT_OF_RANGE
  | ERRCODE_DATA_EXCEPTION
  | ERRCODE_NULL_VALUE_NOT_ALLOWED
  | ERRCODE_S_R_E_PROHIBITED_SQL_STATEMENT_ATTEMPTED
  | ERRCODE_FDW_INVALID_OPTION_NAME
  | ERRCODE_SYNTAX_ERROR
  | ERRCODE_UNDEFINED_COLUMN

text \<open>An error report: its SQLSTATE and the primary message.\<close>

datatype pg_error = PgError (err_code: sqlstate) (err_msg: string)

type_synonym 'a result = "pg_error + 'a"

abbreviation raise :: "sqlstate \<Rightarrow> string \<Rightarrow> 'a result" where
  "raise c m \<equiv> Inl (PgError c m)"

fun result_bind :: "'a result \<Rightarrow> ('a \<Rightarrow> 'b result) \<Rightarrow> 'b result" where
  "result_bind (Inl e) f = Inl e"
| "result_bind (Inr x) f = f x"

lemma result_bind_Inr_iff:
  "result_bind r f = Inr y \<longleftrightarrow> (\<exists>x. r = Inr x \<and> f x = Inr y)"
  by (cases r) auto

lemma result_bind_cong [fundef_cong]:
  "r = r' \<Longrightarrow> (\<And>x. r' = Inr x \<Longrightarrow> f x = g x) \<Longrightarrow> result_bind r f = result_bind r' g"
  by (cases r') auto

text \<open>Running a fallible step over a list stops at the first error.\<close>

fun result_fold :: "('a \<Rightarrow> 's \<Rightarrow> 's result) \<Rightarrow> 'a list \<Rightarrow> 's \<Rightarrow> 's result" where
  "result_fold f [] s = Inr s"
| "result_fold f (x # xs) s = result_bind (f x s) (result_fold f xs)"

lemma result_fold_append:
  "result_fold f (xs @ ys) s = result_bind (result_fold f xs s) (result_fold f ys)"
proof (induction xs arbitrary: s)
  case (Cons x xs)
  then show ?case by (cases "f x s") simp_all
qed simp

lemma result_fold_snoc:
  "result_fold f (xs @ [x]) s = result_bind (result_fold f xs s) (f x)"
  by (cases "result_fold f xs s"; cases "f x (projr (result_fold f xs s))")
     (simp_all add: result_fold_append)

lemma result_fold_prefix:
  assumes "result_fold f (xs @ ys) s = Inr t"
  obtains u where "result_fold f xs s = Inr u" "result_fold f ys u = Inr t"
  using assms by (auto simp: result_fold_append result_bind_Inr_iff)

text \<open>A property that every successful step keeps is kept by the whole fold.\<close>

lemma result_fold_invariant:
  assumes "result_fold f xs s = Inr t" and "P s"
    and "\<And>x u v. x \<in> set xs \<Longrightarrow> P u \<Longrightarrow> f x u = Inr v \<Longrightarrow> P v"
  shows "P t"
  using assms
proof (induction xs arbitrary: s)
  case (Cons x xs)
  from Cons.prems(1) obtain u where u: "f x s = Inr u" "result_fold f xs u = Inr t"
    by (auto simp: result_bind_Inr_iff)
  have "P u" using Cons.prems(2,3) u(1) by auto
  then show ?case using Cons.IH [OF u(2)] Cons.prems(3) by auto
qed simp

subsection \<open>memchr\<close>

text \<open>\<open>memchr(s, c, n)\<close>: the offset of the first \<open>c\<close>, or NULL.\<close>

fun memchr :: "char \<Rightarrow> bytes \<Rightarrow> nat option" where
  "memchr c [] = None"
| "memchr c (x # xs) = (if x = c then Some 0 else map_option Suc (memchr c xs))"

lemma memchr_None [simp]: "memchr c xs = None \<longleftrightarrow> c \<notin> set xs"
  by (induction xs) auto

lemma memchr_prefix: "c \<notin> set xs \<Longrightarrow> memchr c (xs @ c # ys) = Some (length xs)"
  by (induction xs) auto

lemma memchr_SomeD:
  "memchr c xs = Some i \<Longrightarrow>
     i < length xs \<and> xs = take i xs @ c # drop (Suc i) xs \<and> c \<notin> set (take i xs)"
proof (induction xs arbitrary: i)
  case (Cons x xs)
  then show ?case by (cases i) (auto split: if_splits)
qed simp

subsection \<open>Decimal numerals\<close>

text \<open>What \<open>snprintf(buf, n, "%d", v)\<close> and \<open>INT64_FORMAT\<close> write.\<close>

fun dec_nat :: "nat \<Rightarrow> string" where
  "dec_nat n = (if n < 10 then [char_of (48 + n)]
                else dec_nat (n div 10) @ [char_of (48 + n mod 10)])"

declare dec_nat.simps [simp del]

definition dec_int :: "int \<Rightarrow> string" where
  "dec_int i = (if i < 0 then CHR ''-'' # dec_nat (nat (- i)) else dec_nat (nat i))"

definition is_digit :: "char \<Rightarrow> bool" where
  "is_digit c \<longleftrightarrow> 48 \<le> (of_char c :: nat) \<and> (of_char c :: nat) \<le> 57"

definition digit_val :: "char \<Rightarrow> nat" where
  "digit_val c = of_char c - 48"

definition dec_val :: "string \<Rightarrow> nat" where
  "dec_val s = foldl (\<lambda>v c. 10 * v + digit_val c) 0 s"

text \<open>The reader for \<open>dec_int\<close>: an optional minus sign and one or more digits.\<close>

definition parse_dec :: "string \<Rightarrow> int option" where
  "parse_dec s =
     (case s of
        [] \<Rightarrow> None
      | c # cs \<Rightarrow>
          if c = CHR ''-''
          then (if cs \<noteq> [] \<and> list_all is_digit cs then Some (- int (dec_val cs)) else None)
          else (if list_all is_digit s then Some (int (dec_val s)) else None))"

text \<open>An ASCII letter or digit, by its code.\<close>

definition is_alnum :: "char \<Rightarrow> bool" where
  "is_alnum c \<longleftrightarrow> (let n = (of_char c :: nat) in
     if n < 58 then 48 \<le> n else if n < 91 then 65 \<le> n else 97 \<le> n \<and> n < 123)"

text \<open>C's \<open>isspace\<close>, in the C locale.\<close>

definition isspace :: "char \<Rightarrow> bool" where
  "isspace c \<longleftrightarrow> c = CHR '' '' \<or> 9 \<le> (of_char c :: nat) \<and> (of_char c :: nat) \<le> 13"

lemma digit_not_space [simp]: "is_digit c \<Longrightarrow> \<not> isspace c"
  by (auto simp: is_digit_def isspace_def)

lemma of_char_digit [simp]: "d < 10 \<Longrightarrow> (of_char (char_of (48 + d) :: char) :: nat) = 48 + d"
  by simp

lemma dec_nat_digits: "list_all is_digit (dec_nat n)"
proof (induction n rule: dec_nat.induct)
  case (1 n)
  show ?case
  proof (cases "n < 10")
    case True
    then show ?thesis by (subst dec_nat.simps) (simp add: is_digit_def)
  next
    case False
    then have "list_all is_digit (dec_nat (n div 10))" using 1 by simp
    moreover have "is_digit (char_of (48 + n mod 10))" by (simp add: is_digit_def)
    ultimately show ?thesis using False by (subst dec_nat.simps) simp
  qed
qed

lemma dec_nat_nonempty [simp]: "dec_nat n \<noteq> []"
  by (subst dec_nat.simps) simp

lemma dec_val_dec_nat [simp]: "dec_val (dec_nat n) = n"
proof (induction n rule: dec_nat.induct)
  case (1 n)
  show ?case
  proof (cases "n < 10")
    case True
    then show ?thesis by (subst dec_nat.simps) (simp add: dec_val_def digit_val_def)
  next
    case False
    then have "dec_val (dec_nat (n div 10)) = n div 10" using 1 by simp
    with False show ?thesis
      by (subst dec_nat.simps) (simp add: dec_val_def digit_val_def)
  qed
qed

lemma minus_not_digit [simp]: "\<not> is_digit (CHR ''-'')"
  by (simp add: is_digit_def)

lemma space_not_digit [simp]: "\<not> is_digit (CHR '' '')"
  by (simp add: is_digit_def)

lemma dec_nat_no_minus: "CHR ''-'' \<notin> set (dec_nat n)"
  using dec_nat_digits [of n] by (auto simp: list_all_iff)

lemma parse_dec_int [simp]: "parse_dec (dec_int i) = Some i"
proof (cases "i < 0")
  case True
  then show ?thesis by (simp add: parse_dec_def dec_int_def dec_nat_digits)
next
  case False
  obtain c cs where s: "dec_nat (nat i) = c # cs" by (cases "dec_nat (nat i)") auto
  have "c \<noteq> CHR ''-''" using dec_nat_no_minus [of "nat i"] s by auto
  then show ?thesis
    using False s dec_nat_digits [of "nat i"] dec_val_dec_nat [of "nat i"]
    by (simp add: parse_dec_def dec_int_def)
qed

lemma dec_int_inject [simp]: "dec_int i = dec_int j \<longleftrightarrow> i = j"
  by (metis option.inject parse_dec_int)

lemma dec_nat_no_space: "CHR '' '' \<notin> set (dec_nat n)"
  using dec_nat_digits [of n] space_not_digit by (auto simp: list_all_iff)

lemma dec_int_no_space: "CHR '' '' \<notin> set (dec_int i)"
  by (simp add: dec_int_def dec_nat_no_space)

lemma dec_int_nonempty [simp]: "dec_int i \<noteq> []"
  by (simp add: dec_int_def)

end
