(* ===== verification/Slot.thy ===== *)
theory Slot
  imports Prelude
begin

text \<open>
  Hash-tag extraction and the CRC-16 cluster slot (\<open>src/vfdw_slot.c\<close>). The bitwise CRC loop is
  proved equal to long division of the message polynomial by the CRC-16/XMODEM generator, the tag
  to the decomposition the comment describes, and the slot to lie below 16384.
\<close>

section \<open>Definitions\<close>

definition crc16_bit :: "16 word \<Rightarrow> 16 word" where
  "crc16_bit crc =
     (if crc AND 0x8000 \<noteq> 0 then push_bit 1 crc XOR 0x1021 else push_bit 1 crc)"

text \<open>One iteration of the outer loop: the byte is read unsigned and the inner loop runs 8 times.\<close>

definition crc16_byte :: "16 word \<Rightarrow> char \<Rightarrow> 16 word" where
  "crc16_byte crc c = (crc16_bit ^^ 8) (crc XOR push_bit 8 (of_char c))"

definition vfdw_val_crc16 :: "bytes \<Rightarrow> 16 word" where
  "vfdw_val_crc16 buf = foldl crc16_byte 0 buf"

definition vfdw_val_hashtag :: "bytes \<Rightarrow> bytes" where
  "vfdw_val_hashtag key =
     (if length key = 0 then key
      else case memchr (CHR ''{'') key of
             None \<Rightarrow> key
           | Some open \<Rightarrow>
               (case memchr (CHR ''}'') (drop (open + 1) key) of
                  None \<Rightarrow> key
                | Some close \<Rightarrow> (if close = 0 then key else take close (drop (open + 1) key))))"

definition vfdw_val_slot :: "bytes \<Rightarrow> 16 word" where
  "vfdw_val_slot key = vfdw_val_crc16 (vfdw_val_hashtag key) AND 0x3FFF"

section \<open>The reference: long division over GF(2)\<close>

text \<open>
  A polynomial over GF(2) is the list of its coefficients, highest degree first. Long division by
  a monic generator of degree 16 drops the leading coefficient and, where it was 1, subtracts
  (xors) the generator's 16 lower coefficients from the next 16.
\<close>

fun xor_prefix :: "bool list \<Rightarrow> bool list \<Rightarrow> bool list" where
  "xor_prefix [] ys = ys"
| "xor_prefix xs [] = []"
| "xor_prefix (x # xs) (y # ys) = (x \<noteq> y) # xor_prefix xs ys"

definition word_bits :: "16 word \<Rightarrow> bool list" where
  "word_bits w = map (bit w) (rev [0..<16])"

definition byte_bits :: "char \<Rightarrow> bool list" where
  "byte_bits c = map (bit (of_char c :: 16 word)) (rev [0..<8])"

definition message_bits :: "bytes \<Rightarrow> bool list" where
  "message_bits s = concat (map byte_bits s)"

text \<open>\<open>x^16 + x^12 + x^5 + 1\<close> without its leading coefficient.\<close>

definition generator :: "bool list" where
  "generator = word_bits 0x1021"

lemma length_xor_prefix [simp]: "length (xor_prefix xs ys) = length ys"
  by (induction xs ys rule: xor_prefix.induct) auto

fun gf2_rem :: "bool list \<Rightarrow> bool list" where
  "gf2_rem [] = []"
| "gf2_rem (b # bs) =
     (if length bs < 16 then b # bs
      else gf2_rem (if b then xor_prefix generator bs else bs))"

section \<open>Long division and the shift register\<close>

lemma length_word_bits [simp]: "length (word_bits w) = 16"
  by (simp add: word_bits_def)

lemma length_generator [simp]: "length generator = 16"
  by (simp add: generator_def)

lemma length_byte_bits [simp]: "length (byte_bits c) = 8"
  by (simp add: byte_bits_def)

lemma nth_xor_prefix:
  "i < length ys \<Longrightarrow>
     xor_prefix xs ys ! i = (if i < length xs then xs ! i \<noteq> ys ! i else ys ! i)"
proof (induction xs ys arbitrary: i rule: xor_prefix.induct)
  case (3 x xs y ys)
  then show ?case by (cases i) auto
qed auto

lemma xor_prefix_xor_prefix:
  "xor_prefix xs (xor_prefix ys zs) =
     map (\<lambda>i. (i < length xs \<and> xs ! i) \<noteq> ((i < length ys \<and> ys ! i) \<noteq> zs ! i)) [0..<length zs]"
  by (rule nth_equalityI) (auto simp: nth_xor_prefix)

lemma nth_word_bits: "i < 16 \<Longrightarrow> word_bits w ! i = bit w (15 - i)"
  by (simp add: word_bits_def rev_nth)

lemma nth_generator: "i < 16 \<Longrightarrow> generator ! i = bit (0x1021 :: 16 word) (15 - i)"
  by (simp add: generator_def nth_word_bits)

lemma crc16_bit_top: "crc AND 0x8000 \<noteq> (0 :: 16 word) \<longleftrightarrow> bit crc 15"
  using and_exp_eq_0_iff_not_bit [of crc 15] by simp

lemma word_bits_Cons: "word_bits w = bit w 15 # map (\<lambda>i. bit w (14 - i)) [0..<15]"
  by (rule nth_equalityI) (auto simp: nth_word_bits nth_Cons split: nat.splits)

text \<open>One turn of the inner loop is one step of the division.\<close>

lemma shifted_register:
  assumes "16 \<le> length rest"
  shows "(if bit r 15 then xor_prefix generator (xor_prefix (map (\<lambda>i. bit r (14 - i)) [0..<15]) rest)
          else xor_prefix (map (\<lambda>i. bit r (14 - i)) [0..<15]) rest)
         = xor_prefix (word_bits (crc16_bit r)) rest" (is "?l = ?r")
proof (rule nth_equalityI)
  show "length ?l = length ?r" by simp
  fix i assume i: "i < length ?l"
  have sh: "bit (push_bit 1 r) (15 - i) \<longleftrightarrow> i < 15 \<and> bit r (14 - i)" if "i < 16"
    using that unfolding bit_push_bit_iff by (auto simp: possible_bit_word)
  show "?l ! i = ?r ! i"
  proof (cases "i < 16")
    case True
    then show ?thesis using i sh
      by (auto simp: nth_xor_prefix nth_word_bits nth_generator crc16_bit_def crc16_bit_top
            bit_xor_iff split: if_splits)
  next
    case False
    then show ?thesis using i by (auto simp: nth_xor_prefix)
  qed
qed

lemma gf2_rem_bit:
  assumes "16 \<le> length rest"
  shows "gf2_rem (xor_prefix (word_bits r) (False # rest))
         = gf2_rem (xor_prefix (word_bits (crc16_bit r)) rest)"
  using assms shifted_register [OF assms, of r] by (simp add: word_bits_Cons [of r])

lemma gf2_rem_bits:
  "16 \<le> length rest \<Longrightarrow>
     gf2_rem (xor_prefix (word_bits r) (replicate n False @ rest))
     = gf2_rem (xor_prefix (word_bits ((crc16_bit ^^ n) r)) rest)"
  by (induction n arbitrary: r) (simp_all add: gf2_rem_bit funpow_swap1)

lemma absorb_byte:
  "xor_prefix (word_bits r) (byte_bits c @ rest)
   = xor_prefix (word_bits (r XOR push_bit 8 (of_char c))) (replicate 8 False @ rest)"
proof (rule nth_equalityI)
  fix i assume i: "i < length (xor_prefix (word_bits r) (byte_bits c @ rest))"
  show "xor_prefix (word_bits r) (byte_bits c @ rest) ! i =
        xor_prefix (word_bits (r XOR push_bit 8 (of_char c))) (replicate 8 False @ rest) ! i"
    using i by (auto simp: nth_xor_prefix nth_append nth_word_bits bit_simps byte_bits_def rev_nth)
qed simp

lemma gf2_rem_message:
  "16 \<le> length rest \<Longrightarrow>
     gf2_rem (xor_prefix (word_bits r) (message_bits s @ rest))
     = gf2_rem (xor_prefix (word_bits (foldl crc16_byte r s)) rest)"
proof (induction s arbitrary: r)
  case (Cons c s)
  let ?rest = "message_bits s @ rest"
  have "gf2_rem (xor_prefix (word_bits r) (byte_bits c @ ?rest))
        = gf2_rem (xor_prefix (word_bits (crc16_byte r c)) ?rest)"
    using gf2_rem_bits [of ?rest _ 8] Cons.prems
    by (simp add: absorb_byte crc16_byte_def)
  then show ?case using Cons by (simp add: message_bits_def)
qed (simp add: message_bits_def)

lemma gf2_rem_short: "length bs \<le> 16 \<Longrightarrow> gf2_rem bs = bs"
  by (cases bs) auto

lemma xor_prefix_zero [simp]: "xor_prefix (word_bits 0) ys = ys"
  by (rule nth_equalityI) (auto simp: nth_xor_prefix nth_word_bits)

lemma xor_prefix_on_zeros: "xor_prefix (word_bits w) (replicate 16 False) = word_bits w"
  by (rule nth_equalityI) (auto simp: nth_xor_prefix)

section \<open>Properties\<close>

text \<open>C11. The bitwise CRC loop computes CRC-16/XMODEM: the 16 bits of its result are the remainder of
  the message polynomial, shifted by 16, divided by \<open>x^16 + x^12 + x^5 + 1\<close> over GF(2).
\<close>

theorem crc16_is_polynomial_remainder:
  "word_bits (vfdw_val_crc16 s) = gf2_rem (message_bits s @ replicate 16 False)"
proof -
  have "gf2_rem (message_bits s @ replicate 16 False)
        = gf2_rem (xor_prefix (word_bits 0) (message_bits s @ replicate 16 False))"
    by simp
  also have "\<dots> = gf2_rem (xor_prefix (word_bits (vfdw_val_crc16 s)) (replicate 16 False))"
    by (simp only: gf2_rem_message vfdw_val_crc16_def length_replicate order_refl)
  also have "\<dots> = word_bits (vfdw_val_crc16 s)"
    by (simp only: xor_prefix_on_zeros gf2_rem_short length_word_bits order_refl)
  finally show ?thesis by simp
qed

text \<open>The published check value, which pins the polynomial, the initial value and the reflection.\<close>

lemma crc16_check_value: "vfdw_val_crc16 ''123456789'' = 0x31C3"
  by code_simp

lemma slot_is_modulo: "unat (vfdw_val_slot key) = unat (vfdw_val_crc16 (vfdw_val_hashtag key)) mod 16384"
proof -
  have m: "w AND 0x3FFF = take_bit 14 w" for w :: "16 word"
    by (simp add: take_bit_eq_mask mask_eq_exp_minus_1)
  show ?thesis
    unfolding vfdw_val_slot_def m unsigned_take_bit_eq by (simp add: take_bit_eq_mod)
qed

lemma slot_bound: "unat (vfdw_val_slot key) < 16384"
  by (simp add: slot_is_modulo)

definition tagged :: "bytes \<Rightarrow> bytes \<Rightarrow> bool" where
  "tagged key tag \<longleftrightarrow>
     (\<exists>pre post. key = pre @ CHR ''{'' # tag @ CHR ''}'' # post \<and>
                 CHR ''{'' \<notin> set pre \<and> CHR ''}'' \<notin> set tag \<and> tag \<noteq> [])"

lemma hashtag_tagged: "tagged key tag \<Longrightarrow> vfdw_val_hashtag key = tag"
  by (auto simp: tagged_def vfdw_val_hashtag_def memchr_prefix)

lemma hashtag_cases: "vfdw_val_hashtag key = key \<or> tagged key (vfdw_val_hashtag key)"
proof (cases "vfdw_val_hashtag key = key")
  case False
  then obtain op cl where op: "memchr (CHR ''{'') key = Some op"
    and cl: "memchr (CHR ''}'') (drop (Suc op) key) = Some cl" "cl \<noteq> 0"
    and tag: "vfdw_val_hashtag key = take cl (drop (Suc op) key)"
    by (auto simp: vfdw_val_hashtag_def split: if_splits option.splits)
  let ?rest = "drop (Suc op) key"
  from memchr_SomeD [OF op] have "key = take op key @ CHR ''{'' # ?rest" "CHR ''{'' \<notin> set (take op key)"
    by auto
  moreover from memchr_SomeD [OF cl(1)]
  have "?rest = take cl ?rest @ CHR ''}'' # drop (Suc cl) ?rest" "CHR ''}'' \<notin> set (take cl ?rest)"
    "cl < length ?rest"
    by auto
  ultimately have "tagged key (take cl ?rest)" unfolding tagged_def
    using cl(2) by (intro exI [of _ "take op key"] exI [of _ "drop (Suc cl) ?rest"]) auto
  then show ?thesis by (simp add: tag)
qed simp

text \<open>C12. The hash tag is the bytes strictly between the first opening brace and the first closing
  brace after it, when there is such a non-empty run, and the whole key otherwise.
\<close>

theorem hashtag_spec:
  "(\<forall>tag. tagged key tag \<longrightarrow> vfdw_val_hashtag key = tag) \<and>
   ((\<nexists>tag. tagged key tag) \<longrightarrow> vfdw_val_hashtag key = key)"
  using hashtag_tagged hashtag_cases by blast

theorem hashtag_spec_witness:
  "tagged ''a{b}c{d}'' ''b'' \<and> vfdw_val_hashtag ''a{b}c{d}'' = ''b''"
proof -
  have t: "tagged ''a{b}c{d}'' ''b''"
    unfolding tagged_def by (intro exI [of _ "''a''"] exI [of _ "''c{d}''"]) simp
  show ?thesis using t hashtag_spec [of "''a{b}c{d}''"] by blast
qed

text \<open>Two keys with the same hash tag lie in the same slot, and every slot is one of the 16384
  the cluster map has; the mask the code uses is the remainder modulo 16384.
\<close>

theorem same_tag_same_slot:
  assumes "tagged k1 tag" and "tagged k2 tag"
  shows "vfdw_val_slot k1 = vfdw_val_slot k2 \<and> unat (vfdw_val_slot k1) < 16384 \<and>
         unat (vfdw_val_slot k1) = unat (vfdw_val_crc16 tag) mod 16384"
  using assms slot_bound [of k1] slot_is_modulo [of k1]
  by (simp add: vfdw_val_slot_def hashtag_tagged)

theorem same_tag_same_slot_witness:
  "vfdw_val_slot ''{t}:orders'' = vfdw_val_slot ''{t}:items''"
proof -
  have 1: "tagged ''{t}:orders'' ''t''"
    unfolding tagged_def by (intro exI [of _ "[]"] exI [of _ "'':orders''"]) simp
  have 2: "tagged ''{t}:items'' ''t''"
    unfolding tagged_def by (intro exI [of _ "[]"] exI [of _ "'':items''"]) simp
  show ?thesis using same_tag_same_slot [OF 1 2] by blast
qed

end
