(* ===== verification/Opcode.thy ===== *)
theory Opcode
  imports Prelude
begin

text \<open>
  The check and action vocabulary the ledger emits and the server-side program decodes
  (\<open>src/vfdw_opcode.h\<close>, \<open>src/vfdw_opcode.c\<close>), and the table types of \<open>src/vfdw_map.h\<close>. The
  numbering is on the wire, so the lemmas here tie the constructors, their numbers and the two
  name tables together.
\<close>

datatype VfdwTableType =
    VFDW_TABLE_STRING | VFDW_TABLE_HASH | VFDW_TABLE_LIST | VFDW_TABLE_SET | VFDW_TABLE_ZSET
  | VFDW_TABLE_VECTOR

datatype VfdwRequire = VFDW_REQ_ANY | VFDW_REQ_KEY_ABSENT | VFDW_REQ_KEY_PRESENT

datatype VfdwCheckOp =
    VFDW_CHK_KEY_ABSENT | VFDW_CHK_KEY_PRESENT | VFDW_CHK_TYPE_OK
  | VFDW_CHK_HFIELD_ABSENT | VFDW_CHK_HFIELD_PRESENT
  | VFDW_CHK_SMEMBER_ABSENT | VFDW_CHK_SMEMBER_PRESENT
  | VFDW_CHK_ZMEMBER_ABSENT | VFDW_CHK_ZMEMBER_PRESENT
  | VFDW_CHK_LVALUE_COUNT_GE | VFDW_CHK_KSET_ABSENT | VFDW_CHK_KSET_PRESENT

datatype VfdwActionOp =
    VFDW_ACT_SET | VFDW_ACT_DEL | VFDW_ACT_HSET | VFDW_ACT_HDEL | VFDW_ACT_SADD | VFDW_ACT_SREM
  | VFDW_ACT_ZADD | VFDW_ACT_ZREM | VFDW_ACT_RPUSH | VFDW_ACT_LREM1 | VFDW_ACT_RENAME
  | VFDW_ACT_KSET_ADD | VFDW_ACT_KSET_REM | VFDW_ACT_HPEXPIRE | VFDW_ACT_HPERSIST

text \<open>The C enumerations' values: the position of the enumerator.\<close>

primrec tabletype_code :: "VfdwTableType \<Rightarrow> int" where
  "tabletype_code VFDW_TABLE_STRING = 0"
| "tabletype_code VFDW_TABLE_HASH = 1"
| "tabletype_code VFDW_TABLE_LIST = 2"
| "tabletype_code VFDW_TABLE_SET = 3"
| "tabletype_code VFDW_TABLE_ZSET = 4"
| "tabletype_code VFDW_TABLE_VECTOR = 5"

primrec require_code :: "VfdwRequire \<Rightarrow> int" where
  "require_code VFDW_REQ_ANY = 0"
| "require_code VFDW_REQ_KEY_ABSENT = 1"
| "require_code VFDW_REQ_KEY_PRESENT = 2"

definition check_ops :: "VfdwCheckOp list" where
  "check_ops = [VFDW_CHK_KEY_ABSENT, VFDW_CHK_KEY_PRESENT, VFDW_CHK_TYPE_OK,
     VFDW_CHK_HFIELD_ABSENT, VFDW_CHK_HFIELD_PRESENT, VFDW_CHK_SMEMBER_ABSENT,
     VFDW_CHK_SMEMBER_PRESENT, VFDW_CHK_ZMEMBER_ABSENT, VFDW_CHK_ZMEMBER_PRESENT,
     VFDW_CHK_LVALUE_COUNT_GE, VFDW_CHK_KSET_ABSENT, VFDW_CHK_KSET_PRESENT]"

definition action_ops :: "VfdwActionOp list" where
  "action_ops = [VFDW_ACT_SET, VFDW_ACT_DEL, VFDW_ACT_HSET, VFDW_ACT_HDEL, VFDW_ACT_SADD,
     VFDW_ACT_SREM, VFDW_ACT_ZADD, VFDW_ACT_ZREM, VFDW_ACT_RPUSH, VFDW_ACT_LREM1,
     VFDW_ACT_RENAME, VFDW_ACT_KSET_ADD, VFDW_ACT_KSET_REM, VFDW_ACT_HPEXPIRE,
     VFDW_ACT_HPERSIST]"

primrec check_code :: "VfdwCheckOp \<Rightarrow> int" where
  "check_code VFDW_CHK_KEY_ABSENT = 0"
| "check_code VFDW_CHK_KEY_PRESENT = 1"
| "check_code VFDW_CHK_TYPE_OK = 2"
| "check_code VFDW_CHK_HFIELD_ABSENT = 3"
| "check_code VFDW_CHK_HFIELD_PRESENT = 4"
| "check_code VFDW_CHK_SMEMBER_ABSENT = 5"
| "check_code VFDW_CHK_SMEMBER_PRESENT = 6"
| "check_code VFDW_CHK_ZMEMBER_ABSENT = 7"
| "check_code VFDW_CHK_ZMEMBER_PRESENT = 8"
| "check_code VFDW_CHK_LVALUE_COUNT_GE = 9"
| "check_code VFDW_CHK_KSET_ABSENT = 10"
| "check_code VFDW_CHK_KSET_PRESENT = 11"

primrec action_code :: "VfdwActionOp \<Rightarrow> int" where
  "action_code VFDW_ACT_SET = 0"
| "action_code VFDW_ACT_DEL = 1"
| "action_code VFDW_ACT_HSET = 2"
| "action_code VFDW_ACT_HDEL = 3"
| "action_code VFDW_ACT_SADD = 4"
| "action_code VFDW_ACT_SREM = 5"
| "action_code VFDW_ACT_ZADD = 6"
| "action_code VFDW_ACT_ZREM = 7"
| "action_code VFDW_ACT_RPUSH = 8"
| "action_code VFDW_ACT_LREM1 = 9"
| "action_code VFDW_ACT_RENAME = 10"
| "action_code VFDW_ACT_KSET_ADD = 11"
| "action_code VFDW_ACT_KSET_REM = 12"
| "action_code VFDW_ACT_HPEXPIRE = 13"
| "action_code VFDW_ACT_HPERSIST = 14"

section \<open>Names\<close>

definition vfdw_check_names :: "string list" where
  "vfdw_check_names = [''KEY_ABSENT'', ''KEY_PRESENT'', ''TYPE_OK'',
     ''HFIELD_ABSENT'', ''HFIELD_PRESENT'', ''SMEMBER_ABSENT'', ''SMEMBER_PRESENT'',
     ''ZMEMBER_ABSENT'', ''ZMEMBER_PRESENT'', ''LVALUE_COUNT_GE'', ''KSET_ABSENT'',
     ''KSET_PRESENT'']"

definition vfdw_action_names :: "string list" where
  "vfdw_action_names = [''SET'', ''DEL'', ''HSET'', ''HDEL'', ''SADD'', ''SREM'', ''ZADD'',
     ''ZREM'', ''RPUSH'', ''LREM1'', ''RENAME'', ''KSET_ADD'', ''KSET_REM'', ''HPEXPIRE'',
     ''HPERSIST'']"

definition vfdw_ledger_check_name :: "int \<Rightarrow> string result" where
  "vfdw_ledger_check_name oper =
     (if oper < 0 \<or> oper \<ge> int (length vfdw_check_names)
      then raise ERRCODE_INTERNAL_ERROR (''valkey_fdw: check opcode '' @ dec_int oper @ '' out of range'')
      else Inr (vfdw_check_names ! nat oper))"

definition vfdw_ledger_action_name :: "int \<Rightarrow> string result" where
  "vfdw_ledger_action_name oper =
     (if oper < 0 \<or> oper \<ge> int (length vfdw_action_names)
      then raise ERRCODE_INTERNAL_ERROR (''valkey_fdw: action opcode '' @ dec_int oper @ '' out of range'')
      else Inr (vfdw_action_names ! nat oper))"

definition vfdw_check_op_count :: int where
  "vfdw_check_op_count = int (length vfdw_check_names)"

definition vfdw_action_op_count :: int where
  "vfdw_action_op_count = int (length vfdw_action_names)"

primrec vfdw_ledger_require_name :: "VfdwRequire \<Rightarrow> string" where
  "vfdw_ledger_require_name VFDW_REQ_ANY = ''ANY''"
| "vfdw_ledger_require_name VFDW_REQ_KEY_ABSENT = ''KEY_ABSENT''"
| "vfdw_ledger_require_name VFDW_REQ_KEY_PRESENT = ''KEY_PRESENT''"

section \<open>The numbering is dense and injective\<close>

lemma check_code_inject [simp]: "check_code a = check_code b \<longleftrightarrow> a = b"
  by (cases a; cases b) simp_all

lemma action_code_inject [simp]: "action_code a = action_code b \<longleftrightarrow> a = b"
  by (cases a; cases b) simp_all

lemma check_code_range: "0 \<le> check_code c \<and> check_code c < vfdw_check_op_count"
  by (cases c) (simp_all add: vfdw_check_op_count_def vfdw_check_names_def)

lemma action_code_range: "0 \<le> action_code c \<and> action_code c < vfdw_action_op_count"
  by (cases c) (simp_all add: vfdw_action_op_count_def vfdw_action_names_def)

lemma check_ops_code: "map check_code check_ops = [0..11]"
  by (simp add: check_ops_def upto.simps)

lemma action_ops_code: "map action_code action_ops = [0..14]"
  by (simp add: action_ops_def upto.simps)

end
