(* ===== verification/Wbuf.thy ===== *)
theory Wbuf
  imports Slot Opcode
begin

text \<open>
  The transaction-scoped deferred write buffer (\<open>src/vfdw_wbuf.h\<close>, \<open>src/vfdw_wbuf.c\<close>).

  The operation log is the doubly linked list of the source: a store of operations addressed by
  number, head and tail pointers, and \<open>prev\<close>/\<open>next\<close> pointers inside each operation. Truncation
  unlinks and never frees, so the store only grows. The abstraction \<open>wbuf_log\<close> reads the list
  the loops of the source walk, and the interpretation of the locale \<open>write_log\<close> at the end
  shows that the pointer code implements the log contract its clients rely on.

  What AllocSet charges for an allocation is PostgreSQL's code: the growth of \<open>mem_allocated\<close>
  is an argument of the operations that allocate.
\<close>

section \<open>Data\<close>

datatype VfdwOpKind = VFDW_OP_INSERT | VFDW_OP_UPDATE | VFDW_OP_DELETE

record VfdwWriteArg =
  arg_name :: bytes
  arg_isnull :: bool
  arg_data :: bytes

type_synonym addr = nat
type_synonym CommandId = nat

text \<open>A HeapTuple is PostgreSQL's: the model keeps only which tuple an operation holds.\<close>

type_synonym HeapTuple = nat

text \<open>A pointer, length and presence flag of the source is one \<open>option\<close> here.\<close>

record VfdwWriteOp =
  op_prev :: "addr option"
  op_next :: "addr option"
  op_kind :: VfdwOpKind
  op_relid :: Oid
  op_tabletype :: VfdwTableType
  op_level :: int
  op_cid :: CommandId
  op_hashslot :: "16 word"
  op_key :: bytes
  op_oldkey :: "bytes option"
  op_member :: "bytes option"
  op_oldmember :: "bytes option"
  op_value :: "bytes option"
  op_score :: "bytes option"
  op_fields :: "VfdwWriteArg list"
  op_ttls :: "VfdwWriteArg list"
  op_packed :: "VfdwWriteArg list"
  op_packed_shape :: bool
  op_newtup :: "HeapTuple option"
  op_keyset :: "bytes option"

text \<open>What \<open>MemoryContextAllocZero\<close> leaves in a fresh operation.\<close>

definition zero_op :: VfdwWriteOp where
  "zero_op = \<lparr>op_prev = None, op_next = None, op_kind = VFDW_OP_INSERT, op_relid = 0,
     op_tabletype = VFDW_TABLE_STRING, op_level = 0, op_cid = 0, op_hashslot = 0, op_key = [],
     op_oldkey = None, op_member = None, op_oldmember = None, op_value = None, op_score = None,
     op_fields = [], op_ttls = [], op_packed = [], op_packed_shape = False, op_newtup = None,
     op_keyset = None\<rparr>"

record VfdwWriteUnit =
  u_bound :: bool
  u_serverid :: Oid
  u_umid :: Oid
  u_userid :: Oid
  u_database :: int
  u_max_ops :: int
  u_max_bytes :: int
  u_level :: int

record wbuf =
  wb_heap :: "addr \<Rightarrow> VfdwWriteOp"
  wb_brk :: addr
  wb_cxt :: bool
  wb_allocated :: nat
  wb_baseline :: nat
  wb_head :: "addr option"
  wb_tail :: "addr option"
  wb_nlive :: int
  wb_gen :: "64 word"
  wb_shrink_gen :: "64 word"
  wb_unit :: VfdwWriteUnit

text \<open>The static initialisers: everything zero, nothing allocated.\<close>

definition wbuf_init :: wbuf where
  "wbuf_init = \<lparr>wb_heap = (\<lambda>_. zero_op), wb_brk = 0, wb_cxt = False, wb_allocated = 0,
     wb_baseline = 0, wb_head = None, wb_tail = None, wb_nlive = 0, wb_gen = 0,
     wb_shrink_gen = 0,
     wb_unit = \<lparr>u_bound = False, u_serverid = 0, u_umid = 0, u_userid = 0, u_database = 0,
       u_max_ops = 0, u_max_bytes = 0, u_level = 0\<rparr>\<rparr>"

section \<open>Memory context and the byte counter\<close>

text \<open>The cast \<open>(uint64)\<close> of a signed 64-bit value.\<close>

definition uint64 :: "int \<Rightarrow> nat" where
  "uint64 i = nat (i mod 2 ^ 64)"

definition vfdw_wbuf_alloc_bytes_internal :: "wbuf \<Rightarrow> nat" where
  "vfdw_wbuf_alloc_bytes_internal st =
     (if \<not> wb_cxt st then 0
      else let now = wb_allocated st
           in if now \<le> wb_baseline st then 0 else now - wb_baseline st)"

text \<open>\<open>initial\<close> is what a fresh AllocSet context has allocated.\<close>

definition vfdw_wbuf_context :: "nat \<Rightarrow> wbuf \<Rightarrow> wbuf" where
  "vfdw_wbuf_context initial st =
     (if wb_cxt st then st
      else st\<lparr>wb_cxt := True, wb_allocated := initial, wb_baseline := initial\<rparr>)"

section \<open>Unit binding\<close>

definition vfdw_wbuf_bind ::
  "Oid \<Rightarrow> Oid \<Rightarrow> Oid \<Rightarrow> int \<Rightarrow> int \<Rightarrow> int \<Rightarrow> int \<Rightarrow> nat \<Rightarrow> wbuf \<Rightarrow> wbuf result" where
  "vfdw_wbuf_bind serverid umid userid database max_ops max_bytes nest initial st0 =
     (let st = vfdw_wbuf_context initial st0; u = wb_unit st in
      if \<not> u_bound u then
        Inr (st\<lparr>wb_unit := \<lparr>u_bound = True, u_serverid = serverid, u_umid = umid,
               u_userid = userid, u_database = database, u_max_ops = max_ops,
               u_max_bytes = max_bytes, u_level = nest\<rparr>\<rparr>)
      else if u_serverid u \<noteq> serverid then
        raise ERRCODE_FEATURE_NOT_SUPPORTED
          ''cannot write to more than one Valkey server in one transaction''
      else if u_umid u \<noteq> umid then
        raise ERRCODE_FEATURE_NOT_SUPPORTED
          ''cannot write through more than one Valkey user mapping in one transaction''
      else if u_database u \<noteq> database then
        raise ERRCODE_FEATURE_NOT_SUPPORTED
          ''cannot write to more than one Valkey database in one transaction''
      else Inr st)"

section \<open>Append, and the two caps\<close>

abbreviation op_cap_error :: "'a result" where
  "op_cap_error \<equiv> raise ERRCODE_PROGRAM_LIMIT_EXCEEDED
     ''deferred write buffer would exceed write_max_ops''"

abbreviation byte_cap_error :: "'a result" where
  "byte_cap_error \<equiv> raise ERRCODE_PROGRAM_LIMIT_EXCEEDED
     ''deferred write buffer would exceed write_max_bytes''"

definition over_byte_cap :: "wbuf \<Rightarrow> bool" where
  "over_byte_cap st \<longleftrightarrow> vfdw_wbuf_alloc_bytes_internal st > uint64 (u_max_bytes (wb_unit st))"

text \<open>\<open>grow\<close> is what the allocation of the operation adds to the context's \<open>mem_allocated\<close>.\<close>

definition vfdw_wbuf_op_new :: "nat \<Rightarrow> wbuf \<Rightarrow> (addr \<times> wbuf) result" where
  "vfdw_wbuf_op_new grow st =
     (if \<not> u_bound (wb_unit st)
      then raise ERRCODE_INTERNAL_ERROR ''valkey_fdw: write buffer unit is not bound''
      else if over_byte_cap st then byte_cap_error
      else Inr (wb_brk st,
                st\<lparr>wb_heap := (wb_heap st)(wb_brk st := zero_op), wb_brk := wb_brk st + 1,
                   wb_allocated := wb_allocated st + grow\<rparr>))"

text \<open>\<open>nest\<close> is GetCurrentTransactionNestLevel(), \<open>cid\<close> is GetCurrentCommandId(true).\<close>

definition wbuf_link_tail :: "addr \<Rightarrow> wbuf \<Rightarrow> wbuf" where
  "wbuf_link_tail a st =
     (let h1 = (wb_heap st)(a := (wb_heap st a)\<lparr>op_prev := wb_tail st, op_next := None\<rparr>) in
      case wb_tail st of
        Some t \<Rightarrow> st\<lparr>wb_heap := h1(t := (h1 t)\<lparr>op_next := Some a\<rparr>), wb_tail := Some a\<rparr>
      | None \<Rightarrow> st\<lparr>wb_heap := h1, wb_head := Some a, wb_tail := Some a\<rparr>)"

definition vfdw_wbuf_append :: "addr \<Rightarrow> int \<Rightarrow> CommandId \<Rightarrow> wbuf \<Rightarrow> wbuf result" where
  "vfdw_wbuf_append a nest cid st0 =
     (let st = st0\<lparr>wb_heap := (wb_heap st0)(a := (wb_heap st0 a)\<lparr>op_level := nest, op_cid := cid\<rparr>)\<rparr> in
      if wb_nlive st + 1 > u_max_ops (wb_unit st) then op_cap_error
      else if over_byte_cap st then byte_cap_error
      else let st1 = wbuf_link_tail a st
           in Inr (st1\<lparr>wb_nlive := wb_nlive st1 + 1, wb_gen := wb_gen st1 + 1\<rparr>))"

section \<open>Subtransactions\<close>

definition vfdw_wbuf_unlink_tail :: "wbuf \<Rightarrow> wbuf" where
  "vfdw_wbuf_unlink_tail st =
     (case wb_tail st of
        None \<Rightarrow> st
      | Some a \<Rightarrow>
          let p = op_prev (wb_heap st a);
              st1 = (case p of
                       Some q \<Rightarrow> st\<lparr>wb_tail := p,
                                   wb_heap := (wb_heap st)(q := (wb_heap st q)\<lparr>op_next := None\<rparr>)\<rparr>
                     | None \<Rightarrow> st\<lparr>wb_tail := p, wb_head := None\<rparr>)
          in st1\<lparr>wb_heap := (wb_heap st1)(a := (wb_heap st1 a)\<lparr>op_prev := None, op_next := None\<rparr>),
                 wb_nlive := wb_nlive st1 - 1\<rparr>)"

definition vfdw_wbuf_rebind_after_truncate :: "int \<Rightarrow> wbuf \<Rightarrow> wbuf" where
  "vfdw_wbuf_rebind_after_truncate curlevel st =
     (if wb_nlive st = 0 \<and> u_level (wb_unit st) \<ge> curlevel
      then st\<lparr>wb_unit := (wb_unit st)\<lparr>u_bound := False\<rparr>\<rparr> else st)"

text \<open>
  The while loop of the ABORT_SUB arm. The first argument bounds the iterations; the loop is
  started with the number of live operations, and \<open>truncate_stops\<close> shows that it always ends
  by its own guard.
\<close>

fun wbuf_truncate :: "nat \<Rightarrow> int \<Rightarrow> wbuf \<Rightarrow> bool \<Rightarrow> wbuf \<times> bool" where
  "wbuf_truncate 0 curlevel st dropped = (st, dropped)"
| "wbuf_truncate (Suc n) curlevel st dropped =
     (case wb_tail st of
        None \<Rightarrow> (st, dropped)
      | Some a \<Rightarrow>
          if op_level (wb_heap st a) \<ge> curlevel
          then wbuf_truncate n curlevel (vfdw_wbuf_unlink_tail st) True
          else (st, dropped))"

text \<open>The buffer's part of \<open>SUBXACT_EVENT_ABORT_SUB\<close>, up to the rebuild of the derived state.\<close>

definition wbuf_abort_sub :: "int \<Rightarrow> wbuf \<Rightarrow> wbuf" where
  "wbuf_abort_sub curlevel st =
     (let (st1, dropped) = wbuf_truncate (nat (wb_nlive st)) curlevel st False;
          st2 = (if dropped then st1\<lparr>wb_gen := wb_gen st1 + 1, wb_shrink_gen := wb_shrink_gen st1 + 1\<rparr>
                 else st1)
      in vfdw_wbuf_rebind_after_truncate curlevel st2)"

text \<open>The for loop of the PRE_COMMIT_SUB arm, walking back from the tail.\<close>

fun wbuf_promote :: "nat \<Rightarrow> int \<Rightarrow> addr option \<Rightarrow> wbuf \<Rightarrow> wbuf" where
  "wbuf_promote 0 curlevel p st = st"
| "wbuf_promote (Suc n) curlevel p st =
     (case p of
        None \<Rightarrow> st
      | Some a \<Rightarrow>
          if op_level (wb_heap st a) \<ge> curlevel
          then wbuf_promote n curlevel (op_prev (wb_heap st a))
                 (st\<lparr>wb_heap := (wb_heap st)(a := (wb_heap st a)\<lparr>op_level := curlevel - 1\<rparr>)\<rparr>)
          else st)"

definition wbuf_pre_commit_sub :: "int \<Rightarrow> wbuf \<Rightarrow> wbuf" where
  "wbuf_pre_commit_sub curlevel st =
     (let st1 = wbuf_promote (nat (wb_nlive st)) curlevel (wb_tail st) st; u = wb_unit st1 in
      if u_bound u \<and> u_level u \<ge> curlevel
      then st1\<lparr>wb_unit := u\<lparr>u_level := curlevel - 1\<rparr>\<rparr> else st1)"

section \<open>Reset and diagnostics\<close>

text \<open>
  The buffer's part of \<open>vfdw_wbuf_reset\<close>. Resetting the context makes every address in it dead;
  no list reaches one any more, so the store is left as it is. \<open>initial\<close> is what the context
  still holds after \<open>MemoryContextReset\<close>.
\<close>

definition wbuf_reset :: "nat \<Rightarrow> wbuf \<Rightarrow> wbuf" where
  "wbuf_reset initial st =
     (let st1 = st\<lparr>wb_head := None, wb_tail := None, wb_nlive := 0,
                   wb_unit := (wb_unit st)\<lparr>u_bound := False, u_level := 0\<rparr>,
                   wb_gen := wb_gen st + 1, wb_shrink_gen := wb_shrink_gen st + 1\<rparr>
      in if wb_cxt st1 then st1\<lparr>wb_allocated := initial, wb_baseline := initial\<rparr> else st1)"

definition vfdw_wbuf_is_empty :: "wbuf \<Rightarrow> bool" where
  "vfdw_wbuf_is_empty st \<longleftrightarrow> wb_nlive st = 0"

text \<open>
  \<open>for (op = first; op != NULL; op = op->next)\<close>: the operations such a loop visits, bounded by the
  first argument.
\<close>

fun wbuf_walk :: "nat \<Rightarrow> (addr \<Rightarrow> VfdwWriteOp) \<Rightarrow> addr option \<Rightarrow> VfdwWriteOp list" where
  "wbuf_walk 0 h p = []"
| "wbuf_walk (Suc n) h p =
     (case p of None \<Rightarrow> [] | Some a \<Rightarrow> h a # wbuf_walk n h (op_next (h a)))"

definition payload :: "VfdwWriteOp \<Rightarrow> VfdwWriteOp" where
  "payload oper = oper\<lparr>op_prev := None, op_next := None\<rparr>"

definition wbuf_log :: "wbuf \<Rightarrow> VfdwWriteOp list" where
  "wbuf_log st = map payload (wbuf_walk (nat (wb_nlive st)) (wb_heap st) (wb_head st))"

text \<open>
  What a modify callback does with the buffer: allocate an operation, fill it in (which charges
  \<open>rendered\<close> bytes to the context), and append it.
\<close>

definition wbuf_push ::
  "nat \<Rightarrow> nat \<Rightarrow> VfdwWriteOp \<Rightarrow> int \<Rightarrow> CommandId \<Rightarrow> wbuf \<Rightarrow> wbuf result" where
  "wbuf_push grow rendered oper nest cid st =
     result_bind (vfdw_wbuf_op_new grow st)
       (\<lambda>(a, st1). vfdw_wbuf_append a nest cid
          (st1\<lparr>wb_heap := (wb_heap st1)(a := oper), wb_allocated := wb_allocated st1 + rendered\<rparr>))"

section \<open>The linked list and its abstraction\<close>

text \<open>
  \<open>linked h p as n\<close>: the operations at \<open>as\<close> are chained in order, the first one's \<open>prev\<close> is
  \<open>p\<close> and the last one's \<open>next\<close> is \<open>n\<close>.
\<close>

fun linked :: "(addr \<Rightarrow> VfdwWriteOp) \<Rightarrow> addr option \<Rightarrow> addr list \<Rightarrow> addr option \<Rightarrow> bool" where
  "linked h p [] n \<longleftrightarrow> True"
| "linked h p (a # as) n \<longleftrightarrow>
     op_prev (h a) = p \<and> op_next (h a) = (case as of [] \<Rightarrow> n | b # _ \<Rightarrow> Some b) \<and>
     linked h (Some a) as n"

definition first_of :: "addr list \<Rightarrow> addr option" where
  "first_of as = (case as of [] \<Rightarrow> None | a # _ \<Rightarrow> Some a)"

definition last_of :: "addr option \<Rightarrow> addr list \<Rightarrow> addr option" where
  "last_of p as = (if as = [] then p else Some (last as))"

lemma first_of_simps [simp]: "first_of [] = None" "first_of (a # as) = Some a"
  by (simp_all add: first_of_def)

lemma last_of_simps [simp]:
  "last_of p [] = p" "last_of p (as @ [a]) = Some a" "last_of p (a # as) = last_of (Some a) as"
  by (simp_all add: last_of_def)

lemma last_of_None_iff [simp]: "last_of None as = None \<longleftrightarrow> as = []"
  by (simp add: last_of_def)

lemma last_of_SomeD: "last_of None as = Some t \<Longrightarrow> \<exists>bs. as = bs @ [t]"
  by (cases as rule: rev_cases) auto

lemma linked_snoc:
  "linked h p (as @ [a]) n \<longleftrightarrow>
     linked h p as (Some a) \<and> op_prev (h a) = last_of p as \<and> op_next (h a) = n"
proof (induction as arbitrary: p)
  case (Cons b bs)
  then show ?case by (cases bs) auto
qed simp

lemma linked_cong:
  "(\<And>a. a \<in> set as \<Longrightarrow> op_prev (h a) = op_prev (g a) \<and> op_next (h a) = op_next (g a)) \<Longrightarrow>
     linked h p as n = linked g p as n"
  by (induction as arbitrary: p) (auto split: list.splits)

lemma linked_fresh [simp]: "a \<notin> set as \<Longrightarrow> linked (h(a := x)) p as n = linked h p as n"
  by (rule linked_cong) auto

lemma linked_set_next:
  "linked h p as n \<Longrightarrow> distinct as \<Longrightarrow> last_of None as = Some t \<Longrightarrow>
     linked (h(t := (h t)\<lparr>op_next := n'\<rparr>)) p as n'"
  by (cases as rule: rev_cases) (auto simp: linked_snoc)

lemma walk_linked:
  "linked h p as None \<Longrightarrow> wbuf_walk (length as) h (first_of as) = map h as"
proof (induction as arbitrary: p)
  case (Cons a as)
  then show ?case by (cases as) auto
qed simp

text \<open>The buffer represents the operations at the addresses \<open>as\<close>, oldest first.\<close>

definition wbuf_rel :: "wbuf \<Rightarrow> addr list \<Rightarrow> bool" where
  "wbuf_rel st as \<longleftrightarrow>
     distinct as \<and> (\<forall>a \<in> set as. a < wb_brk st) \<and> wb_nlive st = int (length as) \<and>
     wb_head st = first_of as \<and> wb_tail st = last_of None as \<and>
     linked (wb_heap st) None as None"

definition levels_sorted :: "wbuf \<Rightarrow> addr list \<Rightarrow> bool" where
  "levels_sorted st as \<longleftrightarrow> sorted (map (\<lambda>a. op_level (wb_heap st a)) as)"

lemma log_of_rel: "wbuf_rel st as \<Longrightarrow> wbuf_log st = map (payload \<circ> wb_heap st) as"
  by (auto simp: wbuf_rel_def wbuf_log_def walk_linked)

lemma payload_simps [simp]:
  "payload (op\<lparr>op_prev := p\<rparr>) = payload op" "payload (op\<lparr>op_next := p\<rparr>) = payload op"
  "op_level (payload op) = op_level op" "payload (payload op) = payload op"
  by (simp_all add: payload_def)

lemma map_eq_snocD: "map f xs = ys @ [y] \<Longrightarrow> \<exists>zs z. xs = zs @ [z] \<and> map f zs = ys \<and> f z = y"
  by (cases xs rule: rev_cases) auto

subsection \<open>Append\<close>

lemma link_tail_linked:
  assumes "linked h None as None" "distinct as" "a \<notin> set as" "last_of None as = Some t"
    and h1: "h1 = h(a := (h a)\<lparr>op_prev := Some t, op_next := None\<rparr>)"
  shows "linked (h1(t := (h1 t)\<lparr>op_next := Some a\<rparr>)) None (as @ [a]) None"
proof -
  have t: "t \<in> set as" using last_of_SomeD [OF assms(4)] by auto
  have "linked h1 None as None" using assms by simp
  then have "linked (h1(t := (h1 t)\<lparr>op_next := Some a\<rparr>)) None as (Some a)"
    using assms(2,4) by (rule linked_set_next)
  then show ?thesis using assms(3,4) t by (auto simp: linked_snoc h1)
qed

lemma link_tail_fields:
  "wb_tail (wbuf_link_tail a st) = Some a"
  "wb_head (wbuf_link_tail a st) = (if wb_tail st = None then Some a else wb_head st)"
  by (simp_all add: wbuf_link_tail_def Let_def split: option.splits)

lemma first_of_append: "first_of (as @ [a]) = (if as = [] then Some a else first_of as)"
  by (cases as) simp_all

lemma link_tail_rel:
  assumes rel: "wbuf_rel st as" and a: "a \<notin> set as"
  shows "linked (wb_heap (wbuf_link_tail a st)) None (as @ [a]) None"
proof (cases "last_of None as")
  case None
  then have "as = []" by simp
  then show ?thesis using rel by (simp add: wbuf_rel_def wbuf_link_tail_def Let_def)
next
  case (Some t)
  have "linked (wb_heap st) None as None" "distinct as" "wb_tail st = Some t"
    using rel Some by (simp_all add: wbuf_rel_def)
  from link_tail_linked [OF this(1,2) a Some refl] this(3)
  show ?thesis by (simp add: wbuf_link_tail_def Let_def)
qed

lemma link_tail_other:
  "wb_tail st \<noteq> Some a \<Longrightarrow> payload (wb_heap (wbuf_link_tail a st) b) = payload (wb_heap st b)"
  by (auto simp: wbuf_link_tail_def Let_def split: option.splits)

lemma link_tail_frame [simp]:
  "wb_brk (wbuf_link_tail a st) = wb_brk st" "wb_nlive (wbuf_link_tail a st) = wb_nlive st"
  "wb_gen (wbuf_link_tail a st) = wb_gen st" "wb_unit (wbuf_link_tail a st) = wb_unit st"
  "wb_shrink_gen (wbuf_link_tail a st) = wb_shrink_gen st"
  "wb_cxt (wbuf_link_tail a st) = wb_cxt st"
  "wb_allocated (wbuf_link_tail a st) = wb_allocated st"
  "wb_baseline (wbuf_link_tail a st) = wb_baseline st"
  by (simp_all add: wbuf_link_tail_def Let_def split: option.splits)

lemma rel_heap_cong:
  assumes "wbuf_rel st as"
    and "\<And>a. a \<in> set as \<Longrightarrow> op_prev (h a) = op_prev (wb_heap st a) \<and> op_next (h a) = op_next (wb_heap st a)"
    and "brk \<ge> wb_brk st"
  shows "wbuf_rel (st\<lparr>wb_heap := h, wb_brk := brk\<rparr>) as"
proof -
  have "linked h None as None = linked (wb_heap st) None as None"
    using assms(2) by (rule linked_cong)
  then show ?thesis using assms by (fastforce simp: wbuf_rel_def)
qed

lemma rel_frame:
  "wbuf_rel st as \<Longrightarrow> wb_heap st' = wb_heap st \<Longrightarrow> wb_brk st' = wb_brk st \<Longrightarrow>
   wb_nlive st' = wb_nlive st \<Longrightarrow> wb_head st' = wb_head st \<Longrightarrow> wb_tail st' = wb_tail st \<Longrightarrow>
   wbuf_rel st' as"
  by (simp add: wbuf_rel_def)

lemma append_rel:
  assumes rel: "wbuf_rel st as" and a: "a \<notin> set as" "a < wb_brk st"
    and ok: "vfdw_wbuf_append a nest cid st = Inr st'"
  shows "wbuf_rel st' (as @ [a])"
    and "\<forall>b \<in> set as. payload (wb_heap st' b) = payload (wb_heap st b)"
    and "payload (wb_heap st' a) = payload ((wb_heap st a)\<lparr>op_level := nest, op_cid := cid\<rparr>)"
    and "wb_unit st' = wb_unit st"
proof -
  let ?h = "(wb_heap st)(a := (wb_heap st a)\<lparr>op_level := nest, op_cid := cid\<rparr>)"
  let ?st1 = "st\<lparr>wb_heap := ?h\<rparr>"
  have rel1: "wbuf_rel ?st1 as"
    using rel_heap_cong [OF rel, of ?h "wb_brk st"] a by simp
  have st': "st' = (wbuf_link_tail a ?st1)\<lparr>wb_nlive := wb_nlive st + 1, wb_gen := wb_gen st + 1\<rparr>"
    using ok by (auto simp: vfdw_wbuf_append_def Let_def split: if_splits)
  have tail: "wb_tail ?st1 = last_of None as" using rel by (simp add: wbuf_rel_def)
  have tail_a: "wb_tail ?st1 \<noteq> Some a" unfolding tail using a(1) last_of_SomeD by fastforce
  have "linked (wb_heap (wbuf_link_tail a ?st1)) None (as @ [a]) None"
    using rel1 a(1) by (rule link_tail_rel)
  then show "wbuf_rel st' (as @ [a])"
    using rel a by (auto simp: wbuf_rel_def st' link_tail_fields first_of_append)
  show "\<forall>b \<in> set as. payload (wb_heap st' b) = payload (wb_heap st b)"
    using a(1) link_tail_other [OF tail_a] by (auto simp: st')
  show "payload (wb_heap st' a) = payload ((wb_heap st a)\<lparr>op_level := nest, op_cid := cid\<rparr>)"
    using link_tail_other [OF tail_a] by (simp add: st')
  show "wb_unit st' = wb_unit st" by (simp add: st')
qed

lemma payload_level: "payload x = payload y \<Longrightarrow> op_level x = op_level y"
  by (metis payload_simps(3))

lemma push_rel:
  assumes rel: "wbuf_rel st as" and ok: "wbuf_push grow rendered oper nest cid st = Inr st'"
  shows "wbuf_rel st' (as @ [wb_brk st])"
    and "\<And>b. b \<in> set as \<Longrightarrow> payload (wb_heap st' b) = payload (wb_heap st b)"
    and "payload (wb_heap st' (wb_brk st)) = payload (oper\<lparr>op_level := nest, op_cid := cid\<rparr>)"
    and "wb_unit st' = wb_unit st"
proof -
  let ?a = "wb_brk st"
  let ?st1 = "st\<lparr>wb_brk := ?a + 1, wb_heap := (wb_heap st)(?a := oper),
               wb_allocated := wb_allocated st + grow + rendered\<rparr>"
  have app: "vfdw_wbuf_append ?a nest cid ?st1 = Inr st'"
    using ok by (auto simp: wbuf_push_def vfdw_wbuf_op_new_def result_bind_Inr_iff split: if_splits)
  have fresh: "?a \<notin> set as" using rel by (auto simp: wbuf_rel_def)
  have "wbuf_rel (st\<lparr>wb_heap := (wb_heap st)(?a := oper), wb_brk := ?a + 1\<rparr>) as"
    using rel fresh by (intro rel_heap_cong) auto
  then have rel1: "wbuf_rel ?st1 as" by (rule rel_frame) simp_all
  note app' = append_rel [OF rel1 fresh _ app]
  show "wbuf_rel st' (as @ [?a])" using app'(1) by simp
  show "payload (wb_heap st' b) = payload (wb_heap st b)" if "b \<in> set as" for b
    using app'(2) that fresh by auto
  show "payload (wb_heap st' ?a) = payload (oper\<lparr>op_level := nest, op_cid := cid\<rparr>)"
    using app'(3) by simp
  show "wb_unit st' = wb_unit st" using app'(4) by simp
qed

subsection \<open>Truncation\<close>

lemma unlink_tail_rel:
  assumes rel: "wbuf_rel st (as @ [a])"
  shows "wbuf_rel (vfdw_wbuf_unlink_tail st) as"
    and "payload (wb_heap (vfdw_wbuf_unlink_tail st) b) = payload (wb_heap st b)"
    and "wb_unit (vfdw_wbuf_unlink_tail st) = wb_unit st"
    and "wb_gen (vfdw_wbuf_unlink_tail st) = wb_gen st"
    and "wb_shrink_gen (vfdw_wbuf_unlink_tail st) = wb_shrink_gen st"
proof -
  have tail: "wb_tail st = Some a" and lk: "linked (wb_heap st) None as (Some a)"
    and prev: "op_prev (wb_heap st a) = last_of None as" and d: "distinct as" "a \<notin> set as"
    and n: "wb_nlive st = int (length as) + 1" and lt: "\<forall>x \<in> set as. x < wb_brk st"
    and hd: "wb_head st = first_of (as @ [a])"
    using rel by (auto simp: wbuf_rel_def linked_snoc)
  have "wbuf_rel (vfdw_wbuf_unlink_tail st) as"
  proof (cases "last_of None as")
    case None
    then show ?thesis using tail prev n by (simp add: vfdw_wbuf_unlink_tail_def wbuf_rel_def)
  next
    case (Some q)
    have "linked ((wb_heap st)(q := (wb_heap st q)\<lparr>op_next := None\<rparr>)) None as None"
      using lk d(1) Some by (rule linked_set_next)
    moreover have "as \<noteq> []" using Some by auto
    ultimately show ?thesis using tail prev n d lt hd Some
      by (simp add: vfdw_wbuf_unlink_tail_def wbuf_rel_def first_of_append)
  qed
  then show "wbuf_rel (vfdw_wbuf_unlink_tail st) as" .
qed (auto simp: vfdw_wbuf_unlink_tail_def Let_def split: option.splits)

lemma sorted_snoc_take:
  "sorted (map f (as @ [a])) \<Longrightarrow> \<not> f a \<ge> (c :: int) \<Longrightarrow> takeWhile (\<lambda>x. f x < c) (as @ [a]) = as @ [a]"
  by (subst takeWhile_eq_all_conv) (auto simp: sorted_append)

lemma truncate_spec:
  assumes "wbuf_rel st as" and "levels_sorted st as" and "length as \<le> n"
    and "wbuf_truncate n curlevel st d = (st', d')"
  shows "wbuf_rel st' (takeWhile (\<lambda>a. op_level (wb_heap st a) < curlevel) as) \<and>
         (\<forall>a. payload (wb_heap st' a) = payload (wb_heap st a)) \<and>
         wb_unit st' = wb_unit st \<and> wb_gen st' = wb_gen st \<and> wb_shrink_gen st' = wb_shrink_gen st \<and>
         (d' \<longleftrightarrow> d \<or> (\<exists>a \<in> set as. op_level (wb_heap st a) \<ge> curlevel))"
  using assms
proof (induction n arbitrary: st as d)
  case 0
  then show ?case by simp
next
  case (Suc n)
  show ?case
  proof (cases as rule: rev_cases)
    case Nil
    then show ?thesis using Suc.prems by (simp add: wbuf_rel_def)
  next
    case (snoc bs t)
    have tail: "wb_tail st = Some t" using Suc.prems(1) snoc by (simp add: wbuf_rel_def)
    show ?thesis
    proof (cases "op_level (wb_heap st t) \<ge> curlevel")
      case False
      then have tw: "takeWhile (\<lambda>a. op_level (wb_heap st a) < curlevel) as = as"
        using Suc.prems(2) snoc by (simp add: levels_sorted_def sorted_snoc_take del: map_append)
      have none: "\<not> (\<exists>a \<in> set as. op_level (wb_heap st a) \<ge> curlevel)"
        using False Suc.prems(2) snoc by (fastforce simp: levels_sorted_def sorted_append)
      have eq: "st' = st" "d' = d" using Suc.prems(4) tail False by simp_all
      show ?thesis unfolding eq tw using Suc.prems(1) none by blast
    next
      case True
      let ?u = "vfdw_wbuf_unlink_tail st"
      note u = unlink_tail_rel [of st bs t, folded snoc, OF Suc.prems(1)]
      have lvl: "op_level (wb_heap ?u a) = op_level (wb_heap st a)" for a
        using u(2) by (rule payload_level)
      have "levels_sorted ?u bs" using Suc.prems(2) snoc
        by (simp add: levels_sorted_def lvl sorted_append)
      from Suc.IH [OF u(1) this] Suc.prems(3,4) True tail snoc
      show ?thesis by (auto simp: lvl u takeWhile_append2 takeWhile_tail)
    qed
  qed
qed

text \<open>The loop ends by its own guard: the bound it is started with is never what stops it.\<close>

lemma truncate_stops:
  assumes "wbuf_rel st as" and "levels_sorted st as"
    and "wbuf_truncate (nat (wb_nlive st)) curlevel st d = (st', d')"
  shows "wb_tail st' = None \<or> (\<exists>a. wb_tail st' = Some a \<and> op_level (wb_heap st' a) < curlevel)"
proof -
  let ?bs = "takeWhile (\<lambda>a. op_level (wb_heap st a) < curlevel) as"
  have n: "nat (wb_nlive st) = length as" using assms(1) by (simp add: wbuf_rel_def)
  have rel: "wbuf_rel st' ?bs" and pay: "\<forall>a. payload (wb_heap st' a) = payload (wb_heap st a)"
    using truncate_spec [OF assms(1,2) _ assms(3)] n by auto
  show ?thesis
  proof (cases ?bs rule: rev_cases)
    case Nil
    then show ?thesis using rel by (simp add: wbuf_rel_def)
  next
    case (snoc bs a)
    have "a \<in> set ?bs" by (simp add: snoc)
    then have "op_level (wb_heap st a) < curlevel" by (rule set_takeWhileD [THEN conjunct2])
    moreover have "op_level (wb_heap st' a) = op_level (wb_heap st a)"
      using pay by (intro payload_level) simp
    moreover have "wb_tail st' = Some a" using rel unfolding snoc by (simp add: wbuf_rel_def)
    ultimately show ?thesis by simp
  qed
qed

lemma takeWhile_filter_sorted:
  "sorted (map f xs) \<Longrightarrow> takeWhile (\<lambda>x. f x < (c :: int)) xs = filter (\<lambda>x. f x < c) xs"
proof (induction xs)
  case (Cons x xs)
  then show ?case
  proof (cases "f x < c")
    case False
    then have "\<forall>y \<in> set xs. \<not> f y < c" using Cons.prems by fastforce
    with False show ?thesis by simp
  qed simp
qed simp

subsection \<open>Promotion\<close>

lemma promote_spec:
  "linked (wb_heap st) None as n \<Longrightarrow> distinct as \<Longrightarrow> levels_sorted st as \<Longrightarrow> length as \<le> fuel \<Longrightarrow>
   wbuf_promote fuel curlevel (last_of None as) st =
     st\<lparr>wb_heap := (\<lambda>a. if a \<in> set as \<and> op_level (wb_heap st a) \<ge> curlevel
                       then (wb_heap st a)\<lparr>op_level := curlevel - 1\<rparr> else wb_heap st a)\<rparr>"
proof (induction as arbitrary: st n fuel rule: rev_induct)
  case Nil
  then show ?case by (cases fuel) simp_all
next
  case (snoc a as)
  then obtain m where m: "fuel = Suc m" "length as \<le> m" by (cases fuel) auto
  let ?h = "(wb_heap st)(a := (wb_heap st a)\<lparr>op_level := curlevel - 1\<rparr>)"
  let ?st = "st\<lparr>wb_heap := ?h\<rparr>"
  have a: "a \<notin> set as" "distinct as" using snoc.prems(2) by auto
  have prev: "op_prev (wb_heap st a) = last_of None as" and lk: "linked (wb_heap st) None as (Some a)"
    using snoc.prems(1) by (auto simp: linked_snoc)
  show ?case
  proof (cases "op_level (wb_heap st a) \<ge> curlevel")
    case False
    then have none: "\<not> (x \<in> set (as @ [a]) \<and> op_level (wb_heap st x) \<ge> curlevel)" for x
      using snoc.prems(3) by (fastforce simp: levels_sorted_def sorted_append)
    have "(\<lambda>x. if x \<in> set (as @ [a]) \<and> op_level (wb_heap st x) \<ge> curlevel
               then (wb_heap st x)\<lparr>op_level := curlevel - 1\<rparr> else wb_heap st x) = wb_heap st"
      by (simp only: none if_False)
    then show ?thesis using False m by (simp only: last_of_simps) simp
  next
    case True
    have eqm: "map (\<lambda>b. op_level (?h b)) as = map (\<lambda>b. op_level (wb_heap st b)) as"
      using a(1) by auto
    have hs: "wb_heap ?st = ?h" by simp
    have ls: "levels_sorted ?st as"
      using snoc.prems(3) eqm by (simp add: levels_sorted_def sorted_append del: map_eq_conv)
    have "linked (wb_heap ?st) None as (Some a)"
      unfolding hs using lk a(1) by (subst linked_fresh)
    from snoc.IH [OF this a(2) ls m(2)]
    have "wbuf_promote m curlevel (last_of None as) ?st =
      ?st\<lparr>wb_heap := (\<lambda>b. if b \<in> set as \<and> op_level (?h b) \<ge> curlevel
                       then (?h b)\<lparr>op_level := curlevel - 1\<rparr> else ?h b)\<rparr>"
      by (simp only: hs)
    moreover have "(\<lambda>b. if b \<in> set as \<and> op_level (?h b) \<ge> curlevel
                       then (?h b)\<lparr>op_level := curlevel - 1\<rparr> else ?h b)
      = (\<lambda>b. if b \<in> set (as @ [a]) \<and> op_level (wb_heap st b) \<ge> curlevel
             then (wb_heap st b)\<lparr>op_level := curlevel - 1\<rparr> else wb_heap st b)"
      using True a(1) by (auto simp: fun_eq_iff)
    ultimately show ?thesis using True m(1) prev by simp
  qed
qed

section \<open>The log contract\<close>

text \<open>
  The invariant of a buffer used at nest level \<open>lvl\<close>: it represents some chain of addresses, levels
  along the chain do not decrease, and none exceeds the current nest level.
\<close>

definition wbuf_inv :: "int \<Rightarrow> wbuf \<Rightarrow> bool" where
  "wbuf_inv lvl st \<longleftrightarrow>
     (\<exists>as. wbuf_rel st as \<and> levels_sorted st as \<and> (\<forall>a \<in> set as. op_level (wb_heap st a) \<le> lvl))"

text \<open>
  What the clients of the buffer (the ledger, the overlay and the flush) rely on: an append adds
  one operation stamped with the level and the command, an aborted subtransaction removes exactly
  the operations of its level or deeper, a committed one hands its operations to the parent.
\<close>

type_synonym pending_write = "nat \<times> nat \<times> VfdwWriteOp \<times> CommandId"

text \<open>A run of appends inside one (sub)transaction, stopping at the first error.\<close>

definition push_seq ::
  "(nat \<Rightarrow> nat \<Rightarrow> VfdwWriteOp \<Rightarrow> int \<Rightarrow> CommandId \<Rightarrow> 's \<Rightarrow> 's result) \<Rightarrow>
   int \<Rightarrow> pending_write list \<Rightarrow> 's \<Rightarrow> 's result" where
  "push_seq push lvl = result_fold (\<lambda>(g, r, oper, cid). push g r oper lvl cid)"

definition stamped :: "int \<Rightarrow> pending_write \<Rightarrow> VfdwWriteOp" where
  "stamped lvl = (\<lambda>(g, r, oper, cid). payload (oper\<lparr>op_level := lvl, op_cid := cid\<rparr>))"

locale write_log =
  fixes inv :: "int \<Rightarrow> 's \<Rightarrow> bool"
    and log :: "'s \<Rightarrow> VfdwWriteOp list"
    and push :: "nat \<Rightarrow> nat \<Rightarrow> VfdwWriteOp \<Rightarrow> int \<Rightarrow> CommandId \<Rightarrow> 's \<Rightarrow> 's result"
    and abort_sub :: "int \<Rightarrow> 's \<Rightarrow> 's"
    and pre_commit_sub :: "int \<Rightarrow> 's \<Rightarrow> 's"
    and is_empty :: "'s \<Rightarrow> bool"
  assumes push_inv: "inv lvl st \<Longrightarrow> push g r oper lvl cid st = Inr st' \<Longrightarrow> inv lvl st'"
    and push_log: "inv lvl st \<Longrightarrow> push g r oper lvl cid st = Inr st' \<Longrightarrow>
          log st' = log st @ [payload (oper\<lparr>op_level := lvl, op_cid := cid\<rparr>)]"
    and deeper: "inv lvl st \<Longrightarrow> lvl \<le> lvl' \<Longrightarrow> inv lvl' st"
    and abort_inv: "inv lvl st \<Longrightarrow> inv (lvl - 1) (abort_sub lvl st)"
    and abort_log: "inv lvl st \<Longrightarrow> log (abort_sub lvl st) = filter (\<lambda>oper. op_level oper < lvl) (log st)"
    and commit_inv: "inv lvl st \<Longrightarrow> inv (lvl - 1) (pre_commit_sub lvl st)"
    and commit_log: "inv lvl st \<Longrightarrow> log (pre_commit_sub lvl st) =
          map (\<lambda>oper. oper\<lparr>op_level := min (op_level oper) (lvl - 1)\<rparr>) (log st)"
    and levels: "inv lvl st \<Longrightarrow> oper \<in> set (log st) \<Longrightarrow> op_level oper \<le> lvl"
    and empty_log: "inv lvl st \<Longrightarrow> is_empty st \<longleftrightarrow> log st = []"
begin

lemma push_seq_log:
  "inv lvl st \<Longrightarrow> push_seq push lvl xs st = Inr st' \<Longrightarrow>
     inv lvl st' \<and>
     log st' = log st @ map (stamped lvl) xs"
proof (induction xs arbitrary: st)
  case Nil
  then show ?case by (simp add: push_seq_def)
next
  case (Cons x xs)
  obtain g r oper cid where x: "x = (g, r, oper, cid)" by (cases x)
  from Cons.prems(2) obtain u where u: "push g r oper lvl cid st = Inr u" "push_seq push lvl xs u = Inr st'"
    by (auto simp: push_seq_def x result_bind_Inr_iff)
  show ?case
    using Cons.IH [OF push_inv [OF Cons.prems(1) u(1)] u(2)] push_log [OF Cons.prems(1) u(1)] x
    by (simp add: stamped_def)
qed

lemma rollback_restores:
  assumes "inv lvl st" and "push_seq push (lvl + 1) xs st = Inr st'"
  shows "log (abort_sub (lvl + 1) st') = log st" "inv lvl (abort_sub (lvl + 1) st')"
proof -
  have i: "inv (lvl + 1) st" using assms(1) by (rule deeper) simp
  note p = push_seq_log [OF i assms(2)]
  have "filter (\<lambda>oper. op_level oper < lvl + 1) (log st) = log st"
    using levels [OF assms(1)] by (auto simp: filter_id_conv)
  then show "log (abort_sub (lvl + 1) st') = log st"
    using abort_log [of "lvl + 1" st'] p by (auto simp: filter_map comp_def case_prod_unfold stamped_def)
  show "inv lvl (abort_sub (lvl + 1) st')" using abort_inv [of "lvl + 1" st'] p by simp
qed

lemma release_hands_to_parent:
  assumes "inv lvl st" and "push_seq push (lvl + 1) xs st = Inr st'"
  shows "log (pre_commit_sub (lvl + 1) st') =
           log st @ map (stamped lvl) xs"
proof -
  have i: "inv (lvl + 1) st" using assms(1) by (rule deeper) simp
  note p = push_seq_log [OF i assms(2)]
  have "map (\<lambda>oper. oper\<lparr>op_level := min (op_level oper) lvl\<rparr>) (log st) = log st"
    using levels [OF assms(1)] by (auto intro!: map_idI simp: min_absorb1)
  then show ?thesis using commit_log [of "lvl + 1" st'] p
    by (auto simp: payload_def stamped_def)
qed

end

section \<open>The buffer implements the contract\<close>

lemma levels_of_log: "wbuf_rel st as \<Longrightarrow> map op_level (wbuf_log st) = map (\<lambda>a. op_level (wb_heap st a)) as"
  by (simp add: log_of_rel comp_def)

lemma rel_of_payload:
  assumes "\<And>a. a \<in> set as \<Longrightarrow> payload (wb_heap st' a) = payload (wb_heap st a)"
  shows "map (payload \<circ> wb_heap st') as = map (payload \<circ> wb_heap st) as"
    and "map (\<lambda>a. op_level (wb_heap st' a)) as = map (\<lambda>a. op_level (wb_heap st a)) as"
  using assms by (auto intro: payload_level)

lemma wbuf_push_inv_log:
  assumes "wbuf_inv lvl st" and ok: "wbuf_push g r oper lvl cid st = Inr st'"
  shows "wbuf_inv lvl st' \<and>
         wbuf_log st' = wbuf_log st @ [payload (oper\<lparr>op_level := lvl, op_cid := cid\<rparr>)]"
proof -
  from assms(1) obtain as where rel: "wbuf_rel st as" and srt: "levels_sorted st as"
    and le: "\<forall>a \<in> set as. op_level (wb_heap st a) \<le> lvl" by (auto simp: wbuf_inv_def)
  let ?a = "wb_brk st"
  note rel' = push_rel(1) [OF rel ok] and old = push_rel(2) [OF rel ok]
    and new = push_rel(3) [OF rel ok]
  have newl: "op_level (wb_heap st' ?a) = lvl" using payload_level [OF new] by simp
  have oldl: "\<forall>b \<in> set as. op_level (wb_heap st' b) = op_level (wb_heap st b)"
    using old payload_level by blast
  have "levels_sorted st' (as @ [?a])"
    using srt le newl oldl
    by (simp add: levels_sorted_def sorted_append rel_of_payload(2) [of as st' st, OF old])
  then have "wbuf_inv lvl st'" unfolding wbuf_inv_def
    using rel' le newl oldl by (intro exI [of _ "as @ [?a]"]) auto
  then show ?thesis
    using rel_of_payload(1) [of as st' st, OF old] new
    by (simp add: log_of_rel [OF rel] log_of_rel [OF rel'] comp_def del: map_eq_conv)
qed

lemma wbuf_abort_inv_log:
  assumes "wbuf_inv lvl st"
  shows "wbuf_inv (lvl - 1) (wbuf_abort_sub lvl st) \<and>
         wbuf_log (wbuf_abort_sub lvl st) = filter (\<lambda>oper. op_level oper < lvl) (wbuf_log st)"
proof -
  from assms obtain as where rel: "wbuf_rel st as" and srt: "levels_sorted st as"
    by (auto simp: wbuf_inv_def)
  obtain st1 d where tr: "wbuf_truncate (nat (wb_nlive st)) lvl st False = (st1, d)" by force
  let ?bs = "takeWhile (\<lambda>a. op_level (wb_heap st a) < lvl) as"
  have n: "nat (wb_nlive st) = length as" using rel by (simp add: wbuf_rel_def)
  have rel1: "wbuf_rel st1 ?bs" and pay: "\<And>a. payload (wb_heap st1 a) = payload (wb_heap st a)"
    using truncate_spec [OF rel srt _ tr] n by auto
  let ?r = "wbuf_abort_sub lvl st"
  have rel2: "wbuf_rel ?r ?bs" and hp: "wb_heap ?r = wb_heap st1"
    using rel1 by (auto simp: wbuf_abort_sub_def tr vfdw_wbuf_rebind_after_truncate_def wbuf_rel_def)
  have lv: "op_level (wb_heap ?r a) = op_level (wb_heap st a)" for a
    unfolding hp using pay by (rule payload_level)
  have bs: "?bs = filter (\<lambda>a. op_level (wb_heap st a) < lvl) as"
    using srt by (intro takeWhile_filter_sorted) (simp add: levels_sorted_def)
  have "levels_sorted ?r ?bs" using srt
    by (auto simp: levels_sorted_def lv bs sorted_wrt_map intro: sorted_wrt_filter)
  moreover have "\<forall>a \<in> set ?bs. op_level (wb_heap ?r a) \<le> lvl - 1"
    by (auto simp: lv dest: set_takeWhileD)
  moreover have "wbuf_log ?r = filter (\<lambda>oper. op_level oper < lvl) (wbuf_log st)"
    unfolding log_of_rel [OF rel2] log_of_rel [OF rel] hp bs
    by (simp add: filter_map comp_def pay)
  ultimately show ?thesis unfolding wbuf_inv_def using rel2 by blast
qed

lemma sorted_map_min: "sorted (map f as) \<Longrightarrow> sorted (map (\<lambda>a. min (f a) (c :: int)) as)"
  by (induction as) (auto simp: min_le_iff_disj)

lemma wbuf_commit_inv_log:
  assumes "wbuf_inv lvl st"
  shows "wbuf_inv (lvl - 1) (wbuf_pre_commit_sub lvl st) \<and>
         wbuf_log (wbuf_pre_commit_sub lvl st) =
           map (\<lambda>oper. oper\<lparr>op_level := min (op_level oper) (lvl - 1)\<rparr>) (wbuf_log st)"
proof -
  from assms obtain as where rel: "wbuf_rel st as" and srt: "levels_sorted st as"
    and le: "\<forall>a \<in> set as. op_level (wb_heap st a) \<le> lvl" by (auto simp: wbuf_inv_def)
  let ?h = "\<lambda>a. if a \<in> set as \<and> op_level (wb_heap st a) \<ge> lvl
                then (wb_heap st a)\<lparr>op_level := lvl - 1\<rparr> else wb_heap st a"
  let ?r = "wbuf_pre_commit_sub lvl st"
  have pr: "wbuf_promote (nat (wb_nlive st)) lvl (wb_tail st) st = st\<lparr>wb_heap := ?h\<rparr>"
    using rel promote_spec [of st as None "nat (wb_nlive st)" lvl] srt by (simp add: wbuf_rel_def)
  have "wbuf_rel (st\<lparr>wb_heap := ?h, wb_brk := wb_brk st\<rparr>) as"
    using rel by (rule rel_heap_cong) auto
  then have rel1: "wbuf_rel (st\<lparr>wb_heap := ?h\<rparr>) as" by (rule rel_frame) simp_all
  define u where "u = wb_unit ?r"
  have r: "?r = st\<lparr>wb_heap := ?h, wb_unit := u\<rparr>"
    by (simp add: u_def wbuf_pre_commit_sub_def pr Let_def)
  have rel2: "wbuf_rel ?r as" by (rule rel_frame [OF rel1]) (simp_all add: r)
  have hp: "wb_heap ?r = ?h" by (simp add: r)
  have lv: "op_level (wb_heap ?r a) = min (op_level (wb_heap st a)) (lvl - 1)" if "a \<in> set as" for a
    using that le by (auto simp: hp)
  have "sorted (map (\<lambda>a. min (op_level (wb_heap st a)) (lvl - 1)) as)"
    using srt sorted_map_min [of _ _ "lvl - 1"] by (simp add: levels_sorted_def)
  then have "levels_sorted ?r as"
    unfolding levels_sorted_def using lv by (simp cong: map_cong)
  moreover have "\<forall>a \<in> set as. op_level (wb_heap ?r a) \<le> lvl - 1"
    using lv by (metis min.cobounded2)
  moreover have "wbuf_log ?r = map (\<lambda>oper. oper\<lparr>op_level := min (op_level oper) (lvl - 1)\<rparr>) (wbuf_log st)"
    unfolding log_of_rel [OF rel2] log_of_rel [OF rel] hp using le
    by (auto simp: payload_def)
  ultimately show ?thesis unfolding wbuf_inv_def using rel2 by blast
qed

lemma wbuf_inv_log_le: "wbuf_inv lvl st \<Longrightarrow> oper \<in> set (wbuf_log st) \<Longrightarrow> op_level oper \<le> lvl"
  by (auto simp: wbuf_inv_def log_of_rel)

lemma wbuf_empty_log:
  assumes "wbuf_inv lvl st"
  shows "vfdw_wbuf_is_empty st \<longleftrightarrow> wbuf_log st = []"
proof -
  from assms obtain as where rel: "wbuf_rel st as" by (auto simp: wbuf_inv_def)
  then have "wb_nlive st = int (length as)" by (simp add: wbuf_rel_def)
  then show ?thesis by (simp add: vfdw_wbuf_is_empty_def log_of_rel [OF rel])
qed

interpretation wl: write_log wbuf_inv wbuf_log wbuf_push wbuf_abort_sub wbuf_pre_commit_sub
  vfdw_wbuf_is_empty
proof unfold_locales
  show "wbuf_inv lvl' st" if "wbuf_inv lvl st" "lvl \<le> lvl'" for lvl lvl' st
    using that by (force simp: wbuf_inv_def)
qed (simp_all add: wbuf_push_inv_log wbuf_abort_inv_log wbuf_commit_inv_log wbuf_inv_log_le
    wbuf_empty_log)

lemma wbuf_init_inv: "wbuf_inv lvl wbuf_init"
  by (auto simp: wbuf_inv_def wbuf_rel_def levels_sorted_def wbuf_init_def intro!: exI [of _ "[]"])

lemma wbuf_reset_inv_log: "wbuf_inv lvl (wbuf_reset n st) \<and> wbuf_log (wbuf_reset n st) = []"
  by (auto simp: wbuf_inv_def wbuf_rel_def levels_sorted_def wbuf_reset_def wbuf_log_def Let_def
      intro!: exI [of _ "[]"])

lemma wbuf_bind_inv_log:
  assumes "vfdw_wbuf_bind s um us db mo mb nest i st = Inr st'"
  shows "wbuf_log st' = wbuf_log st" "wbuf_inv lvl st' = wbuf_inv lvl st"
  using assms
  by (auto simp: vfdw_wbuf_bind_def vfdw_wbuf_context_def Let_def wbuf_log_def wbuf_inv_def
      wbuf_rel_def levels_sorted_def split: if_splits)

section \<open>The caps\<close>

lemma push_frame:
  assumes "wbuf_push g r oper nest cid st = Inr st'"
  shows "wb_unit st' = wb_unit st" "wb_nlive st' = wb_nlive st + 1" "u_bound (wb_unit st)"
    "wb_nlive st + 1 \<le> u_max_ops (wb_unit st)" "\<not> over_byte_cap st'"
    "wb_cxt st' = wb_cxt st" "wb_shrink_gen st' = wb_shrink_gen st" "wb_gen st' = wb_gen st + 1"
  using assms
  by (auto simp: wbuf_push_def vfdw_wbuf_op_new_def vfdw_wbuf_append_def Let_def over_byte_cap_def
      vfdw_wbuf_alloc_bytes_internal_def split: if_splits)

lemma inv_nlive: "wbuf_inv lvl st \<Longrightarrow> wb_nlive st = int (length (wbuf_log st))"
  by (auto simp: wbuf_inv_def log_of_rel wbuf_rel_def)

lemma bind_unit:
  assumes "vfdw_wbuf_bind s um us db mo mb nest i st = Inr st'"
  shows "u_bound (wb_unit st')" "u_serverid (wb_unit st') = s" "u_umid (wb_unit st') = um"
    "u_database (wb_unit st') = db" "u_bound (wb_unit st) \<Longrightarrow> wb_unit st' = wb_unit st"
    "wb_gen st' = wb_gen st" "wb_shrink_gen st' = wb_shrink_gen st"
  using assms
  by (auto simp: vfdw_wbuf_bind_def vfdw_wbuf_context_def Let_def split: if_splits)

section \<open>Properties\<close>

text \<open>A concrete buffer for the witnesses: bound at nest level 1, one operation appended.\<close>

definition sample_buffer :: wbuf where
  "sample_buffer =
     projr (result_bind (vfdw_wbuf_bind 16384 16385 10 0 3 4096 1 64 wbuf_init)
       (wbuf_push 200 40 (zero_op\<lparr>op_key := ''user:1''\<rparr>) 1 0))"

lemmas wbuf_exec = push_seq_def wbuf_push_def vfdw_wbuf_bind_def vfdw_wbuf_context_def wbuf_init_def
  vfdw_wbuf_op_new_def over_byte_cap_def vfdw_wbuf_alloc_bytes_internal_def uint64_def
  vfdw_wbuf_append_def wbuf_link_tail_def sample_buffer_def Let_def

lemma sample_buffer_inv: "wbuf_inv 1 sample_buffer"
proof -
  let ?b = "vfdw_wbuf_bind 16384 16385 10 0 3 4096 1 64 wbuf_init"
  have b: "?b = Inr (projr ?b)"
    by (simp add: vfdw_wbuf_bind_def vfdw_wbuf_context_def wbuf_init_def Let_def)
  have p: "wbuf_push 200 40 (zero_op\<lparr>op_key := ''user:1''\<rparr>) 1 0 (projr ?b) = Inr sample_buffer"
    unfolding sample_buffer_def
    by (subst b) (simp add: wbuf_push_def vfdw_wbuf_bind_def vfdw_wbuf_context_def wbuf_init_def
        Let_def vfdw_wbuf_op_new_def over_byte_cap_def vfdw_wbuf_alloc_bytes_internal_def
        uint64_def vfdw_wbuf_append_def)
  have "wbuf_inv 1 (projr ?b)" using wbuf_bind_inv_log(2) [OF b] wbuf_init_inv by simp
  then show ?thesis using wl.push_inv p by blast
qed

text \<open>C3. \<open>ROLLBACK TO SAVEPOINT\<close> is exact: whatever a subtransaction appended to the deferred
  write buffer, aborting it leaves the operation log as it was before the subtransaction began,
  every operation with its payload, level and command id, and a buffer that is again well formed
  at the parent's nest level.\<close>

theorem savepoint_rollback_restores:
  assumes "wbuf_inv lvl st" and "push_seq wbuf_push (lvl + 1) xs st = Inr st'"
  shows "wbuf_log (wbuf_abort_sub (lvl + 1) st') = wbuf_log st \<and>
         wbuf_inv lvl (wbuf_abort_sub (lvl + 1) st')"
  using wl.rollback_restores [OF assms] by simp

theorem savepoint_rollback_restores_witness:
  "wbuf_log (wbuf_abort_sub 2 (projr (push_seq wbuf_push 2
      [(200, 8, zero_op\<lparr>op_key := ''user:2''\<rparr>, 1), (0, 0, zero_op\<lparr>op_key := ''user:1'', op_kind := VFDW_OP_DELETE\<rparr>, 2)]
      sample_buffer))) = wbuf_log sample_buffer"
proof -
  let ?xs = "[(200, 8, zero_op\<lparr>op_key := ''user:2''\<rparr>, 1), (0, 0, zero_op\<lparr>op_key := ''user:1'', op_kind := VFDW_OP_DELETE\<rparr>, 2)]"
  have "\<not> isl (push_seq wbuf_push (1 + 1) ?xs sample_buffer)" by (simp add: wbuf_exec)
  then have "push_seq wbuf_push (1 + 1) ?xs sample_buffer = Inr (projr (push_seq wbuf_push 2 ?xs sample_buffer))"
    by (cases "push_seq wbuf_push 2 ?xs sample_buffer") simp_all
  from savepoint_rollback_restores [OF sample_buffer_inv this] show ?thesis by simp
qed

text \<open>C9. \<open>RELEASE SAVEPOINT\<close> hands every operation of the subtransaction to its parent: the log
  keeps its order and content, the released operations carry the parent's level, and a later
  abort of the parent (at its own level) therefore drops exactly them and the parent's own.\<close>

theorem savepoint_release_hands_to_parent:
  assumes "wbuf_inv lvl st" and "push_seq wbuf_push (lvl + 1) xs st = Inr st'"
  shows "wbuf_log (wbuf_pre_commit_sub (lvl + 1) st') = wbuf_log st @ map (stamped lvl) xs \<and>
         wbuf_log (wbuf_abort_sub lvl (wbuf_pre_commit_sub (lvl + 1) st')) =
           filter (\<lambda>oper. op_level oper < lvl) (wbuf_log st)"
proof -
  have i: "wbuf_inv (lvl + 1) st" using assms(1) by (rule wl.deeper) simp
  have "wbuf_inv (lvl + 1) st'" using wl.push_seq_log [OF i assms(2)] by simp
  then have "wbuf_inv lvl (wbuf_pre_commit_sub (lvl + 1) st')" using wl.commit_inv [of "lvl + 1"] by simp
  from wl.abort_log [OF this] wl.release_hands_to_parent [OF assms]
  show ?thesis by (simp add: filter_map comp_def stamped_def case_prod_unfold)
qed

theorem savepoint_release_hands_to_parent_witness:
  "map op_level (wbuf_log (wbuf_pre_commit_sub 2 (projr (push_seq wbuf_push 2
      [(200, 8, zero_op\<lparr>op_key := ''user:2''\<rparr>, 1)] sample_buffer)))) = [1, 1]"
proof -
  let ?xs = "[(200, 8, zero_op\<lparr>op_key := ''user:2''\<rparr>, 1)]"
  have "\<not> isl (push_seq wbuf_push (1 + 1) ?xs sample_buffer)" by (simp add: wbuf_exec)
  then have "push_seq wbuf_push (1 + 1) ?xs sample_buffer = Inr (projr (push_seq wbuf_push 2 ?xs sample_buffer))"
    by (cases "push_seq wbuf_push 2 ?xs sample_buffer") simp_all
  note r = savepoint_release_hands_to_parent [OF sample_buffer_inv this]
  have "map op_level (wbuf_log sample_buffer @ map (stamped 1) ?xs) = [1, 1]"
    by (simp add: wbuf_exec wbuf_log_def stamped_def)
  then show ?thesis using conjunct1 [OF r] by (simp only: one_add_one)
qed

text \<open>C10. The two caps hold at every moment the buffer accepts a write: after a successful append
  the live operations are at most \<open>write_max_ops\<close> and the bytes the buffer has taken from the
  allocator are at most \<open>write_max_bytes\<close>; and an append that the op cap refuses is refused with
  54000 exactly when one more live operation would pass it, leaving the count of a later retry
  unchanged (nothing is linked).\<close>

theorem append_respects_caps:
  assumes "wbuf_inv lvl st" and "wbuf_push g r oper lvl cid st = Inr st'"
  shows "int (length (wbuf_log st')) \<le> u_max_ops (wb_unit st') \<and>
         vfdw_wbuf_alloc_bytes_internal st' \<le> uint64 (u_max_bytes (wb_unit st')) \<and>
         length (wbuf_log st') = Suc (length (wbuf_log st))"
  using push_frame [OF assms(2)] wl.push_log [OF assms] inv_nlive [OF assms(1)]
  by (auto simp: over_byte_cap_def)

theorem append_respects_caps_witness:
  "length (wbuf_log (projr (wbuf_push 100 100 (zero_op\<lparr>op_key := ''k''\<rparr>) 1 3 sample_buffer))) \<le> 3"
proof -
  have "\<not> isl (wbuf_push 100 100 (zero_op\<lparr>op_key := ''k''\<rparr>) 1 3 sample_buffer)" by (simp add: wbuf_exec)
  then have ok: "wbuf_push 100 100 (zero_op\<lparr>op_key := ''k''\<rparr>) 1 3 sample_buffer =
      Inr (projr (wbuf_push 100 100 (zero_op\<lparr>op_key := ''k''\<rparr>) 1 3 sample_buffer))"
    by (cases "wbuf_push 100 100 (zero_op\<lparr>op_key := ''k''\<rparr>) 1 3 sample_buffer") simp_all
  have "u_max_ops (wb_unit sample_buffer) = 3" by (simp add: wbuf_exec)
  then show ?thesis
    using append_respects_caps [OF sample_buffer_inv ok] push_frame(1) [OF ok] by simp
qed

end
