(* ===== verification/Ledger.thy ===== *)
theory Ledger
  imports Wbuf
begin

text \<open>
  The write ledger: folding the operation log into one plan per Valkey key
  (\<open>src/vfdw_ledger.h\<close>, \<open>src/vfdw_ledger_internal.h\<close>, \<open>src/vfdw_ledger.c\<close>,
  \<open>src/vfdw_ledger_fold.c\<close>).

  A plan is addressed as in the source: the key table maps a key to its plan (here the plan's
  position in the first-touch list, in C its pointer), and the members table maps (key, sub) to
  what the transaction knows about that field, member or list value. The argument vectors of
  steps are lists of byte strings. An operation that raises returns \<open>Inl\<close>; the half-updated
  tables are dropped, as the abort that follows resets or rebuilds the ledger.
\<close>

section \<open>Data\<close>

record 'op VfdwLedgerStep =
  step_op :: 'op
  step_args :: "bytes list"

type_synonym check_step = "VfdwCheckOp VfdwLedgerStep"
type_synonym action_step = "VfdwActionOp VfdwLedgerStep"

datatype VfdwKeyState = VFDW_KEY_CREATED | VFDW_KEY_LIVE | VFDW_KEY_DELETED

record VfdwKeyPlan =
  plan_key :: bytes
  plan_ttype :: VfdwTableType
  plan_require :: VfdwRequire
  plan_state :: VfdwKeyState
  plan_checks :: "check_step list"
  plan_actions :: "action_step list"
  plan_nchecks :: int
  plan_nactions :: int
  plan_relids :: "Oid list"

record VfdwLedgerKey =
  lk_key :: bytes
  lk_sub :: "bytes option"

record VfdwMemberEntry =
  m_present :: bool
  m_touched :: bool
  m_count :: int
  m_present_removals :: int

type_synonym members = "VfdwLedgerKey \<rightharpoonup> VfdwMemberEntry"

record ledger =
  led_keys :: "VfdwLedgerKey \<rightharpoonup> nat"
  led_members :: members
  led_plans :: "VfdwKeyPlan list"
  led_count :: int

text \<open>\<open>vfdw_ledger_match\<close>: 0 when the two table keys are the same, 1 otherwise.\<close>

definition vfdw_ledger_match :: "VfdwLedgerKey \<Rightarrow> VfdwLedgerKey \<Rightarrow> int" where
  "vfdw_ledger_match x y =
     (let sublen = (\<lambda>k. case lk_sub k of None \<Rightarrow> 0 | Some s \<Rightarrow> length s) in
      if length (lk_key x) \<noteq> length (lk_key y) \<or> sublen x \<noteq> sublen y then 1
      else if (lk_sub x = None) \<noteq> (lk_sub y = None) then 1
      else if length (lk_key x) > 0 \<and> lk_key x \<noteq> lk_key y then 1
      else if lk_sub x \<noteq> None \<and> sublen x > 0 \<and> the (lk_sub x) \<noteq> the (lk_sub y) then 1
      else 0)"

text \<open>\<open>vfdw_ledger_reset\<close>, and the empty tables \<open>vfdw_ledger_init\<close> creates.\<close>

definition vfdw_ledger_reset :: ledger where
  "vfdw_ledger_reset = \<lparr>led_keys = Map.empty, led_members = Map.empty, led_plans = [], led_count = 0\<rparr>"

section \<open>Step primitives\<close>

definition vfdw_ledger_step :: "'op \<Rightarrow> bytes list \<Rightarrow> 'op VfdwLedgerStep" where
  "vfdw_ledger_step oper args = \<lparr>step_op = oper, step_args = args\<rparr>"

definition vfdw_ledger_add_check :: "check_step \<Rightarrow> VfdwKeyPlan \<Rightarrow> VfdwKeyPlan" where
  "vfdw_ledger_add_check s plan =
     plan\<lparr>plan_checks := plan_checks plan @ [s], plan_nchecks := plan_nchecks plan + 1\<rparr>"

definition vfdw_ledger_add_action :: "action_step \<Rightarrow> VfdwKeyPlan \<Rightarrow> VfdwKeyPlan" where
  "vfdw_ledger_add_action s plan =
     plan\<lparr>plan_actions := plan_actions plan @ [s], plan_nactions := plan_nactions plan + 1\<rparr>"

definition vfdw_ledger_act0 :: "VfdwActionOp \<Rightarrow> VfdwKeyPlan \<Rightarrow> VfdwKeyPlan" where
  "vfdw_ledger_act0 oper = vfdw_ledger_add_action (vfdw_ledger_step oper [])"

definition vfdw_ledger_act1 :: "VfdwActionOp \<Rightarrow> bytes \<Rightarrow> VfdwKeyPlan \<Rightarrow> VfdwKeyPlan" where
  "vfdw_ledger_act1 oper a = vfdw_ledger_add_action (vfdw_ledger_step oper [a])"

definition vfdw_ledger_act2 :: "VfdwActionOp \<Rightarrow> bytes \<Rightarrow> bytes \<Rightarrow> VfdwKeyPlan \<Rightarrow> VfdwKeyPlan" where
  "vfdw_ledger_act2 oper a b = vfdw_ledger_add_action (vfdw_ledger_step oper [a, b])"

definition vfdw_ledger_chk1 :: "VfdwCheckOp \<Rightarrow> bytes \<Rightarrow> VfdwKeyPlan \<Rightarrow> VfdwKeyPlan" where
  "vfdw_ledger_chk1 oper a = vfdw_ledger_add_check (vfdw_ledger_step oper [a])"

definition vfdw_ledger_add_relid :: "Oid \<Rightarrow> VfdwKeyPlan \<Rightarrow> VfdwKeyPlan" where
  "vfdw_ledger_add_relid relid plan =
     (if relid \<in> set (plan_relids plan) then plan
      else plan\<lparr>plan_relids := plan_relids plan @ [relid]\<rparr>)"

section \<open>The two tables\<close>

definition key_of :: "bytes \<Rightarrow> VfdwLedgerKey" where
  "key_of key = \<lparr>lk_key = key, lk_sub = None\<rparr>"

definition member_of :: "bytes \<Rightarrow> bytes \<Rightarrow> VfdwLedgerKey" where
  "member_of key sub = \<lparr>lk_key = key, lk_sub = Some sub\<rparr>"

text \<open>A fresh plan: zeroed memory (state CREATED is 0), the key and type, and the TYPE_OK check.\<close>

definition new_plan :: "bytes \<Rightarrow> VfdwTableType \<Rightarrow> VfdwKeyPlan" where
  "new_plan key ttype =
     vfdw_ledger_add_check (vfdw_ledger_step VFDW_CHK_TYPE_OK [])
       \<lparr>plan_key = key, plan_ttype = ttype, plan_require = VFDW_REQ_ANY,
        plan_state = VFDW_KEY_CREATED, plan_checks = [], plan_actions = [],
        plan_nchecks = 0, plan_nactions = 0, plan_relids = []\<rparr>"

text \<open>Returns the ledger, the plan's position and the \<open>*created\<close> flag.\<close>

definition vfdw_ledger_plan_for ::
  "bytes \<Rightarrow> VfdwTableType \<Rightarrow> ledger \<Rightarrow> ledger \<times> nat \<times> bool" where
  "vfdw_ledger_plan_for key ttype led =
     (case led_keys led (key_of key) of
        Some i \<Rightarrow> (led, i, False)
      | None \<Rightarrow>
          let i = length (led_plans led)
          in (led\<lparr>led_keys := (led_keys led)(key_of key \<mapsto> i),
                  led_plans := led_plans led @ [new_plan key ttype],
                  led_count := led_count led + 1\<rparr>, i, True))"

definition fresh_member :: VfdwMemberEntry where
  "fresh_member = \<lparr>m_present = False, m_touched = False, m_count = 0, m_present_removals = 0\<rparr>"

text \<open>Returns the entry and the \<open>*created\<close> flag; the caller stores the entry it has changed.\<close>

definition vfdw_ledger_member :: "bytes \<Rightarrow> bytes \<Rightarrow> members \<Rightarrow> VfdwMemberEntry \<times> bool" where
  "vfdw_ledger_member key sub ms =
     (case ms (member_of key sub) of Some m \<Rightarrow> (m, False) | None \<Rightarrow> (fresh_member, True))"

text \<open>Writing through a plan pointer.\<close>

definition upd_plan :: "nat \<Rightarrow> (VfdwKeyPlan \<Rightarrow> VfdwKeyPlan) \<Rightarrow> ledger \<Rightarrow> ledger" where
  "upd_plan i f led = led\<lparr>led_plans := (led_plans led)[i := f (led_plans led ! i)]\<rparr>"

section \<open>Preconditions, renames and key deletes\<close>

definition vfdw_ledger_keyset ::
  "VfdwWriteOp \<Rightarrow> bytes \<Rightarrow> bool \<Rightarrow> VfdwKeyPlan \<Rightarrow> VfdwKeyPlan" where
  "vfdw_ledger_keyset oper key add plan =
     (case op_keyset oper of
        None \<Rightarrow> plan
      | Some ks \<Rightarrow> vfdw_ledger_act2 (if add then VFDW_ACT_KSET_ADD else VFDW_ACT_KSET_REM) ks key plan)"

definition vfdw_ledger_precondition ::
  "bool \<Rightarrow> VfdwOpKind \<Rightarrow> bool \<Rightarrow> VfdwKeyPlan \<Rightarrow> VfdwKeyPlan" where
  "vfdw_ledger_precondition first kind rename_target plan =
     (if \<not> first then plan
      else if kind = VFDW_OP_INSERT \<or> rename_target then
        (vfdw_ledger_add_check (vfdw_ledger_step VFDW_CHK_KEY_ABSENT [])
           (plan\<lparr>plan_require := VFDW_REQ_KEY_ABSENT\<rparr>))\<lparr>plan_state := VFDW_KEY_CREATED\<rparr>
      else
        (vfdw_ledger_add_check (vfdw_ledger_step VFDW_CHK_KEY_PRESENT [])
           (plan\<lparr>plan_require := VFDW_REQ_KEY_PRESENT\<rparr>))\<lparr>plan_state := VFDW_KEY_LIVE\<rparr>)"

definition vfdw_refuse_duplicate_key :: "'a result" where
  "vfdw_refuse_duplicate_key =
     raise ERRCODE_UNIQUE_VIOLATION ''duplicate key value violates the Valkey keyspace''"

definition vfdw_ledger_check_duplicate ::
  "VfdwKeyPlan \<Rightarrow> VfdwWriteOp \<Rightarrow> bool \<Rightarrow> unit result" where
  "vfdw_ledger_check_duplicate plan oper first =
     (if op_kind oper \<noteq> VFDW_OP_INSERT \<or> first then Inr ()
      else if plan_state plan = VFDW_KEY_DELETED then Inr ()
      else if plan_ttype plan \<noteq> VFDW_TABLE_STRING then Inr ()
      else vfdw_refuse_duplicate_key)"

definition vfdw_ledger_is_rename :: "VfdwWriteOp \<Rightarrow> bool" where
  "vfdw_ledger_is_rename oper \<longleftrightarrow>
     op_kind oper = VFDW_OP_UPDATE \<and> op_oldkey oper \<noteq> None \<and> the (op_oldkey oper) \<noteq> op_key oper"

definition vfdw_ledger_fold_rename :: "nat \<Rightarrow> VfdwWriteOp \<Rightarrow> ledger \<Rightarrow> ledger" where
  "vfdw_ledger_fold_rename i oper led =
     (if \<not> vfdw_ledger_is_rename oper then led
      else let old = the (op_oldkey oper);
               led1 = upd_plan i (vfdw_ledger_act1 VFDW_ACT_RENAME old) led;
               led2 = upd_plan i (vfdw_ledger_keyset oper old False) led1;
               led3 = upd_plan i (vfdw_ledger_keyset oper (op_key oper) True) led2;
               (led4, j, firstold) = vfdw_ledger_plan_for old (op_tabletype oper) led3;
               led5 = upd_plan j (vfdw_ledger_add_relid (op_relid oper)) led4
           in if firstold then upd_plan j (vfdw_ledger_precondition True VFDW_OP_UPDATE False) led5
              else led5)"

text \<open>\<open>None\<close> is the C function's \<open>false\<close>: the operation is not a key delete.\<close>

definition vfdw_ledger_fold_key_delete :: "VfdwWriteOp \<Rightarrow> VfdwKeyPlan \<Rightarrow> VfdwKeyPlan option" where
  "vfdw_ledger_fold_key_delete oper plan =
     (if op_kind oper \<noteq> VFDW_OP_DELETE then None
      else if op_tabletype oper \<noteq> VFDW_TABLE_STRING \<and> op_tabletype oper \<noteq> VFDW_TABLE_HASH \<and>
              \<not> op_packed_shape oper then None
      else Some ((vfdw_ledger_keyset oper (op_key oper) False
                   (vfdw_ledger_act0 VFDW_ACT_DEL plan))\<lparr>plan_state := VFDW_KEY_DELETED\<rparr>))"

section \<open>The per-type folds\<close>

type_synonym fold_state = "VfdwKeyPlan \<times> members"

definition vfdw_refuse_duplicate_member :: "string \<Rightarrow> 'a result" where
  "vfdw_refuse_duplicate_member what =
     raise ERRCODE_UNIQUE_VIOLATION (''duplicate '' @ what @ '' violates the Valkey keyspace'')"

fun vfdw_ledger_fold_ttls :: "VfdwWriteArg list \<Rightarrow> VfdwKeyPlan \<Rightarrow> VfdwKeyPlan" where
  "vfdw_ledger_fold_ttls [] plan = plan"
| "vfdw_ledger_fold_ttls (t # ts) plan =
     vfdw_ledger_fold_ttls ts
       (if arg_isnull t then vfdw_ledger_act1 VFDW_ACT_HPERSIST (arg_name t) plan
        else vfdw_ledger_act2 VFDW_ACT_HPEXPIRE (arg_name t) (arg_data t) plan)"

text \<open>One iteration of \<open>vfdw_ledger_fold_fields\<close>.\<close>

definition fold_field :: "VfdwWriteOp \<Rightarrow> VfdwWriteArg \<Rightarrow> fold_state \<Rightarrow> fold_state result" where
  "fold_field oper f = (\<lambda>(plan, ms).
     let (m, firstf) = vfdw_ledger_member (op_key oper) (arg_name f) ms;
         m1 = (if firstf then m\<lparr>m_touched := True\<rparr> else m);
         plan1 = (if firstf then
                    (if plan_state plan = VFDW_KEY_CREATED then plan
                     else if op_kind oper = VFDW_OP_INSERT
                     then vfdw_ledger_chk1 VFDW_CHK_HFIELD_ABSENT (arg_name f) plan
                     else vfdw_ledger_chk1 VFDW_CHK_HFIELD_PRESENT (arg_name f) plan)
                  else plan)
     in if \<not> firstf \<and> op_kind oper = VFDW_OP_INSERT \<and> m_present m
        then vfdw_refuse_duplicate_member ''field''
        else if arg_isnull f
        then Inr (vfdw_ledger_act1 VFDW_ACT_HDEL (arg_name f) plan1,
                  ms(member_of (op_key oper) (arg_name f) \<mapsto> m1\<lparr>m_present := False\<rparr>))
        else Inr (vfdw_ledger_act2 VFDW_ACT_HSET (arg_name f) (arg_data f) plan1,
                  ms(member_of (op_key oper) (arg_name f) \<mapsto> m1\<lparr>m_present := True\<rparr>)))"

definition vfdw_ledger_fold_fields :: "VfdwWriteOp \<Rightarrow> fold_state \<Rightarrow> fold_state result" where
  "vfdw_ledger_fold_fields oper = result_fold (fold_field oper) (op_fields oper)"

definition vfdw_ledger_fold_hash :: "VfdwWriteOp \<Rightarrow> fold_state \<Rightarrow> fold_state result" where
  "vfdw_ledger_fold_hash oper s =
     result_bind (vfdw_ledger_fold_fields oper s)
       (\<lambda>(plan, ms). Inr (vfdw_ledger_fold_ttls (op_ttls oper) plan, ms))"

text \<open>
  \<open>has_member\<close> is tested by the caller, so \<open>member\<close> is given. Returns the identity the entry is
  stored under and the entry.
\<close>

definition vfdw_ledger_member_precondition ::
  "VfdwWriteOp \<Rightarrow> bytes \<Rightarrow> bool \<Rightarrow> fold_state \<Rightarrow> (VfdwKeyPlan \<times> bytes \<times> VfdwMemberEntry) result" where
  "vfdw_ledger_member_precondition oper member is_zset = (\<lambda>(plan, ms).
     let idm = (case op_oldmember oper of Some om \<Rightarrow> om | None \<Rightarrow> member);
         (m, firstm) = vfdw_ledger_member (op_key oper) idm ms
     in if firstm then
          Inr (if plan_state plan = VFDW_KEY_CREATED then plan
               else if op_kind oper = VFDW_OP_INSERT
               then vfdw_ledger_chk1 (if is_zset then VFDW_CHK_ZMEMBER_ABSENT else VFDW_CHK_SMEMBER_ABSENT) idm plan
               else vfdw_ledger_chk1 (if is_zset then VFDW_CHK_ZMEMBER_PRESENT else VFDW_CHK_SMEMBER_PRESENT) idm plan,
               idm, m\<lparr>m_touched := True\<rparr>)
        else if op_kind oper = VFDW_OP_INSERT \<and> m_present m
        then vfdw_refuse_duplicate_member ''member''
        else Inr (plan, idm, m))"

definition vfdw_ledger_fold_member :: "VfdwWriteOp \<Rightarrow> fold_state \<Rightarrow> fold_state result" where
  "vfdw_ledger_fold_member oper = (\<lambda>(plan, ms).
     let is_zset = (plan_ttype plan = VFDW_TABLE_ZSET);
         rem = (if is_zset then VFDW_ACT_ZREM else VFDW_ACT_SREM)
     in case op_member oper of
          None \<Rightarrow> Inr (plan, ms)
        | Some member \<Rightarrow>
            result_bind (vfdw_ledger_member_precondition oper member is_zset (plan, ms))
              (\<lambda>(plan1, idm, m).
                 if op_kind oper = VFDW_OP_DELETE then
                   Inr (vfdw_ledger_act1 rem member plan1,
                        ms(member_of (op_key oper) idm \<mapsto> m\<lparr>m_present := False\<rparr>))
                 else
                   let moved = (op_kind oper = VFDW_OP_UPDATE \<and> op_oldmember oper \<noteq> None \<and>
                                the (op_oldmember oper) \<noteq> member);
                       plan2 = (if moved then vfdw_ledger_act1 rem (the (op_oldmember oper)) plan1
                                else plan1);
                       ms2 = (if moved
                              then ms(member_of (op_key oper) idm \<mapsto> m\<lparr>m_present := False\<rparr>)
                              else ms);
                       m2 = (if moved
                             then (fst (vfdw_ledger_member (op_key oper) member ms2))\<lparr>m_touched := True\<rparr>
                             else m);
                       idm2 = (if moved then member else idm);
                       plan3 = (if is_zset
                                then vfdw_ledger_act2 VFDW_ACT_ZADD
                                       (case op_score oper of Some sc \<Rightarrow> sc | None \<Rightarrow> ''0'') member plan2
                                else vfdw_ledger_act1 VFDW_ACT_SADD member plan2)
                   in Inr (plan3, ms2(member_of (op_key oper) idm2 \<mapsto> m2\<lparr>m_present := True\<rparr>))))"

definition vfdw_ledger_fold_list :: "VfdwWriteOp \<Rightarrow> fold_state \<Rightarrow> fold_state" where
  "vfdw_ledger_fold_list oper = (\<lambda>(plan, ms).
     case op_member oper of
       None \<Rightarrow> (plan, ms)
     | Some member \<Rightarrow>
         let m = (fst (vfdw_ledger_member (op_key oper) member ms))\<lparr>m_touched := True\<rparr>;
             at = member_of (op_key oper) member
         in if op_kind oper = VFDW_OP_DELETE then
              if m_count m > 0 then
                (vfdw_ledger_act1 VFDW_ACT_LREM1 member plan, ms(at \<mapsto> m\<lparr>m_count := m_count m - 1\<rparr>))
              else
                let n = m_present_removals m + 1
                in (vfdw_ledger_act1 VFDW_ACT_LREM1 member
                      (vfdw_ledger_add_check
                         (vfdw_ledger_step VFDW_CHK_LVALUE_COUNT_GE [member, dec_int n]) plan),
                    ms(at \<mapsto> m\<lparr>m_present_removals := n\<rparr>))
            else (vfdw_ledger_act1 VFDW_ACT_RPUSH member plan, ms(at \<mapsto> m\<lparr>m_count := m_count m + 1\<rparr>)))"

definition vfdw_ledger_pack_pair :: "VfdwWriteOp \<Rightarrow> nat \<Rightarrow> VfdwKeyPlan \<Rightarrow> VfdwKeyPlan" where
  "vfdw_ledger_pack_pair oper i plan =
     (if i mod 2 \<noteq> 0 \<or> i + 1 \<ge> length (op_packed oper) then plan
      else vfdw_ledger_act2 VFDW_ACT_HSET (arg_data (op_packed oper ! i))
             (arg_data (op_packed oper ! (i + 1))) plan)"

text \<open>The loop body of \<open>vfdw_ledger_fold_packed\<close>.\<close>

definition fold_packed_elem :: "VfdwWriteOp \<Rightarrow> nat \<Rightarrow> VfdwKeyPlan \<Rightarrow> VfdwKeyPlan result" where
  "fold_packed_elem oper i plan =
     (case op_tabletype oper of
        VFDW_TABLE_LIST \<Rightarrow> Inr (vfdw_ledger_act1 VFDW_ACT_RPUSH (arg_data (op_packed oper ! i)) plan)
      | VFDW_TABLE_SET \<Rightarrow> Inr (vfdw_ledger_act1 VFDW_ACT_SADD (arg_data (op_packed oper ! i)) plan)
      | VFDW_TABLE_HASH \<Rightarrow> Inr (vfdw_ledger_pack_pair oper i plan)
      | _ \<Rightarrow> raise ERRCODE_INTERNAL_ERROR (''valkey_fdw: packed write for table type '' @ dec_int (tabletype_code (op_tabletype oper))))"

definition vfdw_ledger_fold_packed :: "VfdwWriteOp \<Rightarrow> VfdwKeyPlan \<Rightarrow> VfdwKeyPlan result" where
  "vfdw_ledger_fold_packed oper plan =
     result_fold (fold_packed_elem oper) [0..<length (op_packed oper)] (vfdw_ledger_act0 VFDW_ACT_DEL plan)"

definition revive :: "VfdwKeyPlan \<Rightarrow> VfdwKeyPlan" where
  "revive plan = (if plan_state plan = VFDW_KEY_DELETED then plan\<lparr>plan_state := VFDW_KEY_LIVE\<rparr> else plan)"

definition vfdw_ledger_fold_packed_op :: "VfdwWriteOp \<Rightarrow> VfdwKeyPlan \<Rightarrow> VfdwKeyPlan result" where
  "vfdw_ledger_fold_packed_op oper plan =
     result_bind (vfdw_ledger_fold_packed oper plan)
       (\<lambda>plan1. Inr (revive (if op_kind oper = VFDW_OP_INSERT
                             then vfdw_ledger_keyset oper (op_key oper) True plan1 else plan1)))"

section \<open>Noting an operation\<close>

text \<open>The \<open>switch (op->tabletype)\<close> of \<open>vfdw_ledger_note\<close>.\<close>

definition fold_by_type :: "VfdwWriteOp \<Rightarrow> fold_state \<Rightarrow> fold_state result" where
  "fold_by_type oper s =
     (case op_tabletype oper of
        VFDW_TABLE_STRING \<Rightarrow>
          (case op_value oper of
             Some v \<Rightarrow> Inr (vfdw_ledger_act1 VFDW_ACT_SET v (fst s), snd s)
           | None \<Rightarrow> Inr s)
      | VFDW_TABLE_HASH \<Rightarrow> vfdw_ledger_fold_hash oper s
      | VFDW_TABLE_SET \<Rightarrow> vfdw_ledger_fold_member oper s
      | VFDW_TABLE_ZSET \<Rightarrow> vfdw_ledger_fold_member oper s
      | VFDW_TABLE_LIST \<Rightarrow> Inr (vfdw_ledger_fold_list oper s)
      | VFDW_TABLE_VECTOR \<Rightarrow>
          raise ERRCODE_INTERNAL_ERROR ''valkey_fdw: a vector table reached the write fold'')"

text \<open>Everything \<open>vfdw_ledger_note\<close> does to the plan after the rename has been folded.\<close>

definition fold_op :: "VfdwWriteOp \<Rightarrow> fold_state \<Rightarrow> fold_state result" where
  "fold_op oper = (\<lambda>(plan, ms).
     case vfdw_ledger_fold_key_delete oper plan of
       Some plan1 \<Rightarrow> Inr (plan1, ms)
     | None \<Rightarrow>
         if op_packed_shape oper then
           result_bind (vfdw_ledger_fold_packed_op oper plan) (\<lambda>plan1. Inr (plan1, ms))
         else
           result_bind (fold_by_type oper (plan, ms))
             (\<lambda>(plan1, ms1).
                Inr (revive (if op_kind oper = VFDW_OP_INSERT
                             then vfdw_ledger_keyset oper (op_key oper) True plan1 else plan1), ms1)))"

definition vfdw_ledger_note :: "VfdwWriteOp \<Rightarrow> ledger \<Rightarrow> ledger result" where
  "vfdw_ledger_note oper led0 =
     (let (led1, i, first) = vfdw_ledger_plan_for (op_key oper) (op_tabletype oper) led0;
          led2 = upd_plan i (vfdw_ledger_add_relid (op_relid oper)) led1
      in result_bind (vfdw_ledger_check_duplicate (led_plans led2 ! i) oper first) (\<lambda>_.
           let led3 = upd_plan i (vfdw_ledger_precondition first (op_kind oper) (vfdw_ledger_is_rename oper)) led2;
               led4 = vfdw_ledger_fold_rename i oper led3
           in result_bind (fold_op oper (led_plans led4 ! i, led_members led4)) (\<lambda>(plan, ms).
                Inr (upd_plan i (\<lambda>_. plan) (led4\<lparr>led_members := ms\<rparr>)))))"

text \<open>
  \<open>vfdw_ledger_rebuild_from_buffer\<close> on the operations the loop visits. The re-entrancy flag is
  always false here: nothing the fold calls reaches the rebuild again.
\<close>

definition vfdw_ledger_rebuild_from_buffer :: "VfdwWriteOp list \<Rightarrow> ledger result" where
  "vfdw_ledger_rebuild_from_buffer ops = result_fold vfdw_ledger_note ops vfdw_ledger_reset"

definition vfdw_ledger_nplans :: "ledger \<Rightarrow> int" where
  "vfdw_ledger_nplans = led_count"

primrec vfdw_ledger_state_name :: "VfdwKeyState \<Rightarrow> string" where
  "vfdw_ledger_state_name VFDW_KEY_CREATED = ''CREATED''"
| "vfdw_ledger_state_name VFDW_KEY_LIVE = ''LIVE''"
| "vfdw_ledger_state_name VFDW_KEY_DELETED = ''DELETED''"

lemma match_is_equality: "vfdw_ledger_match x y = 0 \<longleftrightarrow> x = y"
  by (cases x; cases y) (auto simp: vfdw_ledger_match_def Let_def split: option.splits)

lemma refused [simp]:
  "vfdw_refuse_duplicate_key \<noteq> Inr x" "vfdw_refuse_duplicate_member w \<noteq> Inr y"
  by (simp_all add: vfdw_refuse_duplicate_key_def vfdw_refuse_duplicate_member_def)

section \<open>How plans grow\<close>

text \<open>
  The checks that are not about the whole key: a field, a member, a list value or a keyset.
\<close>

definition member_check :: "check_step \<Rightarrow> bool" where
  "member_check s \<longleftrightarrow> step_op s \<notin> {VFDW_CHK_TYPE_OK, VFDW_CHK_KEY_ABSENT, VFDW_CHK_KEY_PRESENT}"

text \<open>
  \<open>plan_grows p q\<close>: \<open>q\<close> is \<open>p\<close> after some more folding. Nothing recorded is changed or removed;
  only member checks, actions and relations are appended, and a plan never becomes CREATED again.
\<close>

definition plan_grows :: "VfdwKeyPlan \<Rightarrow> VfdwKeyPlan \<Rightarrow> bool" where
  "plan_grows p q \<longleftrightarrow>
     plan_key q = plan_key p \<and> plan_ttype q = plan_ttype p \<and> plan_require q = plan_require p \<and>
     (\<exists>cs. plan_checks q = plan_checks p @ cs \<and> plan_nchecks q = plan_nchecks p + int (length cs) \<and>
           (\<forall>c \<in> set cs. member_check c)) \<and>
     (\<exists>as. plan_actions q = plan_actions p @ as \<and> plan_nactions q = plan_nactions p + int (length as)) \<and>
     (\<exists>rs. plan_relids q = plan_relids p @ rs) \<and>
     (distinct (plan_relids p) \<longrightarrow> distinct (plan_relids q)) \<and>
     (plan_state q = VFDW_KEY_CREATED \<longrightarrow> plan_state p = VFDW_KEY_CREATED)"

lemma grows_refl [simp, intro]: "plan_grows p p"
  by (auto simp: plan_grows_def)

lemma grows_trans [trans]:
  assumes "plan_grows p q" and "plan_grows q r"
  shows "plan_grows p r"
proof -
  from assms obtain cs cs' as as' rs rs' where
    "plan_checks q = plan_checks p @ cs" "plan_checks r = plan_checks q @ cs'"
    "plan_actions q = plan_actions p @ as" "plan_actions r = plan_actions q @ as'"
    "plan_relids q = plan_relids p @ rs" "plan_relids r = plan_relids q @ rs'"
    by (auto simp: plan_grows_def)
  then show ?thesis using assms
    by (auto simp: plan_grows_def intro!: exI [of _ "cs @ cs'"] exI [of _ "as @ as'"] exI [of _ "rs @ rs'"])
qed

lemma grows_add_action [simp]: "plan_grows p (vfdw_ledger_add_action s p)"
  by (simp add: plan_grows_def vfdw_ledger_add_action_def)

lemma grows_acts [simp]:
  "plan_grows p (vfdw_ledger_act0 a p)" "plan_grows p (vfdw_ledger_act1 a x p)"
  "plan_grows p (vfdw_ledger_act2 a x y p)"
  by (simp_all add: vfdw_ledger_act0_def vfdw_ledger_act1_def vfdw_ledger_act2_def)

lemma grows_add_check [simp]: "member_check s \<Longrightarrow> plan_grows p (vfdw_ledger_add_check s p)"
  by (simp add: plan_grows_def vfdw_ledger_add_check_def)

lemma grows_chk1 [simp]:
  "c \<notin> {VFDW_CHK_TYPE_OK, VFDW_CHK_KEY_ABSENT, VFDW_CHK_KEY_PRESENT} \<Longrightarrow>
     plan_grows p (vfdw_ledger_chk1 c x p)"
  by (simp add: vfdw_ledger_chk1_def member_check_def vfdw_ledger_step_def)

lemma grows_relid [simp]: "plan_grows p (vfdw_ledger_add_relid r p)"
  by (simp add: plan_grows_def vfdw_ledger_add_relid_def)

lemma grows_keyset [simp]: "plan_grows p (vfdw_ledger_keyset oper k b p)"
  by (simp add: vfdw_ledger_keyset_def split: option.splits)

lemma grows_state:
  "st \<noteq> VFDW_KEY_CREATED \<Longrightarrow> plan_grows p q \<Longrightarrow> plan_grows p (q\<lparr>plan_state := st\<rparr>)"
  by (simp add: plan_grows_def)

lemma grows_revive: "plan_grows p q \<Longrightarrow> plan_grows p (revive q)"
  by (simp add: revive_def grows_state)

lemma grows_key_delete: "vfdw_ledger_fold_key_delete oper p = Some q \<Longrightarrow> plan_grows p q"
  by (auto simp: vfdw_ledger_fold_key_delete_def split: if_splits
      intro!: grows_state intro: grows_trans [OF grows_acts(1) grows_keyset])

lemma grows_ttls: "plan_grows p (vfdw_ledger_fold_ttls ts p)"
proof (induction ts arbitrary: p)
  case (Cons t ts)
  show ?case by (simp add: grows_trans [OF grows_acts(2) Cons] grows_trans [OF grows_acts(3) Cons])
qed simp

lemma grows_field:
  assumes "fold_field oper f (p, ms) = Inr (q, ms')"
  shows "plan_grows p q"
proof -
  let ?c1 = "vfdw_ledger_chk1 VFDW_CHK_HFIELD_ABSENT (arg_name f) p"
  let ?c2 = "vfdw_ledger_chk1 VFDW_CHK_HFIELD_PRESENT (arg_name f) p"
  obtain m b where m: "vfdw_ledger_member (op_key oper) (arg_name f) ms = (m, b)" by force
  have "\<exists>r. plan_grows p r \<and> plan_grows r q"
    using assms
    by (auto simp: fold_field_def m Let_def split: if_splits
        intro: exI [of _ p] exI [of _ ?c1] exI [of _ ?c2])
  then show ?thesis using grows_trans by blast
qed

lemma grows_fields:
  assumes "vfdw_ledger_fold_fields oper (p, ms) = Inr (q, ms')"
  shows "plan_grows p q"
  using result_fold_invariant [where P = "\<lambda>(r, _). plan_grows p r",
      OF assms [unfolded vfdw_ledger_fold_fields_def]] grows_field grows_trans
  by fastforce

lemma grows_hash: "vfdw_ledger_fold_hash oper (p, ms) = Inr (q, ms') \<Longrightarrow> plan_grows p q"
  by (auto simp: vfdw_ledger_fold_hash_def result_bind_Inr_iff
      intro: grows_trans [OF grows_fields grows_ttls])

lemma grows_member_precondition:
  assumes "vfdw_ledger_member_precondition oper mem z (p, ms) = Inr (q, x)"
  shows "plan_grows p q"
  using assms
  by (auto simp: vfdw_ledger_member_precondition_def Let_def vfdw_refuse_duplicate_member_def
      split: if_splits prod.splits)

lemma grows_member:
  assumes "vfdw_ledger_fold_member oper (p, ms) = Inr (q, ms')"
  shows "plan_grows p q"
proof (cases "op_member oper")
  case None
  then show ?thesis using assms by (simp add: vfdw_ledger_fold_member_def Let_def)
next
  case (Some mem)
  let ?z = "plan_ttype p = VFDW_TABLE_ZSET"
  let ?rem = "if ?z then VFDW_ACT_ZREM else VFDW_ACT_SREM"
  from assms Some obtain r idm m where
    pre: "vfdw_ledger_member_precondition oper mem ?z (p, ms) = Inr (r, idm, m)"
    by (auto simp: vfdw_ledger_fold_member_def Let_def result_bind_Inr_iff)
  have r: "plan_grows p r" using grows_member_precondition [OF pre] .
  have "\<exists>t. plan_grows r t \<and> plan_grows t q"
    using assms
    by (auto simp: vfdw_ledger_fold_member_def Some Let_def pre split: if_splits
        intro: exI [of _ r] exI [of _ "vfdw_ledger_act1 ?rem (the (op_oldmember oper)) r"])
  with r show ?thesis using grows_trans by blast
qed

lemma grows_list: "vfdw_ledger_fold_list oper (p, ms) = (q, ms') \<Longrightarrow> plan_grows p q"
  by (auto simp: vfdw_ledger_fold_list_def Let_def member_check_def vfdw_ledger_step_def
      split: option.splits if_splits intro!: grows_trans [OF grows_add_check grows_acts(2)])

lemma grows_pack_pair [simp]: "plan_grows p (vfdw_ledger_pack_pair oper i p)"
  by (simp add: vfdw_ledger_pack_pair_def)

lemma grows_packed:
  assumes "vfdw_ledger_fold_packed oper p = Inr q"
  shows "plan_grows p q"
proof (rule result_fold_invariant [OF assms [unfolded vfdw_ledger_fold_packed_def]])
  fix i u v assume "plan_grows p u" and "fold_packed_elem oper i u = Inr v"
  then show "plan_grows p v"
    by (auto simp: fold_packed_elem_def split: VfdwTableType.splits elim: grows_trans)
qed simp

lemma grows_packed_op: "vfdw_ledger_fold_packed_op oper p = Inr q \<Longrightarrow> plan_grows p q"
  by (auto simp: vfdw_ledger_fold_packed_op_def result_bind_Inr_iff
      intro!: grows_revive intro: grows_trans [OF grows_packed grows_keyset] dest: grows_packed
      split: if_splits)

lemma grows_by_type: "fold_by_type oper (p, ms) = Inr (q, ms') \<Longrightarrow> plan_grows p q"
  by (auto simp: fold_by_type_def grows_hash grows_member grows_list
      split: VfdwTableType.splits option.splits)

lemma grows_fold_op:
  assumes "fold_op oper (p, ms) = Inr (q, ms')"
  shows "plan_grows p q"
  using assms
  by (auto simp: fold_op_def result_bind_Inr_iff grows_key_delete grows_packed_op
      split: option.splits if_splits intro!: grows_revive
      intro: grows_trans [OF grows_by_type grows_keyset] grows_by_type)

section \<open>The ledger invariant\<close>

text \<open>
  The key table names exactly the plans of the list, each key once, and the counter is its length.
\<close>

definition keys_ok :: "ledger \<Rightarrow> bool" where
  "keys_ok led \<longleftrightarrow>
     led_count led = int (length (led_plans led)) \<and>
     (\<forall>k i. led_keys led (key_of k) = Some i \<longleftrightarrow>
              i < length (led_plans led) \<and> plan_key (led_plans led ! i) = k)"

text \<open>
  A finished plan: its counters are right, its first check is TYPE_OK and its second the check of
  its requirement, no later check is about the whole key, and a plan that is still CREATED
  demanded that the key be absent.
\<close>

definition require_check :: "VfdwRequire \<Rightarrow> VfdwCheckOp option" where
  "require_check r = (case r of VFDW_REQ_ANY \<Rightarrow> None | VFDW_REQ_KEY_ABSENT \<Rightarrow> Some VFDW_CHK_KEY_ABSENT
                      | VFDW_REQ_KEY_PRESENT \<Rightarrow> Some VFDW_CHK_KEY_PRESENT)"

definition plan_ok :: "VfdwKeyPlan \<Rightarrow> bool" where
  "plan_ok p \<longleftrightarrow>
     plan_nchecks p = int (length (plan_checks p)) \<and> plan_nactions p = int (length (plan_actions p)) \<and>
     (\<exists>c cs. require_check (plan_require p) = Some c \<and>
        plan_checks p = vfdw_ledger_step VFDW_CHK_TYPE_OK [] # vfdw_ledger_step c [] # cs \<and>
        (\<forall>x \<in> set cs. member_check x)) \<and>
     (plan_state p = VFDW_KEY_CREATED \<longrightarrow> plan_require p = VFDW_REQ_KEY_ABSENT) \<and>
     distinct (plan_relids p)"

definition ledger_ok :: "ledger \<Rightarrow> bool" where
  "ledger_ok led \<longleftrightarrow> keys_ok led \<and> (\<forall>p \<in> set (led_plans led). plan_ok p)"

definition plans_grow :: "VfdwKeyPlan list \<Rightarrow> VfdwKeyPlan list \<Rightarrow> bool" where
  "plans_grow ps qs \<longleftrightarrow> length ps \<le> length qs \<and> (\<forall>i < length ps. plan_grows (ps ! i) (qs ! i))"

lemma plans_grow_refl [simp, intro]: "plans_grow ps ps"
  by (simp add: plans_grow_def)

lemma plans_grow_trans [trans]: "plans_grow ps qs \<Longrightarrow> plans_grow qs rs \<Longrightarrow> plans_grow ps rs"
  unfolding plans_grow_def by (meson grows_trans le_trans less_le_trans)

lemma plans_grow_append [simp]: "plans_grow ps (ps @ qs)"
  by (simp add: plans_grow_def nth_append)

lemma grows_ok: "plan_grows p q \<Longrightarrow> plan_ok p \<Longrightarrow> plan_ok q"
  by (auto simp: plan_grows_def plan_ok_def)

lemma reset_ok: "ledger_ok vfdw_ledger_reset"
  by (simp add: ledger_ok_def keys_ok_def vfdw_ledger_reset_def)

lemma key_of_inject [simp]: "key_of a = key_of b \<longleftrightarrow> a = b"
  by (simp add: key_of_def)

lemma new_plan_simps [simp]:
  "plan_key (new_plan k t) = k" "plan_ttype (new_plan k t) = t" "plan_actions (new_plan k t) = []"
  by (simp_all add: new_plan_def vfdw_ledger_add_check_def)

lemma plan_for_spec:
  assumes "keys_ok led" and "vfdw_ledger_plan_for k t led = (led', i, first)"
  shows "keys_ok led'" "i < length (led_plans led')" "plan_key (led_plans led' ! i) = k"
    "led_members led' = led_members led" "\<not> first \<Longrightarrow> led' = led"
    "first \<Longrightarrow> led_plans led' = led_plans led @ [new_plan k t] \<and> i = length (led_plans led)"
    "first \<longleftrightarrow> k \<notin> plan_key ` set (led_plans led)" "plans_grow (led_plans led) (led_plans led')"
proof -
  have none: "led_keys led (key_of k) = None \<longleftrightarrow> k \<notin> plan_key ` set (led_plans led)"
  proof
    assume n: "led_keys led (key_of k) = None"
    show "k \<notin> plan_key ` set (led_plans led)"
    proof
      assume "k \<in> plan_key ` set (led_plans led)"
      then obtain j where "j < length (led_plans led)" "plan_key (led_plans led ! j) = k"
        by (auto simp: in_set_conv_nth)
      then have "led_keys led (key_of k) = Some j" using assms(1) by (simp add: keys_ok_def)
      with n show False by simp
    qed
  next
    assume n: "k \<notin> plan_key ` set (led_plans led)"
    show "led_keys led (key_of k) = None"
    proof (cases "led_keys led (key_of k)")
      case (Some j)
      then have "j < length (led_plans led)" "plan_key (led_plans led ! j) = k"
        using assms(1) by (auto simp: keys_ok_def)
      with n show ?thesis by auto
    qed
  qed
  show "first \<longleftrightarrow> k \<notin> plan_key ` set (led_plans led)"
    using assms(2) none by (auto simp: vfdw_ledger_plan_for_def Let_def split: option.splits)
  show "keys_ok led'"
    using assms none by (auto simp: vfdw_ledger_plan_for_def Let_def keys_ok_def nth_append
        less_Suc_eq split: option.splits if_splits)
qed (use assms in \<open>auto simp: vfdw_ledger_plan_for_def Let_def keys_ok_def split: option.splits\<close>)

lemma upd_plan_simps [simp]:
  "led_members (upd_plan i f led) = led_members led"
  "length (led_plans (upd_plan i f led)) = length (led_plans led)"
  "led_keys (upd_plan i f led) = led_keys led" "led_count (upd_plan i f led) = led_count led"
  by (simp_all add: upd_plan_def)

lemma upd_plan_nth:
  "j < length (led_plans led) \<Longrightarrow>
     led_plans (upd_plan i f led) ! j = (if j = i then f (led_plans led ! i) else led_plans led ! j)"
  by (simp add: upd_plan_def nth_list_update)

lemma upd_plan_keys:
  assumes "keys_ok led" "i < length (led_plans led) \<Longrightarrow> plan_key (f (led_plans led ! i)) = plan_key (led_plans led ! i)"
  shows "keys_ok (upd_plan i f led)"
  using assms unfolding keys_ok_def
  by (simp add: upd_plan_nth cong: conj_cong)

lemma upd_plan_grow:
  assumes "i < length (led_plans led) \<Longrightarrow> plan_grows (led_plans led ! i) (f (led_plans led ! i))"
  shows "plans_grow (led_plans led) (led_plans (upd_plan i f led))"
  using assms by (auto simp: plans_grow_def upd_plan_nth)

lemma all_ok_nth: "(\<forall>p \<in> set ps. plan_ok p) \<longleftrightarrow> (\<forall>i < length ps. plan_ok (ps ! i))"
  by (auto simp: all_set_conv_all_nth)

lemma upd_plan_ok:
  assumes "ledger_ok led" "plan_grows (led_plans led ! i) (f (led_plans led ! i))"
  shows "ledger_ok (upd_plan i f led)"
proof -
  have "keys_ok (upd_plan i f led)"
    using assms by (intro upd_plan_keys) (auto simp: ledger_ok_def plan_grows_def)
  then show ?thesis
    using assms grows_ok by (auto simp: ledger_ok_def all_ok_nth upd_plan_nth)
qed

text \<open>A plan that has just been created and given its precondition is finished.\<close>

lemma new_plan_ok: "plan_ok (vfdw_ledger_precondition True kind rn (vfdw_ledger_add_relid r (new_plan k t)))"
  by (auto simp: plan_ok_def vfdw_ledger_precondition_def vfdw_ledger_add_relid_def new_plan_def
      vfdw_ledger_add_check_def vfdw_ledger_step_def require_check_def)

text \<open>Finding the plan, recording the relation and establishing the precondition.\<close>

lemma touch_plan:
  assumes ok: "ledger_ok led" and pf: "vfdw_ledger_plan_for k t led = (led1, i, first)"
    and l3: "led3 = upd_plan i (vfdw_ledger_precondition first kind rn)
               (upd_plan i (vfdw_ledger_add_relid r) led1)"
  shows "ledger_ok led3" "i < length (led_plans led3)" "plan_key (led_plans led3 ! i) = k"
    "plans_grow (led_plans led) (led_plans led3)" "led_members led3 = led_members led"
proof -
  have kk: "keys_ok led" using ok by (simp add: ledger_ok_def)
  note pfs = plan_for_spec [OF kk pf]
  show i: "i < length (led_plans led3)" and "led_members led3 = led_members led"
    using pfs by (simp_all add: l3)
  let ?p = "led_plans led1 ! i"
  have ni: "led_plans led3 ! i = vfdw_ledger_precondition first kind rn (vfdw_ledger_add_relid r ?p)"
    using pfs(2) by (simp add: l3 upd_plan_nth)
  have nj: "led_plans led3 ! j = led_plans led1 ! j" if "j < length (led_plans led1)" "j \<noteq> i" for j
    using that by (simp add: l3 upd_plan_nth)
  have key: "plan_key (vfdw_ledger_precondition first kind rn (vfdw_ledger_add_relid r ?p)) = plan_key ?p"
    by (simp add: vfdw_ledger_precondition_def vfdw_ledger_add_relid_def vfdw_ledger_add_check_def)
  then show "plan_key (led_plans led3 ! i) = k" using ni pfs(3) by simp
  have len: "length (led_plans led3) = length (led_plans led1)" by (simp add: l3)
  have k3: "keys_ok led3"
    unfolding l3 using pfs(1,2) by (intro upd_plan_keys)
      (simp_all add: upd_plan_nth vfdw_ledger_precondition_def vfdw_ledger_add_relid_def vfdw_ledger_add_check_def)
  have "plan_ok (led_plans led3 ! j)" if j: "j < length (led_plans led1)" for j
  proof (cases first)
    case True
    then show ?thesis using j pfs(6) ni nj [OF j] ok new_plan_ok
      by (cases "j = i") (auto simp: nth_append ledger_ok_def)
  next
    case False
    then show ?thesis using j pfs(5) ni nj [OF j] ok grows_ok [OF grows_relid]
      by (cases "j = i") (auto simp: ledger_ok_def vfdw_ledger_precondition_def)
  qed
  then show "ledger_ok led3" using k3 len by (simp add: ledger_ok_def all_ok_nth)
  show "plans_grow (led_plans led) (led_plans led3)"
  proof (cases first)
    case True
    then show ?thesis using pfs(6) nj len by (auto simp: plans_grow_def nth_append)
  next
    case False
    have "plan_grows (led_plans led1 ! j) (led_plans led3 ! j)" if "j < length (led_plans led1)" for j
      using that False ni nj [OF that] by (cases "j = i") (auto simp: vfdw_ledger_precondition_def)
    then show ?thesis using False pfs(5) len by (auto simp: plans_grow_def)
  qed
qed

lemma upd_plan_no_precondition: "upd_plan i (vfdw_ledger_precondition False kind rn) led = led"
  by (simp add: upd_plan_def vfdw_ledger_precondition_def)

lemma fold_rename_ok:
  assumes ok: "ledger_ok led"
  shows "ledger_ok (vfdw_ledger_fold_rename i oper led) \<and>
         plans_grow (led_plans led) (led_plans (vfdw_ledger_fold_rename i oper led)) \<and>
         led_members (vfdw_ledger_fold_rename i oper led) = led_members led"
proof (cases "vfdw_ledger_is_rename oper")
  case False
  then show ?thesis using ok by (simp add: vfdw_ledger_fold_rename_def)
next
  case True
  define old where "old = the (op_oldkey oper)"
  define led1 where "led1 = upd_plan i (vfdw_ledger_act1 VFDW_ACT_RENAME old) led"
  define led2 where "led2 = upd_plan i (vfdw_ledger_keyset oper old False) led1"
  define led3 where "led3 = upd_plan i (vfdw_ledger_keyset oper (op_key oper) True) led2"
  obtain led4 j firstold where pf: "vfdw_ledger_plan_for old (op_tabletype oper) led3 = (led4, j, firstold)"
    by (metis surj_pair)
  define led6 where "led6 = upd_plan j (vfdw_ledger_precondition firstold VFDW_OP_UPDATE False)
                              (upd_plan j (vfdw_ledger_add_relid (op_relid oper)) led4)"
  have r: "vfdw_ledger_fold_rename i oper led = led6"
    using True pf
    by (simp add: vfdw_ledger_fold_rename_def Let_def led6_def upd_plan_no_precondition
        flip: old_def led1_def led2_def led3_def)
  have ok3: "ledger_ok led3"
    unfolding led3_def led2_def led1_def using ok by (intro upd_plan_ok) simp_all
  have "plans_grow (led_plans led) (led_plans led3)"
    unfolding led3_def led2_def led1_def
    by (intro plans_grow_trans [OF plans_grow_trans [OF upd_plan_grow upd_plan_grow] upd_plan_grow]) simp_all
  moreover have "led_members led3 = led_members led" by (simp add: led3_def led2_def led1_def)
  ultimately show ?thesis
    unfolding r using touch_plan [OF ok3 pf led6_def] plans_grow_trans by metis
qed

text \<open>What a successful note consists of.\<close>

lemma note_elim:
  assumes "vfdw_ledger_note oper led = Inr led'"
  obtains led1 i first led3 plan ms where
    "vfdw_ledger_plan_for (op_key oper) (op_tabletype oper) led = (led1, i, first)"
    "led3 = upd_plan i (vfdw_ledger_precondition first (op_kind oper) (vfdw_ledger_is_rename oper))
              (upd_plan i (vfdw_ledger_add_relid (op_relid oper)) led1)"
    "vfdw_ledger_check_duplicate
       (led_plans (upd_plan i (vfdw_ledger_add_relid (op_relid oper)) led1) ! i) oper first = Inr ()"
    "fold_op oper (led_plans (vfdw_ledger_fold_rename i oper led3) ! i,
                   led_members (vfdw_ledger_fold_rename i oper led3)) = Inr (plan, ms)"
    "led' = upd_plan i (\<lambda>_. plan) ((vfdw_ledger_fold_rename i oper led3)\<lparr>led_members := ms\<rparr>)"
  using assms unfolding vfdw_ledger_note_def
  by (auto simp: Let_def result_bind_Inr_iff split: prod.splits)

lemma ok_members: "ledger_ok (led\<lparr>led_members := ms\<rparr>) = ledger_ok led"
  by (simp add: ledger_ok_def keys_ok_def)

lemma note_ok:
  assumes ok: "ledger_ok led" and n: "vfdw_ledger_note oper led = Inr led'"
  shows "ledger_ok led' \<and> plans_grow (led_plans led) (led_plans led')"
  using n
proof (rule note_elim)
  fix led1 i first led3 plan ms
  assume pf: "vfdw_ledger_plan_for (op_key oper) (op_tabletype oper) led = (led1, i, first)"
    and l3: "led3 = upd_plan i (vfdw_ledger_precondition first (op_kind oper) (vfdw_ledger_is_rename oper))
              (upd_plan i (vfdw_ledger_add_relid (op_relid oper)) led1)"
    and f: "fold_op oper (led_plans (vfdw_ledger_fold_rename i oper led3) ! i,
                   led_members (vfdw_ledger_fold_rename i oper led3)) = Inr (plan, ms)"
    and l': "led' = upd_plan i (\<lambda>_. plan) ((vfdw_ledger_fold_rename i oper led3)\<lparr>led_members := ms\<rparr>)"
  note t = touch_plan [OF ok pf l3]
  note r = fold_rename_ok [OF t(1), of i oper]
  note g = grows_fold_op [OF f]
  have "ledger_ok led'" unfolding l' using r g by (intro upd_plan_ok) (auto simp: ok_members)
  moreover have "plans_grow (led_plans (vfdw_ledger_fold_rename i oper led3)) (led_plans led')"
    unfolding l' using g upd_plan_grow [of i "(vfdw_ledger_fold_rename i oper led3)\<lparr>led_members := ms\<rparr>" "\<lambda>_. plan"]
    by simp
  ultimately show ?thesis using t(4) r plans_grow_trans by metis
qed

lemma fold_notes_ok:
  assumes "ledger_ok led" and "result_fold vfdw_ledger_note ops led = Inr led'"
  shows "ledger_ok led' \<and> plans_grow (led_plans led) (led_plans led')"
  using result_fold_invariant [where P = "\<lambda>l. ledger_ok l \<and> plans_grow (led_plans led) (led_plans l)",
      OF assms(2)] assms(1) note_ok plans_grow_trans by blast

lemma ledger_distinct: 
  assumes "ledger_ok led"
  shows "distinct (map plan_key (led_plans led))"
proof -
  have k: "\<forall>k j. led_keys led (key_of k) = Some j \<longleftrightarrow>
          j < length (led_plans led) \<and> plan_key (led_plans led ! j) = k"
    using assms by (simp add: ledger_ok_def keys_ok_def)
  have "i = j" if "i < length (led_plans led)" "j < length (led_plans led)"
    "plan_key (led_plans led ! i) = plan_key (led_plans led ! j)" for i j
  proof -
    have "led_keys led (key_of (plan_key (led_plans led ! i))) = Some i"
      "led_keys led (key_of (plan_key (led_plans led ! i))) = Some j" using k that by simp_all
    then show ?thesis by simp
  qed
  then show ?thesis by (auto simp: distinct_conv_nth)
qed

lemma rebuild_ok: "vfdw_ledger_rebuild_from_buffer ops = Inr led \<Longrightarrow> ledger_ok led"
  using fold_notes_ok [OF reset_ok] by (simp add: vfdw_ledger_rebuild_from_buffer_def)

section \<open>Properties\<close>

lemmas ledger_exec = vfdw_ledger_rebuild_from_buffer_def vfdw_ledger_note_def vfdw_ledger_reset_def
  vfdw_ledger_plan_for_def key_of_def new_plan_def upd_plan_def vfdw_ledger_add_relid_def
  vfdw_ledger_add_check_def vfdw_ledger_add_action_def vfdw_ledger_act0_def vfdw_ledger_act1_def
  vfdw_ledger_act2_def vfdw_ledger_step_def vfdw_ledger_check_duplicate_def
  vfdw_ledger_precondition_def vfdw_ledger_is_rename_def vfdw_ledger_fold_rename_def fold_op_def
  vfdw_ledger_fold_key_delete_def vfdw_ledger_keyset_def fold_by_type_def revive_def zero_op_def
  Let_def

text \<open>C8. However the transaction's operations are ordered, every ledger they fold into is well
  formed: one plan per key, in first-touch order and found by the key table; step counters that
  match the steps (the encoder writes the counters, the server-side decoder trusts them); TYPE_OK
  as the first check and the check of the plan's requirement as the second; no other check of the
  whole key; and a plan still CREATED has demanded that the key be absent.\<close>

theorem ledger_well_formed:
  assumes "vfdw_ledger_rebuild_from_buffer ops = Inr led"
  shows "ledger_ok led"
  using assms by (rule rebuild_ok)

theorem ledger_well_formed_witness:
  "\<exists>led. vfdw_ledger_rebuild_from_buffer
           [zero_op\<lparr>op_key := ''b'', op_kind := VFDW_OP_UPDATE, op_oldkey := Some ''c''\<rparr>] = Inr led \<and> ledger_ok led"
proof -
  let ?r = "vfdw_ledger_rebuild_from_buffer
           [zero_op\<lparr>op_key := ''b'', op_kind := VFDW_OP_UPDATE, op_oldkey := Some ''c''\<rparr>]"
  have "\<not> isl ?r" by (simp add: ledger_exec)
  then have r: "?r = Inr (projr ?r)" by (cases ?r) simp_all
  from ledger_well_formed [OF r] show ?thesis using r by blast
qed

text \<open>What has been recorded stands: folding further operations, renames and deletes included,
  never changes the key, type or requirement of an existing plan, never drops or reorders a check
  or action, adds only field, member and list checks, and never turns a plan back into CREATED.
  The precondition of a key is therefore the one of its first operation.\<close>

theorem preconditions_are_final:
  assumes "ledger_ok led" and "result_fold vfdw_ledger_note ops led = Inr led'"
  shows "plans_grow (led_plans led) (led_plans led')"
  using fold_notes_ok [OF assms] by simp

theorem preconditions_are_final_witness:
  "\<exists>led'. result_fold vfdw_ledger_note [zero_op\<lparr>op_key := ''a'', op_value := Some ''1''\<rparr>] vfdw_ledger_reset = Inr led' \<and>
     plans_grow (led_plans vfdw_ledger_reset) (led_plans led')"
proof -
  let ?r = "result_fold vfdw_ledger_note [zero_op\<lparr>op_key := ''a'', op_value := Some ''1''\<rparr>] vfdw_ledger_reset"
  have "\<not> isl ?r" by (simp add: ledger_exec)
  then have r: "?r = Inr (projr ?r)" by (cases ?r) simp_all
  from preconditions_are_final [OF reset_ok r] show ?thesis using r by blast
qed

end
