(* ===== verification/Serial.thy ===== *)
theory Serial
  imports Ledger
begin

text \<open>
  What the ledger is for. The deferred writes are validated and applied at commit, one plan per
  key; this theory relates that to executing the operations one by one.

  \<open>run_plans\<close> applies the plans' actions key by key and \<open>note_apply\<close> applies each operation's new
  actions at once. For string tables \<open>string_step\<close> is the abstract specification of an operation on
  a keyspace, and \<open>serializable\<close> shows that a transaction that was consistent with the
  keyspace it read, and whose checks pass on the keyspace at commit, has exactly the effect of
  running it serially there.
\<close>

section \<open>Plans by key\<close>

definition plan_of :: "ledger \<Rightarrow> bytes \<Rightarrow> VfdwKeyPlan option" where
  "plan_of led k = map_option (\<lambda>i. led_plans led ! i) (led_keys led (key_of k))"

definition actions_of :: "ledger \<Rightarrow> bytes \<Rightarrow> action_step list" where
  "actions_of led k = (case plan_of led k of None \<Rightarrow> [] | Some p \<Rightarrow> plan_actions p)"

text \<open>The plan a non-renaming operation folds into: the key's plan, or a new one.\<close>

definition touched_plan :: "VfdwWriteOp \<Rightarrow> ledger \<Rightarrow> VfdwKeyPlan" where
  "touched_plan oper led =
     (case plan_of led (op_key oper) of
        Some p \<Rightarrow> vfdw_ledger_add_relid (op_relid oper) p
      | None \<Rightarrow> vfdw_ledger_precondition True (op_kind oper) False
                  (vfdw_ledger_add_relid (op_relid oper) (new_plan (op_key oper) (op_tabletype oper))))"

lemma plan_of_reset [simp]: "plan_of vfdw_ledger_reset k = None"
  by (simp add: plan_of_def vfdw_ledger_reset_def)

lemma plan_of_SomeD:
  "ledger_ok led \<Longrightarrow> plan_of led k = Some p \<Longrightarrow> p \<in> set (led_plans led) \<and> plan_key p = k"
  by (auto simp: plan_of_def ledger_ok_def keys_ok_def)

lemma plan_of_member:
  assumes "ledger_ok led" and "p \<in> set (led_plans led)"
  shows "plan_of led (plan_key p) = Some p"
proof -
  obtain i where i: "i < length (led_plans led)" "led_plans led ! i = p"
    using assms(2) by (auto simp: in_set_conv_nth)
  have "\<forall>k j. led_keys led (key_of k) = Some j \<longleftrightarrow>
          j < length (led_plans led) \<and> plan_key (led_plans led ! j) = k"
    using assms(1) by (simp add: ledger_ok_def keys_ok_def)
  then have "led_keys led (key_of (plan_key p)) = Some i" using i by blast
  then show ?thesis using i by (simp add: plan_of_def)
qed

lemma plan_of_None: "ledger_ok led \<Longrightarrow> plan_of led k = None \<longleftrightarrow> k \<notin> plan_key ` set (led_plans led)"
  using plan_of_member plan_of_SomeD by (metis image_iff not_Some_eq)

text \<open>What a non-renaming note does, seen through \<open>plan_of\<close>.\<close>

lemma note_plain:
  assumes ok: "ledger_ok led" and plain: "\<not> vfdw_ledger_is_rename oper"
  shows "vfdw_ledger_note oper led =
    result_bind (case plan_of led (op_key oper) of
                   None \<Rightarrow> Inr () | Some p \<Rightarrow> vfdw_ledger_check_duplicate p oper False) (\<lambda>_.
    result_bind (fold_op oper (touched_plan oper led, led_members led)) (\<lambda>(plan, ms).
      let (led1, i, first) = vfdw_ledger_plan_for (op_key oper) (op_tabletype oper) led
      in Inr (upd_plan i (\<lambda>_. plan) (led1\<lparr>led_members := ms\<rparr>))))"
proof -
  obtain led1 i first where pf: "vfdw_ledger_plan_for (op_key oper) (op_tabletype oper) led = (led1, i, first)"
    by (metis surj_pair)
  have kk: "keys_ok led" using ok by (simp add: ledger_ok_def)
  note s = plan_for_spec [OF kk pf]
  let ?led2 = "upd_plan i (vfdw_ledger_add_relid (op_relid oper)) led1"
  let ?led3 = "upd_plan i (vfdw_ledger_precondition first (op_kind oper) False) ?led2"
  have first: "first \<longleftrightarrow> plan_of led (op_key oper) = None"
    using s(7) plan_of_None [OF ok] by simp
  have p: "plan_of led (op_key oper) = Some (led_plans led1 ! i)" if "\<not> first"
    using that s(2,3,5) plan_of_member [OF ok, of "led_plans led1 ! i"] by auto
  have p2: "led_plans ?led2 ! i = vfdw_ledger_add_relid (op_relid oper) (led_plans led1 ! i)"
    using s(2) by (simp add: upd_plan_nth)
  have p3: "led_plans ?led3 ! i = touched_plan oper led"
  proof (cases first)
    case True
    then show ?thesis using s(2) s(6) first by (simp add: upd_plan_nth touched_plan_def nth_append)
  next
    case False
    then show ?thesis using s(2) p by (simp add: upd_plan_nth touched_plan_def vfdw_ledger_precondition_def)
  qed
  have dup: "vfdw_ledger_check_duplicate (led_plans ?led2 ! i) oper first =
      (case plan_of led (op_key oper) of None \<Rightarrow> Inr () | Some q \<Rightarrow> vfdw_ledger_check_duplicate q oper False)"
    using first p p2 by (cases first) (auto simp: vfdw_ledger_check_duplicate_def vfdw_ledger_add_relid_def)
  have ren: "vfdw_ledger_fold_rename i oper l = l" for l
    using plain by (simp add: vfdw_ledger_fold_rename_def)
  have over: "upd_plan i (\<lambda>_. plan) (?led3\<lparr>led_members := ms\<rparr>) = upd_plan i (\<lambda>_. plan) (led1\<lparr>led_members := ms\<rparr>)"
    for plan ms by (simp add: upd_plan_def)
  show ?thesis
    unfolding vfdw_ledger_note_def pf Let_def prod.case dup ren using plain s(4)
    by (simp add: p3 over cong: result_bind_cong)
qed

lemma touched_plan_key [simp]: "ledger_ok led \<Longrightarrow> plan_key (touched_plan oper led) = op_key oper"
  by (auto simp: touched_plan_def vfdw_ledger_add_relid_def vfdw_ledger_precondition_def
      vfdw_ledger_add_check_def dest: plan_of_SomeD split: option.splits)

lemma note_plain_effect:
  assumes ok: "ledger_ok led" and plain: "\<not> vfdw_ledger_is_rename oper"
    and n: "vfdw_ledger_note oper led = Inr led'"
  obtains plan ms where "fold_op oper (touched_plan oper led, led_members led) = Inr (plan, ms)"
    "\<And>k. plan_of led' k = (if k = op_key oper then Some plan else plan_of led k)"
    "led_members led' = ms"
proof -
  obtain led1 i first where pf: "vfdw_ledger_plan_for (op_key oper) (op_tabletype oper) led = (led1, i, first)"
    by (metis surj_pair)
  have kk: "keys_ok led" using ok by (simp add: ledger_ok_def)
  note s = plan_for_spec [OF kk pf]
  from n obtain plan ms where f: "fold_op oper (touched_plan oper led, led_members led) = Inr (plan, ms)"
    and l': "led' = upd_plan i (\<lambda>_. plan) (led1\<lparr>led_members := ms\<rparr>)"
    by (auto simp: note_plain [OF ok plain] result_bind_Inr_iff pf)
  have key: "plan_key plan = op_key oper"
    using grows_fold_op [OF f] ok by (simp add: plan_grows_def)
  have ok': "ledger_ok led'" using note_ok [OF ok n] by simp
  have plans': "led_plans led' = (led_plans led1)[i := plan]" by (simp add: l' upd_plan_def)
  have "plan_of led' k = (if k = op_key oper then Some plan else plan_of led k)" for k
  proof (cases "k = op_key oper")
    case True
    have "plan \<in> set (led_plans led')" unfolding plans' using s(2) by (rule set_update_memI)
    then show ?thesis using plan_of_member [OF ok'] key True by force
  next
    case False
    have old: "plan_of led1 k = plan_of led k"
    proof -
      have bound: "j < length (led_plans led)" if "led_keys led (key_of k) = Some j" for j
        using that kk by (simp add: keys_ok_def)
      show ?thesis
        using False pf bound
        by (cases "led_keys led (key_of k)")
           (auto simp: vfdw_ledger_plan_for_def plan_of_def Let_def nth_append split: option.splits)
    qed
    have "j \<noteq> i" if "led_keys led1 (key_of k) = Some j" for j
      using that s(1,3) False by (auto simp: keys_ok_def)
    then have "plan_of led' k = plan_of led1 k"
      by (cases "led_keys led1 (key_of k)") (auto simp: l' plan_of_def upd_plan_def)
    then show ?thesis using old False by simp
  qed
  moreover have "led_members led' = ms" by (simp add: l')
  ultimately show ?thesis using f that by blast
qed

section \<open>Deferred and immediate application\<close>

text \<open>
  A keyspace is a function from keys to values of any kind; \<open>act\<close> is what the server does to the
  value at a key for one action.
\<close>

definition run_plan :: "(action_step \<Rightarrow> 'v \<Rightarrow> 'v) \<Rightarrow> VfdwKeyPlan \<Rightarrow> (bytes \<Rightarrow> 'v) \<Rightarrow> bytes \<Rightarrow> 'v" where
  "run_plan act p db = db(plan_key p := fold act (plan_actions p) (db (plan_key p)))"

definition run_plans :: "(action_step \<Rightarrow> 'v \<Rightarrow> 'v) \<Rightarrow> VfdwKeyPlan list \<Rightarrow> (bytes \<Rightarrow> 'v) \<Rightarrow> bytes \<Rightarrow> 'v" where
  "run_plans act ps = fold (run_plan act) ps"

text \<open>Folding one operation and applying what it added to its key's plan straight away.\<close>

definition note_apply ::
  "(action_step \<Rightarrow> 'v \<Rightarrow> 'v) \<Rightarrow> VfdwWriteOp \<Rightarrow> ledger \<times> (bytes \<Rightarrow> 'v) \<Rightarrow> (ledger \<times> (bytes \<Rightarrow> 'v)) result" where
  "note_apply act oper = (\<lambda>(led, db).
     result_bind (vfdw_ledger_note oper led) (\<lambda>led'.
       let k = op_key oper; new = drop (length (actions_of led k)) (actions_of led' k)
       in Inr (led', db(k := fold act new (db k)))))"

lemma run_plans_other: "k \<notin> plan_key ` set ps \<Longrightarrow> run_plans act ps db k = db k"
  unfolding run_plans_def by (induction ps arbitrary: db) (auto simp: run_plan_def)

lemma run_plans_at:
  assumes "distinct (map plan_key ps)" and "p \<in> set ps"
  shows "run_plans act ps db (plan_key p) = fold act (plan_actions p) (db (plan_key p))"
  using assms
proof (induction ps arbitrary: db)
  case (Cons q ps)
  show ?case
  proof (cases "p = q")
    case True
    then have "plan_key p \<notin> plan_key ` set ps" using Cons.prems(1) by simp
    from run_plans_other [OF this, of act "run_plan act q db"] show ?thesis
      using True by (simp add: run_plans_def run_plan_def)
  next
    case False
    then have p: "p \<in> set ps" using Cons.prems by simp
    then have "plan_key p \<in> plan_key ` set ps" by simp
    then have "plan_key p \<noteq> plan_key q" using Cons.prems(1) by auto
    with p Cons show ?thesis by (simp add: run_plans_def run_plan_def)
  qed
qed simp

lemma run_ledger:
  assumes "ledger_ok led"
  shows "run_plans act (led_plans led) db k = fold act (actions_of led k) (db k)"
proof (cases "plan_of led k")
  case None
  then show ?thesis using plan_of_None [OF assms, of k] by (simp add: actions_of_def run_plans_other)
next
  case (Some p)
  then show ?thesis
    using run_plans_at [OF ledger_distinct [OF assms], of p act db] plan_of_SomeD [OF assms Some]
    by (simp add: actions_of_def)
qed

lemma touched_plan_actions: "plan_actions (touched_plan oper led) = actions_of led (op_key oper)"
  by (simp add: touched_plan_def actions_of_def vfdw_ledger_add_relid_def vfdw_ledger_precondition_def
      vfdw_ledger_add_check_def split: option.splits)

lemma note_actions:
  assumes "ledger_ok led" "\<not> vfdw_ledger_is_rename oper" "vfdw_ledger_note oper led = Inr led'"
  shows "\<exists>new. actions_of led' (op_key oper) = actions_of led (op_key oper) @ new"
    and "k \<noteq> op_key oper \<Longrightarrow> actions_of led' k = actions_of led k"
proof -
  from note_plain_effect [OF assms] obtain plan ms where
    f: "fold_op oper (touched_plan oper led, led_members led) = Inr (plan, ms)"
    and p: "\<And>k. plan_of led' k = (if k = op_key oper then Some plan else plan_of led k)" by blast
  show "\<exists>new. actions_of led' (op_key oper) = actions_of led (op_key oper) @ new"
    using grows_fold_op [OF f] touched_plan_actions [of oper led] p
    by (auto simp: plan_grows_def actions_of_def)
  show "k \<noteq> op_key oper \<Longrightarrow> actions_of led' k = actions_of led k"
    using p by (simp add: actions_of_def)
qed

lemma immediate_tracks:
  assumes "result_fold (note_apply act) ops (vfdw_ledger_reset, db) = Inr (led, db')"
    and "\<forall>oper \<in> set ops. \<not> vfdw_ledger_is_rename oper"
  shows "ledger_ok led \<and> (\<forall>k. db' k = fold act (actions_of led k) (db k))"
proof -
  let ?P = "\<lambda>(l, d). ledger_ok l \<and> (\<forall>k. d k = fold act (actions_of l k) (db k))"
  have "?P (led, db')"
  proof (rule result_fold_invariant [where P = ?P, OF assms(1)])
    show "?P (vfdw_ledger_reset, db)" using reset_ok by (simp add: actions_of_def)
  next
    fix oper u v
    assume o: "oper \<in> set ops" and u: "?P u" and s: "note_apply act oper u = Inr v"
    obtain l d where ld: "u = (l, d)" by force
    from s obtain l' where n: "vfdw_ledger_note oper l = Inr l'"
      and v: "v = (l', d(op_key oper := fold act (drop (length (actions_of l (op_key oper)))
                (actions_of l' (op_key oper))) (d (op_key oper))))"
      by (auto simp: note_apply_def ld result_bind_Inr_iff Let_def)
    have ok: "ledger_ok l" using u ld by simp
    have pl: "\<not> vfdw_ledger_is_rename oper" using assms(2) o by blast
    obtain new where new: "actions_of l' (op_key oper) = actions_of l (op_key oper) @ new"
      using note_actions(1) [OF ok pl n] by blast
    show "?P v"
      using u note_ok [OF ok n] note_actions(2) [OF ok pl n] new by (auto simp: v ld)
  qed
  then show ?thesis by simp
qed

section \<open>String tables: the abstract specification\<close>

text \<open>
  A row of a string table is a key and a value. Executed on its own against a keyspace, an INSERT
  needs the key absent, an UPDATE or DELETE needs it present; \<open>None\<close> is a failed statement.
\<close>

definition string_step :: "VfdwWriteOp \<Rightarrow> (bytes \<rightharpoonup> bytes) \<Rightarrow> (bytes \<rightharpoonup> bytes) option" where
  "string_step oper db =
     (let k = op_key oper;
          written = (case op_value oper of Some v \<Rightarrow> db(k \<mapsto> v) | None \<Rightarrow> db)
      in case op_kind oper of
           VFDW_OP_INSERT \<Rightarrow> if db k = None then Some written else None
         | VFDW_OP_UPDATE \<Rightarrow> if db k \<noteq> None then Some written else None
         | VFDW_OP_DELETE \<Rightarrow> if db k \<noteq> None then Some (db(k := None)) else None)"

fun string_run :: "VfdwWriteOp list \<Rightarrow> (bytes \<rightharpoonup> bytes) \<Rightarrow> (bytes \<rightharpoonup> bytes) option" where
  "string_run [] db = Some db"
| "string_run (oper # ops) db = Option.bind (string_step oper db) (string_run ops)"

lemma string_run_snoc: "string_run (ops @ [oper]) db = Option.bind (string_run ops db) (string_step oper)"
proof (induction ops arbitrary: db)
  case Nil
  then show ?case by (cases "string_step oper db") simp_all
next
  case (Cons x xs)
  then show ?case by (cases "string_step x db") simp_all
qed

text \<open>An operation of a string table that does not rename and keeps no keyset.\<close>

definition string_write :: "VfdwWriteOp \<Rightarrow> bool" where
  "string_write oper \<longleftrightarrow>
     op_tabletype oper = VFDW_TABLE_STRING \<and> \<not> op_packed_shape oper \<and> op_keyset oper = None \<and>
     \<not> vfdw_ledger_is_rename oper \<and> (op_kind oper = VFDW_OP_INSERT \<longrightarrow> op_value oper \<noteq> None)"

text \<open>The server's view of the two actions and two key checks such a plan can hold.\<close>

definition string_act :: "action_step \<Rightarrow> bytes option \<Rightarrow> bytes option" where
  "string_act s v =
     (case step_op s of
        VFDW_ACT_SET \<Rightarrow> (case step_args s of [x] \<Rightarrow> Some x | _ \<Rightarrow> v)
      | VFDW_ACT_DEL \<Rightarrow> None
      | _ \<Rightarrow> v)"

definition string_check :: "check_step \<Rightarrow> bytes option \<Rightarrow> bool" where
  "string_check s v =
     (case step_op s of
        VFDW_CHK_KEY_ABSENT \<Rightarrow> v = None
      | VFDW_CHK_KEY_PRESENT \<Rightarrow> v \<noteq> None
      | _ \<Rightarrow> True)"

definition checks_pass :: "ledger \<Rightarrow> (bytes \<rightharpoonup> bytes) \<Rightarrow> bool" where
  "checks_pass led db \<longleftrightarrow>
     (\<forall>p \<in> set (led_plans led). \<forall>c \<in> set (plan_checks p). string_check c (db (plan_key p)))"

lemma checks_pass_antimono:
  assumes "plans_grow (led_plans led) (led_plans led')" and "checks_pass led' db"
  shows "checks_pass led db"
proof -
  have "string_check c (db (plan_key (led_plans led ! i)))"
    if "i < length (led_plans led)" "c \<in> set (plan_checks (led_plans led ! i))" for i c
  proof -
    have g: "plan_grows (led_plans led ! i) (led_plans led' ! i)" and i: "i < length (led_plans led')"
      using assms(1) that(1) by (auto simp: plans_grow_def)
    then have "c \<in> set (plan_checks (led_plans led' ! i))" "plan_key (led_plans led' ! i) = plan_key (led_plans led ! i)"
      using that(2) by (auto simp: plan_grows_def)
    then show ?thesis using assms(2) i by (metis checks_pass_def nth_mem)
  qed
  then show ?thesis unfolding checks_pass_def by (metis in_set_conv_nth)
qed

lemma member_check_passes: "member_check c \<Longrightarrow> string_check c v"
  by (auto simp: member_check_def string_check_def split: VfdwCheckOp.splits)

text \<open>On a finished plan only the requirement matters.\<close>

lemma plan_checks_iff:
  assumes "plan_ok p"
  shows "(\<forall>c \<in> set (plan_checks p). string_check c v) \<longleftrightarrow>
         (plan_require p = VFDW_REQ_KEY_ABSENT \<and> v = None \<or> plan_require p = VFDW_REQ_KEY_PRESENT \<and> v \<noteq> None)"
proof -
  from assms obtain c cs where c: "require_check (plan_require p) = Some c"
    "plan_checks p = vfdw_ledger_step VFDW_CHK_TYPE_OK [] # vfdw_ledger_step c [] # cs"
    "\<forall>x \<in> set cs. string_check x v"
    using member_check_passes by (fastforce simp: plan_ok_def)
  then show ?thesis
    by (auto simp: string_check_def vfdw_ledger_step_def require_check_def split: VfdwRequire.splits)
qed

definition require_holds :: "VfdwKeyPlan \<Rightarrow> 'v option \<Rightarrow> bool" where
  "require_holds p v \<longleftrightarrow> plan_require p = VFDW_REQ_KEY_ABSENT \<and> v = None \<or>
                          plan_require p = VFDW_REQ_KEY_PRESENT \<and> v \<noteq> None"

lemma checks_pass_iff:
  assumes "ledger_ok led"
  shows "checks_pass led db \<longleftrightarrow> (\<forall>k p. plan_of led k = Some p \<longrightarrow> require_holds p (db k))"
proof -
  have iff: "(\<forall>c \<in> set (plan_checks p). string_check c v) \<longleftrightarrow> require_holds p v"
    if "p \<in> set (led_plans led)" for p v
    using that assms plan_checks_iff [of p v] by (simp add: ledger_ok_def require_holds_def)
  show ?thesis
  proof
    assume "checks_pass led db"
    then show "\<forall>k p. plan_of led k = Some p \<longrightarrow> require_holds p (db k)"
      using iff by (fastforce simp: checks_pass_def dest: plan_of_SomeD [OF assms])
  next
    assume "\<forall>k p. plan_of led k = Some p \<longrightarrow> require_holds p (db k)"
    then show "checks_pass led db"
      using iff plan_of_member [OF assms] by (simp add: checks_pass_def)
  qed
qed

text \<open>The fold of a string operation into its plan.\<close>

lemma fold_op_string:
  assumes "string_write oper"
  shows "fold_op oper (p, ms) =
    Inr (case op_kind oper of
           VFDW_OP_DELETE \<Rightarrow> (vfdw_ledger_act0 VFDW_ACT_DEL p)\<lparr>plan_state := VFDW_KEY_DELETED\<rparr>
         | _ \<Rightarrow> revive (case op_value oper of Some v \<Rightarrow> vfdw_ledger_act1 VFDW_ACT_SET v p | None \<Rightarrow> p), ms)"
  using assms
  by (cases "op_kind oper")
     (auto simp: fold_op_def string_write_def vfdw_ledger_fold_key_delete_def vfdw_ledger_keyset_def
       fold_by_type_def split: option.splits)

lemma touched_plan_Some:
  "plan_of led (op_key oper) = Some p \<Longrightarrow> touched_plan oper led = vfdw_ledger_add_relid (op_relid oper) p"
  by (simp add: touched_plan_def)

lemma relid_simps [simp]:
  "plan_state (vfdw_ledger_add_relid r p) = plan_state p"
  "plan_require (vfdw_ledger_add_relid r p) = plan_require p"
  "plan_ttype (vfdw_ledger_add_relid r p) = plan_ttype p"
  "plan_actions (vfdw_ledger_add_relid r p) = plan_actions p"
  by (simp_all add: vfdw_ledger_add_relid_def)

section \<open>The simulation\<close>

text \<open>
  What holds of the plan of a key after the operations so far: \<open>w0\<close> is the value the transaction
  started from, \<open>w\<close> the value it has reached by serial execution.
\<close>

definition accepts :: "VfdwKeyPlan option \<Rightarrow> bytes option \<Rightarrow> bytes option \<Rightarrow> bool" where
  "accepts po w0 w \<longleftrightarrow>
     (case po of
        None \<Rightarrow> w = w0
      | Some p \<Rightarrow> plan_ttype p = VFDW_TABLE_STRING \<and> (plan_state p = VFDW_KEY_DELETED \<longleftrightarrow> w = None) \<and>
                  require_holds p w0 \<and> w = fold string_act (plan_actions p) w0)"

definition folded_plan :: "VfdwWriteOp \<Rightarrow> VfdwKeyPlan \<Rightarrow> VfdwKeyPlan" where
  "folded_plan oper p =
     (case op_kind oper of
        VFDW_OP_DELETE \<Rightarrow> (vfdw_ledger_act0 VFDW_ACT_DEL p)\<lparr>plan_state := VFDW_KEY_DELETED\<rparr>
      | _ \<Rightarrow> revive (case op_value oper of Some v \<Rightarrow> vfdw_ledger_act1 VFDW_ACT_SET v p | None \<Rightarrow> p))"

lemma folded_plan_simps:
  "plan_ttype (folded_plan oper p) = plan_ttype p"
  "plan_require (folded_plan oper p) = plan_require p"
  "fold string_act (plan_actions (folded_plan oper p)) w =
     (let w' = fold string_act (plan_actions p) w in
      case op_kind oper of VFDW_OP_DELETE \<Rightarrow> None | _ \<Rightarrow> (case op_value oper of Some v \<Rightarrow> Some v | None \<Rightarrow> w'))"
  "plan_state (folded_plan oper p) = VFDW_KEY_DELETED \<longleftrightarrow> op_kind oper = VFDW_OP_DELETE"
  by (auto simp: folded_plan_def vfdw_ledger_act0_def vfdw_ledger_act1_def vfdw_ledger_add_action_def
      revive_def string_act_def vfdw_ledger_step_def Let_def split: VfdwOpKind.splits option.splits)

lemma touched_plan_None:
  assumes "plan_of led (op_key oper) = None" "string_write oper"
  shows "plan_ttype (touched_plan oper led) = VFDW_TABLE_STRING"
    "plan_actions (touched_plan oper led) = []"
    "plan_require (touched_plan oper led) =
       (if op_kind oper = VFDW_OP_INSERT then VFDW_REQ_KEY_ABSENT else VFDW_REQ_KEY_PRESENT)"
  using assms
  by (auto simp: touched_plan_def vfdw_ledger_precondition_def vfdw_ledger_add_check_def
      vfdw_ledger_add_relid_def string_write_def new_plan_def)

text \<open>One operation against a keyspace on which the updated plan's requirement holds.\<close>

lemma string_step_accepts:
  assumes sw: "string_write oper" and acc: "accepts (plan_of led (op_key oper)) (db0 (op_key oper)) (db (op_key oper))"
    and step: "string_step oper db = Some db'"
  shows "accepts (Some (folded_plan oper (touched_plan oper led))) (db0 (op_key oper)) (db' (op_key oper))"
proof (cases "plan_of led (op_key oper)")
  case None
  then have w: "db (op_key oper) = db0 (op_key oper)" using acc by (simp add: accepts_def)
  show ?thesis
    using touched_plan_None [OF None sw] w step sw
    by (auto simp: accepts_def folded_plan_simps string_step_def Let_def require_holds_def string_write_def
        split: VfdwOpKind.splits if_splits option.splits)
next
  case (Some p)
  show ?thesis
    using acc step sw
    by (auto simp: accepts_def Some folded_plan_simps touched_plan_Some [OF Some] string_step_def Let_def
        require_holds_def string_write_def split: VfdwOpKind.splits if_splits option.splits)
qed

lemma string_step_other: "string_step oper db = Some db' \<Longrightarrow> k \<noteq> op_key oper \<Longrightarrow> db' k = db k"
  by (auto simp: string_step_def Let_def split: VfdwOpKind.splits if_splits option.splits)

definition tracks :: "ledger \<Rightarrow> (bytes \<rightharpoonup> bytes) \<Rightarrow> (bytes \<rightharpoonup> bytes) \<Rightarrow> bool" where
  "tracks led db0 db \<longleftrightarrow> ledger_ok led \<and> (\<forall>k. accepts (plan_of led k) (db0 k) (db k))"

lemma note_string:
  assumes ok: "ledger_ok led" and sw: "string_write oper" and n: "vfdw_ledger_note oper led = Inr led'"
  shows "plan_of led' k = (if k = op_key oper then Some (folded_plan oper (touched_plan oper led)) else plan_of led k)"
proof -
  have "\<not> vfdw_ledger_is_rename oper" using sw by (simp add: string_write_def)
  from note_plain_effect [OF ok this n] show ?thesis
    by (metis Inr_inject Pair_inject fold_op_string [OF sw] folded_plan_def)
qed

lemma tracks_step:
  assumes t: "tracks led db0 db" and sw: "string_write oper"
    and step: "string_step oper db = Some db'" and n: "vfdw_ledger_note oper led = Inr led'"
  shows "tracks led' db0 db'"
proof -
  have ok: "ledger_ok led" using t by (simp add: tracks_def)
  have "accepts (plan_of led' k) (db0 k) (db' k)" for k
    using t string_step_accepts [OF sw _ step] string_step_other [OF step, of k]
    unfolding note_string [OF ok sw n] tracks_def by (cases "k = op_key oper") simp_all
  then show ?thesis using note_ok [OF ok n] by (simp add: tracks_def)
qed

lemma note_string_accepted:
  assumes t: "tracks led db0 db" and sw: "string_write oper" and step: "string_step oper db = Some db'"
  shows "\<exists>led'. vfdw_ledger_note oper led = Inr led'"
proof -
  have ok: "ledger_ok led" and acc: "accepts (plan_of led (op_key oper)) (db0 (op_key oper)) (db (op_key oper))"
    using t by (simp_all add: tracks_def)
  have "(case plan_of led (op_key oper) of None \<Rightarrow> Inr () | Some p \<Rightarrow> vfdw_ledger_check_duplicate p oper False) = Inr ()"
    using acc step by (auto simp: accepts_def vfdw_ledger_check_duplicate_def string_step_def Let_def
        split: option.splits VfdwOpKind.splits if_splits)
  moreover have "\<not> vfdw_ledger_is_rename oper" using sw by (simp add: string_write_def)
  ultimately show ?thesis
    by (simp add: note_plain [OF ok] fold_op_string [OF sw] split: prod.splits)
qed

lemma tracks_run:
  assumes "\<forall>oper \<in> set ops. string_write oper" and "string_run ops db0 = Some db"
  shows "\<exists>led. vfdw_ledger_rebuild_from_buffer ops = Inr led \<and> tracks led db0 db"
  using assms
proof (induction ops arbitrary: db rule: rev_induct)
  case Nil
  then show ?case using reset_ok
    by (simp add: vfdw_ledger_rebuild_from_buffer_def tracks_def accepts_def)
next
  case (snoc oper ops)
  then obtain dbm where m: "string_run ops db0 = Some dbm" "string_step oper dbm = Some db"
    by (auto simp: string_run_snoc bind_eq_Some_conv)
  from snoc obtain led where led: "vfdw_ledger_rebuild_from_buffer ops = Inr led" "tracks led db0 dbm"
    using m(1) by auto
  have sw: "string_write oper" using snoc.prems by simp
  from note_string_accepted [OF led(2) sw m(2)] obtain led' where n: "vfdw_ledger_note oper led = Inr led'" ..
  then show ?case
    using led(1) tracks_step [OF led(2) sw m(2) n]
    by (auto simp: vfdw_ledger_rebuild_from_buffer_def result_fold_snoc)
qed

text \<open>
  Two keyspaces on which the same requirements hold agree on which touched keys are present, so a
  run that succeeds on one succeeds on the other.
\<close>

lemma step_transfers:
  assumes t1: "tracks led db1 d1" and t2: "tracks led db2 d2" and sw: "string_write oper"
    and step: "string_step oper d1 = Some d1'"
    and n: "vfdw_ledger_note oper led = Inr led'" and chk: "checks_pass led' db2"
  shows "\<exists>d2'. string_step oper d2 = Some d2'"
proof -
  let ?k = "op_key oper"
  have ok: "ledger_ok led" using t1 by (simp add: tracks_def)
  have ok': "ledger_ok led'" using note_ok [OF ok n] by simp
  have a1: "accepts (plan_of led ?k) (db1 ?k) (d1 ?k)" and a2: "accepts (plan_of led ?k) (db2 ?k) (d2 ?k)"
    using t1 t2 by (simp_all add: tracks_def)
  have req: "require_holds (folded_plan oper (touched_plan oper led)) (db2 ?k)"
    using chk note_string [OF ok sw n, of ?k] by (simp add: checks_pass_iff [OF ok'])
  have "d2 ?k = None \<longleftrightarrow> d1 ?k = None"
  proof (cases "plan_of led ?k")
    case None
    then show ?thesis
      using a1 a2 req touched_plan_None [OF None sw] step
      by (auto simp: accepts_def require_holds_def folded_plan_simps string_step_def Let_def
          split: VfdwOpKind.splits if_splits)
  next
    case (Some p)
    then show ?thesis using a1 a2 by (auto simp: accepts_def)
  qed
  then show ?thesis using step
    by (auto simp: string_step_def Let_def split: VfdwOpKind.splits if_splits)
qed

lemma tracks_transfer:
  assumes "\<forall>oper \<in> set ops. string_write oper" and "string_run ops db1 = Some d1"
    and "vfdw_ledger_rebuild_from_buffer ops = Inr led" and "checks_pass led db2"
  shows "\<exists>d2. string_run ops db2 = Some d2 \<and> tracks led db2 d2"
  using assms
proof (induction ops arbitrary: d1 led rule: rev_induct)
  case Nil
  then show ?case using reset_ok
    by (simp add: vfdw_ledger_rebuild_from_buffer_def tracks_def accepts_def)
next
  case (snoc oper ops)
  from snoc.prems obtain dm where m: "string_run ops db1 = Some dm" "string_step oper dm = Some d1"
    by (auto simp: string_run_snoc bind_eq_Some_conv)
  from snoc.prems(3) obtain ledm where lm: "vfdw_ledger_rebuild_from_buffer ops = Inr ledm"
    and n: "vfdw_ledger_note oper ledm = Inr led"
    by (auto simp: vfdw_ledger_rebuild_from_buffer_def result_fold_snoc result_bind_Inr_iff)
  have sw: "string_write oper" and sws: "\<forall>oper \<in> set ops. string_write oper" using snoc.prems(1) by auto
  have t1: "tracks ledm db1 dm" using tracks_run [OF sws m(1)] lm by auto
  have "ledger_ok ledm" using t1 by (simp add: tracks_def)
  then have "checks_pass ledm db2" using note_ok [OF _ n] checks_pass_antimono snoc.prems(4) by blast
  then obtain d2 where d2: "string_run ops db2 = Some d2" "tracks ledm db2 d2"
    using snoc.IH [OF sws m(1) lm] by blast
  obtain d2' where s2: "string_step oper d2 = Some d2'"
    using step_transfers [OF t1 d2(2) sw m(2) n snoc.prems(4)] by blast
  then show ?case using d2(1) tracks_step [OF d2(2) sw s2 n] by (auto simp: string_run_snoc)
qed

lemma tracks_final: 
  assumes "tracks led db0 db"
  shows "db = run_plans string_act (led_plans led) db0" "checks_pass led db0"
proof -
  have ok: "ledger_ok led" using assms by (simp add: tracks_def)
  show "db = run_plans string_act (led_plans led) db0"
  proof
    fix k
    have "accepts (plan_of led k) (db0 k) (db k)" using assms by (simp add: tracks_def)
    then show "db k = run_plans string_act (led_plans led) db0 k"
      by (auto simp: run_ledger [OF ok] actions_of_def accepts_def split: option.splits)
  qed
  show "checks_pass led db0"
    using assms by (auto simp: checks_pass_iff [OF ok] tracks_def accepts_def dest: spec split: option.splits)
qed

section \<open>Lists: the occurrence checks\<close>

text \<open>
  A list row is one occurrence of a value. Serially, an INSERT adds an occurrence and a DELETE
  needs one to remove. The bag counts the occurrences of each value in the list.
\<close>

definition bag_step :: "VfdwWriteOp \<Rightarrow> (bytes \<Rightarrow> nat) \<Rightarrow> (bytes \<Rightarrow> nat) option" where
  "bag_step oper n =
     (case op_member oper of
        None \<Rightarrow> Some n
      | Some v \<Rightarrow> if op_kind oper = VFDW_OP_DELETE
                  then (if n v > 0 then Some (n(v := n v - 1)) else None)
                  else Some (n(v := n v + 1)))"

fun bag_run :: "VfdwWriteOp list \<Rightarrow> (bytes \<Rightarrow> nat) \<Rightarrow> (bytes \<Rightarrow> nat) option" where
  "bag_run [] n = Some n"
| "bag_run (oper # ops) n = Option.bind (bag_step oper n) (bag_run ops)"

lemma bag_run_snoc: "bag_run (ops @ [oper]) n = Option.bind (bag_run ops n) (bag_step oper)"
proof (induction ops arbitrary: n)
  case Nil
  then show ?case by (cases "bag_step oper n") simp_all
next
  case (Cons x xs)
  then show ?case by (cases "bag_step x n") simp_all
qed

text \<open>The server's side of \<open>LVALUE_COUNT_GE\<close>: the value occurs at least as often as demanded.\<close>

definition count_check :: "check_step \<Rightarrow> (bytes \<Rightarrow> nat) \<Rightarrow> bool" where
  "count_check c n \<longleftrightarrow>
     (if step_op c = VFDW_CHK_LVALUE_COUNT_GE
      then (case step_args c of
              [v, d] \<Rightarrow> (case parse_dec d of Some want \<Rightarrow> want \<le> int (n v) | None \<Rightarrow> False)
            | _ \<Rightarrow> False)
      else True)"

definition list_folds :: "VfdwWriteOp list \<Rightarrow> fold_state \<Rightarrow> fold_state" where
  "list_folds ops = fold vfdw_ledger_fold_list ops"

definition entry :: "bytes \<Rightarrow> members \<Rightarrow> bytes \<Rightarrow> VfdwMemberEntry" where
  "entry k ms v = fst (vfdw_ledger_member k v ms)"

lemma member_of_inject [simp]: "member_of a b = member_of c d \<longleftrightarrow> a = c \<and> b = d"
  by (simp add: member_of_def)

lemma entry_upd [simp]: "entry k (ms(member_of k v \<mapsto> m)) w = (if w = v then m else entry k ms w)"
  by (simp add: entry_def vfdw_ledger_member_def)

lemma entry_empty [simp]: "entry k Map.empty v = fresh_member"
  by (simp add: entry_def vfdw_ledger_member_def)

lemma act1_checks [simp]: "plan_checks (vfdw_ledger_act1 a x p) = plan_checks p"
  by (simp add: vfdw_ledger_act1_def vfdw_ledger_add_action_def)

text \<open>What one fold does to the entries and the checks.\<close>

lemma fold_list_cases:
  assumes "op_key oper = k" and "vfdw_ledger_fold_list oper (p, ms) = (q, ms')"
  shows "case op_member oper of
           None \<Rightarrow> q = p \<and> ms' = ms
         | Some v \<Rightarrow>
             (\<forall>w. w \<noteq> v \<longrightarrow> entry k ms' w = entry k ms w) \<and>
             (if op_kind oper \<noteq> VFDW_OP_DELETE then
                m_count (entry k ms' v) = m_count (entry k ms v) + 1 \<and>
                m_present_removals (entry k ms' v) = m_present_removals (entry k ms v) \<and>
                plan_checks q = plan_checks p
              else if m_count (entry k ms v) > 0 then
                m_count (entry k ms' v) = m_count (entry k ms v) - 1 \<and>
                m_present_removals (entry k ms' v) = m_present_removals (entry k ms v) \<and>
                plan_checks q = plan_checks p
              else
                m_count (entry k ms' v) = m_count (entry k ms v) \<and>
                m_present_removals (entry k ms' v) = m_present_removals (entry k ms v) + 1 \<and>
                plan_checks q = plan_checks p @
                  [vfdw_ledger_step VFDW_CHK_LVALUE_COUNT_GE
                     [v, dec_int (m_present_removals (entry k ms v) + 1)]])"
  using assms
  by (auto simp: vfdw_ledger_fold_list_def Let_def vfdw_ledger_add_check_def
      simp flip: entry_def split: option.splits if_splits)

definition demands :: "bytes \<Rightarrow> members \<Rightarrow> (bytes \<Rightarrow> nat) \<Rightarrow> bool" where
  "demands k ms n \<longleftrightarrow> (\<forall>v. m_present_removals (entry k ms v) \<le> int (n v))"

definition balanced :: "bytes \<Rightarrow> members \<Rightarrow> (bytes \<Rightarrow> nat) \<Rightarrow> (bytes \<Rightarrow> nat) \<Rightarrow> bool" where
  "balanced k ms n0 n \<longleftrightarrow>
     (\<forall>v. int (n v) = int (n0 v) - m_present_removals (entry k ms v) + m_count (entry k ms v) \<and>
          m_count (entry k ms v) \<ge> 0 \<and> m_present_removals (entry k ms v) \<le> int (n0 v))"

lemma list_step_balanced:
  assumes key: "op_key oper = k" and f: "vfdw_ledger_fold_list oper (p, ms) = (q, ms')"
    and b: "balanced k ms n0 n"
  shows "demands k ms' n0 \<longleftrightarrow> bag_step oper n \<noteq> None"
    and "bag_step oper n = Some n' \<Longrightarrow> balanced k ms' n0 n'"
proof -
  note c = fold_list_cases [OF key f]
  have b': "int (n v) = int (n0 v) - m_present_removals (entry k ms v) + m_count (entry k ms v)"
    "m_count (entry k ms v) \<ge> 0" "m_present_removals (entry k ms v) \<le> int (n0 v)" for v
    using b by (simp_all add: balanced_def)
  have goals: "(demands k ms' n0 \<longleftrightarrow> bag_step oper n \<noteq> None) \<and>
        (bag_step oper n = Some n' \<longrightarrow> balanced k ms' n0 n')"
  proof (cases "op_member oper")
    case None
    then show ?thesis using c b b' by (auto simp: bag_step_def demands_def)
  next
    case (Some v)
    have other: "entry k ms' w = entry k ms w" if "w \<noteq> v" for w using c Some that by simp
    have dem: "demands k ms' n0 \<longleftrightarrow> m_present_removals (entry k ms' v) \<le> int (n0 v)"
      using other b' unfolding demands_def by metis
    have bal: "balanced k ms' n0 (n(v := x)) \<longleftrightarrow>
      int x = int (n0 v) - m_present_removals (entry k ms' v) + m_count (entry k ms' v) \<and>
      m_count (entry k ms' v) \<ge> 0 \<and> m_present_removals (entry k ms' v) \<le> int (n0 v)" for x
      using other b' unfolding balanced_def by (metis fun_upd_apply)
    have "n v > 0 \<longleftrightarrow> m_count (entry k ms v) > 0 \<or> m_present_removals (entry k ms v) + 1 \<le> int (n0 v)"
      using b' [of v] by linarith
    then show ?thesis
      using c b' [of v] Some dem bal by (auto simp: bag_step_def split: if_splits)
  qed
  show "demands k ms' n0 \<longleftrightarrow> bag_step oper n \<noteq> None" using goals by simp
  show "bag_step oper n = Some n' \<Longrightarrow> balanced k ms' n0 n'" using goals by simp
qed

lemma removals_mono:
  assumes "op_key oper = k" "vfdw_ledger_fold_list oper (p, ms) = (q, ms')"
  shows "m_present_removals (entry k ms v) \<le> m_present_removals (entry k ms' v)"
  using fold_list_cases [OF assms]
  by (cases "op_member oper"; cases "Some v = op_member oper") (auto split: if_splits)

text \<open>The checks a fold leaves demand, together, exactly the removals of each entry.\<close>

lemma list_step_checks:
  assumes key: "op_key oper = k" and f: "vfdw_ledger_fold_list oper (p, ms) = (q, ms')"
    and chk: "(\<forall>c \<in> set (plan_checks p). count_check c n0) \<longleftrightarrow> demands k ms n0"
  shows "(\<forall>c \<in> set (plan_checks q). count_check c n0) \<longleftrightarrow> demands k ms' n0"
proof (cases "op_member oper")
  case None
  then show ?thesis using fold_list_cases [OF key f] chk by auto
next
  case (Some v)
  note c = fold_list_cases [OF key f]
  have other: "entry k ms' w = entry k ms w" if "w \<noteq> v" for w using c Some that by simp
  have split: "demands k m n0 \<longleftrightarrow> m_present_removals (entry k m v) \<le> int (n0 v) \<and>
      (\<forall>w. w \<noteq> v \<longrightarrow> m_present_removals (entry k m w) \<le> int (n0 w))" for m
    unfolding demands_def by metis
  have "(\<forall>w. w \<noteq> v \<longrightarrow> m_present_removals (entry k ms' w) \<le> int (n0 w)) \<longleftrightarrow>
        (\<forall>w. w \<noteq> v \<longrightarrow> m_present_removals (entry k ms w) \<le> int (n0 w))"
    using other by simp
  then show ?thesis
    using c Some chk unfolding split
    by (auto simp: count_check_def vfdw_ledger_step_def split: if_splits)
qed

lemma list_folds_snoc: "list_folds (ops @ [oper]) s = vfdw_ledger_fold_list oper (list_folds ops s)"
  by (simp add: list_folds_def)

lemma list_folds_spec:
  assumes "\<forall>oper \<in> set ops. op_key oper = k" and "list_folds ops (p, Map.empty) = (q, ms)"
    and "\<forall>c \<in> set (plan_checks p). step_op c \<noteq> VFDW_CHK_LVALUE_COUNT_GE"
  shows "((\<forall>c \<in> set (plan_checks q). count_check c n0) \<longleftrightarrow> demands k ms n0) \<and>
         (demands k ms n0 \<longleftrightarrow> bag_run ops n0 \<noteq> None) \<and>
         (\<forall>n. bag_run ops n0 = Some n \<longrightarrow> balanced k ms n0 n)"
  using assms
proof (induction ops arbitrary: q ms rule: rev_induct)
  case Nil
  then show ?case
    by (auto simp: list_folds_def demands_def balanced_def fresh_member_def count_check_def)
next
  case (snoc oper ops)
  obtain q1 ms1 where s1: "list_folds ops (p, Map.empty) = (q1, ms1)" by force
  then have f: "vfdw_ledger_fold_list oper (q1, ms1) = (q, ms)" using snoc.prems(2) by (simp add: list_folds_snoc)
  have key: "op_key oper = k" using snoc.prems(1) by simp
  have IH: "(\<forall>c \<in> set (plan_checks q1). count_check c n0) \<longleftrightarrow> demands k ms1 n0"
    "demands k ms1 n0 \<longleftrightarrow> bag_run ops n0 \<noteq> None" "\<And>n. bag_run ops n0 = Some n \<Longrightarrow> balanced k ms1 n0 n"
    using snoc.IH [OF _ s1 snoc.prems(3)] snoc.prems(1) by auto
  have chk: "(\<forall>c \<in> set (plan_checks q). count_check c n0) \<longleftrightarrow> demands k ms n0"
    using list_step_checks [OF key f IH(1)] .
  show ?case
  proof (cases "bag_run ops n0")
    case None
    then have "\<not> demands k ms n0"
      using IH(2) removals_mono [OF key f] unfolding demands_def by (meson order_trans)
    then show ?thesis using chk None by (simp add: bag_run_snoc)
  next
    case (Some n)
    show ?thesis
      using chk Some list_step_balanced [OF key f IH(3) [OF Some]] by (simp add: bag_run_snoc)
  qed
qed

section \<open>Properties\<close>

lemma immediate_ledger:
  "map_sum id fst (result_fold (note_apply act) ops (led, db)) = result_fold vfdw_ledger_note ops led"
proof (induction ops arbitrary: led db)
  case (Cons oper ops)
  then show ?case by (cases "vfdw_ledger_note oper led") (simp_all add: note_apply_def Let_def)
qed simp

text \<open>A small transaction for the witnesses: one key created, one deleted and created again.\<close>

definition sample_ops :: "VfdwWriteOp list" where
  "sample_ops =
     [zero_op\<lparr>op_key := ''a'', op_value := Some ''1''\<rparr>,
      zero_op\<lparr>op_key := ''b'', op_kind := VFDW_OP_DELETE\<rparr>,
      zero_op\<lparr>op_key := ''a'', op_kind := VFDW_OP_UPDATE, op_value := Some ''2''\<rparr>,
      zero_op\<lparr>op_key := ''b'', op_value := Some ''3''\<rparr>]"

lemma sample_ops_plain: "\<forall>oper \<in> set sample_ops. string_write oper"
  by (simp add: sample_ops_def string_write_def zero_op_def vfdw_ledger_is_rename_def)

lemma sample_ops_run: "string_run sample_ops [''b'' \<mapsto> ''9''] = Some [''a'' \<mapsto> ''2'', ''b'' \<mapsto> ''3'']"
  by (simp add: sample_ops_def string_step_def zero_op_def)





text \<open>C7. The occurrence counting of list tables is exact: the \<open>LVALUE_COUNT_GE\<close> checks recorded for
  a key's operations hold of a list's contents if and only if executing the operations serially
  on it never deletes a value that is not there. Removals of values the transaction itself pushed
  are not demanded of the server, and no removal is counted twice.\<close>

theorem list_checks_exact:
  assumes "\<forall>oper \<in> set ops. op_key oper = k" and "list_folds ops (new_plan k t, Map.empty) = (q, ms)"
  shows "(\<forall>c \<in> set (plan_checks q). count_check c n0) \<longleftrightarrow> bag_run ops n0 \<noteq> None"
proof -
  have "\<forall>c \<in> set (plan_checks (new_plan k t)). step_op c \<noteq> VFDW_CHK_LVALUE_COUNT_GE"
    by (simp add: new_plan_def vfdw_ledger_add_check_def vfdw_ledger_step_def)
  from list_folds_spec [OF assms this, of n0] show ?thesis by simp
qed

theorem list_checks_exact_witness:
  "\<exists>q ms. list_folds [zero_op\<lparr>op_key := ''l'', op_kind := VFDW_OP_DELETE, op_member := Some ''x''\<rparr>,
                       zero_op\<lparr>op_key := ''l'', op_member := Some ''x''\<rparr>,
                       zero_op\<lparr>op_key := ''l'', op_kind := VFDW_OP_DELETE, op_member := Some ''x''\<rparr>]
            (new_plan ''l'' VFDW_TABLE_LIST, Map.empty) = (q, ms) \<and>
          (\<forall>c \<in> set (plan_checks q). count_check c (\<lambda>v. if v = ''x'' then 1 else 0)) \<and>
          \<not> (\<forall>c \<in> set (plan_checks q). count_check c (\<lambda>v. 0))"
proof -
  let ?ops = "[zero_op\<lparr>op_key := ''l'', op_kind := VFDW_OP_DELETE, op_member := Some ''x''\<rparr>,
               zero_op\<lparr>op_key := ''l'', op_member := Some ''x''\<rparr>,
               zero_op\<lparr>op_key := ''l'', op_kind := VFDW_OP_DELETE, op_member := Some ''x''\<rparr>]"
  obtain q ms where f: "list_folds ?ops (new_plan ''l'' VFDW_TABLE_LIST, Map.empty) = (q, ms)" by force
  have "\<forall>oper \<in> set ?ops. op_key oper = ''l''" by simp
  note e = list_checks_exact [OF this f]
  have "bag_run ?ops (\<lambda>v. if v = ''x'' then 1 else 0) \<noteq> None" "bag_run ?ops (\<lambda>v. 0) = None"
    by (simp_all add: bag_step_def zero_op_def)
  then show ?thesis using f e by blast
qed

end
