(* ===== verification/Script.thy ===== *)
theory Script
  imports Ledger
begin

text \<open>
  The server-side program and its wire format: the Lua program literal and the reply classifier of
  \<open>src/vfdw_script.c\<close>, and the encoder of \<open>src/vfdw_script_encode.c\<close>.

  The program is translated statement by statement. What it calls is the server's: \<open>server.call\<close>
  is the field \<open>srv_call\<close> of the environment record, from a verb and its arguments to a reply and
  the next keyspace; Lua's \<open>tonumber\<close> is \<open>srv_tonumber\<close> (nil is \<open>None\<close>), and the text of an error
  the Lua runtime raises is \<open>srv_luaerr\<close>. \<open>ARGV\<close> is read through an index, as in the program, and
  reading past its end gives nil.
\<close>

section \<open>Verdicts and the reply classifier\<close>

datatype VfdwScriptVerdict =
    VFDW_SCRIPT_UNKNOWN | VFDW_SCRIPT_OK | VFDW_SCRIPT_CONFLICT | VFDW_SCRIPT_MISSING
  | VFDW_SCRIPT_WRONGTYPE | VFDW_SCRIPT_BADPROTO | VFDW_SCRIPT_INTERNAL

definition vfdw_script_codes :: "(string \<times> VfdwScriptVerdict) list" where
  "vfdw_script_codes =
     [(''OK'', VFDW_SCRIPT_OK), (''CONFLICT'', VFDW_SCRIPT_CONFLICT), (''MISSING'', VFDW_SCRIPT_MISSING),
      (''WRONGTYPE'', VFDW_SCRIPT_WRONGTYPE), (''BADPROTO'', VFDW_SCRIPT_BADPROTO),
      (''INTERNAL'', VFDW_SCRIPT_INTERNAL)]"

definition vfdw_script_word_at :: "bytes \<Rightarrow> nat \<Rightarrow> string \<Rightarrow> bool" where
  "vfdw_script_word_at str pos word =
     (if pos + length word > length str then False
      else if take (length word) (drop pos str) \<noteq> word then False
      else if pos + length word = length str then True
      else str ! (pos + length word) = CHR '' '')"

text \<open>The table loop: the first code that stands at \<open>pos\<close>, and the detail after it.\<close>

fun script_code_at :: "bytes \<Rightarrow> nat \<Rightarrow> (string \<times> VfdwScriptVerdict) list \<Rightarrow>
    (VfdwScriptVerdict \<times> bytes option) option" where
  "script_code_at str pos [] = None"
| "script_code_at str pos ((code, verdict) # rest) =
     (if \<not> vfdw_script_word_at str pos code then script_code_at str pos rest
      else Some (verdict, if pos + length code + 1 < length str
                          then Some (drop (pos + length code + 1) str) else None))"

definition vfdw_script_classify :: "bytes option \<Rightarrow> VfdwScriptVerdict \<times> bytes option" where
  "vfdw_script_classify s =
     (case s of
        None \<Rightarrow> (VFDW_SCRIPT_UNKNOWN, None)
      | Some str \<Rightarrow>
          if \<not> vfdw_script_word_at str 0 ''VFDW1'' then (VFDW_SCRIPT_UNKNOWN, None)
          else if 5 \<ge> length str \<or> str ! 5 \<noteq> CHR '' '' then (VFDW_SCRIPT_UNKNOWN, None)
          else case script_code_at str 6 vfdw_script_codes of
                 Some r \<Rightarrow> r
               | None \<Rightarrow> (VFDW_SCRIPT_BADPROTO, if 6 < length str then Some (drop 6 str) else None))"

primrec vfdw_script_verdict_name :: "VfdwScriptVerdict \<Rightarrow> string" where
  "vfdw_script_verdict_name VFDW_SCRIPT_UNKNOWN = ''UNKNOWN''"
| "vfdw_script_verdict_name VFDW_SCRIPT_OK = ''OK''"
| "vfdw_script_verdict_name VFDW_SCRIPT_CONFLICT = ''CONFLICT''"
| "vfdw_script_verdict_name VFDW_SCRIPT_MISSING = ''MISSING''"
| "vfdw_script_verdict_name VFDW_SCRIPT_WRONGTYPE = ''WRONGTYPE''"
| "vfdw_script_verdict_name VFDW_SCRIPT_BADPROTO = ''BADPROTO''"
| "vfdw_script_verdict_name VFDW_SCRIPT_INTERNAL = ''INTERNAL''"

section \<open>The program: replies, the server, argument access\<close>

datatype reply =
    R_int int | R_nil | R_status bytes | R_bulk bytes | R_array "reply list" | R_err bytes

record 'db server =
  srv_call :: "string \<Rightarrow> bytes list \<Rightarrow> 'db \<Rightarrow> reply \<times> 'db"
  srv_tonumber :: "bytes \<Rightarrow> int option"
  srv_luaerr :: bytes

type_synonym lua_value = "bytes option"

text \<open>\<open>server.call\<close> and \<open>server.pcall\<close> with a nil argument raise before anything is executed.\<close>

definition lua_call :: "'db server \<Rightarrow> string \<Rightarrow> lua_value list \<Rightarrow> 'db \<Rightarrow> reply \<times> 'db" where
  "lua_call env verb args db =
     (if None \<in> set args then (R_err (srv_luaerr env), db) else srv_call env verb (map the args) db)"

definition lua_tonumber :: "'db server \<Rightarrow> lua_value \<Rightarrow> int option" where
  "lua_tonumber env v = (case v of None \<Rightarrow> None | Some s \<Rightarrow> srv_tonumber env s)"

text \<open>\<open>a[j]\<close>, 1-based, nil outside the table.\<close>

definition lua_arg :: "lua_value list \<Rightarrow> nat \<Rightarrow> lua_value" where
  "lua_arg a j = (if 1 \<le> j \<and> j \<le> length a then a ! (j - 1) else None)"

text \<open>\<open>KEYS[tonumber(v)]\<close>.\<close>

definition keys_at :: "'db server \<Rightarrow> bytes list \<Rightarrow> lua_value \<Rightarrow> lua_value" where
  "keys_at env keys v =
     (case lua_tonumber env v of
        None \<Rightarrow> None
      | Some n \<Rightarrow> if 1 \<le> n \<and> n \<le> int (length keys) then Some (keys ! nat (n - 1)) else None)"

text \<open>\<open>fail(code, plan, key, detail)\<close>: the text of the error reply.\<close>

definition lua_fail :: "string \<Rightarrow> int \<Rightarrow> bytes \<Rightarrow> bytes \<Rightarrow> bytes" where
  "lua_fail code plan key detail =
     ''VFDW1'' @ '' '' @ code @ '' '' @ dec_int plan @ '' '' @ key @ '' '' @ detail"

section \<open>The program: decoding\<close>

record lua_step =
  ls_op :: int
  ls_args :: "lua_value list"

record lua_plan =
  lp_k :: bytes
  lp_ttype :: int
  lp_req :: int
  lp_checks :: "lua_step list"
  lp_actions :: "lua_step list"

text \<open>\<open>nextarg()\<close> at (0-based) position \<open>i\<close>; the caller moves on to \<open>i + 1\<close>.\<close>

definition argv_at :: "bytes list \<Rightarrow> nat \<Rightarrow> lua_value" where
  "argv_at argv i = (if i < length argv then Some (argv ! i) else None)"

text \<open>The loop over the checks or the actions of one plan; \<open>None\<close> when an op or a count is not a number.\<close>

fun lua_steps :: "'db server \<Rightarrow> bytes list \<Rightarrow> nat \<Rightarrow> nat \<Rightarrow> (lua_step list \<times> nat) option" where
  "lua_steps env argv 0 i = Some ([], i)"
| "lua_steps env argv (Suc c) i =
     (case (lua_tonumber env (argv_at argv i), lua_tonumber env (argv_at argv (i + 1))) of
        (Some oper, Some n) \<Rightarrow>
          (case lua_steps env argv c (i + 2 + nat n) of
             Some (rest, j) \<Rightarrow>
               Some (\<lparr>ls_op = oper, ls_args = map (argv_at argv) [i + 2..<i + 2 + nat n]\<rparr> # rest, j)
           | None \<Rightarrow> None)
      | _ \<Rightarrow> None)"

definition lua_plan_at ::
  "'db server \<Rightarrow> bytes list \<Rightarrow> bytes list \<Rightarrow> int \<Rightarrow> nat \<Rightarrow> bytes + (lua_plan \<times> nat)" where
  "lua_plan_at env keys argv p i =
     (case (lua_tonumber env (argv_at argv i), lua_tonumber env (argv_at argv (i + 1)),
            lua_tonumber env (argv_at argv (i + 2)), lua_tonumber env (argv_at argv (i + 3)),
            lua_tonumber env (argv_at argv (i + 4))) of
        (Some kx, Some ttype, Some req, Some nchecks, Some nactions) \<Rightarrow>
          if kx < 1 \<or> kx > int (length keys) then Inl (lua_fail ''BADPROTO'' p ''-'' ''keyidx'')
          else let k = keys ! nat (kx - 1) in
            (case lua_steps env argv (nat nchecks) (i + 5) of
               None \<Rightarrow> Inl (lua_fail ''BADPROTO'' p k ''check'')
             | Some (checks, j) \<Rightarrow>
                 (case lua_steps env argv (nat nactions) j of
                    None \<Rightarrow> Inl (lua_fail ''BADPROTO'' p k ''action'')
                  | Some (actions, j') \<Rightarrow>
                      Inr (\<lparr>lp_k = k, lp_ttype = ttype, lp_req = req, lp_checks = checks,
                            lp_actions = actions\<rparr>, j')))
      | _ \<Rightarrow> Inl (lua_fail ''BADPROTO'' p ''-'' ''plan header''))"

text \<open>The loop \<open>for p = 1, nplans\<close>, with \<open>n\<close> iterations to go.\<close>

fun lua_plans :: "'db server \<Rightarrow> bytes list \<Rightarrow> bytes list \<Rightarrow> nat \<Rightarrow> int \<Rightarrow> nat \<Rightarrow>
    bytes + (lua_plan list \<times> nat)" where
  "lua_plans env keys argv 0 p i = Inr ([], i)"
| "lua_plans env keys argv (Suc n) p i =
     (case lua_plan_at env keys argv p i of
        Inl e \<Rightarrow> Inl e
      | Inr (pl, j) \<Rightarrow>
          (case lua_plans env keys argv n (p + 1) j of
             Inl e \<Rightarrow> Inl e
           | Inr (rest, j') \<Rightarrow> Inr (pl # rest, j')))"

definition lua_decode :: "'db server \<Rightarrow> bytes list \<Rightarrow> bytes list \<Rightarrow> bytes + (int \<times> lua_plan list)" where
  "lua_decode env keys argv =
     (if argv_at argv 0 \<noteq> Some ''V1'' then Inl (lua_fail ''BADPROTO'' 0 ''-'' ''version'')
      else case lua_tonumber env (argv_at argv 1) of
             None \<Rightarrow> Inl (lua_fail ''BADPROTO'' 0 ''-'' ''nplans'')
           | Some nplans \<Rightarrow>
               (case lua_plans env keys argv (nat nplans) 1 2 of
                  Inl e \<Rightarrow> Inl e
                | Inr (plans, i) \<Rightarrow>
                    if i \<noteq> length argv then Inl (lua_fail ''BADPROTO'' 0 ''-'' ''trailing'')
                    else Inr (nplans, plans)))"

section \<open>The program: phase 1\<close>

text \<open>
  What a check closure gives: the script dies with an error text, the closure returns a failure
  code, or it returns nil.
\<close>

datatype check_outcome = Chk_dies bytes | Chk_bad string | Chk_ok

definition lua_probe ::
  "'db server \<Rightarrow> string \<Rightarrow> lua_value list \<Rightarrow> (reply \<Rightarrow> bool) \<Rightarrow> string \<Rightarrow> 'db \<Rightarrow> check_outcome \<times> 'db" where
  "lua_probe env verb args bad code db =
     (case lua_call env verb args db of
        (R_err e, db1) \<Rightarrow> (Chk_dies e, db1)
      | (r, db1) \<Rightarrow> (if bad r then Chk_bad code else Chk_ok, db1))"

text \<open>
  The \<open>CHECK\<close> table. \<open>keyref\<close> is how a key argument is turned into a key: \<open>KEYS[tonumber(a[1])]\<close> in
  the program. An op that the table does not hold is \<open>None\<close>.
\<close>

definition lua_check ::
  "'db server \<Rightarrow> (lua_value \<Rightarrow> lua_value) \<Rightarrow> bytes \<Rightarrow> int \<Rightarrow> lua_value list \<Rightarrow> 'db \<Rightarrow>
   (check_outcome \<times> 'db) option" where
  "lua_check env keyref k oper a db =
     (if oper = 0 then Some (lua_probe env ''EXISTS'' [Some k] (\<lambda>r. r = R_int 1) ''CONFLICT'' db)
      else if oper = 1 then Some (lua_probe env ''EXISTS'' [Some k] (\<lambda>r. r = R_int 0) ''MISSING'' db)
      else if oper = 3 then Some (lua_probe env ''HEXISTS'' [Some k, lua_arg a 1] (\<lambda>r. r = R_int 1) ''CONFLICT'' db)
      else if oper = 4 then Some (lua_probe env ''HEXISTS'' [Some k, lua_arg a 1] (\<lambda>r. r = R_int 0) ''MISSING'' db)
      else if oper = 5 then Some (lua_probe env ''SISMEMBER'' [Some k, lua_arg a 1] (\<lambda>r. r = R_int 1) ''CONFLICT'' db)
      else if oper = 6 then Some (lua_probe env ''SISMEMBER'' [Some k, lua_arg a 1] (\<lambda>r. r = R_int 0) ''MISSING'' db)
      else if oper = 7 then Some (lua_probe env ''ZSCORE'' [Some k, lua_arg a 1] (\<lambda>r. r \<noteq> R_nil) ''CONFLICT'' db)
      else if oper = 8 then Some (lua_probe env ''ZSCORE'' [Some k, lua_arg a 1] (\<lambda>r. r = R_nil) ''MISSING'' db)
      else if oper = 9 then Some
        (case lua_call env ''LRANGE'' [Some k, Some ''0'', Some ''-1''] db of
           (R_err e, db1) \<Rightarrow> (Chk_dies e, db1)
         | (R_array vs, db1) \<Rightarrow>
             (case lua_tonumber env (lua_arg a 2) of
                None \<Rightarrow> (Chk_dies (srv_luaerr env), db1)
              | Some want \<Rightarrow>
                  (if int (length (filter (\<lambda>v. case lua_arg a 1 of Some s \<Rightarrow> v = R_bulk s | None \<Rightarrow> False) vs)) < want
                   then Chk_bad ''MISSING'' else Chk_ok, db1))
         | (_, db1) \<Rightarrow> (Chk_dies (srv_luaerr env), db1))
      else if oper = 10 then Some (lua_probe env ''SISMEMBER'' [keyref (lua_arg a 1), lua_arg a 2] (\<lambda>r. r = R_int 1) ''CONFLICT'' db)
      else if oper = 11 then Some (lua_probe env ''SISMEMBER'' [keyref (lua_arg a 1), lua_arg a 2] (\<lambda>r. r = R_int 0) ''MISSING'' db)
      else None)"

definition lua_typename :: "int \<Rightarrow> string option" where
  "lua_typename t =
     (if t = 0 then Some ''string'' else if t = 1 then Some ''hash'' else if t = 2 then Some ''list''
      else if t = 3 then Some ''set'' else if t = 4 then Some ''zset'' else if t = 5 then Some ''string''
      else None)"

text \<open>The inner loop over one plan's checks, from check number \<open>c\<close>. \<open>Inl\<close> is the script's error reply.\<close>

fun lua_checks ::
  "'db server \<Rightarrow> (lua_value \<Rightarrow> lua_value) \<Rightarrow> int \<Rightarrow> bytes \<Rightarrow> int \<Rightarrow> lua_step list \<Rightarrow> 'db \<Rightarrow>
   (bytes + unit) \<times> 'db" where
  "lua_checks env keyref p k c [] db = (Inr (), db)"
| "lua_checks env keyref p k c (ch # rest) db =
     (if ls_op ch = 2 then lua_checks env keyref p k (c + 1) rest db
      else case lua_check env keyref k (ls_op ch) (ls_args ch) db of
             None \<Rightarrow> (Inl (lua_fail ''BADPROTO'' p k (''checkop '' @ dec_int (ls_op ch))), db)
           | Some (Chk_dies e, db1) \<Rightarrow> (Inl e, db1)
           | Some (Chk_bad code, db1) \<Rightarrow> (Inl (lua_fail code p k (''check '' @ dec_int c)), db1)
           | Some (Chk_ok, db1) \<Rightarrow> lua_checks env keyref p k (c + 1) rest db1)"

fun lua_phase1 ::
  "'db server \<Rightarrow> (lua_value \<Rightarrow> lua_value) \<Rightarrow> int \<Rightarrow> lua_plan list \<Rightarrow> 'db \<Rightarrow> (bytes + unit) \<times> 'db" where
  "lua_phase1 env keyref p [] db = (Inr (), db)"
| "lua_phase1 env keyref p (pl # rest) db =
     (case lua_call env ''TYPE'' [Some (lp_k pl)] db of
        (R_status t, db1) \<Rightarrow>
          if t \<noteq> ''none'' \<and> Some t \<noteq> lua_typename (lp_ttype pl)
          then (Inl (lua_fail ''WRONGTYPE'' p (lp_k pl) t), db1)
          else (case lua_checks env keyref p (lp_k pl) 1 (lp_checks pl) db1 of
                  (Inl e, db2) \<Rightarrow> (Inl e, db2)
                | (Inr _, db2) \<Rightarrow> lua_phase1 env keyref (p + 1) rest db2)
      | (R_err e, db1) \<Rightarrow> (Inl e, db1)
      | (_, db1) \<Rightarrow> (Inl (srv_luaerr env), db1))"

section \<open>The program: phase 2 and the whole run\<close>

definition lua_action ::
  "'db server \<Rightarrow> (lua_value \<Rightarrow> lua_value) \<Rightarrow> bytes \<Rightarrow> int \<Rightarrow> lua_value list \<Rightarrow> 'db \<Rightarrow> (reply \<times> 'db) option" where
  "lua_action env keyref k oper a db =
     (if oper = 0 then Some (lua_call env ''SET'' [Some k, lua_arg a 1] db)
      else if oper = 1 then Some (lua_call env ''DEL'' [Some k] db)
      else if oper = 2 then Some (lua_call env ''HSET'' [Some k, lua_arg a 1, lua_arg a 2] db)
      else if oper = 3 then Some (lua_call env ''HDEL'' [Some k, lua_arg a 1] db)
      else if oper = 4 then Some (lua_call env ''SADD'' [Some k, lua_arg a 1] db)
      else if oper = 5 then Some (lua_call env ''SREM'' [Some k, lua_arg a 1] db)
      else if oper = 6 then Some (lua_call env ''ZADD'' [Some k, lua_arg a 1, lua_arg a 2] db)
      else if oper = 7 then Some (lua_call env ''ZREM'' [Some k, lua_arg a 1] db)
      else if oper = 8 then Some (lua_call env ''RPUSH'' [Some k, lua_arg a 1] db)
      else if oper = 9 then Some (lua_call env ''LREM'' [Some k, Some ''1'', lua_arg a 1] db)
      else if oper = 10 then Some (lua_call env ''RENAME'' [keyref (lua_arg a 1), Some k] db)
      else if oper = 11 then Some (lua_call env ''SADD'' [keyref (lua_arg a 1), lua_arg a 2] db)
      else if oper = 12 then Some (lua_call env ''SREM'' [keyref (lua_arg a 1), lua_arg a 2] db)
      else if oper = 13 then Some (lua_call env ''HPEXPIRE'' [Some k, lua_arg a 2, Some ''FIELDS'', Some ''1'', lua_arg a 1] db)
      else if oper = 14 then Some (lua_call env ''HPERSIST'' [Some k, Some ''FIELDS'', Some ''1'', lua_arg a 1] db)
      else None)"

fun lua_actions ::
  "'db server \<Rightarrow> (lua_value \<Rightarrow> lua_value) \<Rightarrow> int \<Rightarrow> bytes \<Rightarrow> int \<Rightarrow> lua_step list \<Rightarrow> 'db \<Rightarrow>
   (bytes + unit) \<times> 'db" where
  "lua_actions env keyref p k c [] db = (Inr (), db)"
| "lua_actions env keyref p k c (ac # rest) db =
     (case lua_action env keyref k (ls_op ac) (ls_args ac) db of
        None \<Rightarrow> (Inl (lua_fail ''INTERNAL'' p k (''actionop '' @ dec_int (ls_op ac))), db)
      | Some (R_err e, db1) \<Rightarrow> (Inl (lua_fail ''INTERNAL'' p k (dec_int c @ '' '' @ e)), db1)
      | Some (_, db1) \<Rightarrow> lua_actions env keyref p k (c + 1) rest db1)"

fun lua_phase2 ::
  "'db server \<Rightarrow> (lua_value \<Rightarrow> lua_value) \<Rightarrow> int \<Rightarrow> lua_plan list \<Rightarrow> 'db \<Rightarrow> (bytes + unit) \<times> 'db" where
  "lua_phase2 env keyref p [] db = (Inr (), db)"
| "lua_phase2 env keyref p (pl # rest) db =
     (case lua_actions env keyref p (lp_k pl) 1 (lp_actions pl) db of
        (Inl e, db1) \<Rightarrow> (Inl e, db1)
      | (Inr _, db1) \<Rightarrow> lua_phase2 env keyref (p + 1) rest db1)"

text \<open>Both phases over decoded plans, and the reply.\<close>

definition lua_execute ::
  "'db server \<Rightarrow> (lua_value \<Rightarrow> lua_value) \<Rightarrow> int \<Rightarrow> lua_plan list \<Rightarrow> 'db \<Rightarrow> reply \<times> 'db" where
  "lua_execute env keyref nplans plans db =
     (case lua_phase1 env keyref 1 plans db of
        (Inl e, db1) \<Rightarrow> (R_err e, db1)
      | (Inr _, db1) \<Rightarrow>
          (case lua_phase2 env keyref 1 plans db1 of
             (Inl e, db2) \<Rightarrow> (R_err e, db2)
           | (Inr _, db2) \<Rightarrow> (R_status (''VFDW1 OK '' @ dec_int nplans), db2)))"

text \<open>\<open>EVALSHA\<close> of the program on \<open>KEYS\<close> and \<open>ARGV\<close>.\<close>

definition vfdw_script_program :: "'db server \<Rightarrow> bytes list \<Rightarrow> bytes list \<Rightarrow> 'db \<Rightarrow> reply \<times> 'db" where
  "vfdw_script_program env keys argv db =
     (case lua_decode env keys argv of
        Inl e \<Rightarrow> (R_err e, db)
      | Inr (nplans, plans) \<Rightarrow> lua_execute env (keys_at env keys) nplans plans db)"

section \<open>The encoder\<close>

record VfdwKeyTable =
  kt_bybytes :: "bytes \<rightharpoonup> int"
  kt_keys :: "bytes list"

definition vfdw_keytable_init :: VfdwKeyTable where
  "vfdw_keytable_init = \<lparr>kt_bybytes = Map.empty, kt_keys = []\<rparr>"

text \<open>\<open>nkeys\<close> is the length of \<open>kt_keys\<close>; doubling the array is not visible in the list.\<close>

definition vfdw_keytable_intern :: "bytes \<Rightarrow> VfdwKeyTable \<Rightarrow> VfdwKeyTable" where
  "vfdw_keytable_intern key t =
     (case kt_bybytes t key of
        Some _ \<Rightarrow> t
      | None \<Rightarrow> t\<lparr>kt_bybytes := (kt_bybytes t)(key \<mapsto> int (length (kt_keys t)) + 1),
                  kt_keys := kt_keys t @ [key]\<rparr>)"

definition vfdw_check_key_arg :: "VfdwCheckOp \<Rightarrow> int" where
  "vfdw_check_key_arg oper = (if oper = VFDW_CHK_KSET_ABSENT \<or> oper = VFDW_CHK_KSET_PRESENT then 0 else - 1)"

definition vfdw_action_key_arg :: "VfdwActionOp \<Rightarrow> int" where
  "vfdw_action_key_arg oper =
     (if oper = VFDW_ACT_RENAME \<or> oper = VFDW_ACT_KSET_ADD \<or> oper = VFDW_ACT_KSET_REM then 0 else - 1)"

text \<open>The loop body of \<open>vfdw_script_declare_keys\<close>: intern the step's key argument, if it has one.\<close>

definition declare_step :: "('op \<Rightarrow> int) \<Rightarrow> 'op VfdwLedgerStep \<Rightarrow> VfdwKeyTable \<Rightarrow> VfdwKeyTable" where
  "declare_step key_arg s t =
     (let ka = key_arg (step_op s) in
      if ka \<ge> 0 \<and> ka < int (length (step_args s)) then vfdw_keytable_intern (step_args s ! nat ka) t else t)"

definition vfdw_script_declare_keys :: "VfdwKeyPlan \<Rightarrow> VfdwKeyTable \<Rightarrow> VfdwKeyTable" where
  "vfdw_script_declare_keys plan t =
     fold (declare_step vfdw_action_key_arg) (plan_actions plan)
       (fold (declare_step vfdw_check_key_arg) (plan_checks plan) t)"

text \<open>One argument of a step, at position \<open>i\<close>.\<close>

definition undeclared_key :: "int \<Rightarrow> int \<Rightarrow> 'a result" where
  "undeclared_key i opcode =
     raise ERRCODE_INTERNAL_ERROR
       (''valkey_fdw: key argument '' @ dec_int i @ '' of opcode '' @ dec_int opcode @
        '' is not a declared key'')"

definition emit_arg ::
  "VfdwKeyTable \<Rightarrow> int \<Rightarrow> int \<Rightarrow> int \<times> bytes \<Rightarrow> bytes list \<Rightarrow> bytes list result" where
  "emit_arg t opcode ka = (\<lambda>(i, arg) cmd.
     if i = ka then
       (case kt_bybytes t arg of
          Some idx \<Rightarrow>
            if idx < 1 \<or> idx > int (length (kt_keys t)) then undeclared_key i opcode
            else Inr (cmd @ [dec_int idx])
        | None \<Rightarrow> undeclared_key i opcode)
     else Inr (cmd @ [arg]))"

definition emit_step ::
  "VfdwKeyTable \<Rightarrow> ('op \<Rightarrow> int) \<Rightarrow> ('op \<Rightarrow> int) \<Rightarrow> 'op VfdwLedgerStep \<Rightarrow> bytes list \<Rightarrow> bytes list result" where
  "emit_step t code key_arg s cmd =
     result_fold (emit_arg t (code (step_op s)) (key_arg (step_op s)))
       (zip (map int [0..<length (step_args s)]) (step_args s))
       (cmd @ [dec_int (code (step_op s)), dec_int (int (length (step_args s)))])"

definition vfdw_script_emit_steps ::
  "VfdwKeyTable \<Rightarrow> ('op \<Rightarrow> int) \<Rightarrow> ('op \<Rightarrow> int) \<Rightarrow> 'op VfdwLedgerStep list \<Rightarrow> bytes list \<Rightarrow> bytes list result" where
  "vfdw_script_emit_steps t code key_arg = result_fold (emit_step t code key_arg)"

text \<open>The body of the encoder's last loop, for plan number \<open>i\<close>.\<close>

definition emit_plan :: "VfdwKeyTable \<Rightarrow> int \<times> VfdwKeyPlan \<Rightarrow> bytes list \<Rightarrow> bytes list result" where
  "emit_plan t = (\<lambda>(i, plan) cmd.
     if i < 1 \<or> i > int (length (kt_keys t))
     then raise ERRCODE_INTERNAL_ERROR (''valkey_fdw: plan '' @ dec_int i @ '' has no declared key'')
     else result_bind
       (vfdw_script_emit_steps t check_code vfdw_check_key_arg (plan_checks plan)
          (cmd @ [dec_int i, dec_int (tabletype_code (plan_ttype plan)), dec_int (require_code (plan_require plan)),
                  dec_int (plan_nchecks plan), dec_int (plan_nactions plan)]))
       (vfdw_script_emit_steps t action_code vfdw_action_key_arg (plan_actions plan)))"

text \<open>The two interning passes of \<open>vfdw_script_encode\<close>.\<close>

definition script_keytable :: "ledger \<Rightarrow> VfdwKeyTable" where
  "script_keytable led =
     fold vfdw_script_declare_keys (led_plans led)
       (fold (\<lambda>p. vfdw_keytable_intern (plan_key p)) (led_plans led) vfdw_keytable_init)"

definition vfdw_script_encode :: "bytes \<Rightarrow> ledger \<Rightarrow> bytes list result" where
  "vfdw_script_encode sha1 led =
     (let t = script_keytable led in
      result_fold (emit_plan t)
        (zip (map int [1..<Suc (length (led_plans led))]) (led_plans led))
        ([''EVALSHA'', sha1, dec_int (int (length (kt_keys t)))] @ kt_keys t @
         [''V1'', dec_int (vfdw_ledger_nplans led)]))"

text \<open>
  How the server splits the command: \<open>numkeys\<close> keys, then the rest is \<open>ARGV\<close>.
\<close>

definition evalsha_keys :: "bytes list \<Rightarrow> bytes list" where
  "evalsha_keys cmd = (case parse_dec (cmd ! 2) of Some n \<Rightarrow> take (nat n) (drop 3 cmd) | None \<Rightarrow> [])"

definition evalsha_argv :: "bytes list \<Rightarrow> bytes list" where
  "evalsha_argv cmd = (case parse_dec (cmd ! 2) of Some n \<Rightarrow> drop (3 + nat n) cmd | None \<Rightarrow> [])"

section \<open>The key table\<close>

definition keytable_ok :: "VfdwKeyTable \<Rightarrow> bool" where
  "keytable_ok t \<longleftrightarrow>
     (\<forall>k n. kt_bybytes t k = Some n \<longleftrightarrow>
              1 \<le> n \<and> n \<le> int (length (kt_keys t)) \<and> kt_keys t ! nat (n - 1) = k)"

definition keytable_le :: "VfdwKeyTable \<Rightarrow> VfdwKeyTable \<Rightarrow> bool" where
  "keytable_le t t' \<longleftrightarrow> (\<exists>ks. kt_keys t' = kt_keys t @ ks)"

lemma keytable_le_refl [simp]: "keytable_le t t"
  by (simp add: keytable_le_def)

lemma keytable_le_trans: "keytable_le t u \<Longrightarrow> keytable_le u v \<Longrightarrow> keytable_le t v"
  by (auto simp: keytable_le_def)

lemma keytable_dom: "keytable_ok t \<Longrightarrow> kt_bybytes t k \<noteq> None \<longleftrightarrow> k \<in> set (kt_keys t)"
proof
  assume ok: "keytable_ok t" and "kt_bybytes t k \<noteq> None"
  then obtain n where "1 \<le> n" "n \<le> int (length (kt_keys t))" "kt_keys t ! nat (n - 1) = k"
    by (auto simp: keytable_ok_def)
  then show "k \<in> set (kt_keys t)" by (auto simp: in_set_conv_nth intro!: exI [of _ "nat (n - 1)"])
next
  assume ok: "keytable_ok t" and "k \<in> set (kt_keys t)"
  then obtain i where "i < length (kt_keys t)" "kt_keys t ! i = k" by (auto simp: in_set_conv_nth)
  then have "kt_bybytes t k = Some (int i + 1)" using ok by (simp add: keytable_ok_def)
  then show "kt_bybytes t k \<noteq> None" by simp
qed

lemma intern_spec:
  assumes ok: "keytable_ok t"
  shows "keytable_ok (vfdw_keytable_intern k t)" "keytable_le t (vfdw_keytable_intern k t)"
    "k \<in> set (kt_keys (vfdw_keytable_intern k t))"
    "k \<notin> set (kt_keys t) \<Longrightarrow> kt_keys (vfdw_keytable_intern k t) = kt_keys t @ [k]"
proof -
  have dom: "kt_bybytes t k = None \<longleftrightarrow> k \<notin> set (kt_keys t)" using keytable_dom [OF ok, of k] by auto
  show "keytable_le t (vfdw_keytable_intern k t)" "k \<in> set (kt_keys (vfdw_keytable_intern k t))"
    "k \<notin> set (kt_keys t) \<Longrightarrow> kt_keys (vfdw_keytable_intern k t) = kt_keys t @ [k]"
    using dom by (auto simp: vfdw_keytable_intern_def keytable_le_def split: option.splits)
  show "keytable_ok (vfdw_keytable_intern k t)"
  proof (cases "kt_bybytes t k")
    case None
    let ?n = "int (length (kt_keys t)) + 1"
    have new: "kt_bybytes t k' = Some m \<longleftrightarrow> 1 \<le> m \<and> m \<le> int (length (kt_keys t)) \<and> kt_keys t ! nat (m - 1) = k'" for k' m
      using ok by (simp add: keytable_ok_def)
    have "(if k' = k then Some ?n else kt_bybytes t k') = Some m \<longleftrightarrow>
        1 \<le> m \<and> m \<le> int (length (kt_keys t @ [k])) \<and> (kt_keys t @ [k]) ! nat (m - 1) = k'" for k' m
    proof (cases "m = ?n")
      case True
      then show ?thesis using new [of k' m] by (auto simp: nth_append)
    next
      case False
      then have "1 \<le> m \<and> m \<le> int (length (kt_keys t @ [k])) \<longleftrightarrow> 1 \<le> m \<and> m \<le> int (length (kt_keys t))" by auto
      moreover have "1 \<le> m \<and> m \<le> int (length (kt_keys t)) \<Longrightarrow> nat (m - 1) < length (kt_keys t)" by auto
      ultimately show ?thesis using False new [of k' m] None new [of k m] by (auto simp: nth_append)
    qed
    moreover have "kt_bybytes (vfdw_keytable_intern k t) = (\<lambda>k'. if k' = k then Some ?n else kt_bybytes t k')"
      "kt_keys (vfdw_keytable_intern k t) = kt_keys t @ [k]"
      using None by (auto simp: vfdw_keytable_intern_def)
    ultimately show ?thesis unfolding keytable_ok_def by presburger
  next
    case (Some n)
    then show ?thesis using ok by (simp add: vfdw_keytable_intern_def)
  qed
qed

lemma declare_step_spec:
  assumes "keytable_ok t"
  shows "keytable_ok (declare_step ka s t) \<and> keytable_le t (declare_step ka s t)"
  using intern_spec(1,2) [OF assms] assms by (simp add: declare_step_def Let_def)

text \<open>The key argument of a step, if it has one, and whether it is in the table.\<close>

definition declared :: "('op \<Rightarrow> int) \<Rightarrow> 'op VfdwLedgerStep \<Rightarrow> VfdwKeyTable \<Rightarrow> bool" where
  "declared key_arg s t \<longleftrightarrow>
     (let ka = key_arg (step_op s) in
      ka \<ge> 0 \<and> ka < int (length (step_args s)) \<longrightarrow> step_args s ! nat ka \<in> set (kt_keys t))"

lemma declared_mono: "declared ka s t \<Longrightarrow> keytable_le t t' \<Longrightarrow> declared ka s t'"
  by (auto simp: declared_def keytable_le_def Let_def)

lemma declare_step_declares: "keytable_ok t \<Longrightarrow> declared ka s (declare_step ka s t)"
  using intern_spec(3) by (simp add: declared_def declare_step_def Let_def)

lemma declare_steps_spec:
  "keytable_ok t \<Longrightarrow>
     keytable_ok (fold (declare_step ka) ss t) \<and> keytable_le t (fold (declare_step ka) ss t) \<and>
     (\<forall>s \<in> set ss. declared ka s (fold (declare_step ka) ss t))"
proof (induction ss arbitrary: t)
  case (Cons s ss)
  note one = declare_step_spec [OF Cons.prems, of ka s] declare_step_declares [OF Cons.prems, of ka s]
  then have "keytable_ok (declare_step ka s t)" by blast
  note IH = Cons.IH [OF this]
  have "declared ka s (fold (declare_step ka) ss (declare_step ka s t))"
    using one(2) IH declared_mono by blast
  then show ?case using one(1) IH keytable_le_trans by auto
qed simp

definition plan_declared :: "VfdwKeyTable \<Rightarrow> VfdwKeyPlan \<Rightarrow> bool" where
  "plan_declared t p \<longleftrightarrow> (\<forall>s \<in> set (plan_checks p). declared vfdw_check_key_arg s t) \<and>
                          (\<forall>s \<in> set (plan_actions p). declared vfdw_action_key_arg s t)"

lemma declare_keys_spec:
  assumes "keytable_ok t"
  shows "keytable_ok (vfdw_script_declare_keys p t) \<and> keytable_le t (vfdw_script_declare_keys p t) \<and>
         plan_declared (vfdw_script_declare_keys p t) p"
proof -
  let ?t1 = "fold (declare_step vfdw_check_key_arg) (plan_checks p) t"
  note c = declare_steps_spec [OF assms, of vfdw_check_key_arg "plan_checks p"]
  then have "keytable_ok ?t1" by blast
  note a = declare_steps_spec [OF this, of vfdw_action_key_arg "plan_actions p"]
  let ?t2 = "fold (declare_step vfdw_action_key_arg) (plan_actions p) ?t1"
  have "keytable_le t ?t2" using c a keytable_le_trans by blast
  moreover have "\<forall>s \<in> set (plan_checks p). declared vfdw_check_key_arg s ?t2"
    using c a declared_mono by blast
  ultimately show ?thesis
    using a by (simp add: vfdw_script_declare_keys_def plan_declared_def)
qed

lemma plan_declared_mono: "plan_declared t p \<Longrightarrow> keytable_le t t' \<Longrightarrow> plan_declared t' p"
  unfolding plan_declared_def by (meson declared_mono)

lemma declare_all_spec:
  "keytable_ok t \<Longrightarrow>
     keytable_ok (fold vfdw_script_declare_keys ps t) \<and> keytable_le t (fold vfdw_script_declare_keys ps t) \<and>
     (\<forall>p \<in> set ps. plan_declared (fold vfdw_script_declare_keys ps t) p)"
proof (induction ps arbitrary: t)
  case (Cons p ps)
  note one = declare_keys_spec [OF Cons.prems, of p]
  then have "keytable_ok (vfdw_script_declare_keys p t)" by blast
  note IH = Cons.IH [OF this]
  have "plan_declared (fold vfdw_script_declare_keys ps (vfdw_script_declare_keys p t)) p"
    using one IH plan_declared_mono by blast
  then show ?case using one IH keytable_le_trans by auto
qed simp

lemma intern_plans:
  "keytable_ok t \<Longrightarrow> distinct (kt_keys t @ map plan_key ps) \<Longrightarrow>
     keytable_ok (fold (\<lambda>p. vfdw_keytable_intern (plan_key p)) ps t) \<and>
     kt_keys (fold (\<lambda>p. vfdw_keytable_intern (plan_key p)) ps t) = kt_keys t @ map plan_key ps"
proof (induction ps arbitrary: t)
  case (Cons p ps)
  have k: "kt_keys (vfdw_keytable_intern (plan_key p) t) = kt_keys t @ [plan_key p]"
    using intern_spec(4) [OF Cons.prems(1)] Cons.prems(2) by auto
  have "distinct (kt_keys (vfdw_keytable_intern (plan_key p) t) @ map plan_key ps)"
    using k Cons.prems(2) by auto
  from Cons.IH [OF intern_spec(1) [OF Cons.prems(1)] this] show ?case using k by simp
qed simp

lemma keytable_spec:
  assumes "ledger_ok led" and dist: "distinct (map plan_key (led_plans led))"
  shows "keytable_ok (script_keytable led)"
    "\<exists>ks. kt_keys (script_keytable led) = map plan_key (led_plans led) @ ks"
    "\<forall>p \<in> set (led_plans led). plan_declared (script_keytable led) p"
proof -
  have init: "keytable_ok vfdw_keytable_init" by (simp add: keytable_ok_def vfdw_keytable_init_def)
  have "distinct (kt_keys vfdw_keytable_init @ map plan_key (led_plans led))"
    using dist by (simp add: vfdw_keytable_init_def)
  note ip = intern_plans [OF init this]
  note d = declare_all_spec [OF conjunct1 [OF ip], of "led_plans led"]
  show "keytable_ok (script_keytable led)" "\<forall>p \<in> set (led_plans led). plan_declared (script_keytable led) p"
    using d by (simp_all add: script_keytable_def)
  show "\<exists>ks. kt_keys (script_keytable led) = map plan_key (led_plans led) @ ks"
    using d ip by (auto simp: script_keytable_def keytable_le_def vfdw_keytable_init_def)
qed

section \<open>What the encoder writes\<close>

text \<open>The argument vector of a step with its key argument replaced by the key's index.\<close>

definition enc_args :: "VfdwKeyTable \<Rightarrow> int \<Rightarrow> bytes list \<Rightarrow> bytes list" where
  "enc_args t ka args =
     map (\<lambda>(i, a). if i = ka then dec_int (the (kt_bybytes t a)) else a) (zip (map int [0..<length args]) args)"

definition enc_step :: "VfdwKeyTable \<Rightarrow> ('op \<Rightarrow> int) \<Rightarrow> ('op \<Rightarrow> int) \<Rightarrow> 'op VfdwLedgerStep \<Rightarrow> bytes list" where
  "enc_step t code key_arg s =
     [dec_int (code (step_op s)), dec_int (int (length (step_args s)))] @
     enc_args t (key_arg (step_op s)) (step_args s)"

definition enc_plan :: "VfdwKeyTable \<Rightarrow> int \<Rightarrow> VfdwKeyPlan \<Rightarrow> bytes list" where
  "enc_plan t i p =
     [dec_int i, dec_int (tabletype_code (plan_ttype p)), dec_int (require_code (plan_require p)),
      dec_int (plan_nchecks p), dec_int (plan_nactions p)] @
     concat (map (enc_step t check_code vfdw_check_key_arg) (plan_checks p)) @
     concat (map (enc_step t action_code vfdw_action_key_arg) (plan_actions p))"

lemma length_enc_args [simp]: "length (enc_args t ka args) = length args"
  by (simp add: enc_args_def)

lemma enc_args_nth:
  "j < length args \<Longrightarrow>
     enc_args t ka args ! j = (if int j = ka then dec_int (the (kt_bybytes t (args ! j))) else args ! j)"
  by (simp add: enc_args_def)

text \<open>Interned keys have an index in range.\<close>

lemma index_of:
  assumes "keytable_ok t" and "k \<in> set (kt_keys t)"
  obtains n where "kt_bybytes t k = Some n" "1 \<le> n" "n \<le> int (length (kt_keys t))"
    "kt_keys t ! nat (n - 1) = k"
  using assms keytable_dom [OF assms(1), of k] unfolding keytable_ok_def by (metis not_None_eq)

lemma emit_args:
  assumes ok: "keytable_ok t"
    and dec: "\<forall>(i, a) \<in> set xs. i = ka \<longrightarrow> a \<in> set (kt_keys t)"
  shows "result_fold (emit_arg t opc ka) xs cmd =
           Inr (cmd @ map (\<lambda>(i, a). if i = ka then dec_int (the (kt_bybytes t a)) else a) xs)"
  using dec
proof (induction xs arbitrary: cmd)
  case (Cons x xs)
  obtain i a where x: "x = (i, a)" by force
  have "emit_arg t opc ka x cmd = Inr (cmd @ [if i = ka then dec_int (the (kt_bybytes t a)) else a])"
  proof (cases "i = ka")
    case True
    then have "a \<in> set (kt_keys t)" using Cons.prems x by auto
    then obtain n where "kt_bybytes t a = Some n" "1 \<le> n" "n \<le> int (length (kt_keys t))"
      using index_of [OF ok] by metis
    then show ?thesis using True x by (simp add: emit_arg_def)
  next
    case False
    then show ?thesis using x by (simp add: emit_arg_def)
  qed
  then show ?case using Cons x by simp
qed simp

lemma emit_step_spec:
  assumes ok: "keytable_ok t" and d: "declared key_arg s t"
  shows "emit_step t code key_arg s cmd = Inr (cmd @ enc_step t code key_arg s)"
proof -
  let ?xs = "zip (map int [0..<length (step_args s)]) (step_args s)"
  have "\<forall>(i, a) \<in> set ?xs. i = key_arg (step_op s) \<longrightarrow> a \<in> set (kt_keys t)"
    using d by (auto simp: declared_def Let_def set_zip)
  from emit_args [OF ok this] show ?thesis by (simp add: emit_step_def enc_step_def enc_args_def)
qed

lemma emit_steps_spec:
  assumes ok: "keytable_ok t"
  shows "\<forall>s \<in> set ss. declared key_arg s t \<Longrightarrow>
    vfdw_script_emit_steps t code key_arg ss cmd = Inr (cmd @ concat (map (enc_step t code key_arg) ss))"
  unfolding vfdw_script_emit_steps_def
  by (induction ss arbitrary: cmd) (simp_all add: emit_step_spec [OF ok])

lemma emit_plan_spec:
  assumes "keytable_ok t" "plan_declared t p" "1 \<le> i" "i \<le> int (length (kt_keys t))"
  shows "emit_plan t (i, p) cmd = Inr (cmd @ enc_plan t i p)"
  using assms by (simp add: emit_plan_def emit_steps_spec plan_declared_def enc_plan_def)

lemma emit_plans_spec:
  assumes ok: "keytable_ok t" and d: "\<forall>p \<in> set ps. plan_declared t p"
    and b: "i + length ps \<le> Suc (length (kt_keys t))" "1 \<le> i"
  shows "result_fold (emit_plan t) (zip (map int [i..<i + length ps]) ps) cmd =
    Inr (cmd @ concat (map (\<lambda>(j, p). enc_plan t j p) (zip (map int [i..<i + length ps]) ps)))"
  using d b
proof (induction ps arbitrary: i cmd)
  case (Cons p ps)
  have up: "[i..<i + length (p # ps)] = i # [Suc i..<Suc i + length ps]" by (simp add: upt_rec)
  have "emit_plan t (int i, p) cmd = Inr (cmd @ enc_plan t (int i) p)"
    using Cons.prems by (intro emit_plan_spec [OF ok]) auto
  then show ?case unfolding up using Cons.IH [of "Suc i"] Cons.prems by simp
qed simp

definition enc_argv :: "ledger \<Rightarrow> bytes list" where
  "enc_argv led =
     [''V1'', dec_int (vfdw_ledger_nplans led)] @
     concat (map (\<lambda>(j, p). enc_plan (script_keytable led) j p)
       (zip (map int [1..<Suc (length (led_plans led))]) (led_plans led)))"

lemma encode_spec:
  assumes ok: "ledger_ok led"
  shows "vfdw_script_encode sha1 led =
    Inr ([''EVALSHA'', sha1, dec_int (int (length (kt_keys (script_keytable led))))] @
         kt_keys (script_keytable led) @ enc_argv led)"
proof -
  note kt = keytable_spec [OF ok ledger_distinct [OF ok]]
  have "1 + length (led_plans led) \<le> Suc (length (kt_keys (script_keytable led)))" using kt(2) by auto
  from emit_plans_spec [OF kt(1,3) this] show ?thesis
    by (simp add: vfdw_script_encode_def Let_def enc_argv_def)
qed

lemma evalsha_split:
  "evalsha_keys ([a, b, dec_int (int (length ks))] @ ks @ argv) = ks"
  "evalsha_argv ([a, b, dec_int (int (length ks))] @ ks @ argv) = argv"
  by (simp_all add: evalsha_keys_def evalsha_argv_def numeral_3_eq_3)

section \<open>Decoding what the encoder wrote\<close>

text \<open>\<open>tonumber\<close> reads back the C integers the encoder prints.\<close>

definition tonumber_int :: "'db server \<Rightarrow> bool" where
  "tonumber_int env \<longleftrightarrow> (\<forall>n. 0 \<le> n \<and> n < 2 ^ 31 \<longrightarrow> srv_tonumber env (dec_int n) = Some n)"

text \<open>Every count the encoder prints is a C \<open>int\<close>.\<close>

definition step_fits :: "'op VfdwLedgerStep \<Rightarrow> bool" where
  "step_fits s \<longleftrightarrow> int (length (step_args s)) < 2 ^ 31"

definition plan_fits :: "VfdwKeyPlan \<Rightarrow> bool" where
  "plan_fits p \<longleftrightarrow>
     int (length (plan_checks p)) < 2 ^ 31 \<and> int (length (plan_actions p)) < 2 ^ 31 \<and>
     (\<forall>s \<in> set (plan_checks p). step_fits s) \<and> (\<forall>s \<in> set (plan_actions p). step_fits s)"

definition ledger_fits :: "ledger \<Rightarrow> bool" where
  "ledger_fits led \<longleftrightarrow>
     int (length (kt_keys (script_keytable led))) < 2 ^ 31 \<and> (\<forall>p \<in> set (led_plans led). plan_fits p)"

text \<open>\<open>argv\<close> holds \<open>seg\<close> from position \<open>i\<close> on.\<close>

definition at_pos :: "bytes list \<Rightarrow> nat \<Rightarrow> bytes list \<Rightarrow> bool" where
  "at_pos argv i seg \<longleftrightarrow> (\<exists>rest. drop i argv = seg @ rest)"

lemma at_pos_append: "at_pos argv i (xs @ ys) \<longleftrightarrow> at_pos argv i xs \<and> at_pos argv (i + length xs) ys"
proof
  assume "at_pos argv i (xs @ ys)"
  then obtain rest where r: "drop i argv = xs @ ys @ rest" by (auto simp: at_pos_def)
  have "drop (i + length xs) argv = drop (length xs) (drop i argv)" by (simp add: add.commute)
  then show "at_pos argv i xs \<and> at_pos argv (i + length xs) ys" using r by (auto simp: at_pos_def)
next
  assume "at_pos argv i xs \<and> at_pos argv (i + length xs) ys"
  then obtain r1 r2 where r: "drop i argv = xs @ r1" "drop (i + length xs) argv = ys @ r2"
    by (auto simp: at_pos_def)
  have "drop (i + length xs) argv = drop (length xs) (drop i argv)" by (simp add: add.commute)
  then have "r1 = ys @ r2" using r by simp
  then show "at_pos argv i (xs @ ys)" using r(1) by (auto simp: at_pos_def)
qed

lemma at_pos_nth:
  assumes "at_pos argv i seg" and "x < length seg"
  shows "argv_at argv (i + x) = Some (seg ! x)"
proof -
  obtain rest where r: "drop i argv = seg @ rest" using assms(1) by (auto simp: at_pos_def)
  then have "length argv - i = length seg + length rest" by (metis length_append length_drop)
  then have "i + x < length argv" using assms(2) by linarith
  moreover from this have "argv ! (i + x) = drop i argv ! x" by simp
  ultimately show ?thesis using r assms(2) by (simp add: argv_at_def nth_append)
qed

lemma at_pos_Cons: "at_pos argv i (x # xs) \<Longrightarrow> argv_at argv i = Some x \<and> at_pos argv (Suc i) xs"
  using at_pos_append [of argv i "[x]" xs] at_pos_nth [of argv i "x # xs" 0] by simp

definition lua_step_of :: "VfdwKeyTable \<Rightarrow> ('op \<Rightarrow> int) \<Rightarrow> ('op \<Rightarrow> int) \<Rightarrow> 'op VfdwLedgerStep \<Rightarrow> lua_step" where
  "lua_step_of t code key_arg s =
     \<lparr>ls_op = code (step_op s), ls_args = map Some (enc_args t (key_arg (step_op s)) (step_args s))\<rparr>"

definition lua_plan_of :: "VfdwKeyTable \<Rightarrow> VfdwKeyPlan \<Rightarrow> lua_plan" where
  "lua_plan_of t p =
     \<lparr>lp_k = plan_key p, lp_ttype = tabletype_code (plan_ttype p), lp_req = require_code (plan_require p),
      lp_checks = map (lua_step_of t check_code vfdw_check_key_arg) (plan_checks p),
      lp_actions = map (lua_step_of t action_code vfdw_action_key_arg) (plan_actions p)\<rparr>"

lemma map_argv_at: "at_pos argv i seg \<Longrightarrow> map (argv_at argv) [i..<i + length seg] = map Some seg"
  by (rule nth_equalityI) (simp_all add: at_pos_nth)

lemma tonum_at:
  "tonumber_int env \<Longrightarrow> argv_at argv i = Some (dec_int n) \<Longrightarrow> 0 \<le> n \<Longrightarrow> n < 2 ^ 31 \<Longrightarrow>
     lua_tonumber env (argv_at argv i) = Some n"
  by (simp add: lua_tonumber_def tonumber_int_def)

lemma length_enc_step: "length (enc_step t code key_arg s) = 2 + length (step_args s)"
  by (simp add: enc_step_def)

lemma decode_steps:
  assumes tn: "tonumber_int env" and code: "\<And>oper. 0 \<le> code oper \<and> code oper < 2 ^ 31"
    and "\<forall>s \<in> set ss. step_fits s" and "at_pos argv i (concat (map (enc_step t code key_arg) ss))"
  shows "lua_steps env argv (length ss) i =
    Some (map (lua_step_of t code key_arg) ss, i + length (concat (map (enc_step t code key_arg) ss)))"
  using assms(3,4)
proof (induction ss arbitrary: i)
  case (Cons s ss)
  let ?a = "enc_args t (key_arg (step_op s)) (step_args s)"
  let ?n = "length (step_args s)"
  have at: "at_pos argv i (dec_int (code (step_op s)) # dec_int (int ?n) # ?a)"
    and rest: "at_pos argv (i + 2 + ?n) (concat (map (enc_step t code key_arg) ss))"
  proof -
    have "at_pos argv i (enc_step t code key_arg s)"
      "at_pos argv (i + (2 + ?n)) (concat (map (enc_step t code key_arg) ss))"
      using Cons.prems(2) by (simp_all add: at_pos_append length_enc_step)
    then show "at_pos argv i (dec_int (code (step_op s)) # dec_int (int ?n) # ?a)"
      "at_pos argv (i + 2 + ?n) (concat (map (enc_step t code key_arg) ss))"
      by (simp_all only: enc_step_def append.simps add.assoc)
  qed
  have "lua_tonumber env (argv_at argv i) = Some (code (step_op s))"
    using at_pos_Cons [OF at] code by (intro tonum_at [OF tn]) auto
  moreover have "lua_tonumber env (argv_at argv (Suc i)) = Some (int ?n)"
    using at_pos_Cons [OF conjunct2 [OF at_pos_Cons [OF at]]] Cons.prems(1)
    by (intro tonum_at [OF tn]) (auto simp: step_fits_def)
  moreover have "at_pos argv (i + 2) ?a"
    using at_pos_Cons [OF conjunct2 [OF at_pos_Cons [OF at]]] by simp
  from map_argv_at [OF this] have "map (argv_at argv) [i + 2..<i + 2 + ?n] = map Some ?a" by simp
  ultimately show ?case
    using Cons.IH [OF _ rest] Cons.prems(1) by (simp add: lua_step_of_def enc_step_def)
qed simp

lemma codes_fit:
  "0 \<le> check_code c \<and> check_code c < 2 ^ 31" "0 \<le> action_code a \<and> action_code a < 2 ^ 31"
  "0 \<le> tabletype_code t \<and> tabletype_code t < 2 ^ 31" "0 \<le> require_code r \<and> require_code r < 2 ^ 31"
proof -
  show "0 \<le> check_code c \<and> check_code c < 2 ^ 31" by (cases c) simp_all
  show "0 \<le> action_code a \<and> action_code a < 2 ^ 31" by (cases a) simp_all
  show "0 \<le> tabletype_code t \<and> tabletype_code t < 2 ^ 31" by (cases t) simp_all
  show "0 \<le> require_code r \<and> require_code r < 2 ^ 31" by (cases r) simp_all
qed

lemma decode_plan:
  assumes tn: "tonumber_int env" and ok: "plan_ok p" and fits: "plan_fits p"
    and at: "at_pos argv i (enc_plan t kx p)"
    and kx: "1 \<le> kx" "kx \<le> int (length keys)" "kx < 2 ^ 31" "keys ! nat (kx - 1) = plan_key p"
  shows "lua_plan_at env keys argv q i = Inr (lua_plan_of t p, i + length (enc_plan t kx p))"
proof -
  let ?h = "[dec_int kx, dec_int (tabletype_code (plan_ttype p)), dec_int (require_code (plan_require p)),
      dec_int (plan_nchecks p), dec_int (plan_nactions p)]"
  let ?c = "concat (map (enc_step t check_code vfdw_check_key_arg) (plan_checks p))"
  let ?a = "concat (map (enc_step t action_code vfdw_action_key_arg) (plan_actions p))"
  have l: "length ?h = 5" by simp
  have h: "at_pos argv i ?h" and c: "at_pos argv (i + 5) ?c" and a: "at_pos argv (i + 5 + length ?c) ?a"
    using at unfolding enc_plan_def at_pos_append l by blast+
  have n: "plan_nchecks p = int (length (plan_checks p))" "plan_nactions p = int (length (plan_actions p))"
    using ok by (simp_all add: plan_ok_def)
  have hn: "argv_at argv i = Some (dec_int kx)"
    "argv_at argv (i + 1) = Some (dec_int (tabletype_code (plan_ttype p)))"
    "argv_at argv (i + 2) = Some (dec_int (require_code (plan_require p)))"
    "argv_at argv (i + 3) = Some (dec_int (plan_nchecks p))"
    "argv_at argv (i + 4) = Some (dec_int (plan_nactions p))"
    using at_pos_nth [OF h, of 0] at_pos_nth [OF h, of 1] at_pos_nth [OF h, of 2]
      at_pos_nth [OF h, of 3] at_pos_nth [OF h, of 4] by simp_all
  have t: "lua_tonumber env (Some (dec_int m)) = Some m" if "0 \<le> m \<and> m < 2 ^ 31" for m
    using that tn by (simp add: lua_tonumber_def tonumber_int_def)
  have num: "lua_tonumber env (argv_at argv i) = Some kx"
    "lua_tonumber env (argv_at argv (i + 1)) = Some (tabletype_code (plan_ttype p))"
    "lua_tonumber env (argv_at argv (i + 2)) = Some (require_code (plan_require p))"
    "lua_tonumber env (argv_at argv (i + 3)) = Some (int (length (plan_checks p)))"
    "lua_tonumber env (argv_at argv (i + 4)) = Some (int (length (plan_actions p)))"
    using hn n t [of kx] t [OF codes_fit(3), of "plan_ttype p"] t [OF codes_fit(4), of "plan_require p"]
      t [of "int (length (plan_checks p))"] t [of "int (length (plan_actions p))"] kx(1,3) fits
    by (simp_all add: plan_fits_def)
  have sc: "lua_steps env argv (length (plan_checks p)) (i + 5) =
      Some (map (lua_step_of t check_code vfdw_check_key_arg) (plan_checks p), i + 5 + length ?c)"
    using decode_steps [OF tn codes_fit(1) _ c] fits by (simp add: plan_fits_def)
  have sa: "lua_steps env argv (length (plan_actions p)) (i + 5 + length ?c) =
      Some (map (lua_step_of t action_code vfdw_action_key_arg) (plan_actions p), i + 5 + length ?c + length ?a)"
    using decode_steps [OF tn codes_fit(2) _ a] fits by (simp add: plan_fits_def)
  show ?thesis
    unfolding lua_plan_at_def num using kx(1,2,4) by (simp add: sc sa lua_plan_of_def enc_plan_def)
qed

lemma decode_plans:
  assumes tn: "tonumber_int env" and b: "int (length keys) < 2 ^ 31"
    and "\<forall>p \<in> set ps. plan_ok p \<and> plan_fits p" and "1 \<le> m" and "m + length ps \<le> Suc (length keys)"
    and "\<forall>j < length ps. keys ! (m - 1 + j) = plan_key (ps ! j)"
    and "at_pos argv i (concat (map (\<lambda>(j, p). enc_plan t j p) (zip (map int [m..<m + length ps]) ps)))"
  shows "lua_plans env keys argv (length ps) q i =
    Inr (map (lua_plan_of t) ps,
         i + length (concat (map (\<lambda>(j, p). enc_plan t j p) (zip (map int [m..<m + length ps]) ps))))"
  using assms(3-)
proof (induction ps arbitrary: m i q)
  case (Cons p ps)
  have up: "[m..<m + length (p # ps)] = m # [Suc m..<Suc m + length ps]" by (simp add: upt_rec)
  let ?tail = "concat (map (\<lambda>(j, p). enc_plan t j p) (zip (map int [Suc m..<Suc m + length ps]) ps))"
  have at: "at_pos argv i (enc_plan t (int m) p)" "at_pos argv (i + length (enc_plan t (int m) p)) ?tail"
    using Cons.prems(5) unfolding up by (simp_all add: at_pos_append)
  have "keys ! (m - 1) = plan_key p" using Cons.prems(4) by force
  moreover have "nat (int m - 1) = m - 1" using Cons.prems(2) by simp
  ultimately have "lua_plan_at env keys argv q i = Inr (lua_plan_of t p, i + length (enc_plan t (int m) p))"
    using Cons.prems(1,2,3) b by (intro decode_plan [OF tn _ _ at(1)]) auto
  moreover have "keys ! (Suc m - 1 + j) = plan_key (ps ! j)" if "j < length ps" for j
  proof -
    have "keys ! (m - 1 + Suc j) = plan_key ((p # ps) ! Suc j)" using Cons.prems(4) that by auto
    then show ?thesis using Cons.prems(2) by simp
  qed
  then have "lua_plans env keys argv (length ps) (q + 1) (i + length (enc_plan t (int m) p)) =
      Inr (map (lua_plan_of t) ps, i + length (enc_plan t (int m) p) + length ?tail)"
    using Cons.IH [of "Suc m"] Cons.prems(1,3) at(2) by simp
  ultimately show ?case unfolding up by simp
qed simp

lemma decode_encode:
  assumes tn: "tonumber_int env" and ok: "ledger_ok led" and fits: "ledger_fits led"
  shows "lua_decode env (kt_keys (script_keytable led)) (enc_argv led) =
    Inr (vfdw_ledger_nplans led, map (lua_plan_of (script_keytable led)) (led_plans led))"
proof -
  let ?t = "script_keytable led" and ?ps = "led_plans led"
  let ?body = "concat (map (\<lambda>(j, p). enc_plan ?t j p) (zip (map int [1..<Suc (length ?ps)]) ?ps))"
  note kt = keytable_spec [OF ok ledger_distinct [OF ok]]
  obtain ks where ks: "kt_keys ?t = map plan_key ?ps @ ks" using kt(2) by blast
  have b: "int (length (kt_keys ?t)) < 2 ^ 31" using fits by (simp add: ledger_fits_def)
  have n: "vfdw_ledger_nplans led = int (length ?ps)"
    using ok by (simp add: ledger_ok_def keys_ok_def vfdw_ledger_nplans_def)
  have at: "at_pos (enc_argv led) 2 ?body" by (simp add: at_pos_def enc_argv_def)
  have "lua_plans env (kt_keys ?t) (enc_argv led) (length ?ps) 1 2 =
      Inr (map (lua_plan_of ?t) ?ps, 2 + length ?body)"
    using decode_plans [OF tn b, of ?ps 1 "enc_argv led" 2 ?t 1] at ok fits ks
    by (simp add: ledger_ok_def ledger_fits_def nth_append)
  moreover have "argv_at (enc_argv led) 0 = Some ''V1''" "argv_at (enc_argv led) 1 = Some (dec_int (int (length ?ps)))"
    "length (enc_argv led) = 2 + length ?body"
    by (simp_all add: enc_argv_def argv_at_def n)
  moreover have "lua_tonumber env (Some (dec_int (int (length ?ps)))) = Some (int (length ?ps))"
    using tn b ks by (simp add: lua_tonumber_def tonumber_int_def)
  ultimately show ?thesis by (simp add: lua_decode_def n)
qed

section \<open>Executing what was decoded\<close>

text \<open>The same plan with its key arguments by name, as the ledger holds it.\<close>

definition raw_step :: "('op \<Rightarrow> int) \<Rightarrow> 'op VfdwLedgerStep \<Rightarrow> lua_step" where
  "raw_step code s = \<lparr>ls_op = code (step_op s), ls_args = map Some (step_args s)\<rparr>"

definition raw_plan :: "VfdwKeyPlan \<Rightarrow> lua_plan" where
  "raw_plan p =
     \<lparr>lp_k = plan_key p, lp_ttype = tabletype_code (plan_ttype p), lp_req = require_code (plan_require p),
      lp_checks = map (raw_step check_code) (plan_checks p),
      lp_actions = map (raw_step action_code) (plan_actions p)\<rparr>"

lemma lua_arg_Some: "lua_arg (map Some xs) j = (if 1 \<le> j \<and> j \<le> length xs then Some (xs ! (j - 1)) else None)"
  by (auto simp: lua_arg_def)

lemma keys_at_interned:
  assumes tn: "tonumber_int env" and ok: "keytable_ok t" and b: "int (length (kt_keys t)) < 2 ^ 31"
    and k: "k \<in> set (kt_keys t)"
  shows "keys_at env (kt_keys t) (Some (dec_int (the (kt_bybytes t k)))) = Some k"
proof -
  from index_of [OF ok k] obtain n where n: "kt_bybytes t k = Some n" "1 \<le> n"
    "n \<le> int (length (kt_keys t))" "kt_keys t ! nat (n - 1) = k" by blast
  then have "srv_tonumber env (dec_int n) = Some n" using tn b by (simp add: tonumber_int_def)
  then show ?thesis using n by (simp add: keys_at_def lua_tonumber_def)
qed

lemma enc_args_other: "ka < 0 \<Longrightarrow> enc_args t ka args = args"
  by (rule nth_equalityI) (auto simp: enc_args_nth)

lemma enc_args_first:
  assumes "tonumber_int env" "keytable_ok t" "int (length (kt_keys t)) < 2 ^ 31"
    and "args \<noteq> [] \<Longrightarrow> args ! 0 \<in> set (kt_keys t)"
  shows "keys_at env (kt_keys t) (lua_arg (map Some (enc_args t 0 args)) 1) = lua_arg (map Some args) 1"
    "lua_arg (map Some (enc_args t 0 args)) 2 = lua_arg (map Some args) 2"
proof -
  show "keys_at env (kt_keys t) (lua_arg (map Some (enc_args t 0 args)) 1) = lua_arg (map Some args) 1"
  proof (cases "args = []")
    case True
    then show ?thesis by (simp add: lua_arg_def keys_at_def lua_tonumber_def enc_args_def)
  next
    case False
    then have "0 < length args" by simp
    then show ?thesis
      using keys_at_interned [OF assms(1-3) assms(4) [OF False]]
      by (simp add: lua_arg_Some enc_args_nth Suc_le_eq)
  qed
  show "lua_arg (map Some (enc_args t 0 args)) 2 = lua_arg (map Some args) 2"
    by (simp add: lua_arg_Some enc_args_nth)
qed

lemma check_resolved:
  assumes tn: "tonumber_int env" and ok: "keytable_ok t" and b: "int (length (kt_keys t)) < 2 ^ 31"
    and d: "declared vfdw_check_key_arg s t"
  shows "lua_check env (keys_at env (kt_keys t)) k (check_code (step_op s))
           (map Some (enc_args t (vfdw_check_key_arg (step_op s)) (step_args s))) db =
         lua_check env (\<lambda>v. v) k (check_code (step_op s)) (map Some (step_args s)) db"
proof (cases "vfdw_check_key_arg (step_op s) < 0")
  case True
  then have "step_op s \<noteq> VFDW_CHK_KSET_ABSENT" "step_op s \<noteq> VFDW_CHK_KSET_PRESENT"
    by (auto simp: vfdw_check_key_arg_def split: if_splits)
  then show ?thesis using True
    by (cases "step_op s") (simp_all add: enc_args_other lua_check_def)
next
  case False
  then have ops: "step_op s = VFDW_CHK_KSET_ABSENT \<or> step_op s = VFDW_CHK_KSET_PRESENT"
    and ka: "vfdw_check_key_arg (step_op s) = 0"
    by (auto simp: vfdw_check_key_arg_def split: if_splits)
  have "step_args s \<noteq> [] \<Longrightarrow> step_args s ! 0 \<in> set (kt_keys t)"
    using d ka by (simp add: declared_def)
  note e = enc_args_first [OF tn ok b this]
  show ?thesis unfolding ka using ops e by (elim disjE) (simp_all add: lua_check_def)
qed

lemma action_resolved:
  assumes tn: "tonumber_int env" and ok: "keytable_ok t" and b: "int (length (kt_keys t)) < 2 ^ 31"
    and d: "declared vfdw_action_key_arg s t"
  shows "lua_action env (keys_at env (kt_keys t)) k (action_code (step_op s))
           (map Some (enc_args t (vfdw_action_key_arg (step_op s)) (step_args s))) db =
         lua_action env (\<lambda>v. v) k (action_code (step_op s)) (map Some (step_args s)) db"
proof (cases "vfdw_action_key_arg (step_op s) < 0")
  case True
  then have "step_op s \<noteq> VFDW_ACT_RENAME" "step_op s \<noteq> VFDW_ACT_KSET_ADD" "step_op s \<noteq> VFDW_ACT_KSET_REM"
    by (auto simp: vfdw_action_key_arg_def split: if_splits)
  then show ?thesis using True
    by (cases "step_op s") (simp_all add: enc_args_other lua_action_def)
next
  case False
  then have ops: "step_op s = VFDW_ACT_RENAME \<or> step_op s = VFDW_ACT_KSET_ADD \<or> step_op s = VFDW_ACT_KSET_REM"
    and ka: "vfdw_action_key_arg (step_op s) = 0"
    by (auto simp: vfdw_action_key_arg_def split: if_splits)
  have "step_args s \<noteq> [] \<Longrightarrow> step_args s ! 0 \<in> set (kt_keys t)"
    using d ka by (simp add: declared_def)
  note e = enc_args_first [OF tn ok b this]
  show ?thesis unfolding ka using ops e by (elim disjE) (simp_all add: lua_action_def)
qed

lemma checks_resolved:
  assumes "tonumber_int env" "keytable_ok t" "int (length (kt_keys t)) < 2 ^ 31"
    and "\<forall>s \<in> set ss. declared vfdw_check_key_arg s t"
  shows "lua_checks env (keys_at env (kt_keys t)) p k c (map (lua_step_of t check_code vfdw_check_key_arg) ss) db =
         lua_checks env (\<lambda>v. v) p k c (map (raw_step check_code) ss) db"
  using assms(4)
  by (induction ss arbitrary: c db)
     (auto simp: lua_step_of_def raw_step_def check_resolved [OF assms(1-3)]
       split: option.splits check_outcome.splits prod.splits)

lemma actions_resolved:
  assumes "tonumber_int env" "keytable_ok t" "int (length (kt_keys t)) < 2 ^ 31"
    and "\<forall>s \<in> set ss. declared vfdw_action_key_arg s t"
  shows "lua_actions env (keys_at env (kt_keys t)) p k c (map (lua_step_of t action_code vfdw_action_key_arg) ss) db =
         lua_actions env (\<lambda>v. v) p k c (map (raw_step action_code) ss) db"
  using assms(4)
  by (induction ss arbitrary: c db)
     (auto simp: lua_step_of_def raw_step_def action_resolved [OF assms(1-3)]
       split: option.splits reply.splits prod.splits)

lemma phases_resolved:
  assumes tn: "tonumber_int env" and ok: "keytable_ok t" and b: "int (length (kt_keys t)) < 2 ^ 31"
    and "\<forall>p \<in> set ps. plan_declared t p"
  shows "lua_phase1 env (keys_at env (kt_keys t)) q (map (lua_plan_of t) ps) db =
         lua_phase1 env (\<lambda>v. v) q (map raw_plan ps) db"
    and "lua_phase2 env (keys_at env (kt_keys t)) q (map (lua_plan_of t) ps) db =
         lua_phase2 env (\<lambda>v. v) q (map raw_plan ps) db"
proof -
  show "lua_phase1 env (keys_at env (kt_keys t)) q (map (lua_plan_of t) ps) db =
         lua_phase1 env (\<lambda>v. v) q (map raw_plan ps) db"
    using assms(4)
  proof (induction ps arbitrary: q db)
    case (Cons p ps)
    have "lua_checks env (keys_at env (kt_keys t)) q (plan_key p) 1 (lp_checks (lua_plan_of t p)) d =
          lua_checks env (\<lambda>v. v) q (plan_key p) 1 (lp_checks (raw_plan p)) d" for d
      using checks_resolved [OF tn ok b] Cons.prems
      by (simp add: lua_plan_of_def raw_plan_def plan_declared_def)
    moreover have "lp_k (lua_plan_of t p) = plan_key p" "lp_k (raw_plan p) = plan_key p"
      "lp_ttype (lua_plan_of t p) = lp_ttype (raw_plan p)"
      by (simp_all add: lua_plan_of_def raw_plan_def)
    ultimately show ?case using Cons by (simp split: prod.splits reply.splits sum.splits)
  qed simp
  show "lua_phase2 env (keys_at env (kt_keys t)) q (map (lua_plan_of t) ps) db =
         lua_phase2 env (\<lambda>v. v) q (map raw_plan ps) db"
    using assms(4)
  proof (induction ps arbitrary: q db)
    case (Cons p ps)
    have "lua_actions env (keys_at env (kt_keys t)) q (plan_key p) 1 (lp_actions (lua_plan_of t p)) d =
          lua_actions env (\<lambda>v. v) q (plan_key p) 1 (lp_actions (raw_plan p)) d" for d
      using actions_resolved [OF tn ok b] Cons.prems
      by (simp add: lua_plan_of_def raw_plan_def plan_declared_def)
    moreover have "lp_k (lua_plan_of t p) = plan_key p" "lp_k (raw_plan p) = plan_key p"
      by (simp_all add: lua_plan_of_def raw_plan_def)
    ultimately show ?case using Cons by (simp split: prod.splits sum.splits)
  qed simp
qed

section \<open>Phase 1 writes nothing\<close>

text \<open>The verbs phase 1 calls are reads: they leave the keyspace as it is.\<close>

definition read_verbs :: "string set" where
  "read_verbs = {''TYPE'', ''EXISTS'', ''HEXISTS'', ''SISMEMBER'', ''ZSCORE'', ''LRANGE''}"

definition reads_only :: "'db server \<Rightarrow> bool" where
  "reads_only env \<longleftrightarrow> (\<forall>verb \<in> read_verbs. \<forall>args db. snd (srv_call env verb args db) = db)"

lemma call_reads:
  "reads_only env \<Longrightarrow> verb \<in> read_verbs \<Longrightarrow> lua_call env verb args db = (r, db1) \<Longrightarrow> db1 = db"
  by (auto simp: lua_call_def reads_only_def split: if_splits) (metis snd_conv)

lemma probe_reads:
  assumes "reads_only env" "verb \<in> read_verbs" "lua_probe env verb args bad code db = (c, db1)"
  shows "db1 = db"
proof -
  obtain r db2 where r: "lua_call env verb args db = (r, db2)" by force
  then show ?thesis using assms(3) call_reads [OF assms(1,2) r]
    by (auto simp: lua_probe_def split: reply.splits)
qed

lemma check_reads:
  assumes ro: "reads_only env" and c: "lua_check env keyref k oper a db = Some (out, db1)"
  shows "db1 = db"
proof (cases "oper = 9")
  case True
  obtain r db2 where r: "lua_call env ''LRANGE'' [Some k, Some ''0'', Some ''-1''] db = (r, db2)" by force
  have "db2 = db" using call_reads [OF ro _ r] by (simp add: read_verbs_def)
  then show ?thesis using c True r
    by (auto simp: lua_check_def split: reply.splits option.splits)
next
  case False
  then obtain verb args bad code where "lua_probe env verb args bad code db = (out, db1)" "verb \<in> read_verbs"
    using c by (auto simp: lua_check_def read_verbs_def split: if_splits)
  then show ?thesis using probe_reads [OF ro] by blast
qed

lemma checks_read:
  "reads_only env \<Longrightarrow> snd (lua_checks env keyref p k c cs db) = db"
proof (induction cs arbitrary: c)
  case (Cons x cs)
  show ?case
  proof (cases "lua_check env keyref k (ls_op x) (ls_args x) db")
    case (Some r)
    obtain out db1 where r: "r = (out, db1)" by force
    then have "db1 = db" using check_reads [OF Cons.prems] Some by blast
    then show ?thesis using Some r Cons by (cases out) simp_all
  qed (use Cons in simp)
qed simp

lemma phase1_reads: "reads_only env \<Longrightarrow> snd (lua_phase1 env keyref p pls db) = db"
proof (induction pls arbitrary: p)
  case (Cons pl pls)
  obtain r db1 where r: "lua_call env ''TYPE'' [Some (lp_k pl)] db = (r, db1)" by force
  have db1: "db1 = db" using call_reads [OF Cons.prems _ r] by (simp add: read_verbs_def)
  obtain o2 db2 where c: "lua_checks env keyref p (lp_k pl) 1 (lp_checks pl) db = (o2, db2)" by force
  then have "db2 = db" using checks_read [OF Cons.prems] by (metis snd_conv)
  then show ?case using r db1 c Cons by (cases r; cases o2) simp_all
qed simp

text \<open>Everything phase 2 reports is an INTERNAL failure.\<close>

lemma actions_fail_internal:
  "lua_actions env keyref p k c as db = (Inl e, db1) \<Longrightarrow> \<exists>d. e = lua_fail ''INTERNAL'' p k d"
proof (induction as arbitrary: c db)
  case (Cons a as)
  show ?case
  proof (cases "lua_action env keyref k (ls_op a) (ls_args a) db")
    case None
    then show ?thesis using Cons.prems by auto
  next
    case (Some x)
    obtain r dbx where x: "x = (r, dbx)" by force
    then show ?thesis using Cons Some by (cases r) auto
  qed
qed simp

lemma phase2_fail_internal:
  "lua_phase2 env keyref p pls db = (Inl e, db1) \<Longrightarrow> \<exists>q k d. e = lua_fail ''INTERNAL'' q k d"
proof (induction pls arbitrary: p db)
  case (Cons pl pls)
  obtain o1 dbx where o: "lua_actions env keyref p (lp_k pl) 1 (lp_actions pl) db = (o1, dbx)" by force
  show ?case
  proof (cases o1)
    case (Inl e')
    then have "e = e'" using Cons.prems o by simp
    then show ?thesis
      using actions_fail_internal [of env keyref p "lp_k pl" 1 "lp_actions pl" db e' dbx] o Inl by auto
  next
    case (Inr u)
    then show ?thesis using Cons o by simp
  qed
qed simp

section \<open>The classifier\<close>

lemma word_at_iff:
  assumes "pos \<le> length str"
  shows "vfdw_script_word_at str pos w \<longleftrightarrow>
    drop pos str = w \<or> (\<exists>rest. drop pos str = w @ CHR '' '' # rest)"
proof -
  define xs where "xs = drop pos str"
  have n: "pos + length w < length str \<Longrightarrow> str ! (pos + length w) = xs ! length w" by (simp add: xs_def)
  have len: "length str = pos + length xs" using assms by (simp add: xs_def)
  have "vfdw_script_word_at str pos w \<longleftrightarrow>
      length w \<le> length xs \<and> take (length w) xs = w \<and> (length w = length xs \<or> xs ! length w = CHR '' '')"
  proof (cases "pos + length w < length str")
    case True
    then show ?thesis unfolding vfdw_script_word_at_def xs_def [symmetric] using n [OF True] len by simp
  next
    case False
    then show ?thesis unfolding vfdw_script_word_at_def xs_def [symmetric] using len by auto
  qed
  also have "\<dots> \<longleftrightarrow> xs = w \<or> (\<exists>rest. xs = w @ CHR '' '' # rest)"
  proof
    assume a: "length w \<le> length xs \<and> take (length w) xs = w \<and> (length w = length xs \<or> xs ! length w = CHR '' '')"
    show "xs = w \<or> (\<exists>rest. xs = w @ CHR '' '' # rest)"
    proof (cases "length w = length xs")
      case False
      then have lt: "length w < length xs" using a by simp
      have tk: "take (length w) xs = w" and nx: "xs ! length w = CHR '' ''" using a False by auto
      have "xs = w @ CHR '' '' # drop (Suc (length w)) xs"
        using id_take_nth_drop [OF lt] unfolding tk nx .
      then show ?thesis by blast
    qed (use a in auto)
  qed auto
  finally show ?thesis by (simp add: xs_def)
qed

lemma word_at_code:
  assumes "length pre = n"
  shows "vfdw_script_word_at (pre @ s) n w \<longleftrightarrow> s = w \<or> (\<exists>rest. s = w @ CHR '' '' # rest)"
  using assms by (subst word_at_iff) simp_all

text \<open>For a word without spaces that is the first word of the rest of the reply.\<close>

definition first_word :: "bytes \<Rightarrow> bytes" where
  "first_word s = takeWhile (\<lambda>c. c \<noteq> CHR '' '') s"

lemma first_word_iff:
  assumes "CHR '' '' \<notin> set w"
  shows "first_word s = w \<longleftrightarrow> s = w \<or> (\<exists>rest. s = w @ CHR '' '' # rest)"
proof
  assume f: "first_word s = w"
  let ?d = "dropWhile (\<lambda>c. c \<noteq> CHR '' '') s"
  have s: "s = w @ ?d" using f takeWhile_dropWhile_id [of "\<lambda>c. c \<noteq> CHR '' ''" s] by (simp add: first_word_def)
  show "s = w \<or> (\<exists>rest. s = w @ CHR '' '' # rest)"
  proof (cases ?d)
    case Nil
    have "s = w" using s unfolding Nil by simp
    then show ?thesis by simp
  next
    case (Cons x xs)
    then have "x = CHR '' ''" using hd_dropWhile [of "\<lambda>c. c \<noteq> CHR '' ''" s] by simp
    then show ?thesis using s Cons by metis
  qed
next
  have w: "takeWhile (\<lambda>c. c \<noteq> CHR '' '') w = w" using assms by (auto simp: takeWhile_eq_all_conv)
  have "takeWhile (\<lambda>c. c \<noteq> CHR '' '') (w @ CHR '' '' # r) = w" for r
    using assms by (subst takeWhile_append2) auto
  moreover assume "s = w \<or> (\<exists>rest. s = w @ CHR '' '' # rest)"
  ultimately show "first_word s = w" using w unfolding first_word_def by blast
qed

lemma code_at_word:
  assumes pre: "length pre = n"
  shows "\<forall>x \<in> set codes. CHR '' '' \<notin> set (fst x) \<Longrightarrow>
    map_option fst (script_code_at (pre @ s) n codes) = map_of codes (first_word s)"
proof (induction codes)
  case (Cons x codes)
  obtain w v where x: "x = (w, v)" by force
  have "vfdw_script_word_at (pre @ s) n w \<longleftrightarrow> first_word s = w"
    using Cons.prems x first_word_iff [of w s] word_at_code [OF pre, of s w] by simp
  then show ?case using Cons x by auto
qed simp

lemma classify_prefix:
  assumes pre: "pre = ''VFDW1 ''"
  shows "fst (vfdw_script_classify (Some (pre @ s))) =
     (case map_of vfdw_script_codes (first_word s) of Some v \<Rightarrow> v | None \<Rightarrow> VFDW_SCRIPT_BADPROTO)"
proof -
  have l: "length pre = 6" using pre by simp
  have sp: "\<forall>x \<in> set vfdw_script_codes. CHR '' '' \<notin> set (fst x)" by (simp add: vfdw_script_codes_def)
  have "vfdw_script_word_at (pre @ s) 0 ''VFDW1''" "(pre @ s) ! 5 = CHR '' ''"
    using pre by (simp_all add: vfdw_script_word_at_def)
  then show ?thesis using l code_at_word [OF l sp, of s, symmetric]
    by (cases "script_code_at (pre @ s) 6 vfdw_script_codes") (auto simp: vfdw_script_classify_def)
qed

lemma classify_no_prefix:
  assumes "\<And>s'. s \<noteq> ''VFDW1 '' @ s'"
  shows "fst (vfdw_script_classify (Some s)) = VFDW_SCRIPT_UNKNOWN"
proof (rule ccontr)
  assume c: "fst (vfdw_script_classify (Some s)) \<noteq> VFDW_SCRIPT_UNKNOWN"
  then have w: "vfdw_script_word_at s 0 ''VFDW1''" and l: "5 < length s"
    by (auto simp: vfdw_script_classify_def split: if_splits)
  from w l obtain rest where "s = ''VFDW1'' @ CHR '' '' # rest" by (auto simp: word_at_iff)
  then show False using assms [of rest] by simp
qed

text \<open>The message \<open>fail\<close> builds is classified as the code it was given.\<close>

lemma classify_fail:
  assumes "(code, v) \<in> set vfdw_script_codes"
  shows "fst (vfdw_script_classify (Some (lua_fail code p k d))) = v"
proof -
  define pre :: bytes where "pre = ''VFDW1 ''"
  define rest where "rest = dec_int p @ '' '' @ k @ '' '' @ d"
  have m: "lua_fail code p k d = pre @ code @ CHR '' '' # rest"
    by (simp add: lua_fail_def pre_def rest_def)
  have "CHR '' '' \<notin> set code" and dist: "map_of vfdw_script_codes code = Some v"
    using assms by (auto simp: vfdw_script_codes_def)
  then have "first_word (code @ CHR '' '' # rest) = code" by (simp add: first_word_iff)
  then show ?thesis unfolding m classify_prefix [OF pre_def] using dist by simp
qed

section \<open>Properties\<close>

text \<open>C2. The wire format loses nothing: the encoder never refuses a well-formed ledger (invariant
  W2: every key argument is a declared key in range), and running the server-side program on the
  KEYS and ARGV it wrote does exactly what executing the ledger's plans directly does, checks in
  plan order, then actions in plan order, each key argument standing for the key it names, on every
  keyspace and with the same reply.\<close>

theorem program_executes_ledger:
  assumes "ledger_ok led" and "ledger_fits led" and "tonumber_int env"
  shows "\<exists>cmd. vfdw_script_encode sha1 led = Inr cmd \<and>
           vfdw_script_program env (evalsha_keys cmd) (evalsha_argv cmd) db =
             lua_execute env (\<lambda>v. v) (vfdw_ledger_nplans led) (map raw_plan (led_plans led)) db"
proof -
  let ?t = "script_keytable led"
  note kt = keytable_spec [OF assms(1) ledger_distinct [OF assms(1)]]
  have b: "int (length (kt_keys ?t)) < 2 ^ 31" using assms(2) by (simp add: ledger_fits_def)
  note r = phases_resolved [OF assms(3) kt(1) b kt(3)]
  have "vfdw_script_program env (kt_keys ?t) (enc_argv led) db =
      lua_execute env (\<lambda>v. v) (vfdw_ledger_nplans led) (map raw_plan (led_plans led)) db"
    by (simp add: vfdw_script_program_def decode_encode [OF assms(3,1,2)] lua_execute_def r
        split: prod.splits sum.splits)
  then show ?thesis
    using encode_spec [OF assms(1)] evalsha_split [of "''EVALSHA''" sha1 "kt_keys ?t" "enc_argv led"] by simp
qed

text \<open>A keyspace of strings, for the witnesses.\<close>

definition mem_call :: "string \<Rightarrow> bytes list \<Rightarrow> (bytes \<rightharpoonup> bytes) \<Rightarrow> reply \<times> (bytes \<rightharpoonup> bytes)" where
  "mem_call verb args db =
     (case args of
        [k] \<Rightarrow> if verb = ''EXISTS'' then (R_int (if db k = None then 0 else 1), db)
               else if verb = ''TYPE'' then (R_status (if db k = None then ''none'' else ''string''), db)
               else if verb = ''DEL'' then (R_int (if db k = None then 0 else 1), db(k := None))
               else (R_err ''ERR'', db)
      | [k, v] \<Rightarrow> if verb = ''SET'' then (R_status ''OK'', db(k \<mapsto> v)) else (R_err ''ERR'', db)
      | _ \<Rightarrow> (R_err ''ERR'', db))"

definition mem_server :: "(bytes \<rightharpoonup> bytes) server" where
  "mem_server = \<lparr>srv_call = mem_call, srv_tonumber = parse_dec, srv_luaerr = ''ERR''\<rparr>"

lemma mem_server_tonumber: "tonumber_int mem_server"
  by (simp add: tonumber_int_def mem_server_def)

lemma mem_server_reads: "reads_only mem_server"
  by (auto simp: reads_only_def mem_server_def mem_call_def read_verbs_def split: list.splits)

definition sample_ledger :: ledger where
  "sample_ledger = projr (vfdw_ledger_note (zero_op\<lparr>op_key := ''a'', op_value := Some ''1''\<rparr>) vfdw_ledger_reset)"

lemma sample_ledger_note:
  "vfdw_ledger_note (zero_op\<lparr>op_key := ''a'', op_value := Some ''1''\<rparr>) vfdw_ledger_reset = Inr sample_ledger"
  unfolding sample_ledger_def by (simp add: ledger_exec)

lemma sample_ledger_ok: "ledger_ok sample_ledger"
  using note_ok [OF reset_ok sample_ledger_note] by simp

lemma sample_ledger_fits: "ledger_fits sample_ledger"
  by (simp add: sample_ledger_def ledger_exec ledger_fits_def plan_fits_def step_fits_def script_keytable_def
      vfdw_script_declare_keys_def declare_step_def vfdw_check_key_arg_def vfdw_action_key_arg_def
      vfdw_keytable_intern_def vfdw_keytable_init_def)

theorem program_executes_ledger_witness:
  "\<exists>cmd. vfdw_script_encode ''sha'' sample_ledger = Inr cmd \<and>
     vfdw_script_program mem_server (evalsha_keys cmd) (evalsha_argv cmd) [''a'' \<mapsto> ''0''] =
       lua_execute mem_server (\<lambda>v. v) (vfdw_ledger_nplans sample_ledger)
         (map raw_plan (led_plans sample_ledger)) [''a'' \<mapsto> ''0'']"
  using program_executes_ledger [OF sample_ledger_ok sample_ledger_fits mem_server_tonumber] by blast

text \<open>C5. A refused transaction leaves no trace: whatever KEYS and ARGV the program is given, if the
  server's read verbs do not write, an error reply that is not classified INTERNAL means the
  keyspace is exactly as it was. That covers every CONFLICT, MISSING, WRONGTYPE and BADPROTO reply
  and every error raised while the checks ran.\<close>

theorem refused_writes_nothing:
  assumes "reads_only env"
    and "vfdw_script_program env keys argv db = (R_err m, db')"
    and "fst (vfdw_script_classify (Some m)) \<noteq> VFDW_SCRIPT_INTERNAL"
  shows "db' = db"
proof (cases "lua_decode env keys argv")
  case (Inl e)
  then show ?thesis using assms(2) by (simp add: vfdw_script_program_def)
next
  case (Inr x)
  obtain n pls where x: "x = (n, pls)" by force
  obtain o1 db1 where p1: "lua_phase1 env (keys_at env keys) 1 pls db = (o1, db1)" by force
  have db1: "db1 = db" using phase1_reads [OF assms(1)] p1 by (metis snd_conv)
  obtain o2 db2 where p2: "lua_phase2 env (keys_at env keys) 1 pls db = (o2, db2)" by force
  show ?thesis
  proof (cases o1)
    case (Inl e)
    then show ?thesis using assms(2) Inr x p1 db1 by (simp add: vfdw_script_program_def lua_execute_def)
  next
    case ok: (Inr u)
    obtain e where "o2 = Inl e" "m = e"
      using assms(2) Inr x p1 p2 db1 ok
      by (cases o2) (auto simp: vfdw_script_program_def lua_execute_def)
    then obtain q k d where "m = lua_fail ''INTERNAL'' q k d"
      using phase2_fail_internal [of env "keys_at env keys" 1 pls db e db2] p2 by auto
    then have "fst (vfdw_script_classify (Some m)) = VFDW_SCRIPT_INTERNAL"
      using classify_fail [of "''INTERNAL''" VFDW_SCRIPT_INTERNAL] by (simp add: vfdw_script_codes_def)
    then show ?thesis using assms(3) by simp
  qed
qed

theorem refused_writes_nothing_witness:
  "snd (vfdw_script_program mem_server [''a''] [''V1'', ''2''] [''a'' \<mapsto> ''0'']) = [''a'' \<mapsto> ''0'']"
proof -
  let ?r = "vfdw_script_program mem_server [''a''] [''V1'', ''2''] [''a'' \<mapsto> ''0'']"
  let ?m = "lua_fail ''BADPROTO'' 1 ''-'' ''plan header''"
  have r: "?r = (R_err ?m, snd ?r)"
    by (simp add: vfdw_script_program_def lua_decode_def argv_at_def lua_tonumber_def mem_server_def
        parse_dec_def is_digit_def dec_val_def digit_val_def lua_plan_at_def numeral_2_eq_2)
  have "fst (vfdw_script_classify (Some ?m)) \<noteq> VFDW_SCRIPT_INTERNAL"
    using classify_fail [of "''BADPROTO''" VFDW_SCRIPT_BADPROTO] by (simp add: vfdw_script_codes_def)
  from refused_writes_nothing [OF mem_server_reads r this] show ?thesis .
qed

text \<open>Classification respects word boundaries: a reply is classified as one of the known
  outcomes only if it is exactly the sentinel, one space and that code, alone or followed by a
  space and a detail; a longer word that merely begins with a code (\<open>VFDW1 CONFLICTX\<close>) is not.\<close>

theorem classify_exact:
  assumes "(code, v) \<in> set vfdw_script_codes" and "v \<noteq> VFDW_SCRIPT_BADPROTO"
  shows "fst (vfdw_script_classify (Some s)) = v \<longleftrightarrow>
           s = ''VFDW1 '' @ code \<or> (\<exists>rest. s = ''VFDW1 '' @ code @ CHR '' '' # rest)"
proof -
  define pre :: bytes where "pre = ''VFDW1 ''"
  have sp: "CHR '' '' \<notin> set code" and un: "v \<noteq> VFDW_SCRIPT_UNKNOWN"
    using assms(1) by (auto simp: vfdw_script_codes_def)
  have "distinct (map fst vfdw_script_codes)" and snds: "distinct (map snd vfdw_script_codes)"
    by (simp_all add: vfdw_script_codes_def)
  then have "map_of vfdw_script_codes c = Some v \<longleftrightarrow> (c, v) \<in> set vfdw_script_codes" for c by simp
  moreover have "c = code" if "(c, v) \<in> set vfdw_script_codes" for c
    using inj_onD [of snd "set vfdw_script_codes" "(c, v)" "(code, v)"] that assms(1) snds
    by (simp add: distinct_map)
  ultimately have uniq: "\<And>c. map_of vfdw_script_codes c = Some v \<longleftrightarrow> c = code" using assms(1) by blast
  show ?thesis
  proof (cases "\<exists>s'. s = pre @ s'")
    case True
    then obtain s' where s': "s = pre @ s'" by blast
    have "fst (vfdw_script_classify (Some s)) = v \<longleftrightarrow> first_word s' = code"
      unfolding s' classify_prefix [OF pre_def] using uniq [of "first_word s'"] assms(2)
      by (cases "map_of vfdw_script_codes (first_word s')") auto
    then show ?thesis unfolding first_word_iff [OF sp] s' pre_def by simp
  next
    case False
    then show ?thesis using classify_no_prefix [of s] un by (auto simp: pre_def)
  qed
qed

theorem classify_exact_witness:
  "fst (vfdw_script_classify (Some ''VFDW1 CONFLICTX'')) \<noteq> VFDW_SCRIPT_CONFLICT \<and>
   fst (vfdw_script_classify (Some ''VFDW1 CONFLICT 1 k'')) = VFDW_SCRIPT_CONFLICT"
  using classify_exact [of "''CONFLICT''" VFDW_SCRIPT_CONFLICT "''VFDW1 CONFLICTX''"]
    classify_exact [of "''CONFLICT''" VFDW_SCRIPT_CONFLICT "''VFDW1 CONFLICT 1 k''"]
  by (simp add: vfdw_script_codes_def)

end
