(* ===== verification/Wire.thy ===== *)
theory Wire
  imports Prelude
begin

text \<open>
  Commands, pipelined batches and replies: \<open>src/vfdw_cmd.c\<close> and the error translation of
  \<open>src/vfdw_error.c\<close>.

  A reply is libvalkey's structure: its type, its string body, its integer and its elements. The
  socket is not modelled: \<open>wire_flush n\<close> is what the \<open>n\<close>-th \<open>vfdw_io_flush\<close> of a connection does and
  \<open>wire_read n\<close> what its \<open>n\<close>-th \<open>vfdw_io_get_reply\<close> gives, each an error or a success, and the batch
  counts how often it has called them. PostgreSQL's \<open>pg_verify_mbstr\<close> and encoding name are
  arguments. The DETAIL and HINT of an error are not part of \<^typ>\<open>pg_error\<close>.
\<close>

section \<open>Replies\<close>

datatype reply_type =
    VALKEY_REPLY_STRING | VALKEY_REPLY_ARRAY | VALKEY_REPLY_INTEGER | VALKEY_REPLY_NIL
  | VALKEY_REPLY_STATUS | VALKEY_REPLY_ERROR | VALKEY_REPLY_DOUBLE | VALKEY_REPLY_BOOL
  | VALKEY_REPLY_MAP | VALKEY_REPLY_SET | VALKEY_REPLY_PUSH | VALKEY_REPLY_VERB
  | VALKEY_REPLY_BIGNUM | VALKEY_REPLY_ATTR

datatype valkeyReply =
  Reply (rp_type: reply_type) (rp_str: "bytes option") (rp_integer: int)
    (rp_element: "valkeyReply option list")

primrec vfdw_reply_type_name :: "reply_type \<Rightarrow> string" where
  "vfdw_reply_type_name VALKEY_REPLY_STRING = ''string''"
| "vfdw_reply_type_name VALKEY_REPLY_ARRAY = ''array''"
| "vfdw_reply_type_name VALKEY_REPLY_INTEGER = ''integer''"
| "vfdw_reply_type_name VALKEY_REPLY_NIL = ''nil''"
| "vfdw_reply_type_name VALKEY_REPLY_STATUS = ''status''"
| "vfdw_reply_type_name VALKEY_REPLY_ERROR = ''error''"
| "vfdw_reply_type_name VALKEY_REPLY_DOUBLE = ''double''"
| "vfdw_reply_type_name VALKEY_REPLY_BOOL = ''boolean''"
| "vfdw_reply_type_name VALKEY_REPLY_MAP = ''map''"
| "vfdw_reply_type_name VALKEY_REPLY_SET = ''set''"
| "vfdw_reply_type_name VALKEY_REPLY_PUSH = ''push''"
| "vfdw_reply_type_name VALKEY_REPLY_VERB = ''verbatim''"
| "vfdw_reply_type_name VALKEY_REPLY_BIGNUM = ''bignum''"
| "vfdw_reply_type_name VALKEY_REPLY_ATTR = ''attribute''"

text \<open>An element libvalkey left NULL is \<open>None\<close>, so a NULL \<open>element\<close> array is the empty list.\<close>

definition vfdw_reply_child :: "valkeyReply \<Rightarrow> nat \<Rightarrow> valkeyReply result" where
  "vfdw_reply_child reply i =
     (if i \<ge> length (rp_element reply)
      then raise ERRCODE_FDW_ERROR ''a Valkey aggregate reply is missing an element it declared''
      else case rp_element reply ! i of
             None \<Rightarrow> raise ERRCODE_FDW_ERROR ''a Valkey aggregate reply is missing an element it declared''
           | Some r \<Rightarrow> Inr r)"

section \<open>SQLSTATEs for server errors\<close>

definition vfdw_reply_errors :: "(string \<times> sqlstate) list" where
  "vfdw_reply_errors =
     [(''WRONGTYPE'', ERRCODE_DATATYPE_MISMATCH), (''WRONGPASS'', ERRCODE_INVALID_PASSWORD),
      (''NOAUTH'', ERRCODE_INVALID_AUTHORIZATION_SPECIFICATION), (''NOPERM'', ERRCODE_INSUFFICIENT_PRIVILEGE),
      (''NOPROTO'', ERRCODE_FEATURE_NOT_SUPPORTED), (''LOADING'', ERRCODE_CANNOT_CONNECT_NOW),
      (''MASTERDOWN'', ERRCODE_CANNOT_CONNECT_NOW), (''CLUSTERDOWN'', ERRCODE_CANNOT_CONNECT_NOW),
      (''BUSY'', ERRCODE_LOCK_NOT_AVAILABLE), (''OOM'', ERRCODE_OUT_OF_MEMORY),
      (''READONLY'', ERRCODE_READ_ONLY_SQL_TRANSACTION), (''MISCONF'', ERRCODE_CONFIG_FILE_ERROR),
      (''CROSSSLOT'', ERRCODE_FEATURE_NOT_SUPPORTED), (''EXECABORT'', ERRCODE_TRANSACTION_ROLLBACK)]"

definition NUL :: char where
  "NUL = CHR 0x00"

text \<open>The bytes of a C string: up to the first NUL.\<close>

definition cstr :: "bytes \<Rightarrow> bytes" where
  "cstr s = takeWhile (\<lambda>c. c \<noteq> NUL) s"

text \<open>\<open>strncmp(errstr, prefix, len) == 0\<close> and the byte after it is a space or the terminator.\<close>

definition word_prefix :: "string \<Rightarrow> bytes \<Rightarrow> bool" where
  "word_prefix p s \<longleftrightarrow>
     take (length p) s = p \<and> (length s = length p \<or> (length s > length p \<and> s ! length p = CHR '' ''))"

fun first_prefix :: "(string \<times> sqlstate) list \<Rightarrow> bytes \<Rightarrow> sqlstate" where
  "first_prefix [] s = ERRCODE_FDW_ERROR"
| "first_prefix ((p, code) # rest) s = (if word_prefix p s then code else first_prefix rest s)"

definition vfdw_errcode_for_reply :: "bytes option \<Rightarrow> sqlstate" where
  "vfdw_errcode_for_reply errstr =
     (case errstr of None \<Rightarrow> ERRCODE_FDW_ERROR | Some s \<Rightarrow> first_prefix vfdw_reply_errors (cstr s))"

datatype context_error = VALKEY_ERR_IO | VALKEY_ERR_EOF | VALKEY_ERR_PROTOCOL | VALKEY_ERR_TIMEOUT
  | VALKEY_ERR_OOM | VALKEY_ERR_OTHER

definition vfdw_errcode_for_context :: "context_error \<Rightarrow> sqlstate" where
  "vfdw_errcode_for_context e =
     (case e of
        VALKEY_ERR_IO \<Rightarrow> ERRCODE_CONNECTION_FAILURE
      | VALKEY_ERR_EOF \<Rightarrow> ERRCODE_CONNECTION_FAILURE
      | VALKEY_ERR_PROTOCOL \<Rightarrow> ERRCODE_PROTOCOL_VIOLATION
      | VALKEY_ERR_TIMEOUT \<Rightarrow> ERRCODE_CONNECTION_FAILURE
      | VALKEY_ERR_OOM \<Rightarrow> ERRCODE_OUT_OF_MEMORY
      | VALKEY_ERR_OTHER \<Rightarrow> ERRCODE_FDW_ERROR)"

definition vfdw_reply_is_error :: "valkeyReply option \<Rightarrow> bool" where
  "vfdw_reply_is_error r = (case r of None \<Rightarrow> False | Some reply \<Rightarrow> rp_type reply = VALKEY_REPLY_ERROR)"

definition vfdw_reply_has_prefix :: "valkeyReply option \<Rightarrow> string \<Rightarrow> bool" where
  "vfdw_reply_has_prefix r prefix =
     (if \<not> vfdw_reply_is_error r then False
      else case rp_str (the r) of
             None \<Rightarrow> False
           | Some str \<Rightarrow>
               if length str < length prefix then False
               else if take (length prefix) str \<noteq> prefix then False
               else length str = length prefix \<or> str ! length prefix = CHR '' '')"

text \<open>\<open>verify\<close> is \<open>pg_verify_mbstr\<close> for the database encoding, \<open>enc\<close> its name.\<close>

definition vfdw_safe_text :: "(bytes \<Rightarrow> bool) \<Rightarrow> string \<Rightarrow> bytes option \<Rightarrow> bytes" where
  "vfdw_safe_text verify enc b =
     (case b of
        None \<Rightarrow> ''''
      | Some s \<Rightarrow>
          if s = [] then ''''
          else if verify s then cstr s
          else ''a '' @ dec_nat (length s) @ ''-byte value that is not valid in encoding '' @
               [CHR 0x22] @ enc @ [CHR 0x22])"

definition vfdw_error_reply_text ::
  "(bytes \<Rightarrow> bool) \<Rightarrow> string \<Rightarrow> valkeyReply option \<Rightarrow> bytes \<times> sqlstate" where
  "vfdw_error_reply_text verify enc r =
     (case Option.bind r rp_str of
        None \<Rightarrow> (''(no message)'', ERRCODE_FDW_ERROR)
      | Some s \<Rightarrow>
          if s = [] then (''(no message)'', ERRCODE_FDW_ERROR)
          else (vfdw_safe_text verify enc (Some s), vfdw_errcode_for_reply (Some s)))"

text \<open>\<open>vfdw_error_from_reply\<close>: the SQLSTATE of the reply under the caller's message.\<close>

definition vfdw_error_from_reply :: "valkeyReply \<Rightarrow> string \<Rightarrow> 'a result" where
  "vfdw_error_from_reply reply what =
     raise (snd (vfdw_error_reply_text (\<lambda>_. True) '''' (Some reply))) what"

definition vfdw_reply_expect :: "valkeyReply option \<Rightarrow> reply_type list \<Rightarrow> string \<Rightarrow> unit result" where
  "vfdw_reply_expect r allowed what =
     (case r of
        None \<Rightarrow> raise ERRCODE_FDW_ERROR what
      | Some reply \<Rightarrow>
          if vfdw_reply_is_error r then vfdw_error_from_reply reply what
          else if rp_type reply \<notin> set allowed then raise ERRCODE_FDW_INVALID_DATA_TYPE what
          else Inr ())"

section \<open>Commands\<close>

record VfdwCmd =
  cmd_argv :: "bytes list"
  cmd_capacity :: int

definition vfdw_cmd_init :: "int \<Rightarrow> VfdwCmd" where
  "vfdw_cmd_init capacity = \<lparr>cmd_argv = [], cmd_capacity = capacity\<rparr>"

definition vfdw_cmd_reset :: "VfdwCmd \<Rightarrow> VfdwCmd" where
  "vfdw_cmd_reset cmd = cmd\<lparr>cmd_argv := []\<rparr>"

text \<open>\<open>while (newcap < needed) newcap *= 2\<close>, for a positive capacity.\<close>

function cmd_grow :: "int \<Rightarrow> int \<Rightarrow> int" where
  "cmd_grow newcap needed =
     (if newcap \<le> 0 then newcap else if newcap < needed then cmd_grow (newcap * 2) needed else newcap)"
  by pat_completeness auto
termination by (relation "measure (\<lambda>(c, n). nat (n - c))") auto

declare cmd_grow.simps [simp del]

definition vfdw_cmd_ensure :: "int \<Rightarrow> VfdwCmd \<Rightarrow> VfdwCmd" where
  "vfdw_cmd_ensure needed cmd =
     (if needed \<le> cmd_capacity cmd then cmd
      else cmd\<lparr>cmd_capacity := cmd_grow (cmd_capacity cmd * 2) needed\<rparr>)"

definition vfdw_cmd_add_bytes :: "bytes \<Rightarrow> VfdwCmd \<Rightarrow> VfdwCmd" where
  "vfdw_cmd_add_bytes value cmd =
     (let c = vfdw_cmd_ensure (int (length (cmd_argv cmd)) + 1) cmd
      in c\<lparr>cmd_argv := cmd_argv c @ [value]\<rparr>)"

definition vfdw_cmd_add_cstr :: "string \<Rightarrow> VfdwCmd \<Rightarrow> VfdwCmd" where
  "vfdw_cmd_add_cstr value = vfdw_cmd_add_bytes (cstr value)"

definition vfdw_cmd_add_int :: "int \<Rightarrow> VfdwCmd \<Rightarrow> VfdwCmd" where
  "vfdw_cmd_add_int value = vfdw_cmd_add_bytes (dec_int value)"

section \<open>Batches\<close>

text \<open>
  The connection beneath a batch: the answers of the socket, how many flushes and reads have been
  made, and the in-conversation flag \<open>vfdw_conn_begin\<close> sets and \<open>vfdw_conn_end\<close> clears.
\<close>

record wire =
  wire_flush :: "nat \<Rightarrow> unit result"
  wire_read :: "nat \<Rightarrow> valkeyReply result"
  wire_flushes :: nat
  wire_reads :: nat
  wire_busy :: bool

record VfdwBatch =
  b_wire :: wire
  b_max_inflight :: int
  b_queued :: int
  b_outstanding :: int
  b_flushes :: int
  b_current :: "valkeyReply option"

definition vfdw_batch_begin :: "int \<Rightarrow> wire \<Rightarrow> VfdwBatch" where
  "vfdw_batch_begin pipeline_batch w =
     \<lparr>b_wire = w\<lparr>wire_busy := True\<rparr>, b_max_inflight = pipeline_batch, b_queued = 0, b_outstanding = 0,
      b_flushes = 0, b_current = None\<rparr>"

definition vfdw_batch_flush :: "VfdwBatch \<Rightarrow> VfdwBatch result" where
  "vfdw_batch_flush b =
     (if b_queued b = 0 then Inr b
      else result_bind (wire_flush (b_wire b) (wire_flushes (b_wire b))) (\<lambda>_.
        Inr (b\<lparr>b_wire := (b_wire b)\<lparr>wire_flushes := wire_flushes (b_wire b) + 1\<rparr>,
               b_outstanding := b_outstanding b + b_queued b, b_queued := 0, b_flushes := b_flushes b + 1\<rparr>)))"

text \<open>\<open>queue_error\<close> is what \<open>valkeyAppendCommandArgv\<close> gives for the command.\<close>

definition vfdw_batch_add :: "unit result \<Rightarrow> VfdwBatch \<Rightarrow> VfdwBatch result" where
  "vfdw_batch_add append_result b =
     result_bind append_result (\<lambda>_.
       let b1 = b\<lparr>b_queued := b_queued b + 1\<rparr>
       in if b_queued b1 \<ge> b_max_inflight b1 then vfdw_batch_flush b1 else Inr b1)"

definition vfdw_batch_pending :: "VfdwBatch \<Rightarrow> int" where
  "vfdw_batch_pending b = b_queued b + b_outstanding b"

definition vfdw_batch_next :: "VfdwBatch \<Rightarrow> (valkeyReply option \<times> VfdwBatch) result" where
  "vfdw_batch_next b =
     result_bind (vfdw_batch_flush (b\<lparr>b_current := None\<rparr>)) (\<lambda>b1.
       if b_outstanding b1 = 0 then Inr (None, b1)
       else result_bind (wire_read (b_wire b1) (wire_reads (b_wire b1))) (\<lambda>r.
         Inr (Some r, b1\<lparr>b_wire := (b_wire b1)\<lparr>wire_reads := wire_reads (b_wire b1) + 1\<rparr>,
                         b_outstanding := b_outstanding b1 - 1, b_current := Some r\<rparr>)))"

text \<open>The drain loop of \<open>vfdw_batch_end\<close>; \<open>drain_enough\<close> shows the bound suffices.\<close>

fun batch_drain :: "nat \<Rightarrow> VfdwBatch \<Rightarrow> VfdwBatch result" where
  "batch_drain 0 b = Inr b"
| "batch_drain (Suc n) b =
     (if vfdw_batch_pending b > 0 then result_bind (vfdw_batch_next b) (\<lambda>(r, b1). batch_drain n b1)
      else Inr b)"

definition vfdw_batch_end :: "VfdwBatch \<Rightarrow> wire result" where
  "vfdw_batch_end b =
     result_bind (batch_drain (nat (vfdw_batch_pending b)) b)
       (\<lambda>b1. Inr ((b_wire b1)\<lparr>wire_busy := False\<rparr>))"

section \<open>Lemmas\<close>

lemma cmd_grow_enough: "0 < c \<Longrightarrow> n \<le> cmd_grow c n \<and> c \<le> cmd_grow c n"
proof (induction c n rule: cmd_grow.induct)
  case (1 c n)
  show ?case
  proof (cases "c < n")
    case True
    then have "n \<le> cmd_grow (c * 2) n \<and> c * 2 \<le> cmd_grow (c * 2) n" using 1 by simp
    then show ?thesis using True 1(2) by (subst (1 2) cmd_grow.simps) auto
  next
    case False
    then show ?thesis using 1(2) by (subst (1 2) cmd_grow.simps) auto
  qed
qed

text \<open>The capacity always covers the arguments, and arguments are appended in order.\<close>

definition cmd_ok :: "VfdwCmd \<Rightarrow> bool" where
  "cmd_ok c \<longleftrightarrow> 0 < cmd_capacity c \<and> int (length (cmd_argv c)) \<le> cmd_capacity c"

lemma cmd_init_ok: "0 < n \<Longrightarrow> cmd_ok (vfdw_cmd_init n)"
  by (simp add: cmd_ok_def vfdw_cmd_init_def)

lemma cmd_add_ok: "cmd_ok c \<Longrightarrow> cmd_ok (vfdw_cmd_add_bytes v c) \<and> cmd_argv (vfdw_cmd_add_bytes v c) = cmd_argv c @ [v]"
  using cmd_grow_enough [of "cmd_capacity c * 2" "int (length (cmd_argv c)) + 1"]
  by (auto simp: cmd_ok_def vfdw_cmd_add_bytes_def vfdw_cmd_ensure_def Let_def)

definition batch_ok :: "VfdwBatch \<Rightarrow> bool" where
  "batch_ok b \<longleftrightarrow> 0 \<le> b_queued b \<and> 0 \<le> b_outstanding b \<and> 0 < b_max_inflight b"

lemma batch_flush_spec:
  assumes "vfdw_batch_flush b = Inr b'" and "batch_ok b"
  shows "batch_ok b'" "b_queued b' = 0" "vfdw_batch_pending b' = vfdw_batch_pending b"
    "wire_reads (b_wire b') = wire_reads (b_wire b)" "wire_read (b_wire b') = wire_read (b_wire b)"
    "wire_busy (b_wire b') = wire_busy (b_wire b)" "b_max_inflight b' = b_max_inflight b"
  using assms
  by (auto simp: vfdw_batch_flush_def batch_ok_def vfdw_batch_pending_def result_bind_Inr_iff split: if_splits)

lemma batch_add_spec:
  assumes "vfdw_batch_add ar b = Inr b'" and ok: "batch_ok b"
  shows "batch_ok b'" "vfdw_batch_pending b' = vfdw_batch_pending b + 1"
    "b_queued b' < b_max_inflight b'" "wire_reads (b_wire b') = wire_reads (b_wire b)"
    "wire_read (b_wire b') = wire_read (b_wire b)"
proof -
  let ?b1 = "b\<lparr>b_queued := b_queued b + 1\<rparr>"
  have ok1: "batch_ok ?b1" using ok by (simp add: batch_ok_def)
  from assms(1) have c: "b' = ?b1 \<and> b_queued ?b1 < b_max_inflight ?b1 \<or> vfdw_batch_flush ?b1 = Inr b'"
    by (auto simp: vfdw_batch_add_def result_bind_Inr_iff Let_def split: if_splits)
  show "batch_ok b'" "vfdw_batch_pending b' = vfdw_batch_pending b + 1" "b_queued b' < b_max_inflight b'"
    "wire_reads (b_wire b') = wire_reads (b_wire b)" "wire_read (b_wire b') = wire_read (b_wire b)"
    using c ok ok1 batch_flush_spec [of ?b1 b', OF _ ok1]
    by (auto simp: vfdw_batch_pending_def batch_ok_def)
qed

lemma batch_next_spec:
  assumes n: "vfdw_batch_next b = Inr (r, b')" and ok: "batch_ok b"
  shows "batch_ok b'"
    "r = None \<longleftrightarrow> vfdw_batch_pending b = 0"
    "r \<noteq> None \<Longrightarrow> vfdw_batch_pending b' = vfdw_batch_pending b - 1 \<and>
       wire_reads (b_wire b') = wire_reads (b_wire b) + 1 \<and>
       wire_read (b_wire b) (wire_reads (b_wire b)) = Inr (the r)"
    "wire_read (b_wire b') = wire_read (b_wire b)"
proof -
  let ?b = "b\<lparr>b_current := None\<rparr>"
  have ok1: "batch_ok ?b" using ok by (simp add: batch_ok_def)
  from n obtain b1 where f: "vfdw_batch_flush ?b = Inr b1" and rest:
    "(if b_outstanding b1 = 0 then Inr (None, b1)
       else result_bind (wire_read (b_wire b1) (wire_reads (b_wire b1))) (\<lambda>r.
         Inr (Some r, b1\<lparr>b_wire := (b_wire b1)\<lparr>wire_reads := wire_reads (b_wire b1) + 1\<rparr>,
                         b_outstanding := b_outstanding b1 - 1, b_current := Some r\<rparr>))) = Inr (r, b')"
    by (auto simp: vfdw_batch_next_def result_bind_Inr_iff)
  note s = batch_flush_spec [OF f ok1]
  have p: "vfdw_batch_pending b1 = vfdw_batch_pending b" "vfdw_batch_pending b1 = b_outstanding b1"
    using s by (simp_all add: vfdw_batch_pending_def)
  show "batch_ok b'" "r = None \<longleftrightarrow> vfdw_batch_pending b = 0"
    "r \<noteq> None \<Longrightarrow> vfdw_batch_pending b' = vfdw_batch_pending b - 1 \<and>
       wire_reads (b_wire b') = wire_reads (b_wire b) + 1 \<and>
       wire_read (b_wire b) (wire_reads (b_wire b)) = Inr (the r)"
    "wire_read (b_wire b') = wire_read (b_wire b)"
    using rest s p
    by (auto simp: result_bind_Inr_iff batch_ok_def vfdw_batch_pending_def split: if_splits)
qed

lemma drain_spec:
  "batch_drain n b = Inr b' \<Longrightarrow> batch_ok b \<Longrightarrow> n = nat (vfdw_batch_pending b) \<Longrightarrow>
     batch_ok b' \<and> vfdw_batch_pending b' = 0 \<and>
     wire_reads (b_wire b') = wire_reads (b_wire b) + nat (vfdw_batch_pending b)"
proof (induction n arbitrary: b)
  case 0
  then show ?case by (auto simp: batch_ok_def vfdw_batch_pending_def)
next
  case (Suc n)
  have pos: "vfdw_batch_pending b > 0" using Suc.prems(3) by simp
  obtain r b1 where nx: "vfdw_batch_next b = Inr (r, b1)" and dr: "batch_drain n b1 = Inr b'"
    using Suc.prems(1) pos by (auto simp: result_bind_Inr_iff)
  note s = batch_next_spec [OF nx Suc.prems(2)]
  have "r \<noteq> None" using s(2) pos by simp
  note r = s(3) [OF this]
  have "n = nat (vfdw_batch_pending b1)" using Suc.prems(3) r pos by simp
  from Suc.IH [OF dr s(1) this] show ?case using r pos by (simp add: nat_diff_distrib)
qed

text \<open>When the drain does not fail, it ends by its guard: nothing is pending after it.\<close>

lemma drain_enough:
  assumes "batch_ok b" and "vfdw_batch_end b = Inr w"
  obtains b' where "batch_drain (nat (vfdw_batch_pending b)) b = Inr b'" "vfdw_batch_pending b' = 0"
    "w = (b_wire b')\<lparr>wire_busy := False\<rparr>"
proof -
  from assms(2) obtain b' where d: "batch_drain (nat (vfdw_batch_pending b)) b = Inr b'"
    and w: "w = (b_wire b')\<lparr>wire_busy := False\<rparr>"
    by (auto simp: vfdw_batch_end_def result_bind_Inr_iff)
  show thesis using that [OF d _ w] drain_spec [OF d assms(1) refl] by simp
qed

section \<open>Properties\<close>

text \<open>A run of queued commands on one batch.\<close>

definition batch_add_all :: "unit result list \<Rightarrow> VfdwBatch \<Rightarrow> VfdwBatch result" where
  "batch_add_all = result_fold vfdw_batch_add"

lemma add_all_spec:
  "batch_ok b \<Longrightarrow> batch_add_all xs b = Inr b' \<Longrightarrow>
     batch_ok b' \<and> vfdw_batch_pending b' = vfdw_batch_pending b + int (length xs) \<and>
     wire_reads (b_wire b') = wire_reads (b_wire b)"
  unfolding batch_add_all_def
proof (induction xs arbitrary: b)
  case (Cons x xs)
  then obtain u where u: "vfdw_batch_add x b = Inr u" "result_fold vfdw_batch_add xs u = Inr b'"
    by (auto simp: result_bind_Inr_iff)
  note s = batch_add_spec [OF u(1) Cons.prems(1)]
  from Cons.IH [OF s(1) u(2)] show ?case using s by simp
qed simp


definition quiet_wire :: wire where
  "quiet_wire = \<lparr>wire_flush = (\<lambda>_. Inr ()), wire_read = (\<lambda>_. Inr (Reply VALKEY_REPLY_STATUS (Some ''OK'') 0 [])),
     wire_flushes = 0, wire_reads = 0, wire_busy = False\<rparr>"


lemma has_prefix_word:
  "vfdw_reply_has_prefix (Some (Reply VALKEY_REPLY_ERROR (Some s) i es)) p \<longleftrightarrow> word_prefix p s"
  by (auto simp: vfdw_reply_has_prefix_def vfdw_reply_is_error_def word_prefix_def)

lemma first_prefix_find:
  "first_prefix table s = (case find (\<lambda>(p, c). word_prefix p s) table of Some (p, c) \<Rightarrow> c | None \<Rightarrow> ERRCODE_FDW_ERROR)"
  by (induction table) (auto split: option.splits)

text \<open>The two prefix tests agree where it matters: for an error reply whose body has no NUL, the
  SQLSTATE table assigns the code of the first table entry for which \<open>vfdw_reply_has_prefix\<close> holds,
  so a longer word that merely starts with a known code is neither classified nor skipped as it.\<close>

theorem errcode_matches_prefix:
  assumes "NUL \<notin> set s"
  shows "vfdw_errcode_for_reply (Some s) =
    (case find (\<lambda>(p, c). vfdw_reply_has_prefix (Some (Reply VALKEY_REPLY_ERROR (Some s) i es)) p) vfdw_reply_errors of
       Some (p, c) \<Rightarrow> c | None \<Rightarrow> ERRCODE_FDW_ERROR)"
proof -
  have "cstr s = s" using assms by (auto simp: cstr_def takeWhile_eq_all_conv)
  then show ?thesis by (simp add: vfdw_errcode_for_reply_def first_prefix_find has_prefix_word)
qed

theorem errcode_matches_prefix_witness:
  "vfdw_errcode_for_reply (Some ''WRONGTYPEX'') = ERRCODE_FDW_ERROR \<and>
   vfdw_errcode_for_reply (Some ''WRONGTYPE x'') = ERRCODE_DATATYPE_MISMATCH"
proof -
  have n: "NUL \<notin> set ''WRONGTYPEX''" "NUL \<notin> set ''WRONGTYPE x''" by (simp_all add: NUL_def)
  show ?thesis
    using errcode_matches_prefix [OF n(1), of 0 "[]"] errcode_matches_prefix [OF n(2), of 0 "[]"]
    by (simp add: vfdw_reply_errors_def has_prefix_word word_prefix_def)
qed

section \<open>Replies arrive in step with the commands\<close>

text \<open>
  What a reader relies on: a command may always be queued, and the next reply is that of the oldest command
  whose reply is still owed. \<open>ready b n rs\<close>: the replies \<open>rs\<close> will be delivered in order, and \<open>n\<close> of them are
  owed to commands already queued.
\<close>

locale pipeline =
  fixes ready :: "'b \<Rightarrow> nat \<Rightarrow> 'r list \<Rightarrow> bool"
    and enq :: "'b \<Rightarrow> 'b result"
    and deq :: "'b \<Rightarrow> ('r option \<times> 'b) result"
  assumes enq_ready: "ready b n rs \<Longrightarrow> \<exists>b'. enq b = Inr b' \<and> ready b' (n + 1) rs"
    and deq_ready: "ready b (Suc n) (r # rs) \<Longrightarrow> \<exists>b'. deq b = Inr (Some r, b') \<and> ready b' n rs"
begin

lemma next_answer:
  assumes "ready b (length cs + n) (map answer (cs @ ds))" "cs = c # cs'"
  obtains b' where "deq b = Inr (Some (answer c), b')" "ready b' (length cs' + n) (map answer (cs' @ ds))"
proof -
  have "ready b (Suc (length cs' + n)) (answer c # map answer (cs' @ ds))" using assms by simp
  then show thesis using deq_ready that by blast
qed

end

text \<open>The batch on a socket that will deliver the replies.\<close>

definition ready :: "VfdwBatch \<Rightarrow> nat \<Rightarrow> valkeyReply list \<Rightarrow> bool" where
  "ready b n rs \<longleftrightarrow>
     batch_ok b \<and> vfdw_batch_pending b = int n \<and> (\<forall>i. wire_flush (b_wire b) i = Inr ()) \<and>
     (\<forall>i < length rs. wire_read (b_wire b) (wire_reads (b_wire b) + i) = Inr (rs ! i))"

lemma flush_ready:
  assumes "ready b n rs"
  shows "\<exists>b'. vfdw_batch_flush b = Inr b' \<and> ready b' n rs \<and> b_queued b' = 0"
  using assms by (auto simp: vfdw_batch_flush_def ready_def batch_ok_def vfdw_batch_pending_def)

lemma add_ready:
  assumes "ready b n rs"
  shows "\<exists>b'. vfdw_batch_add (Inr ()) b = Inr b' \<and> ready b' (n + 1) rs"
proof -
  let ?b1 = "b\<lparr>b_queued := b_queued b + 1\<rparr>"
  have r: "ready ?b1 (n + 1) rs" using assms by (auto simp: ready_def batch_ok_def vfdw_batch_pending_def)
  show ?thesis using r flush_ready [OF r] by (auto simp: vfdw_batch_add_def Let_def)
qed

lemma next_ready:
  assumes "ready b (Suc n) (r # rs)"
  shows "\<exists>b'. vfdw_batch_next b = Inr (Some r, b') \<and> ready b' n rs"
proof -
  have "ready (b\<lparr>b_current := None\<rparr>) (Suc n) (r # rs)"
    using assms by (simp add: ready_def batch_ok_def vfdw_batch_pending_def)
  then obtain b1 where f: "vfdw_batch_flush (b\<lparr>b_current := None\<rparr>) = Inr b1" and r1: "ready b1 (Suc n) (r # rs)"
    and q: "b_queued b1 = 0" using flush_ready by blast
  have out: "b_outstanding b1 = int (Suc n)" using r1 q by (simp add: ready_def vfdw_batch_pending_def)
  have read: "wire_read (b_wire b1) (wire_reads (b_wire b1)) = Inr r" using r1 by (force simp: ready_def)
  let ?b2 = "b1\<lparr>b_wire := (b_wire b1)\<lparr>wire_reads := wire_reads (b_wire b1) + 1\<rparr>,
                 b_outstanding := b_outstanding b1 - 1, b_current := Some r\<rparr>"
  have "wire_read (b_wire b1) (wire_reads (b_wire b1) + 1 + i) = Inr (rs ! i)" if "i < length rs" for i
    using r1 that by (force simp: ready_def)
  then have "ready ?b2 n rs" using r1 out q by (simp add: ready_def batch_ok_def vfdw_batch_pending_def)
  then show ?thesis using f out read by (simp add: vfdw_batch_next_def)
qed

interpretation br: pipeline ready "vfdw_batch_add (Inr ())" vfdw_batch_next
  by unfold_locales (rule add_ready, assumption, rule next_ready, assumption)

end
