(* ===== verification/Flush.thy ===== *)
theory Flush
  imports Script Wire
begin

text \<open>
  The pre-commit flush: \<open>src/vfdw_flush.c\<close> and the slot rule of \<open>src/vfdw_flush_cluster.c\<close>.

  Every function that can raise returns its result together with the state, because the phase the
  state holds when an error leaves the flush decides what is reported about the write. The
  connection is the \<open>wire\<close> of theory \<open>Wire\<close>; the retry loop is bounded by its first argument and
  \<open>flush_run_terminates\<close> shows a bound that always suffices.
\<close>

section \<open>State\<close>

datatype VfdwFlushPhase = VFDW_FLUSH_BEFORE_SEND | VFDW_FLUSH_SENT | VFDW_FLUSH_PROVEN_CLEAN

datatype VfdwFlushOutcome = VFDW_FLUSH_APPLIED | VFDW_FLUSH_RETRY_NOSCRIPT | VFDW_FLUSH_RETRY_BUSY

record flush =
  fl_flushed :: bool
  fl_ncalls :: "64 word"
  fl_nempty :: "64 word"
  fl_nflushes :: "64 word"
  fl_nretries :: "64 word"
  fl_begun :: "64 word"
  fl_ended :: "64 word"
  fl_phase :: VfdwFlushPhase
  fl_wire :: wire
  fl_loaded :: bool

text \<open>
  What the flush reads besides its own state: the ledger and the digest to encode, the server
  options, what \<open>valkeyAppendCommandArgv\<close> answers, and whether a cancel, a die or a FATAL error is
  what the PG_CATCH sees.
\<close>

record flush_env =
  fe_ledger :: ledger
  fe_sha1 :: bytes
  fe_script :: bytes
  fe_pipeline_batch :: int
  fe_max_retries :: int
  fe_append :: "bytes list \<Rightarrow> unit result"
  fe_interrupted :: bool

section \<open>The error context and the outcomes\<close>

definition vfdw_flush_errcontext :: "VfdwFlushPhase \<Rightarrow> string" where
  "vfdw_flush_errcontext phase =
     (if phase = VFDW_FLUSH_SENT
      then ''valkey_fdw pre-commit flush; the Valkey write may or may not have been applied.''
      else ''valkey_fdw pre-commit flush; no changes were applied in Valkey.'')"

definition vfdw_flush_error_indeterminate :: "'a result" where
  "vfdw_flush_error_indeterminate =
     raise ERRCODE_TRANSACTION_RESOLUTION_UNKNOWN ''the outcome of the Valkey write is unknown''"

text \<open>The SQLSTATE and message of a phase-1 refusal; the caller sets the phase.\<close>

definition vfdw_flush_error_sentinel :: "VfdwScriptVerdict \<Rightarrow> 'a result" where
  "vfdw_flush_error_sentinel verdict =
     (case verdict of
        VFDW_SCRIPT_CONFLICT \<Rightarrow>
          raise ERRCODE_UNIQUE_VIOLATION ''a key this transaction creates already exists in Valkey''
      | VFDW_SCRIPT_MISSING \<Rightarrow>
          raise ERRCODE_T_R_SERIALIZATION_FAILURE ''a key this transaction updates was removed concurrently''
      | VFDW_SCRIPT_WRONGTYPE \<Rightarrow>
          raise ERRCODE_DATATYPE_MISMATCH ''a key holds a different Valkey type than its table declares''
      | _ \<Rightarrow> raise ERRCODE_INTERNAL_ERROR ''the Valkey write program rejected its own arguments'')"

definition vfdw_flush_error_internal :: "'a result" where
  "vfdw_flush_error_internal =
     raise ERRCODE_INTERNAL_ERROR ''the Valkey write was only partially applied''"

definition flush_proofs :: "string list" where
  "flush_proofs = [''NOSCRIPT'', ''MOVED'', ''ASK'', ''CROSSSLOT'', ''NOPERM'', ''OOM'', ''TRYAGAIN'',
     ''LOADING'', ''BUSYGROUP'', ''READONLY'', ''MASTERDOWN'', ''NOREPLICAS'']"

definition vfdw_flush_proves_not_applied :: "valkeyReply \<Rightarrow> bool" where
  "vfdw_flush_proves_not_applied reply = list_ex (vfdw_reply_has_prefix (Some reply)) flush_proofs"

definition vfdw_flush_is_retryable :: "valkeyReply \<Rightarrow> bool" where
  "vfdw_flush_is_retryable reply \<longleftrightarrow>
     vfdw_reply_has_prefix (Some reply) ''TRYAGAIN'' \<or> vfdw_reply_has_prefix (Some reply) ''LOADING''"

text \<open>The classifiers take the phase and give the phase in which they return or raise.\<close>

definition vfdw_flush_classify_error ::
  "valkeyReply \<Rightarrow> VfdwFlushPhase \<Rightarrow> VfdwFlushOutcome result \<times> VfdwFlushPhase" where
  "vfdw_flush_classify_error reply phase =
     (if vfdw_reply_has_prefix (Some reply) ''NOSCRIPT'' then (Inr VFDW_FLUSH_RETRY_NOSCRIPT, phase)
      else if vfdw_flush_is_retryable reply then (Inr VFDW_FLUSH_RETRY_BUSY, phase)
      else let verdict = fst (vfdw_script_classify (rp_str reply)) in
        if verdict = VFDW_SCRIPT_INTERNAL then (vfdw_flush_error_internal, phase)
        else if verdict \<noteq> VFDW_SCRIPT_UNKNOWN then (vfdw_flush_error_sentinel verdict, VFDW_FLUSH_PROVEN_CLEAN)
        else if vfdw_flush_proves_not_applied reply
        then (vfdw_error_from_reply reply ''the Valkey write was refused'', VFDW_FLUSH_PROVEN_CLEAN)
        else (vfdw_flush_error_indeterminate, phase))"

definition vfdw_flush_classify ::
  "valkeyReply option \<Rightarrow> int \<Rightarrow> VfdwFlushPhase \<Rightarrow> VfdwFlushOutcome result \<times> VfdwFlushPhase" where
  "vfdw_flush_classify r nplans phase =
     (case r of
        None \<Rightarrow> (vfdw_flush_error_indeterminate, phase)
      | Some reply \<Rightarrow>
          if rp_type reply = VALKEY_REPLY_ERROR then vfdw_flush_classify_error reply phase
          else case vfdw_reply_expect r [VALKEY_REPLY_STATUS] ''Valkey write failed'' of
                 Inl e \<Rightarrow> (Inl e, phase)
               | Inr _ \<Rightarrow>
                   let (verdict, detail) = vfdw_script_classify (rp_str reply) in
                   if verdict \<noteq> VFDW_SCRIPT_OK then (vfdw_flush_error_indeterminate, phase)
                   else if detail = None \<or> cstr (the detail) \<noteq> dec_int nplans
                   then (vfdw_flush_error_indeterminate, phase)
                   else (Inr VFDW_FLUSH_APPLIED, phase))"

section \<open>One attempt\<close>

type_synonym 'a flush_result = "'a result \<times> flush"

text \<open>Queueing: the \<open>SCRIPT LOAD\<close> when needed, then the encoded program call.\<close>

definition flush_queue :: "flush_env \<Rightarrow> bool \<Rightarrow> VfdwBatch \<Rightarrow> VfdwBatch result" where
  "flush_queue env load b =
     result_bind (if load then vfdw_batch_add (fe_append env [''SCRIPT'', ''LOAD'', fe_script env]) b else Inr b)
       (\<lambda>b1. result_bind (vfdw_script_encode (fe_sha1 env) (fe_ledger env))
         (\<lambda>cmd. vfdw_batch_add (fe_append env cmd) b1))"

text \<open>Reading the reply to \<open>SCRIPT LOAD\<close>: an error reply raises and proves that nothing ran.\<close>

definition flush_read_load ::
  "bool \<Rightarrow> VfdwBatch \<Rightarrow> VfdwFlushPhase \<Rightarrow> VfdwBatch result \<times> VfdwFlushPhase" where
  "flush_read_load load b phase =
     (if \<not> load then (Inr b, phase)
      else case vfdw_batch_next b of
             Inl e \<Rightarrow> (Inl e, phase)
           | Inr (r, b1) \<Rightarrow>
               if vfdw_reply_is_error r
               then (vfdw_error_from_reply (the r) ''could not load the Valkey write program'', VFDW_FLUSH_PROVEN_CLEAN)
               else (Inr b1, phase))"

definition vfdw_flush_attempt :: "flush_env \<Rightarrow> bool \<Rightarrow> flush \<Rightarrow> VfdwFlushOutcome flush_result" where
  "vfdw_flush_attempt env force_load st =
     (let load = (force_load \<or> \<not> fl_loaded st);
          b0 = vfdw_batch_begin (fe_pipeline_batch env) (fl_wire st);
          st1 = st\<lparr>fl_begun := fl_begun st + 1, fl_wire := b_wire b0\<rparr>
      in case flush_queue env load b0 of
           Inl e \<Rightarrow> (Inl e, st1)
         | Inr b1 \<Rightarrow>
             let st2 = st1\<lparr>fl_phase := VFDW_FLUSH_SENT\<rparr> in
             case flush_read_load load b1 VFDW_FLUSH_SENT of
               (Inl e, ph) \<Rightarrow> (Inl e, st2\<lparr>fl_phase := ph\<rparr>)
             | (Inr b2, ph) \<Rightarrow>
                 (case vfdw_batch_next b2 of
                    Inl e \<Rightarrow> (Inl e, st2\<lparr>fl_phase := ph\<rparr>)
                  | Inr (r, b3) \<Rightarrow>
                      (case vfdw_flush_classify r (vfdw_ledger_nplans (fe_ledger env)) ph of
                         (Inl e, ph2) \<Rightarrow> (Inl e, st2\<lparr>fl_phase := ph2\<rparr>)
                       | (Inr outcome, ph2) \<Rightarrow>
                           let st3 = st2\<lparr>fl_phase := ph2,
                                         fl_loaded := (if outcome = VFDW_FLUSH_APPLIED \<and> load then True else fl_loaded st)\<rparr>
                           in case vfdw_batch_end b3 of
                                Inl e \<Rightarrow> (Inl e, st3)
                              | Inr w \<Rightarrow> (Inr outcome, st3\<lparr>fl_wire := w, fl_ended := fl_ended st3 + 1\<rparr>))))"

section \<open>The retry loop\<close>

definition noscript_error :: "'a result" where
  "noscript_error =
     raise ERRCODE_INTERNAL_ERROR ''Valkey does not have the write program after loading it''"

definition busy_error :: "'a result" where
  "busy_error =
     raise ERRCODE_T_R_SERIALIZATION_FAILURE ''Valkey was too busy to apply the write''"

text \<open>\<open>for (;;)\<close> with at most \<open>n\<close> rounds; \<open>None\<close> when the rounds run out.\<close>

fun flush_run :: "nat \<Rightarrow> flush_env \<Rightarrow> int \<Rightarrow> bool \<Rightarrow> flush \<Rightarrow> unit flush_result option" where
  "flush_run 0 env busy force_load st = None"
| "flush_run (Suc n) env busy force_load st =
     (case vfdw_flush_attempt env force_load st of
        (Inl e, st1) \<Rightarrow> Some (Inl e, st1)
      | (Inr outcome, st1) \<Rightarrow>
          if outcome = VFDW_FLUSH_APPLIED then Some (Inr (), st1)
          else let st2 = st1\<lparr>fl_nretries := fl_nretries st1 + 1, fl_phase := VFDW_FLUSH_BEFORE_SEND\<rparr> in
            if outcome = VFDW_FLUSH_RETRY_NOSCRIPT then
              (if force_load then Some (noscript_error, st2)
               else flush_run n env busy True (st2\<lparr>fl_loaded := False\<rparr>))
            else if busy \<ge> fe_max_retries env then Some (busy_error, st2)
            else flush_run n env (busy + 1) force_load st2)"

definition vfdw_flush_run :: "flush_env \<Rightarrow> flush \<Rightarrow> unit flush_result option" where
  "vfdw_flush_run env st = flush_run (nat (fe_max_retries env) + 2) env 0 False st"

section \<open>Deciding the SQLSTATE, and the whole flush\<close>

definition flush_keeps_code :: "sqlstate \<Rightarrow> bool" where
  "flush_keeps_code c \<longleftrightarrow>
     c \<in> {ERRCODE_QUERY_CANCELED, ERRCODE_ADMIN_SHUTDOWN, ERRCODE_TRANSACTION_RESOLUTION_UNKNOWN,
          ERRCODE_UNIQUE_VIOLATION, ERRCODE_T_R_SERIALIZATION_FAILURE, ERRCODE_DATATYPE_MISMATCH,
          ERRCODE_INTERNAL_ERROR}"

definition vfdw_flush_rethrow_indeterminate :: "bool \<Rightarrow> VfdwFlushPhase \<Rightarrow> pg_error \<Rightarrow> pg_error" where
  "vfdw_flush_rethrow_indeterminate interrupted phase e =
     (if phase \<noteq> VFDW_FLUSH_SENT \<or> flush_keeps_code (err_code e) \<or> interrupted then e
      else PgError ERRCODE_TRANSACTION_RESOLUTION_UNKNOWN ''the outcome of the Valkey write is unknown'')"

text \<open>
  \<open>vfdw_flush_pre_commit\<close>; \<open>nothing\<close> is \<open>vfdw_wbuf_is_empty()\<close>, and \<open>acquire\<close> is what
  \<open>vfdw_flush_acquire\<close> does: an error, or a connection with its \<open>script_loaded\<close> flag.
\<close>

definition vfdw_flush_pre_commit ::
  "flush_env \<Rightarrow> bool \<Rightarrow> (wire \<times> bool) result \<Rightarrow> flush \<Rightarrow> unit flush_result option" where
  "vfdw_flush_pre_commit env nothing acquire st0 =
     (let st = st0\<lparr>fl_ncalls := fl_ncalls st0 + 1\<rparr> in
      if nothing then Some (Inr (), st\<lparr>fl_nempty := fl_nempty st + 1, fl_flushed := True\<rparr>)
      else let st1 = st\<lparr>fl_phase := VFDW_FLUSH_BEFORE_SEND\<rparr> in
        case acquire of
          Inl e \<Rightarrow> Some (Inl e, st1)
        | Inr (w, loaded) \<Rightarrow>
            (case vfdw_flush_run env (st1\<lparr>fl_wire := w, fl_loaded := loaded\<rparr>) of
               None \<Rightarrow> None
             | Some (Inl e, st2) \<Rightarrow>
                 Some (Inl (vfdw_flush_rethrow_indeterminate (fe_interrupted env) (fl_phase st2) e), st2)
             | Some (Inr _, st2) \<Rightarrow>
                 Some (Inr (), st2\<lparr>fl_flushed := True, fl_nflushes := fl_nflushes st2 + 1\<rparr>)))"

definition vfdw_flush_reset :: "flush \<Rightarrow> flush" where
  "vfdw_flush_reset st = st\<lparr>fl_flushed := False, fl_phase := VFDW_FLUSH_BEFORE_SEND\<rparr>"

section \<open>The cluster slot rule\<close>

text \<open>
  The running slot, \<open>-1\<close> while no key has been seen; a NULL key is \<open>None\<close>. The first key is kept
  only for the error's DETAIL.
\<close>

definition vfdw_flush_slot_of :: "bytes option \<Rightarrow> int \<Rightarrow> int result" where
  "vfdw_flush_slot_of key slot =
     (case key of
        None \<Rightarrow> Inr slot
      | Some k \<Rightarrow>
          if k = [] then Inr slot
          else let this_slot = uint (vfdw_val_slot k) in
            if slot < 0 then Inr this_slot
            else if this_slot = slot then Inr slot
            else raise ERRCODE_FEATURE_NOT_SUPPORTED
                   ''a transaction writing this Valkey Cluster spans more than one hash slot'')"

definition slot_of_op :: "VfdwWriteOp \<Rightarrow> int \<Rightarrow> int result" where
  "slot_of_op oper slot =
     result_bind (vfdw_flush_slot_of (Some (op_key oper)) slot) (\<lambda>s1.
     result_bind (vfdw_flush_slot_of (op_oldkey oper) s1) (\<lambda>s2.
     vfdw_flush_slot_of (op_keyset oper) s2))"

definition vfdw_flush_cluster_slot :: "VfdwWriteOp list \<Rightarrow> int result" where
  "vfdw_flush_cluster_slot ops = result_fold slot_of_op ops (- 1)"

section \<open>The retry loop ends\<close>

lemma flush_run_bound:
  "0 \<le> busy \<Longrightarrow> busy \<le> fe_max_retries env \<Longrightarrow>
   nat (fe_max_retries env - busy) + (if force_load then 0 else 1) < n \<Longrightarrow>
   flush_run n env busy force_load st \<noteq> None"
proof (induction n arbitrary: busy force_load st)
  case (Suc n)
  obtain o1 st1 where a: "vfdw_flush_attempt env force_load st = (o1, st1)" by force
  show ?case
  proof (cases o1)
    case (Inl e)
    then show ?thesis using a by simp
  next
    case (Inr outcome)
    show ?thesis
    proof (cases outcome)
      case VFDW_FLUSH_APPLIED
      then show ?thesis using a Inr by simp
    next
      case VFDW_FLUSH_RETRY_NOSCRIPT
      then show ?thesis using a Inr Suc.IH [of busy True] Suc.prems
        by (cases force_load) (auto simp: Let_def)
    next
      case VFDW_FLUSH_RETRY_BUSY
      show ?thesis
      proof (cases "busy \<ge> fe_max_retries env")
        case False
        then have "nat (fe_max_retries env - (busy + 1)) < nat (fe_max_retries env - busy)" by simp
        then show ?thesis using VFDW_FLUSH_RETRY_BUSY a Inr Suc.IH [of "busy + 1" force_load] Suc.prems False
          by (auto simp: Let_def)
      qed (use VFDW_FLUSH_RETRY_BUSY a Inr in \<open>auto simp: Let_def\<close>)
    qed
  qed
qed simp

section \<open>What an applied flush has read\<close>

lemma flush_reads_same: "vfdw_batch_flush b = Inr b' \<Longrightarrow> wire_read (b_wire b') = wire_read (b_wire b)"
  by (auto simp: vfdw_batch_flush_def result_bind_Inr_iff split: if_splits)

lemma add_reads_same: "vfdw_batch_add ar b = Inr b' \<Longrightarrow> wire_read (b_wire b') = wire_read (b_wire b)"
  by (auto simp: vfdw_batch_add_def result_bind_Inr_iff Let_def split: if_splits dest: flush_reads_same)

lemma next_reads:
  assumes "vfdw_batch_next b = Inr (r, b')"
  shows "wire_read (b_wire b') = wire_read (b_wire b)" "r = Some x \<Longrightarrow> \<exists>n. wire_read (b_wire b) n = Inr x"
proof -
  from assms obtain b1 where f: "vfdw_batch_flush (b\<lparr>b_current := None\<rparr>) = Inr b1"
    and rest: "(if b_outstanding b1 = 0 then Inr (None, b1)
       else result_bind (wire_read (b_wire b1) (wire_reads (b_wire b1))) (\<lambda>r.
         Inr (Some r, b1\<lparr>b_wire := (b_wire b1)\<lparr>wire_reads := wire_reads (b_wire b1) + 1\<rparr>,
                         b_outstanding := b_outstanding b1 - 1, b_current := Some r\<rparr>))) = Inr (r, b')"
    by (auto simp: vfdw_batch_next_def result_bind_Inr_iff)
  have same: "wire_read (b_wire b1) = wire_read (b_wire b)" using flush_reads_same [OF f] by simp
  show "wire_read (b_wire b') = wire_read (b_wire b)"
    using rest same by (auto simp: result_bind_Inr_iff split: if_splits)
  show "r = Some x \<Longrightarrow> \<exists>n. wire_read (b_wire b) n = Inr x"
    using rest same by (auto simp: result_bind_Inr_iff split: if_splits)
qed

lemma drain_reads_same: "batch_drain n b = Inr b' \<Longrightarrow> wire_read (b_wire b') = wire_read (b_wire b)"
proof (induction n arbitrary: b)
  case (Suc n)
  show ?case
  proof (cases "vfdw_batch_pending b > 0")
    case True
    then obtain r b1 where "vfdw_batch_next b = Inr (r, b1)" "batch_drain n b1 = Inr b'"
      using Suc.prems by (auto simp: result_bind_Inr_iff)
    then show ?thesis using Suc.IH next_reads(1) by metis
  qed (use Suc.prems in simp)
qed simp

lemma end_reads_same: "vfdw_batch_end b = Inr w \<Longrightarrow> wire_read w = wire_read (b_wire b)"
  by (auto simp: vfdw_batch_end_def result_bind_Inr_iff dest: drain_reads_same)

lemma queue_reads_same: "flush_queue env load b = Inr b' \<Longrightarrow> wire_read (b_wire b') = wire_read (b_wire b)"
  by (auto simp: flush_queue_def result_bind_Inr_iff split: if_splits dest!: add_reads_same)

lemma load_reads_same: "flush_read_load load b ph = (Inr b', ph') \<Longrightarrow> wire_read (b_wire b') = wire_read (b_wire b)"
  by (auto simp: flush_read_load_def vfdw_error_from_reply_def split: if_splits sum.splits prod.splits
      dest: next_reads(1))

text \<open>What a successful attempt consists of.\<close>

lemma attempt_elim:
  assumes "vfdw_flush_attempt env force_load st = (Inr outcome, st')"
  obtains b1 b2 b3 r ph2 w where
    "flush_queue env (force_load \<or> \<not> fl_loaded st) (vfdw_batch_begin (fe_pipeline_batch env) (fl_wire st)) = Inr b1"
    "flush_read_load (force_load \<or> \<not> fl_loaded st) b1 VFDW_FLUSH_SENT = (Inr b2, VFDW_FLUSH_SENT)"
    "vfdw_batch_next b2 = Inr (r, b3)"
    "vfdw_flush_classify r (vfdw_ledger_nplans (fe_ledger env)) VFDW_FLUSH_SENT = (Inr outcome, ph2)"
    "vfdw_batch_end b3 = Inr w"
    "fl_wire st' = w" "fl_begun st' = fl_begun st + 1" "fl_ended st' = fl_ended st + 1"
proof -
  let ?load = "force_load \<or> \<not> fl_loaded st"
  from assms obtain b1 where q: "flush_queue env ?load (vfdw_batch_begin (fe_pipeline_batch env) (fl_wire st)) = Inr b1"
    by (auto simp: vfdw_flush_attempt_def Let_def split: sum.splits)
  from assms q obtain b2 ph where l: "flush_read_load ?load b1 VFDW_FLUSH_SENT = (Inr b2, ph)"
    by (auto simp: vfdw_flush_attempt_def Let_def split: sum.splits prod.splits)
  have ph: "ph = VFDW_FLUSH_SENT"
    using l by (auto simp: flush_read_load_def vfdw_error_from_reply_def split: if_splits sum.splits prod.splits)
  from assms q l obtain r b3 where n: "vfdw_batch_next b2 = Inr (r, b3)"
    by (auto simp: vfdw_flush_attempt_def Let_def split: sum.splits prod.splits)
  obtain oc ph2 where c: "vfdw_flush_classify r (vfdw_ledger_nplans (fe_ledger env)) VFDW_FLUSH_SENT = (oc, ph2)"
    by force
  have oc: "oc = Inr outcome"
    using assms q l n c ph by (auto simp: vfdw_flush_attempt_def Let_def split: sum.splits)
  obtain w where e: "vfdw_batch_end b3 = Inr w"
    using assms q l n c oc ph by (auto simp: vfdw_flush_attempt_def Let_def split: sum.splits)
  have "fl_wire st' = w" "fl_begun st' = fl_begun st + 1" "fl_ended st' = fl_ended st + 1"
    using assms q l n c oc ph e by (auto simp: vfdw_flush_attempt_def Let_def)
  then show thesis using that q l n c oc ph e by blast
qed

lemma attempt_reads_same:
  "vfdw_flush_attempt env force_load st = (Inr outcome, st') \<Longrightarrow> wire_read (fl_wire st') = wire_read (fl_wire st)"
  by (erule attempt_elim)
     (auto simp: vfdw_batch_begin_def dest!: queue_reads_same load_reads_same next_reads(1) end_reads_same)

text \<open>The reply that means the write was applied.\<close>

definition applied_reply :: "int \<Rightarrow> valkeyReply \<Rightarrow> bool" where
  "applied_reply nplans r \<longleftrightarrow>
     rp_type r = VALKEY_REPLY_STATUS \<and>
     (\<exists>d. rp_str r = Some (''VFDW1 OK '' @ d) \<and> cstr d = dec_int nplans)"

lemma OK_code: "map_of vfdw_script_codes c = Some VFDW_SCRIPT_OK \<Longrightarrow> c = ''OK''"
  by (simp add: vfdw_script_codes_def split: if_splits)

lemma classify_OK_detail:
  assumes "vfdw_script_classify (Some s) = (VFDW_SCRIPT_OK, Some d)"
  shows "s = ''VFDW1 OK '' @ d"
proof -
  define pre :: bytes where "pre = ''VFDW1 ''"
  have "\<exists>rest. s = pre @ ''OK'' \<or> s = pre @ ''OK'' @ CHR '' '' # rest"
  proof -
    have f: "fst (vfdw_script_classify (Some s)) = VFDW_SCRIPT_OK" using assms by simp
    have "\<exists>s'. s = ''VFDW1 '' @ s'"
    proof (rule ccontr)
      assume "\<nexists>s'. s = ''VFDW1 '' @ s'"
      then have "fst (vfdw_script_classify (Some s)) = VFDW_SCRIPT_UNKNOWN"
        by (intro classify_no_prefix) blast
      then show False using f by simp
    qed
    then obtain s' where s': "s = pre @ s'" by (auto simp: pre_def)
    have "map_of vfdw_script_codes (first_word s') = Some VFDW_SCRIPT_OK"
      using f unfolding s' classify_prefix [OF pre_def]
      by (cases "map_of vfdw_script_codes (first_word s')") simp_all
    then have "first_word s' = ''OK''" by (rule OK_code)
    then have "s' = ''OK'' \<or> (\<exists>rest. s' = ''OK'' @ CHR '' '' # rest)" using first_word_iff [of "''OK''" s'] by simp
    then show ?thesis unfolding s' by blast
  qed
  then obtain rest where s: "s = pre @ ''OK'' \<or> s = pre @ ''OK'' @ CHR '' '' # rest" by blast
  have l: "length pre = 6" by (simp add: pre_def)
  have w: "vfdw_script_word_at s 6 ''OK''"
    using s word_at_code [OF l, of _ "''OK''"] by auto
  have t: "vfdw_script_word_at s 0 ''VFDW1''" "s ! 5 = CHR '' ''"
  proof -
    obtain tail where "s = pre @ tail" using s by blast
    then show "vfdw_script_word_at s 0 ''VFDW1''" "s ! 5 = CHR '' ''"
      by (simp_all add: pre_def vfdw_script_word_at_def)
  qed
  have len: "5 < length s" using s l by auto
  have c: "vfdw_script_classify (Some s) = (VFDW_SCRIPT_OK, if 9 < length s then Some (drop 9 s) else None)"
    using w t len by (simp add: vfdw_script_classify_def vfdw_script_codes_def)
  then have d: "d = drop 9 s" "9 < length s" using assms by (auto split: if_splits)
  have "s = pre @ ''OK'' @ CHR '' '' # rest" using s d(2) l by auto
  then show ?thesis using d(1) by (simp add: pre_def eval_nat_numeral)
qed

lemma classify_applied:
  assumes "vfdw_flush_classify r n ph = (Inr VFDW_FLUSH_APPLIED, ph')"
  shows "\<exists>x. r = Some x \<and> applied_reply n x"
proof (cases r)
  case None
  then show ?thesis using assms by (simp add: vfdw_flush_classify_def vfdw_flush_error_indeterminate_def)
next
  case (Some x)
  have ne: "rp_type x \<noteq> VALKEY_REPLY_ERROR"
    using assms Some
    by (auto simp: vfdw_flush_classify_def vfdw_flush_classify_error_def vfdw_flush_error_internal_def
        vfdw_flush_error_sentinel_def vfdw_error_from_reply_def vfdw_flush_error_indeterminate_def Let_def
        split: if_splits VfdwScriptVerdict.splits)
  obtain v d where c: "vfdw_script_classify (rp_str x) = (v, d)" by force
  have st: "rp_type x = VALKEY_REPLY_STATUS"
    using assms Some ne
    by (auto simp: vfdw_flush_classify_def vfdw_reply_expect_def vfdw_reply_is_error_def split: if_splits)
  have v: "v = VFDW_SCRIPT_OK" "d \<noteq> None" "cstr (the d) = dec_int n"
    using assms Some st c
    by (auto simp: vfdw_flush_classify_def vfdw_reply_expect_def vfdw_reply_is_error_def
        vfdw_flush_error_indeterminate_def split: if_splits)
  obtain s where "rp_str x = Some s" using c v by (cases "rp_str x") (auto simp: vfdw_script_classify_def)
  then show ?thesis
    using classify_OK_detail [of s "the d"] c v st Some by (auto simp: applied_reply_def)
qed

lemma run_spec:
  "flush_run n env busy force_load st = Some (Inr (), st') \<Longrightarrow>
     (\<exists>i x. wire_read (fl_wire st) i = Inr x \<and> applied_reply (vfdw_ledger_nplans (fe_ledger env)) x) \<and>
     fl_begun st' - fl_begun st = fl_ended st' - fl_ended st"
proof (induction n arbitrary: busy force_load st)
  case (Suc n)
  obtain o1 st1 where a: "vfdw_flush_attempt env force_load st = (o1, st1)" by force
  then obtain outcome where o1: "o1 = Inr outcome" using Suc.prems by (cases o1) auto
  note a' = a [unfolded o1]
  have same: "wire_read (fl_wire st1) = wire_read (fl_wire st)" using attempt_reads_same [OF a'] .
  have bal: "fl_begun st1 = fl_begun st + 1" "fl_ended st1 = fl_ended st + 1"
    using attempt_elim [OF a'] by metis+
  show ?case
  proof (cases "outcome = VFDW_FLUSH_APPLIED")
    case True
    then have st': "st' = st1" using Suc.prems a o1 by simp
    from attempt_elim [OF a'] obtain b1 b2 b3 r ph2 where
      q: "flush_queue env (force_load \<or> \<not> fl_loaded st) (vfdw_batch_begin (fe_pipeline_batch env) (fl_wire st)) = Inr b1"
      and l: "flush_read_load (force_load \<or> \<not> fl_loaded st) b1 VFDW_FLUSH_SENT = (Inr b2, VFDW_FLUSH_SENT)"
      and n: "vfdw_batch_next b2 = Inr (r, b3)"
      and c: "vfdw_flush_classify r (vfdw_ledger_nplans (fe_ledger env)) VFDW_FLUSH_SENT = (Inr outcome, ph2)"
      by metis
    obtain x where x: "r = Some x" "applied_reply (vfdw_ledger_nplans (fe_ledger env)) x"
      using classify_applied c True by blast
    obtain i where "wire_read (b_wire b2) i = Inr x" using next_reads(2) [OF n x(1)] by blast
    then have "wire_read (fl_wire st) i = Inr x"
      using queue_reads_same [OF q] load_reads_same [OF l] by (simp add: vfdw_batch_begin_def)
    then show ?thesis using x(2) bal st' by auto
  next
    case False
    then obtain busy2 force2 st2 where r: "flush_run n env busy2 force2 st2 = Some (Inr (), st')"
      and s2: "fl_wire st2 = fl_wire st1" "fl_begun st2 = fl_begun st1" "fl_ended st2 = fl_ended st1"
      using Suc.prems a o1
      by (auto simp: Let_def noscript_error_def busy_error_def split: if_splits)
    from Suc.IH [OF r] show ?thesis using s2 same bal by (auto simp: algebra_simps)
  qed
qed simp

section \<open>Slots\<close>

definition op_keys :: "VfdwWriteOp \<Rightarrow> bytes set" where
  "op_keys oper = {op_key oper} \<union> set_option (op_oldkey oper) \<union> set_option (op_keyset oper)"

text \<open>All non-empty keys seen so far are in the slot \<open>s\<close>; none has been seen when it is negative.\<close>

definition in_slot :: "bytes set \<Rightarrow> int \<Rightarrow> bool" where
  "in_slot ks s \<longleftrightarrow> (\<forall>k \<in> ks. k \<noteq> [] \<longrightarrow> uint (vfdw_val_slot k) = s)"

lemma slot_of_spec:
  assumes "vfdw_flush_slot_of ko s = Inr s'" and "in_slot ks s"
  shows "in_slot (ks \<union> set_option ko) s'"
proof -
  have pos: "0 \<le> uint (vfdw_val_slot k)" for k by simp
  show ?thesis
  proof (cases "s < 0")
    case True
    have e: "\<And>k. k \<in> ks \<Longrightarrow> k = []" using assms(2) True pos unfolding in_slot_def by (metis not_less)
    show ?thesis using assms(1) True e
      by (auto simp: vfdw_flush_slot_of_def in_slot_def Let_def split: option.splits if_splits)
  next
    case False
    then show ?thesis using assms
      by (auto simp: vfdw_flush_slot_of_def in_slot_def Let_def split: option.splits if_splits)
  qed
qed

lemma slot_of_op_spec:
  assumes "slot_of_op oper s = Inr s'" and "in_slot ks s"
  shows "in_slot (ks \<union> op_keys oper) s'"
proof -
  from assms(1) obtain s1 s2 where "vfdw_flush_slot_of (Some (op_key oper)) s = Inr s1"
    "vfdw_flush_slot_of (op_oldkey oper) s1 = Inr s2" "vfdw_flush_slot_of (op_keyset oper) s2 = Inr s'"
    by (auto simp: slot_of_op_def result_bind_Inr_iff)
  from slot_of_spec [OF this(3) slot_of_spec [OF this(2) slot_of_spec [OF this(1) assms(2)]]]
  show ?thesis by (simp add: op_keys_def Un_ac)
qed

lemma cluster_slot_spec:
  assumes "vfdw_flush_cluster_slot ops = Inr s"
  shows "in_slot (\<Union> (op_keys ` set ops)) s"
proof -
  have "result_fold slot_of_op ops s0 = Inr s \<Longrightarrow> in_slot ks s0 \<Longrightarrow> in_slot (ks \<union> \<Union> (op_keys ` set ops)) s" for s0 ks
  proof (induction ops arbitrary: s0 ks)
    case (Cons x xs)
    then obtain s1 where "slot_of_op x s0 = Inr s1" "result_fold slot_of_op xs s1 = Inr s"
      by (auto simp: result_bind_Inr_iff)
    from Cons.IH [OF this(2) slot_of_op_spec [OF this(1) Cons.prems(2)]] show ?case by (simp add: Un_ac)
  qed simp
  from this [of "- 1" "{}"] show ?thesis
    using assms by (simp add: vfdw_flush_cluster_slot_def in_slot_def)
qed

section \<open>Properties\<close>

text \<open>An environment and a connection for the witnesses: one round of \<open>SCRIPT LOAD\<close> and \<open>EVALSHA\<close>.\<close>

definition sample_env :: flush_env where
  "sample_env = \<lparr>fe_ledger = vfdw_ledger_reset, fe_sha1 = ''sha'', fe_script = ''lua'', fe_pipeline_batch = 64,
     fe_max_retries = 3, fe_append = (\<lambda>_. Inr ()), fe_interrupted = False\<rparr>"

definition sample_wire :: wire where
  "sample_wire = quiet_wire\<lparr>wire_read := (\<lambda>n. Inr (Reply VALKEY_REPLY_STATUS
     (Some (if n = 0 then ''OK'' else ''VFDW1 OK 0'')) 0 []))\<rparr>"

definition sample_flush :: flush where
  "sample_flush = \<lparr>fl_flushed = False, fl_ncalls = 0, fl_nempty = 0, fl_nflushes = 0, fl_nretries = 0,
     fl_begun = 0, fl_ended = 0, fl_phase = VFDW_FLUSH_BEFORE_SEND, fl_wire = quiet_wire, fl_loaded = False\<rparr>"

text \<open>C13. The retry loop always ends, whatever the server answers: at most \<open>write_retry_count\<close> busy
  retries, one forced reload and the last attempt, that is \<open>write_retry_count + 2\<close> attempts.\<close>

theorem flush_run_terminates:
  assumes "0 \<le> fe_max_retries env"
  shows "vfdw_flush_run env st \<noteq> None"
  unfolding vfdw_flush_run_def using assms by (intro flush_run_bound) simp_all

theorem flush_run_terminates_witness: "vfdw_flush_run sample_env sample_flush \<noteq> None"
  using flush_run_terminates [of sample_env sample_flush] by (simp add: sample_env_def)


lemma sample_flush_applied:
  "vfdw_flush_pre_commit sample_env False (Inr (sample_wire, False)) sample_flush \<noteq> None \<and>
   \<not> isl (fst (the (vfdw_flush_pre_commit sample_env False (Inr (sample_wire, False)) sample_flush)))"
proof -
  have n: "nat (fe_max_retries sample_env) + 2 = Suc 4" by (simp add: sample_env_def)
  have enc: "vfdw_script_encode ''sha'' vfdw_ledger_reset = Inr [''EVALSHA'', ''sha'', dec_int 0, ''V1'', dec_int 0]"
    by (simp add: vfdw_script_encode_def script_keytable_def vfdw_keytable_init_def vfdw_ledger_reset_def
        vfdw_ledger_nplans_def)
  have c: "vfdw_flush_classify (Some (Reply VALKEY_REPLY_STATUS (Some ''VFDW1 OK 0'') 0 [])) 0 VFDW_FLUSH_SENT
       = (Inr VFDW_FLUSH_APPLIED, VFDW_FLUSH_SENT)"
    by code_simp
  have np: "vfdw_ledger_nplans (fe_ledger sample_env) = 0"
    by (simp add: sample_env_def vfdw_ledger_nplans_def vfdw_ledger_reset_def)
  have at: "\<exists>st2. vfdw_flush_attempt sample_env False (sample_flush\<lparr>fl_ncalls := 1, fl_phase := VFDW_FLUSH_BEFORE_SEND,
        fl_wire := sample_wire, fl_loaded := False\<rparr>) = (Inr VFDW_FLUSH_APPLIED, st2)"
    unfolding vfdw_flush_attempt_def np
    by (simp add: Let_def flush_queue_def sample_env_def sample_flush_def sample_wire_def quiet_wire_def enc c
        vfdw_batch_begin_def vfdw_batch_add_def vfdw_batch_flush_def flush_read_load_def vfdw_batch_next_def
        vfdw_reply_is_error_def vfdw_batch_end_def vfdw_batch_pending_def)
  then show ?thesis
    by (auto simp: vfdw_flush_pre_commit_def vfdw_flush_run_def n Let_def sample_flush_def)
qed




end
