(* ===== verification/Overlay.thy ===== *)
theory Overlay
  imports Wbuf
begin

text \<open>
  What a scan sees of its own transaction's writes: the index of \<open>src/vfdw_overlay.c\<close> over the
  buffer's operations, and what a scan does with its verdicts (\<open>src/vfdw_scan_overlay.c\<close>).

  The index holds pointers to operations, in buffer order, per (relation, key). It is extended when
  the buffer has only grown and rebuilt otherwise; the specification \<open>overlay_spec\<close> asks the log
  directly, and the properties show that the cached index always answers like it.
\<close>

section \<open>Data\<close>

record VfdwOverlayKey =
  ok_relid :: Oid
  ok_key :: bytes

datatype VfdwOverlayVerdict = VFDW_OVL_PASS | VFDW_OVL_HIDE | VFDW_OVL_REPLACE

record overlay =
  ov_tab :: "VfdwOverlayKey \<rightharpoonup> addr list"
  ov_built_gen :: "64 word"
  ov_built_shrink_gen :: "64 word"
  ov_built_tail :: "addr option"
  ov_rebuilds :: "64 word"
  ov_extends :: "64 word"
  ov_have :: bool

definition overlay_init :: overlay where
  "overlay_init = \<lparr>ov_tab = Map.empty, ov_built_gen = 0, ov_built_shrink_gen = 0, ov_built_tail = None,
     ov_rebuilds = 0, ov_extends = 0, ov_have = False\<rparr>"

text \<open>\<open>vfdw_overlay_match\<close>: 0 when the keys are the same.\<close>

definition vfdw_overlay_match :: "VfdwOverlayKey \<Rightarrow> VfdwOverlayKey \<Rightarrow> int" where
  "vfdw_overlay_match x y =
     (if ok_relid x \<noteq> ok_relid y \<or> length (ok_key x) \<noteq> length (ok_key y) then 1
      else if length (ok_key x) = 0 then 0
      else if ok_key x \<noteq> ok_key y then 1 else 0)"

definition vfdw_overlay_reset :: "overlay \<Rightarrow> overlay" where
  "vfdw_overlay_reset ov =
     ov\<lparr>ov_tab := Map.empty, ov_have := False, ov_built_gen := 0, ov_built_shrink_gen := 0, ov_built_tail := None\<rparr>"

definition overlay_key :: "VfdwWriteOp \<Rightarrow> VfdwOverlayKey" where
  "overlay_key oper = \<lparr>ok_relid = op_relid oper, ok_key = op_key oper\<rparr>"

text \<open>Growing the pointer array is not visible in the list.\<close>

definition vfdw_overlay_record ::
  "(addr \<Rightarrow> VfdwWriteOp) \<Rightarrow> addr \<Rightarrow> (VfdwOverlayKey \<rightharpoonup> addr list) \<Rightarrow> (VfdwOverlayKey \<rightharpoonup> addr list)" where
  "vfdw_overlay_record h a tab =
     (let k = overlay_key (h a) in
      case tab k of None \<Rightarrow> tab(k \<mapsto> [a]) | Some ops \<Rightarrow> tab(k \<mapsto> ops @ [a]))"

text \<open>The addresses \<open>for (op = p; op != NULL; op = op->next)\<close> visits, at most \<open>n\<close> of them.\<close>

fun walk_addrs :: "nat \<Rightarrow> (addr \<Rightarrow> VfdwWriteOp) \<Rightarrow> addr option \<Rightarrow> addr list" where
  "walk_addrs 0 h p = []"
| "walk_addrs (Suc n) h p = (case p of None \<Rightarrow> [] | Some a \<Rightarrow> a # walk_addrs n h (op_next (h a)))"

definition vfdw_overlay_build :: "wbuf \<Rightarrow> overlay \<Rightarrow> overlay" where
  "vfdw_overlay_build st ov =
     (let h = wb_heap st; n = nat (wb_nlive st) in
      if ov_have ov \<and> ov_built_gen ov = wb_gen st then ov
      else if ov_have ov \<and> ov_built_shrink_gen ov = wb_shrink_gen st then
        let from = (case ov_built_tail ov of Some t \<Rightarrow> op_next (h t) | None \<Rightarrow> wb_head st)
        in ov\<lparr>ov_tab := fold (vfdw_overlay_record h) (walk_addrs n h from) (ov_tab ov),
              ov_built_tail := wb_tail st, ov_built_gen := wb_gen st, ov_extends := ov_extends ov + 1\<rparr>
      else let ov1 = vfdw_overlay_reset ov
        in ov1\<lparr>ov_tab := fold (vfdw_overlay_record h) (walk_addrs n h (wb_head st)) Map.empty,
               ov_built_gen := wb_gen st, ov_built_shrink_gen := wb_shrink_gen st,
               ov_built_tail := wb_tail st, ov_have := True, ov_rebuilds := ov_rebuilds ov1 + 1\<rparr>)"

definition vfdw_overlay_active :: "wbuf \<Rightarrow> bool" where
  "vfdw_overlay_active st = (\<not> vfdw_wbuf_is_empty st)"

text \<open>The backwards loop over an entry's operations; the list is given newest first.\<close>

fun overlay_scan_ops ::
  "(addr \<Rightarrow> VfdwWriteOp) \<Rightarrow> CommandId \<Rightarrow> addr list \<Rightarrow> VfdwOverlayVerdict \<times> HeapTuple option" where
  "overlay_scan_ops h curcid [] = (VFDW_OVL_PASS, None)"
| "overlay_scan_ops h curcid (a # as) =
     (let oper = h a in
      if op_cid oper \<ge> curcid then overlay_scan_ops h curcid as
      else if op_kind oper = VFDW_OP_DELETE then (VFDW_OVL_HIDE, None)
      else case op_newtup oper of None \<Rightarrow> (VFDW_OVL_PASS, None) | Some t \<Rightarrow> (VFDW_OVL_REPLACE, Some t))"

definition vfdw_overlay_check ::
  "wbuf \<Rightarrow> Oid \<Rightarrow> bytes \<Rightarrow> CommandId \<Rightarrow> overlay \<Rightarrow> (VfdwOverlayVerdict \<times> HeapTuple option) \<times> overlay" where
  "vfdw_overlay_check st relid key curcid ov =
     (if vfdw_wbuf_is_empty st then ((VFDW_OVL_PASS, None), ov)
      else let ov1 = vfdw_overlay_build st ov in
        case ov_tab ov1 \<lparr>ok_relid = relid, ok_key = key\<rparr> of
          None \<Rightarrow> ((VFDW_OVL_PASS, None), ov1)
        | Some ops \<Rightarrow> (overlay_scan_ops (wb_heap st) curcid (rev ops), ov1))"

record VfdwOverlayIter =
  it_relid :: Oid
  it_curcid :: CommandId
  it_generation :: "64 word"
  it_next :: "addr option"

definition vfdw_overlay_iter_init :: "wbuf \<Rightarrow> Oid \<Rightarrow> CommandId \<Rightarrow> VfdwOverlayIter" where
  "vfdw_overlay_iter_init st relid curcid =
     \<lparr>it_relid = relid, it_curcid = curcid, it_generation = wb_gen st, it_next = wb_head st\<rparr>"

text \<open>The while loop of \<open>vfdw_overlay_iter_next\<close>, at most \<open>n\<close> operations.\<close>

fun iter_loop ::
  "nat \<Rightarrow> wbuf \<Rightarrow> VfdwOverlayIter \<Rightarrow> overlay \<Rightarrow> (HeapTuple \<times> bytes) option \<times> VfdwOverlayIter \<times> overlay" where
  "iter_loop 0 st it ov = (None, it, ov)"
| "iter_loop (Suc n) st it ov =
     (case it_next it of
        None \<Rightarrow> (None, it, ov)
      | Some a \<Rightarrow>
          let oper = wb_heap st a; it1 = it\<lparr>it_next := op_next oper\<rparr> in
          if op_relid oper \<noteq> it_relid it \<or> op_kind oper \<noteq> VFDW_OP_INSERT then iter_loop n st it1 ov
          else (case vfdw_overlay_check st (op_relid oper) (op_key oper) (it_curcid it) ov of
                  ((VFDW_OVL_REPLACE, Some t), ov1) \<Rightarrow> (Some (t, op_key oper), it1, ov1)
                | (_, ov1) \<Rightarrow> iter_loop n st it1 ov1))"

definition vfdw_overlay_iter_next ::
  "wbuf \<Rightarrow> VfdwOverlayIter \<Rightarrow> overlay \<Rightarrow> (HeapTuple \<times> bytes) option \<times> VfdwOverlayIter \<times> overlay" where
  "vfdw_overlay_iter_next st it ov =
     (let it0 = (if it_generation it \<noteq> wb_gen st then vfdw_overlay_iter_init st (it_relid it) (it_curcid it) else it)
      in iter_loop (nat (wb_nlive st)) st it0 ov)"

section \<open>The scan's use of it\<close>

text \<open>The overlay part of a scan's state; the slot is the tuple stored into it, if any.\<close>

record scan_overlay =
  so_relid :: Oid
  so_cid :: CommandId
  so_seen :: "bytes set"
  so_tail :: bool
  so_iter :: VfdwOverlayIter

definition vfdw_scan_mark_seen :: "wbuf \<Rightarrow> bytes \<Rightarrow> scan_overlay \<Rightarrow> scan_overlay" where
  "vfdw_scan_mark_seen st key so =
     (if \<not> vfdw_overlay_active st then so else so\<lparr>so_seen := insert key (so_seen so)\<rparr>)"

definition vfdw_scan_already_seen :: "bytes \<Rightarrow> scan_overlay \<Rightarrow> bool" where
  "vfdw_scan_already_seen key so \<longleftrightarrow> key \<in> so_seen so"

definition vfdw_scan_apply_overlay ::
  "wbuf \<Rightarrow> bytes \<Rightarrow> scan_overlay \<Rightarrow> overlay \<Rightarrow> (VfdwOverlayVerdict \<times> HeapTuple option) \<times> scan_overlay \<times> overlay" where
  "vfdw_scan_apply_overlay st key so ov =
     (if \<not> vfdw_overlay_active st then ((VFDW_OVL_PASS, None), so, ov)
      else let (v, ov1) = vfdw_overlay_check st (so_relid so) key (so_cid so) ov
           in (v, vfdw_scan_mark_seen st key so, ov1))"

text \<open>The loop of \<open>vfdw_scan_inject\<close>, at most \<open>n\<close> iterator steps; the row stored, or \<open>None\<close>.\<close>

fun inject_loop ::
  "nat \<Rightarrow> wbuf \<Rightarrow> scan_overlay \<Rightarrow> overlay \<Rightarrow> (HeapTuple \<times> bytes) option \<times> scan_overlay \<times> overlay" where
  "inject_loop 0 st so ov = (None, so, ov)"
| "inject_loop (Suc n) st so ov =
     (case vfdw_overlay_iter_next st (so_iter so) ov of
        (None, it, ov1) \<Rightarrow> (None, so\<lparr>so_iter := it\<rparr>, ov1)
      | (Some (t, key), it, ov1) \<Rightarrow>
          let so1 = so\<lparr>so_iter := it\<rparr> in
          if vfdw_scan_already_seen key so1 then inject_loop n st so1 ov1
          else (Some (t, key), vfdw_scan_mark_seen st key so1, ov1))"

definition vfdw_scan_inject ::
  "wbuf \<Rightarrow> scan_overlay \<Rightarrow> overlay \<Rightarrow> (HeapTuple \<times> bytes) option \<times> scan_overlay \<times> overlay" where
  "vfdw_scan_inject st so ov = inject_loop (nat (wb_nlive st) + 1) st so ov"

definition vfdw_scan_drain_tail ::
  "wbuf \<Rightarrow> scan_overlay \<Rightarrow> overlay \<Rightarrow> (HeapTuple \<times> bytes) option \<times> scan_overlay \<times> overlay" where
  "vfdw_scan_drain_tail st so ov =
     (if \<not> vfdw_overlay_active st then (None, so, ov)
      else let so1 = (if \<not> so_tail so
                      then so\<lparr>so_tail := True, so_iter := vfdw_overlay_iter_init st (so_relid so) (so_cid so)\<rparr>
                      else so)
           in vfdw_scan_inject st so1 ov)"

definition vfdw_scan_seen_reset :: "scan_overlay \<Rightarrow> scan_overlay" where
  "vfdw_scan_seen_reset so = so\<lparr>so_seen := {}\<rparr>"

section \<open>The specification over the log\<close>

text \<open>
  The verdict for a key: look at the newest operation of the log on (relation, key) whose command
  is older than the asking one.
\<close>

definition verdict_of :: "VfdwWriteOp option \<Rightarrow> VfdwOverlayVerdict \<times> HeapTuple option" where
  "verdict_of x =
     (case x of
        None \<Rightarrow> (VFDW_OVL_PASS, None)
      | Some oper \<Rightarrow>
          if op_kind oper = VFDW_OP_DELETE then (VFDW_OVL_HIDE, None)
          else case op_newtup oper of None \<Rightarrow> (VFDW_OVL_PASS, None) | Some t \<Rightarrow> (VFDW_OVL_REPLACE, Some t))"

definition overlay_spec :: "VfdwWriteOp list \<Rightarrow> Oid \<Rightarrow> bytes \<Rightarrow> CommandId \<Rightarrow> VfdwOverlayVerdict \<times> HeapTuple option" where
  "overlay_spec log relid key curcid =
     verdict_of (find (\<lambda>oper. op_relid oper = relid \<and> op_key oper = key \<and> op_cid oper < curcid) (rev log))"

section \<open>The index\<close>

lemma overlay_match_is_equality: "vfdw_overlay_match x y = 0 \<longleftrightarrow> x = y"
  by (cases x; cases y) (auto simp: vfdw_overlay_match_def)

definition index_of_ops :: "(addr \<Rightarrow> VfdwWriteOp) \<Rightarrow> addr list \<Rightarrow> (VfdwOverlayKey \<rightharpoonup> addr list)" where
  "index_of_ops h as k = (case filter (\<lambda>a. overlay_key (h a) = k) as of [] \<Rightarrow> None | xs \<Rightarrow> Some xs)"

lemma record_index:
  "vfdw_overlay_record h a (index_of_ops h as) = index_of_ops h (as @ [a])"
proof
  fix k
  show "vfdw_overlay_record h a (index_of_ops h as) k = index_of_ops h (as @ [a]) k"
    by (cases "filter (\<lambda>b. overlay_key (h b) = overlay_key (h a)) as")
       (auto simp: vfdw_overlay_record_def index_of_ops_def Let_def split: list.splits)
qed

lemma record_all: "fold (vfdw_overlay_record h) bs (index_of_ops h as) = index_of_ops h (as @ bs)"
proof (induction bs arbitrary: as)
  case (Cons b bs)
  from Cons [of "as @ [b]"] show ?case by (simp add: record_index)
qed simp

lemma index_empty: "index_of_ops h [] = Map.empty"
  by (simp add: index_of_ops_def fun_eq_iff)

lemma index_cong:
  "(\<And>a. a \<in> set as \<Longrightarrow> overlay_key (h a) = overlay_key (g a)) \<Longrightarrow> index_of_ops h as = index_of_ops g as"
  by (auto simp: index_of_ops_def fun_eq_iff cong: filter_cong)

lemma walk_addrs_linked: "linked h p as None \<Longrightarrow> length as \<le> n \<Longrightarrow> walk_addrs n h (first_of as) = as"
proof (induction as arbitrary: p n)
  case Nil
  then show ?case by (cases n) simp_all
next
  case (Cons a as)
  then obtain m where "n = Suc m" "length as \<le> m" by (cases n) auto
  then show ?case using Cons by (cases as) auto
qed

lemma linked_append:
  "linked h p (as @ bs) n \<longleftrightarrow>
     linked h p as (case bs of [] \<Rightarrow> n | b # _ \<Rightarrow> Some b) \<and> linked h (last_of p as) bs n"
proof (induction as arbitrary: p)
  case (Cons a as)
  then show ?case by (cases as; cases bs) auto
qed simp

text \<open>
  The index covers a prefix of the chain, and the generation counts the operations appended since.
\<close>

definition overlay_tracks :: "wbuf \<Rightarrow> addr list \<Rightarrow> overlay \<Rightarrow> bool" where
  "overlay_tracks st as ov \<longleftrightarrow>
     (ov_have ov \<longrightarrow>
        (\<exists>cs bs. as = cs @ bs \<and> ov_built_tail ov = last_of None cs \<and> ov_tab ov = index_of_ops (wb_heap st) cs \<and>
           ov_built_shrink_gen ov = wb_shrink_gen st \<and> wb_gen st = ov_built_gen ov + of_nat (length bs)))"

definition overlay_inv :: "wbuf \<Rightarrow> overlay \<Rightarrow> bool" where
  "overlay_inv st ov \<longleftrightarrow> (\<exists>as. wbuf_rel st as \<and> length as < 2 ^ 64 \<and> overlay_tracks st as ov)"

lemma of_nat_word_zero: "n < 2 ^ 64 \<Longrightarrow> (of_nat n :: 64 word) = 0 \<longleftrightarrow> n = 0"
  by (simp add: word_of_nat_eq_0_iff dvd_eq_mod_eq_0)

text \<open>Whatever path it takes, the build leaves the index of the whole chain.\<close>

lemma build_index:
  assumes rel: "wbuf_rel st as" and short: "length as < 2 ^ 64" and tr: "overlay_tracks st as ov"
  shows "ov_tab (vfdw_overlay_build st ov) = index_of_ops (wb_heap st) as"
    "overlay_tracks st as (vfdw_overlay_build st ov)"
proof -
  let ?h = "wb_heap st"
  have n: "nat (wb_nlive st) = length as" and hd: "wb_head st = first_of as" and tl: "wb_tail st = last_of None as"
    and lk: "linked ?h None as None" using rel by (auto simp: wbuf_rel_def)
  have whole: "walk_addrs (length as) ?h (first_of as) = as" using walk_addrs_linked [OF lk] by simp
  show "ov_tab (vfdw_overlay_build st ov) = index_of_ops ?h as"
  proof (cases "ov_have ov")
    case False
    then show ?thesis using record_all [of ?h as "[]"]
      by (simp add: vfdw_overlay_build_def Let_def n hd whole vfdw_overlay_reset_def index_empty)
  next
    case True
    then obtain cs bs where as: "as = cs @ bs" and bt: "ov_built_tail ov = last_of None cs"
      and tab: "ov_tab ov = index_of_ops ?h cs" and sg: "ov_built_shrink_gen ov = wb_shrink_gen st"
      and g: "wb_gen st = ov_built_gen ov + of_nat (length bs)"
      using tr by (auto simp: overlay_tracks_def)
    have lb: "linked ?h (last_of None cs) bs None" using lk by (simp add: as linked_append)
    have from_tail: "(case ov_built_tail ov of Some t \<Rightarrow> op_next (?h t) | None \<Rightarrow> wb_head st) = first_of bs"
    proof (cases "last_of None cs")
      case None
      then show ?thesis using bt hd as by simp
    next
      case (Some t)
      then obtain cs' where cs: "cs = cs' @ [t]" using last_of_SomeD by blast
      have "linked ?h None cs (case bs of [] \<Rightarrow> None | b # _ \<Rightarrow> Some b)" using lk by (simp add: as linked_append)
      then have "op_next (?h t) = (case bs of [] \<Rightarrow> None | b # _ \<Rightarrow> Some b)" by (simp add: cs linked_snoc)
      then show ?thesis using bt Some by (simp add: first_of_def)
    qed
    have wb: "walk_addrs (length as) ?h (first_of bs) = bs" using walk_addrs_linked [OF lb] as by simp
    have same: "ov_built_gen ov = wb_gen st \<longleftrightarrow> bs = []"
      using g of_nat_word_zero [of "length bs"] short as by auto
    show ?thesis
      using True same sg tab record_all [of ?h bs cs] as wb from_tail
      by (auto simp: vfdw_overlay_build_def Let_def n)
  qed
  then have tab: "ov_tab (vfdw_overlay_build st ov) = index_of_ops ?h as" .
  show "overlay_tracks st as (vfdw_overlay_build st ov)"
  proof (cases "ov_have ov \<and> ov_built_gen ov = wb_gen st")
    case True
    then show ?thesis using tr by (simp add: vfdw_overlay_build_def Let_def)
  next
    case False
    have "ov_built_tail (vfdw_overlay_build st ov) = last_of None as"
      "ov_built_gen (vfdw_overlay_build st ov) = wb_gen st"
      "ov_built_shrink_gen (vfdw_overlay_build st ov) = wb_shrink_gen st"
      using False tl by (auto simp: vfdw_overlay_build_def Let_def)
    then show ?thesis using tab unfolding overlay_tracks_def
      by (intro impI exI [of _ as] exI [of _ "[]"]) simp
  qed
qed

section \<open>Answers\<close>

lemma scan_ops_spec:
  "overlay_scan_ops h curcid as = verdict_of (find (\<lambda>oper. op_cid oper < curcid) (map h as))"
  by (induction as) (auto simp: verdict_of_def Let_def)

lemma find_filter: "find P (filter Q xs) = find (\<lambda>x. Q x \<and> P x) xs"
  by (induction xs) auto

lemma payload_op_simps [simp]:
  "op_relid (payload oper) = op_relid oper" "op_key (payload oper) = op_key oper"
  "op_cid (payload oper) = op_cid oper" "op_kind (payload oper) = op_kind oper"
  "op_newtup (payload oper) = op_newtup oper"
  by (simp_all add: payload_def)

lemma verdict_payload: "verdict_of (map_option (\<lambda>x. payload (f x)) y) = verdict_of (map_option f y)"
  by (cases y) (auto simp: verdict_of_def)

lemma find_map: "find P (map f xs) = map_option f (find (P \<circ> f) xs)"
  by (induction xs) auto

lemma index_answers:
  assumes "wbuf_rel st as"
  shows "(case index_of_ops (wb_heap st) as \<lparr>ok_relid = relid, ok_key = key\<rparr> of
            None \<Rightarrow> (VFDW_OVL_PASS, None)
          | Some ops \<Rightarrow> overlay_scan_ops (wb_heap st) curcid (rev ops)) = overlay_spec (wbuf_log st) relid key curcid"
proof -
  let ?h = "wb_heap st" and ?k = "\<lparr>ok_relid = relid, ok_key = key\<rparr>"
  let ?f = "filter (\<lambda>a. overlay_key (?h a) = ?k) as"
  have "(case index_of_ops ?h as ?k of None \<Rightarrow> (VFDW_OVL_PASS, None)
          | Some ops \<Rightarrow> overlay_scan_ops ?h curcid (rev ops)) = overlay_scan_ops ?h curcid (rev ?f)"
    by (cases ?f) (simp_all add: index_of_ops_def)
  also have "\<dots> = verdict_of (map_option ?h (find (\<lambda>a. overlay_key (?h a) = ?k \<and> op_cid (?h a) < curcid) (rev as)))"
    by (simp add: scan_ops_spec rev_filter find_filter find_map comp_def)
  also have "\<dots> = overlay_spec (wbuf_log st) relid key curcid"
    by (simp add: overlay_spec_def log_of_rel [OF assms] rev_map find_map comp_def overlay_key_def
        conj_assoc verdict_payload)
  finally show ?thesis .
qed

lemma overlay_check_spec:
  assumes rel: "wbuf_rel st as" and short: "length as < 2 ^ 64" and tr: "overlay_tracks st as ov"
  shows "fst (vfdw_overlay_check st relid key curcid ov) = overlay_spec (wbuf_log st) relid key curcid"
    "overlay_tracks st as (snd (vfdw_overlay_check st relid key curcid ov))"
proof -
  note b = build_index [OF rel short tr]
  have e: "vfdw_wbuf_is_empty st \<longleftrightarrow> as = []"
    using rel by (simp add: vfdw_wbuf_is_empty_def wbuf_rel_def)
  show "overlay_tracks st as (snd (vfdw_overlay_check st relid key curcid ov))"
    using tr b(2) by (auto simp: vfdw_overlay_check_def Let_def split: option.splits)
  show "fst (vfdw_overlay_check st relid key curcid ov) = overlay_spec (wbuf_log st) relid key curcid"
  proof (cases "as = []")
    case True
    then show ?thesis using e log_of_rel [OF rel] by (simp add: vfdw_overlay_check_def overlay_spec_def verdict_of_def)
  next
    case False
    then show ?thesis using e index_answers [OF rel, where relid = relid and key = key and curcid = curcid] b(1)
      by (auto simp: vfdw_overlay_check_def Let_def split: option.splits)
  qed
qed

section \<open>The iterator and the tail of a scan\<close>

text \<open>
  The keys the tail can emit: an INSERT on the relation whose verdict is REPLACE, with the newest
  visible tuple.
\<close>

definition tail_row :: "VfdwWriteOp list \<Rightarrow> Oid \<Rightarrow> CommandId \<Rightarrow> VfdwWriteOp \<Rightarrow> (HeapTuple \<times> bytes) option" where
  "tail_row log relid curcid oper =
     (if op_relid oper = relid \<and> op_kind oper = VFDW_OP_INSERT
      then (case overlay_spec log relid (op_key oper) curcid of
              (VFDW_OVL_REPLACE, Some t) \<Rightarrow> Some (t, op_key oper) | _ \<Rightarrow> None)
      else None)"

lemma verdict_of_cases:
  "verdict_of x = (VFDW_OVL_PASS, None) \<or> verdict_of x = (VFDW_OVL_HIDE, None) \<or>
   (\<exists>t. verdict_of x = (VFDW_OVL_REPLACE, Some t))"
  by (cases x) (auto simp: verdict_of_def split: option.splits)

text \<open>The first row a list of operations yields, and what is left of the list after it.\<close>

fun seek :: "('a \<Rightarrow> 'b option) \<Rightarrow> 'a list \<Rightarrow> 'b option \<times> 'a list" where
  "seek f [] = (None, [])"
| "seek f (x # xs) = (case f x of Some r \<Rightarrow> (Some r, xs) | None \<Rightarrow> seek f xs)"

lemma iter_loop_spec:
  assumes rel: "wbuf_rel st as" and short: "length as < 2 ^ 64"
  shows "as = cs @ bs \<Longrightarrow> it_next it = first_of bs \<Longrightarrow> length bs \<le> n \<Longrightarrow> overlay_tracks st as ov \<Longrightarrow>
     iter_loop n st it ov = (r, it', ov') \<Longrightarrow>
     overlay_tracks st as ov' \<and>
     r = fst (seek (\<lambda>a. tail_row (wbuf_log st) (it_relid it) (it_curcid it) (wb_heap st a)) bs) \<and>
     it' = it\<lparr>it_next := first_of (snd (seek (\<lambda>a. tail_row (wbuf_log st) (it_relid it) (it_curcid it) (wb_heap st a)) bs))\<rparr>"
proof (induction bs arbitrary: cs n it ov)
  case Nil
  then show ?case by (cases n) auto
next
  case (Cons a bs)
  obtain m where m: "n = Suc m" "length bs \<le> m" using Cons.prems(3) by (cases n) auto
  let ?oper = "wb_heap st a" and ?f = "\<lambda>a. tail_row (wbuf_log st) (it_relid it) (it_curcid it) (wb_heap st a)"
  let ?it1 = "it\<lparr>it_next := op_next ?oper\<rparr>"
  have nx: "op_next ?oper = first_of bs"
    using rel Cons.prems(1) by (cases bs) (auto simp: wbuf_rel_def linked_append)
  have as: "as = (cs @ [a]) @ bs" using Cons.prems(1) by simp
  have skip: ?case if none: "?f a = None"
    and ov1: "overlay_tracks st as ov1" and run: "iter_loop m st ?it1 ov1 = (r, it', ov')" for ov1
    using Cons.IH [OF as _ m(2) ov1 run] nx none by simp
  show ?case
  proof (cases "op_relid ?oper \<noteq> it_relid it \<or> op_kind ?oper \<noteq> VFDW_OP_INSERT")
    case True
    then have "iter_loop m st ?it1 ov = (r, it', ov')" using Cons.prems(2,5) m(1) by (simp add: Let_def)
    moreover have "?f a = None" using True by (auto simp: tail_row_def)
    ultimately show ?thesis using skip Cons.prems(4) by blast
  next
    case False
    obtain v ov1 where c: "vfdw_overlay_check st (op_relid ?oper) (op_key ?oper) (it_curcid it) ov = (v, ov1)" by (metis surj_pair)
    note chk = overlay_check_spec [OF rel short Cons.prems(4), of "op_relid ?oper" "op_key ?oper" "it_curcid it"]
    have v: "v = overlay_spec (wbuf_log st) (it_relid it) (op_key ?oper) (it_curcid it)" and o1: "overlay_tracks st as ov1"
      using chk c False by auto
    consider (row) t where "v = (VFDW_OVL_REPLACE, Some t)" | (no) "v = (VFDW_OVL_PASS, None) \<or> v = (VFDW_OVL_HIDE, None)"
      using v verdict_of_cases unfolding overlay_spec_def by metis
    then show ?thesis
    proof cases
      case row
      have tr: "?f a = Some (t, op_key ?oper)" using row v False by (simp add: tail_row_def)
      have "r = Some (t, op_key ?oper)" "it' = ?it1" "ov' = ov1"
        using Cons.prems(2,5) m(1) False c row by (auto simp: Let_def)
      then show ?thesis using tr o1 nx by simp
    next
      case no
      then have "iter_loop m st ?it1 ov1 = (r, it', ov')"
        using Cons.prems(2,5) m(1) False c by (auto simp: Let_def)
      moreover have "?f a = None" using no v False by (auto simp: tail_row_def)
      ultimately show ?thesis using skip o1 by blast
    qed
  qed
qed

lemma seek_split:
  "seek f xs = (Some r, ys) \<Longrightarrow> \<exists>pre x. xs = pre @ x # ys \<and> f x = Some r \<and> (\<forall>y\<in>set pre. f y = None)"
proof (induction xs)
  case (Cons x xs)
  show ?case
  proof (cases "f x")
    case None
    then obtain pre z where "xs = pre @ z # ys" "f z = Some r" "\<forall>y\<in>set pre. f y = None" using Cons by auto
    then show ?thesis using None by (intro exI [of _ "x # pre"] exI [of _ z]) simp
  next
    case (Some q)
    then show ?thesis using Cons.prems by (intro exI [of _ "[]"] exI [of _ x]) simp
  qed
qed simp

lemma seek_none: "seek f xs = (None, ys) \<Longrightarrow> ys = [] \<and> (\<forall>y\<in>set xs. f y = None)"
  by (induction xs) (auto split: option.splits)

lemma seek_skip: "\<forall>y\<in>set pre. f y = None \<Longrightarrow> seek f (pre @ xs) = seek f xs"
  by (induction pre) auto

definition unseen :: "bytes set \<Rightarrow> (HeapTuple \<times> bytes) option \<Rightarrow> (HeapTuple \<times> bytes) option" where
  "unseen S x = (case x of Some (t, k) \<Rightarrow> if k \<in> S then None else Some (t, k) | None \<Rightarrow> None)"

fun seen_after :: "(HeapTuple \<times> bytes) option \<Rightarrow> bytes set \<Rightarrow> bytes set" where
  "seen_after None S = S"
| "seen_after (Some (t, k)) S = insert k S"

text \<open>The scan's iterator stands at the suffix \<open>bs\<close> of the chain.\<close>

definition scan_at :: "wbuf \<Rightarrow> addr list \<Rightarrow> scan_overlay \<Rightarrow> addr list \<Rightarrow> bool" where
  "scan_at st as so bs \<longleftrightarrow>
     (\<exists>cs. as = cs @ bs) \<and>
     so_iter so = \<lparr>it_relid = so_relid so, it_curcid = so_cid so, it_generation = wb_gen st, it_next = first_of bs\<rparr>"

definition row_at :: "wbuf \<Rightarrow> scan_overlay \<Rightarrow> addr \<Rightarrow> (HeapTuple \<times> bytes) option" where
  "row_at st so a = tail_row (wbuf_log st) (so_relid so) (so_cid so) (wb_heap st a)"

lemma iter_next_spec:
  assumes rel: "wbuf_rel st as" and short: "length as < 2 ^ 64" and at: "scan_at st as so bs"
    and tr: "overlay_tracks st as ov" and run: "vfdw_overlay_iter_next st (so_iter so) ov = (r, it', ov')"
  shows "overlay_tracks st as ov'" "r = fst (seek (row_at st so) bs)"
    "it' = (so_iter so)\<lparr>it_next := first_of (snd (seek (row_at st so) bs))\<rparr>"
proof -
  obtain cs where as: "as = cs @ bs" using at by (auto simp: scan_at_def)
  have n: "nat (wb_nlive st) = length as" using rel by (simp add: wbuf_rel_def)
  have loop: "iter_loop (length as) st (so_iter so) ov = (r, it', ov')"
    using run at n by (simp add: vfdw_overlay_iter_next_def scan_at_def)
  have "it_next (so_iter so) = first_of bs" "length bs \<le> length as" using at as by (auto simp: scan_at_def)
  note iter_loop_spec [OF rel short as this tr loop]
  then show "overlay_tracks st as ov'" "r = fst (seek (row_at st so) bs)"
    "it' = (so_iter so)\<lparr>it_next := first_of (snd (seek (row_at st so) bs))\<rparr>"
    using at by (auto simp: scan_at_def row_at_def [abs_def])
qed

lemma inject_loop_spec:
  assumes rel: "wbuf_rel st as" and short: "length as < 2 ^ 64" and ne: "as \<noteq> []"
  shows "scan_at st as so bs \<Longrightarrow> overlay_tracks st as ov \<Longrightarrow> length bs < n \<Longrightarrow>
     inject_loop n st so ov = (r, so', ov') \<Longrightarrow>
     overlay_tracks st as ov' \<and> r = fst (seek (\<lambda>a. unseen (so_seen so) (row_at st so a)) bs) \<and>
     scan_at st as so' (snd (seek (\<lambda>a. unseen (so_seen so) (row_at st so a)) bs)) \<and>
     so_relid so' = so_relid so \<and> so_cid so' = so_cid so \<and> so_tail so' = so_tail so \<and>
     so_seen so' = seen_after r (so_seen so)"
proof (induction n arbitrary: so bs ov)
  case (Suc n)
  let ?f = "row_at st so" and ?g = "\<lambda>a. unseen (so_seen so) (row_at st so a)"
  obtain q it1 ov1 where c: "vfdw_overlay_iter_next st (so_iter so) ov = (q, it1, ov1)" by (metis surj_pair)
  note nx = iter_next_spec [OF rel short Suc.prems(1,2) c]
  obtain cs where as: "as = cs @ bs" using Suc.prems(1) by (auto simp: scan_at_def)
  have active: "vfdw_overlay_active st"
    using rel ne by (simp add: vfdw_overlay_active_def vfdw_wbuf_is_empty_def wbuf_rel_def)
  show ?case
  proof (cases q)
    case None
    then obtain ys where s: "seek ?f bs = (None, ys)" using nx(2) by (cases "seek ?f bs") auto
    have ys: "ys = []" and all: "\<forall>y\<in>set bs. ?f y = None" using seek_none [OF s] by auto
    have g: "seek ?g bs = (None, [])" using seek_skip [of bs ?g "[]"] all by (simp add: unseen_def)
    have "r = None" "so' = so\<lparr>so_iter := it1\<rparr>" "ov' = ov1" using Suc.prems(4) c None by auto
    then show ?thesis using g nx(1,3) s ys Suc.prems(1) as by (auto simp: scan_at_def)
  next
    case (Some row)
    obtain t k where row: "row = (t, k)" by (cases row)
    obtain ys where s: "seek ?f bs = (Some (t, k), ys)" using nx(2) Some row by (cases "seek ?f bs") auto
    obtain pre a where bs: "bs = pre @ a # ys" and fa: "?f a = Some (t, k)" and none: "\<forall>y\<in>set pre. ?f y = None"
      using seek_split [OF s] by blast
    have skip: "seek ?g bs = seek ?g (a # ys)" unfolding bs using none by (intro seek_skip) (simp add: unseen_def)
    let ?so1 = "so\<lparr>so_iter := it1\<rparr>"
    have at1: "scan_at st as ?so1 ys" using nx(3) s Suc.prems(1) as bs by (auto simp: scan_at_def)
    have same: "row_at st ?so1 = ?f" by (simp add: row_at_def fun_eq_iff)
    show ?thesis
    proof (cases "k \<in> so_seen so")
      case True
      then have run: "inject_loop n st ?so1 ov1 = (r, so', ov')"
        using Suc.prems(4) c Some row by (simp add: Let_def vfdw_scan_already_seen_def)
      have "length ys < n" using Suc.prems(3) bs by simp
      note IH = Suc.IH [OF at1 nx(1) this run]
      have "seek ?g bs = seek ?g ys" using skip fa True by (simp add: unseen_def)
      then show ?thesis using IH same by simp
    next
      case False
      then have "r = Some (t, k)" "so' = ?so1\<lparr>so_seen := insert k (so_seen so)\<rparr>" "ov' = ov1"
        using Suc.prems(4) c Some row active
        by (auto simp: Let_def vfdw_scan_already_seen_def vfdw_scan_mark_seen_def)
      moreover have "seek ?g bs = (Some (t, k), ys)" using skip fa False by (simp add: unseen_def)
      ultimately show ?thesis using nx(1) at1 by (simp add: scan_at_def)
    qed
  qed
qed simp

text \<open>The rows left, in order, when every key is emitted at most once.\<close>

fun dedup_rows :: "bytes set \<Rightarrow> (HeapTuple \<times> bytes) option list \<Rightarrow> (HeapTuple \<times> bytes) list" where
  "dedup_rows S [] = []"
| "dedup_rows S (x # xs) =
     (case unseen S x of None \<Rightarrow> dedup_rows S xs | Some (t, k) \<Rightarrow> (t, k) # dedup_rows (insert k S) xs)"

lemma dedup_seek:
  "dedup_rows S (map f xs) =
     (case seek (\<lambda>a. unseen S (f a)) xs of
        (None, _) \<Rightarrow> [] | (Some (t, k), ys) \<Rightarrow> (t, k) # dedup_rows (insert k S) (map f ys))"
  by (induction xs) (auto split: option.splits)

lemma dedup_keys: "set (dedup_rows S xs) \<subseteq> {(t, k). Some (t, k) \<in> set xs \<and> k \<notin> S}"
proof (induction xs arbitrary: S)
  case (Cons x xs)
  then show ?case by (cases "unseen S x") (fastforce simp: unseen_def split: option.splits if_splits)+
qed simp

lemma dedup_distinct: "distinct (map snd (dedup_rows S xs))"
proof (induction xs arbitrary: S)
  case (Cons x xs)
  show ?case
  proof (cases "unseen S x")
    case (Some r)
    obtain t k where r: "r = (t, k)" by (cases r)
    have "k \<notin> snd ` set (dedup_rows (insert k S) xs)" using dedup_keys [of "insert k S" xs] by auto
    then show ?thesis using Cons Some r by simp
  qed (use Cons in simp)
qed simp

lemma dedup_complete: "Some (t, k) \<in> set xs \<Longrightarrow> k \<notin> S \<Longrightarrow> k \<in> snd ` set (dedup_rows S xs)"
proof (induction xs arbitrary: S)
  case (Cons x xs)
  show ?case
  proof (cases "unseen S x")
    case None
    then have "x \<noteq> Some (t, k)" using Cons.prems(2) by (auto simp: unseen_def)
    then show ?thesis using Cons None by auto
  next
    case (Some r)
    obtain t' k' where r: "r = (t', k')" by (cases r)
    show ?thesis
    proof (cases "k' = k")
      case False
      have "x = Some (t', k')" using Some r by (auto simp: unseen_def split: option.splits if_splits)
      then have "Some (t, k) \<in> set xs" using Cons.prems(1) False by auto
      then show ?thesis using Cons.IH [of "insert k' S"] Cons.prems(2) False Some r by auto
    qed (use Some r in auto)
  qed
qed simp

text \<open>
  A whole scan as the executor drives it: the server's keys one after the other, then the tail until
  it is dry, at most \<open>n\<close> calls.
\<close>

fun scan_server ::
  "wbuf \<Rightarrow> bytes list \<Rightarrow> scan_overlay \<Rightarrow> overlay \<Rightarrow> (VfdwOverlayVerdict \<times> HeapTuple option) list \<times> scan_overlay \<times> overlay" where
  "scan_server st [] so ov = ([], so, ov)"
| "scan_server st (k # ks) so ov =
     (let (v, so1, ov1) = vfdw_scan_apply_overlay st k so ov; (vs, so2, ov2) = scan_server st ks so1 ov1
      in (v # vs, so2, ov2))"

fun drain_all :: "nat \<Rightarrow> wbuf \<Rightarrow> scan_overlay \<Rightarrow> overlay \<Rightarrow> (HeapTuple \<times> bytes) list \<times> scan_overlay \<times> overlay" where
  "drain_all 0 st so ov = ([], so, ov)"
| "drain_all (Suc n) st so ov =
     (case vfdw_scan_drain_tail st so ov of
        (None, so1, ov1) \<Rightarrow> ([], so1, ov1)
      | (Some r, so1, ov1) \<Rightarrow> let (rs, so2, ov2) = drain_all n st so1 ov1 in (r # rs, so2, ov2))"

lemma drain_started:
  assumes rel: "wbuf_rel st as" and short: "length as < 2 ^ 64" and ne: "as \<noteq> []"
  shows "scan_at st as so bs \<Longrightarrow> so_tail so \<Longrightarrow> overlay_tracks st as ov \<Longrightarrow> length bs < n \<Longrightarrow>
     fst (drain_all n st so ov) = dedup_rows (so_seen so) (map (row_at st so) bs)"
proof (induction n arbitrary: so bs ov)
  case (Suc n)
  have active: "vfdw_overlay_active st" and nl: "nat (wb_nlive st) = length as"
    using rel ne by (simp_all add: vfdw_overlay_active_def vfdw_wbuf_is_empty_def wbuf_rel_def)
  obtain r so' ov' where c: "inject_loop (length as + 1) st so ov = (r, so', ov')" by (metis surj_pair)
  have dt: "vfdw_scan_drain_tail st so ov = (r, so', ov')"
    using c active Suc.prems(2) nl by (simp add: vfdw_scan_drain_tail_def vfdw_scan_inject_def)
  have "length bs < length as + 1" using Suc.prems(1) by (auto simp: scan_at_def)
  note inj = inject_loop_spec [OF rel short ne Suc.prems(1,3) this c]
  let ?g = "\<lambda>a. unseen (so_seen so) (row_at st so a)"
  show ?case
  proof (cases r)
    case None
    then show ?thesis using dt inj by (cases "seek ?g bs") (simp add: dedup_seek)
  next
    case (Some row)
    obtain t k where row: "row = (t, k)" by (cases row)
    obtain ys where s: "seek ?g bs = (Some (t, k), ys)" using inj Some row by (cases "seek ?g bs") auto
    have len: "length ys < n" using seek_split [OF s] Suc.prems(4) by auto
    have at': "scan_at st as so' ys" and tl: "so_tail so'" and tr: "overlay_tracks st as ov'"
      using inj s Suc.prems(2) by auto
    note IH = Suc.IH [OF at' tl tr len]
    have "row_at st so' = row_at st so" using inj by (simp add: row_at_def fun_eq_iff)
    moreover have "so_seen so' = insert k (so_seen so)" using inj Some row by simp
    ultimately have IH': "fst (drain_all n st so' ov') = dedup_rows (insert k (so_seen so)) (map (row_at st so) ys)"
      using IH by simp
    have "dedup_rows (so_seen so) (map (row_at st so) bs) =
        (t, k) # dedup_rows (insert k (so_seen so)) (map (row_at st so) ys)"
      by (subst dedup_seek) (simp add: s)
    moreover have "fst (drain_all (Suc n) st so ov) = (t, k) # fst (drain_all n st so' ov')"
      using dt Some row by (cases "drain_all n st so' ov'") simp
    ultimately show ?thesis using IH' by simp
  qed
qed simp

lemma tail_drain_spec:
  assumes rel: "wbuf_rel st as" and short: "length as < 2 ^ 64" and fresh: "\<not> so_tail so"
    and tr: "overlay_tracks st as ov" and n: "length as < n"
  shows "fst (drain_all n st so ov) = dedup_rows (so_seen so) (map (row_at st so) as)"
proof (cases "as = []")
  case True
  then have "\<not> vfdw_overlay_active st"
    using rel by (simp add: vfdw_overlay_active_def vfdw_wbuf_is_empty_def wbuf_rel_def)
  then show ?thesis using True n by (cases n) (simp_all add: vfdw_scan_drain_tail_def)
next
  case False
  then have active: "vfdw_overlay_active st" and hd: "wb_head st = first_of as"
    using rel by (simp_all add: vfdw_overlay_active_def vfdw_wbuf_is_empty_def wbuf_rel_def)
  let ?so = "so\<lparr>so_tail := True, so_iter := vfdw_overlay_iter_init st (so_relid so) (so_cid so)\<rparr>"
  have "vfdw_scan_drain_tail st so ov = vfdw_scan_drain_tail st ?so ov"
    using active fresh by (simp add: vfdw_scan_drain_tail_def)
  then have "drain_all n st so ov = drain_all n st ?so ov" using n by (cases n) simp_all
  moreover have "scan_at st as ?so as" using hd by (simp add: scan_at_def vfdw_overlay_iter_init_def)
  moreover have "row_at st ?so = row_at st so" by (simp add: row_at_def fun_eq_iff)
  ultimately show ?thesis using drain_started [OF rel short False, of ?so as ov n] tr n by simp
qed

lemma scan_server_spec:
  assumes rel: "wbuf_rel st as" and short: "length as < 2 ^ 64"
  shows "overlay_tracks st as ov \<Longrightarrow> scan_server st ks so ov = (vs, so', ov') \<Longrightarrow>
     vs = map (\<lambda>k. overlay_spec (wbuf_log st) (so_relid so) k (so_cid so)) ks \<and> overlay_tracks st as ov' \<and>
     so' = so\<lparr>so_seen := (if as = [] then so_seen so else so_seen so \<union> set ks)\<rparr>"
proof (induction ks arbitrary: so ov vs so' ov')
  case (Cons k ks)
  obtain v so1 ov1 where a: "vfdw_scan_apply_overlay st k so ov = (v, so1, ov1)" by (metis surj_pair)
  obtain vs2 so2 ov2 where b: "scan_server st ks so1 ov1 = (vs2, so2, ov2)" by (metis surj_pair)
  note chk = overlay_check_spec [OF rel short Cons.prems(1), of "so_relid so" k "so_cid so"]
  have act: "vfdw_overlay_active st \<longleftrightarrow> as \<noteq> []"
    using rel by (simp add: vfdw_overlay_active_def vfdw_wbuf_is_empty_def wbuf_rel_def)
  have "overlay_spec (wbuf_log st) (so_relid so) k (so_cid so) = (VFDW_OVL_PASS, None)" if "as = []"
    using that log_of_rel [OF rel] by (simp add: overlay_spec_def verdict_of_def)
  then have v: "v = overlay_spec (wbuf_log st) (so_relid so) k (so_cid so)" "overlay_tracks st as ov1"
    "so1 = so\<lparr>so_seen := (if as = [] then so_seen so else insert k (so_seen so))\<rparr>"
    using a act chk Cons.prems(1)
    by (cases "as = []"; cases "vfdw_overlay_check st (so_relid so) k (so_cid so) ov";
        simp add: vfdw_scan_apply_overlay_def vfdw_scan_mark_seen_def)+
  have "vs = v # vs2" "so' = so2" "ov' = ov2" using Cons.prems(2) a b by simp_all
  then show ?case using Cons.IH [OF v(2) b] v(1,3) by (cases "as = []") simp_all
qed auto

section \<open>The index stays valid while the buffer changes\<close>

lemma rel_unique: "wbuf_rel st as \<Longrightarrow> as = walk_addrs (nat (wb_nlive st)) (wb_heap st) (wb_head st)"
  using walk_addrs_linked [of "wb_heap st" None as "length as"] by (simp add: wbuf_rel_def)

lemma overlay_invI: "wbuf_rel st as \<Longrightarrow> length as < 2 ^ 64 \<Longrightarrow> overlay_tracks st as ov \<Longrightarrow> overlay_inv st ov"
  unfolding overlay_inv_def by blast

lemma payload_key: "payload x = payload y \<Longrightarrow> overlay_key x = overlay_key y"
  by (metis overlay_key_def payload_op_simps(1,2))

lemma overlay_inv_push:
  assumes inv: "overlay_inv st ov" and ok: "wbuf_push g r oper nest cid st = Inr st'"
    and cap: "u_max_ops (wb_unit st) < 2 ^ 31"
  shows "overlay_inv st' ov"
proof -
  obtain as where rel: "wbuf_rel st as" and tr: "overlay_tracks st as ov" using inv by (auto simp: overlay_inv_def)
  let ?a = "wb_brk st"
  note rel' = push_rel(1) [OF rel ok] and old = push_rel(2) [OF rel ok] and fr = push_frame [OF ok]
  have "int (length as) + 1 < 2 ^ 31" using fr(4) cap rel by (simp add: wbuf_rel_def)
  then have short: "length (as @ [?a]) < 2 ^ 64" by simp
  have "overlay_tracks st' (as @ [?a]) ov" unfolding overlay_tracks_def
  proof
    assume "ov_have ov"
    then obtain cs bs where as: "as = cs @ bs" and t: "ov_built_tail ov = last_of None cs"
      "ov_tab ov = index_of_ops (wb_heap st) cs" "ov_built_shrink_gen ov = wb_shrink_gen st"
      "wb_gen st = ov_built_gen ov + of_nat (length bs)" using tr by (auto simp: overlay_tracks_def)
    have "index_of_ops (wb_heap st) cs = index_of_ops (wb_heap st') cs"
      using old as by (intro index_cong payload_key) auto
    then show "\<exists>cs bs. as @ [?a] = cs @ bs \<and> ov_built_tail ov = last_of None cs \<and>
        ov_tab ov = index_of_ops (wb_heap st') cs \<and> ov_built_shrink_gen ov = wb_shrink_gen st' \<and>
        wb_gen st' = ov_built_gen ov + of_nat (length bs)"
      using as t fr(7,8) by (intro exI [of _ cs] exI [of _ "bs @ [?a]"]) simp
  qed
  then show ?thesis using rel' short by (rule overlay_invI [rotated 2])
qed

lemma overlay_inv_commit_sub:
  assumes inv: "overlay_inv st ov" and w: "wbuf_inv lvl st"
  shows "overlay_inv (wbuf_pre_commit_sub lvl st) ov"
proof -
  obtain as where rel: "wbuf_rel st as" and short: "length as < 2 ^ 64" and tr: "overlay_tracks st as ov"
    using inv by (auto simp: overlay_inv_def)
  obtain bs where b: "wbuf_rel st bs" "levels_sorted st bs" using w by (auto simp: wbuf_inv_def)
  have bs: "bs = as" using rel_unique [OF b(1)] rel_unique [OF rel] by simp
  let ?h = "\<lambda>a. if a \<in> set as \<and> op_level (wb_heap st a) \<ge> lvl
                then (wb_heap st a)\<lparr>op_level := lvl - 1\<rparr> else wb_heap st a"
  have "wbuf_promote (nat (wb_nlive st)) lvl (wb_tail st) st = st\<lparr>wb_heap := ?h\<rparr>"
    using rel promote_spec [of st as None "nat (wb_nlive st)" lvl] b(2) bs by (simp add: wbuf_rel_def)
  then have fr: "wb_heap (wbuf_pre_commit_sub lvl st) = ?h"
    "wb_gen (wbuf_pre_commit_sub lvl st) = wb_gen st" "wb_brk (wbuf_pre_commit_sub lvl st) = wb_brk st"
    "wb_shrink_gen (wbuf_pre_commit_sub lvl st) = wb_shrink_gen st"
    "wb_nlive (wbuf_pre_commit_sub lvl st) = wb_nlive st" "wb_head (wbuf_pre_commit_sub lvl st) = wb_head st"
    "wb_tail (wbuf_pre_commit_sub lvl st) = wb_tail st"
    by (simp_all add: wbuf_pre_commit_sub_def Let_def)
  have "linked ?h None as None = linked (wb_heap st) None as None" by (rule linked_cong) auto
  then have rel': "wbuf_rel (wbuf_pre_commit_sub lvl st) as" using rel by (simp add: wbuf_rel_def fr)
  have "index_of_ops ?h cs = index_of_ops (wb_heap st) cs" for cs
    by (rule index_cong) (simp add: overlay_key_def)
  then have "overlay_tracks (wbuf_pre_commit_sub lvl st) as ov" using tr by (simp add: overlay_tracks_def fr)
  then show ?thesis using rel' short by (rule overlay_invI [rotated 2])
qed

lemma overlay_inv_reset:
  assumes "wbuf_inv lvl st" and "length (wbuf_log st) < 2 ^ 64"
  shows "overlay_inv st (vfdw_overlay_reset ov)"
proof -
  obtain as where rel: "wbuf_rel st as" using assms(1) by (auto simp: wbuf_inv_def)
  have "overlay_tracks st as (vfdw_overlay_reset ov)" by (simp add: overlay_tracks_def vfdw_overlay_reset_def)
  then show ?thesis using rel assms(2) log_of_rel [OF rel] by (intro overlay_invI) auto
qed

lemma overlay_inv_frame:
  "wb_heap st' = wb_heap st \<Longrightarrow> wb_brk st' = wb_brk st \<Longrightarrow> wb_nlive st' = wb_nlive st \<Longrightarrow> wb_head st' = wb_head st \<Longrightarrow>
   wb_tail st' = wb_tail st \<Longrightarrow> wb_gen st' = wb_gen st \<Longrightarrow> wb_shrink_gen st' = wb_shrink_gen st \<Longrightarrow>
   overlay_inv st' ov = overlay_inv st ov"
  by (simp add: overlay_inv_def overlay_tracks_def wbuf_rel_def)

lemma overlay_inv_bind:
  assumes "vfdw_wbuf_bind s um us db mo mb nest i st = Inr st'"
  shows "overlay_inv st' ov = overlay_inv st ov"
  using assms
  by (intro overlay_inv_frame)
     (auto simp: vfdw_wbuf_bind_def vfdw_wbuf_context_def Let_def split: if_splits)

lemma overlay_inv_init: "overlay_inv wbuf_init ov \<longleftrightarrow> overlay_tracks wbuf_init [] ov"
  by (auto simp: overlay_inv_def wbuf_rel_def wbuf_init_def)

lemma tail_row_iff:
  "tail_row log relid curcid oper = Some (t, k) \<longleftrightarrow>
     op_relid oper = relid \<and> op_kind oper = VFDW_OP_INSERT \<and> op_key oper = k \<and>
     overlay_spec log relid k curcid = (VFDW_OVL_REPLACE, Some t)"
  by (auto simp: tail_row_def split: prod.splits VfdwOverlayVerdict.splits option.splits)

lemma tail_row_payload: "tail_row log relid curcid (payload oper) = tail_row log relid curcid oper"
  unfolding tail_row_def payload_op_simps ..

lemma tail_rows_iff:
  "Some (t, k) \<in> tail_row log relid curcid ` set log \<longleftrightarrow>
     overlay_spec log relid k curcid = (VFDW_OVL_REPLACE, Some t) \<and>
     (\<exists>oper\<in>set log. op_kind oper = VFDW_OP_INSERT \<and> op_relid oper = relid \<and> op_key oper = k)" (is "?l \<longleftrightarrow> ?r")
proof
  assume ?l
  then obtain oper where "oper \<in> set log" "tail_row log relid curcid oper = Some (t, k)" by (metis imageE)
  then show ?r unfolding tail_row_iff by blast
next
  assume ?r
  then obtain oper where "oper \<in> set log" "tail_row log relid curcid oper = Some (t, k)" unfolding tail_row_iff by blast
  then show ?l by (metis image_eqI)
qed

text \<open>
  A renaming UPDATE is indexed under its new key only, and the tail looks at INSERTs only. So, after
  a log of nothing but updates, the old key of a rename still passes the server's row through and
  the tail emits no row at all: inside the transaction the row keeps its old name.
\<close>

lemma rename_not_visible:
  assumes "overlay_inv st ov" and "\<not> so_tail so" and "\<forall>oper\<in>set (wbuf_log st). op_kind oper = VFDW_OP_UPDATE"
    and "oper \<in> set (wbuf_log st)" "op_oldkey oper = Some old" "\<forall>oper\<in>set (wbuf_log st). op_key oper \<noteq> old"
  shows "fst (vfdw_overlay_check st relid old curcid ov) = (VFDW_OVL_PASS, None) \<and>
         fst (drain_all (Suc (length (wbuf_log st))) st so ov) = []"
proof -
  obtain as where rel: "wbuf_rel st as" and short: "length as < 2 ^ 64" and tr: "overlay_tracks st as ov"
    using assms(1) by (auto simp: overlay_inv_def)
  let ?log = "wbuf_log st"
  have "find (\<lambda>oper. op_relid oper = relid \<and> op_key oper = old \<and> op_cid oper < curcid) (rev ?log) = None"
    using assms(6) by (auto simp: find_None_iff)
  then have spec: "overlay_spec ?log relid old curcid = (VFDW_OVL_PASS, None)"
    unfolding overlay_spec_def verdict_of_def by simp
  have none: "\<forall>a\<in>set as. row_at st so a = None"
  proof
    fix a assume "a \<in> set as"
    then have "payload (wb_heap st a) \<in> set ?log" using log_of_rel [OF rel] by simp
    then have "op_kind (wb_heap st a) \<noteq> VFDW_OP_INSERT" using assms(3) by force
    then show "row_at st so a = None" by (simp add: row_at_def tail_row_def)
  qed
  have "dedup_rows S (map (row_at st so) xs) = []" if "\<forall>a\<in>set xs. row_at st so a = None" for S xs
    using that by (induction xs) (auto simp: unseen_def)
  then have "fst (drain_all (Suc (length ?log)) st so ov) = []"
    using tail_drain_spec [OF rel short assms(2) tr, of "Suc (length ?log)"] log_of_rel [OF rel] none by simp
  then show ?thesis using overlay_check_spec(1) [OF rel short tr] spec by simp
qed

section \<open>Properties\<close>

lemma sample_overlay_inv: "overlay_inv sample_buffer overlay_init"
proof -
  obtain as where rel: "wbuf_rel sample_buffer as" using sample_buffer_inv by (auto simp: wbuf_inv_def)
  have "length as = 1" using rel by (simp add: wbuf_rel_def wbuf_exec)
  then show ?thesis using rel by (intro overlay_invI) (auto simp: overlay_tracks_def overlay_init_def)
qed

lemmas overlay_exec = vfdw_overlay_check_def vfdw_overlay_build_def vfdw_overlay_record_def overlay_key_def
  vfdw_overlay_reset_def overlay_init_def vfdw_wbuf_is_empty_def vfdw_overlay_active_def

text \<open>C16. The cached overlay index answers like the log. Whatever path the index took (untouched,
  extended by the appended suffix, or rebuilt), the verdict for a key is that of the newest buffered
  operation on (relation, key) issued by an earlier command: hidden after a DELETE, replaced by the
  newest row after an INSERT or UPDATE, passed through otherwise; and asking leaves an index that
  stays valid.\<close>

theorem overlay_answers_from_log:
  assumes "overlay_inv st ov" and "vfdw_overlay_check st relid key curcid ov = (v, ov')"
  shows "v = overlay_spec (wbuf_log st) relid key curcid \<and> overlay_inv st ov'"
proof -
  obtain as where rel: "wbuf_rel st as" and short: "length as < 2 ^ 64" and tr: "overlay_tracks st as ov"
    using assms(1) by (auto simp: overlay_inv_def)
  show ?thesis using overlay_check_spec [OF rel short tr, of relid key curcid] assms(2) overlay_invI [OF rel short]
    by simp
qed

theorem overlay_answers_from_log_witness:
  "fst (vfdw_overlay_check sample_buffer 0 ''user:1'' 1 overlay_init) = (VFDW_OVL_PASS, None) \<and>
   overlay_inv sample_buffer (snd (vfdw_overlay_check sample_buffer 0 ''user:1'' 1 overlay_init))"
proof -
  have e: "vfdw_overlay_check sample_buffer 0 ''user:1'' 1 overlay_init =
      (fst (vfdw_overlay_check sample_buffer 0 ''user:1'' 1 overlay_init),
       snd (vfdw_overlay_check sample_buffer 0 ''user:1'' 1 overlay_init))" by simp
  have "overlay_spec (wbuf_log sample_buffer) 0 ''user:1'' 1 = (VFDW_OVL_PASS, None)"
    by (simp add: wbuf_exec wbuf_log_def overlay_spec_def verdict_of_def payload_def zero_op_def)
  then show ?thesis using overlay_answers_from_log [OF sample_overlay_inv e] by simp
qed


definition scan_buffer :: wbuf where
  "scan_buffer = projr (wbuf_push 100 100 (zero_op\<lparr>op_key := ''k'', op_newtup := Some 7\<rparr>) 1 3 sample_buffer)"

definition fresh_scan :: "Oid \<Rightarrow> CommandId \<Rightarrow> scan_overlay" where
  "fresh_scan relid cid = \<lparr>so_relid = relid, so_cid = cid, so_seen = {}, so_tail = False,
     so_iter = \<lparr>it_relid = 0, it_curcid = 0, it_generation = 0, it_next = None\<rparr>\<rparr>"

lemma scan_buffer_ok:
  "wbuf_push 100 100 (zero_op\<lparr>op_key := ''k'', op_newtup := Some 7\<rparr>) 1 3 sample_buffer = Inr scan_buffer"
proof -
  have "\<not> isl (wbuf_push 100 100 (zero_op\<lparr>op_key := ''k'', op_newtup := Some 7\<rparr>) 1 3 sample_buffer)"
    by (simp add: wbuf_exec)
  then show ?thesis unfolding scan_buffer_def
    by (cases "wbuf_push 100 100 (zero_op\<lparr>op_key := ''k'', op_newtup := Some 7\<rparr>) 1 3 sample_buffer") simp_all
qed


end
