(* ===== verification/Options.thy ===== *)
theory Options
  imports Prelude
begin

text \<open>
  The option table and everything that reads it: \<open>src/vfdw_option.c\<close>, and the validator
  \<open>valkey_fdw_validator\<close> with its two cross-option checks from \<open>src/valkey_fdw.c\<close>.

  An option list is a list of names and texts. \<open>strtol\<close> is modelled (base 10, saturating at the width
  of a \<open>long\<close>); PostgreSQL's \<open>parse_bool\<close>, \<open>is_absolute_path\<close> and \<open>superuser()\<close> are parameters. The
  one-line summary of each option is not part of the table here.
\<close>

section \<open>The table\<close>

datatype VfdwOptKind = VFDW_OPT_STRING | VFDW_OPT_INT | VFDW_OPT_BOOL | VFDW_OPT_ENUM | VFDW_OPT_PATH

datatype VfdwOptPriv = VFDW_OPTPRIV_NONE | VFDW_OPTPRIV_SUPERUSER | VFDW_OPTPRIV_SUPERUSER_TO_DISABLE

datatype opt_context =
  ForeignServerRelationId | UserMappingRelationId | ForeignTableRelationId | AttributeRelationId | OtherRelationId

record VfdwOptionDef =
  od_name :: string
  od_context :: opt_context
  od_kind :: VfdwOptKind
  od_minval :: int
  od_maxval :: int
  od_values :: "string list"
  od_defval :: "string option"
  od_sensitive :: bool
  od_priv :: VfdwOptPriv

definition option_def ::
  "string \<Rightarrow> opt_context \<Rightarrow> VfdwOptKind \<Rightarrow> int \<Rightarrow> int \<Rightarrow> string list \<Rightarrow> string option \<Rightarrow> bool \<Rightarrow> VfdwOptPriv \<Rightarrow> VfdwOptionDef" where
  "option_def n c k lo hi vals dv s p =
     \<lparr>od_name = n, od_context = c, od_kind = k, od_minval = lo, od_maxval = hi, od_values = vals, od_defval = dv,
      od_sensitive = s, od_priv = p\<rparr>"

definition vfdw_tabletype_values :: "string list" where
  "vfdw_tabletype_values = [''string'', ''hash'', ''list'', ''set'', ''zset'', ''vector'']"

definition vfdw_tlsverify_values :: "string list" where
  "vfdw_tlsverify_values = [''full'', ''ca'', ''none'']"

definition vfdw_indextype_values :: "string list" where
  "vfdw_indextype_values = [''tag'', ''numeric'', ''vector'']"

definition vfdw_options :: "VfdwOptionDef list" where
  "vfdw_options =
    [option_def ''host'' ForeignServerRelationId VFDW_OPT_STRING 0 0 [] (Some ''127.0.0.1'') False VFDW_OPTPRIV_NONE,
     option_def ''port'' ForeignServerRelationId VFDW_OPT_INT 1 65535 [] (Some ''6379'') False VFDW_OPTPRIV_NONE,
     option_def ''unix_socket_path'' ForeignServerRelationId VFDW_OPT_STRING 0 0 [] None False VFDW_OPTPRIV_NONE,
     option_def ''cluster'' ForeignServerRelationId VFDW_OPT_BOOL 0 0 [] (Some ''false'') False VFDW_OPTPRIV_NONE,
     option_def ''prefer_replica'' ForeignServerRelationId VFDW_OPT_BOOL 0 0 [] (Some ''false'') False VFDW_OPTPRIV_NONE,
     option_def ''tls'' ForeignServerRelationId VFDW_OPT_BOOL 0 0 [] (Some ''false'') False VFDW_OPTPRIV_NONE,
     option_def ''tls_ca_file'' ForeignServerRelationId VFDW_OPT_PATH 0 0 [] None False VFDW_OPTPRIV_SUPERUSER,
     option_def ''tls_cert_file'' ForeignServerRelationId VFDW_OPT_PATH 0 0 [] None False VFDW_OPTPRIV_SUPERUSER,
     option_def ''tls_key_file'' ForeignServerRelationId VFDW_OPT_PATH 0 0 [] None True VFDW_OPTPRIV_SUPERUSER,
     option_def ''tls_sni'' ForeignServerRelationId VFDW_OPT_STRING 0 0 [] None False VFDW_OPTPRIV_NONE,
     option_def ''tls_verify'' ForeignServerRelationId VFDW_OPT_ENUM 0 0 vfdw_tlsverify_values (Some ''full'') False VFDW_OPTPRIV_NONE,
     option_def ''connect_timeout_ms'' ForeignServerRelationId VFDW_OPT_INT 1 3600000 [] (Some ''5000'') False VFDW_OPTPRIV_NONE,
     option_def ''command_timeout_ms'' ForeignServerRelationId VFDW_OPT_INT 1 3600000 [] (Some ''30000'') False VFDW_OPTPRIV_NONE,
     option_def ''pipeline_batch'' ForeignServerRelationId VFDW_OPT_INT 1 100000 [] (Some ''256'') False VFDW_OPTPRIV_NONE,
     option_def ''scan_count'' ForeignServerRelationId VFDW_OPT_INT 1 1000000 [] (Some ''1000'') False VFDW_OPTPRIV_NONE,
     option_def ''max_reply_elements'' ForeignServerRelationId VFDW_OPT_INT 1 1000000000 [] (Some ''8388608'') False VFDW_OPTPRIV_NONE,
     option_def ''reader_buffer_bytes'' ForeignServerRelationId VFDW_OPT_INT 1024 1073741824 [] (Some ''65536'') False VFDW_OPTPRIV_NONE,
     option_def ''write_max_ops'' ForeignServerRelationId VFDW_OPT_INT 1 1000000 [] (Some ''10000'') False VFDW_OPTPRIV_NONE,
     option_def ''write_max_bytes'' ForeignServerRelationId VFDW_OPT_INT 65536 1073741824 [] (Some ''67108864'') False VFDW_OPTPRIV_NONE,
     option_def ''write_retry_count'' ForeignServerRelationId VFDW_OPT_INT 0 10 [] (Some ''3'') False VFDW_OPTPRIV_NONE,
     option_def ''username'' UserMappingRelationId VFDW_OPT_STRING 0 0 [] None False VFDW_OPTPRIV_NONE,
     option_def ''password'' UserMappingRelationId VFDW_OPT_STRING 0 0 [] None True VFDW_OPTPRIV_NONE,
     option_def ''password_required'' UserMappingRelationId VFDW_OPT_BOOL 0 0 [] (Some ''true'') False VFDW_OPTPRIV_SUPERUSER_TO_DISABLE,
     option_def ''database'' ForeignTableRelationId VFDW_OPT_INT 0 15 [] (Some ''0'') False VFDW_OPTPRIV_NONE,
     option_def ''tabletype'' ForeignTableRelationId VFDW_OPT_ENUM 0 0 vfdw_tabletype_values (Some ''string'') False VFDW_OPTPRIV_NONE,
     option_def ''keyprefix'' ForeignTableRelationId VFDW_OPT_STRING 0 0 [] None False VFDW_OPTPRIV_NONE,
     option_def ''keyset'' ForeignTableRelationId VFDW_OPT_STRING 0 0 [] None False VFDW_OPTPRIV_NONE,
     option_def ''singleton_key'' ForeignTableRelationId VFDW_OPT_STRING 0 0 [] None False VFDW_OPTPRIV_NONE,
     option_def ''search_index'' ForeignTableRelationId VFDW_OPT_STRING 0 0 [] None False VFDW_OPTPRIV_NONE,
     option_def ''legacy_value'' ForeignTableRelationId VFDW_OPT_BOOL 0 0 [] (Some ''false'') False VFDW_OPTPRIV_NONE,
     option_def ''readonly'' ForeignTableRelationId VFDW_OPT_BOOL 0 0 [] (Some ''false'') False VFDW_OPTPRIV_NONE,
     option_def ''key'' AttributeRelationId VFDW_OPT_BOOL 0 0 [] (Some ''false'') False VFDW_OPTPRIV_NONE,
     option_def ''field'' AttributeRelationId VFDW_OPT_STRING 0 0 [] None False VFDW_OPTPRIV_NONE,
     option_def ''member'' AttributeRelationId VFDW_OPT_BOOL 0 0 [] (Some ''false'') False VFDW_OPTPRIV_NONE,
     option_def ''score'' AttributeRelationId VFDW_OPT_BOOL 0 0 [] (Some ''false'') False VFDW_OPTPRIV_NONE,
     option_def ''ttl'' AttributeRelationId VFDW_OPT_BOOL 0 0 [] (Some ''false'') False VFDW_OPTPRIV_NONE,
     option_def ''position'' AttributeRelationId VFDW_OPT_BOOL 0 0 [] (Some ''false'') False VFDW_OPTPRIV_NONE,
     option_def ''distance'' AttributeRelationId VFDW_OPT_BOOL 0 0 [] (Some ''false'') False VFDW_OPTPRIV_NONE,
     option_def ''index_type'' AttributeRelationId VFDW_OPT_ENUM 0 0 vfdw_indextype_values None False VFDW_OPTPRIV_NONE]"

definition vfdw_find_option :: "string \<Rightarrow> opt_context \<Rightarrow> VfdwOptionDef option" where
  "vfdw_find_option name context = find (\<lambda>def. od_context def = context \<and> od_name def = name) vfdw_options"

section \<open>Parsing one value\<close>

record opt_env =
  oe_parse_bool :: "string \<Rightarrow> bool option"
  oe_is_absolute_path :: "string \<Rightarrow> bool"
  oe_superuser :: bool

definition vfdw_reject :: "VfdwOptionDef \<Rightarrow> 'a result" where
  "vfdw_reject def = raise ERRCODE_INVALID_PARAMETER_VALUE (''invalid value for option '' @ od_name def)"

text \<open>\<open>strtol(s, &endptr, 10)\<close>: the value, the rest of the text, and whether \<open>errno\<close> is \<open>ERANGE\<close>. When
  there is no digit nothing is converted and the rest is the whole text.\<close>

definition strtol :: "string \<Rightarrow> int \<times> string \<times> bool" where
  "strtol s =
     (let s1 = dropWhile isspace s;
          neg = s1 \<noteq> [] \<and> hd s1 = CHR ''-'';
          s2 = (if s1 \<noteq> [] \<and> (hd s1 = CHR ''-'' \<or> hd s1 = CHR ''+'') then tl s1 else s1);
          ds = takeWhile is_digit s2;
          v = (if neg then - int (dec_val ds) else int (dec_val ds))
      in if ds = [] then (0, s, False)
         else if v < - (2 ^ 63) then (- (2 ^ 63), dropWhile is_digit s2, True)
         else if v > 2 ^ 63 - 1 then (2 ^ 63 - 1, dropWhile is_digit s2, True)
         else (v, dropWhile is_digit s2, False))"

definition vfdw_parse_int :: "VfdwOptionDef \<Rightarrow> string \<Rightarrow> int result" where
  "vfdw_parse_int def value =
     (if value = [] then vfdw_reject def
      else case strtol value of (v, endptr, erange) \<Rightarrow>
        if dropWhile isspace endptr \<noteq> [] then vfdw_reject def
        else if erange \<or> v < od_minval def \<or> v > od_maxval def then vfdw_reject def
        else Inr v)"

definition vfdw_parse_bool :: "opt_env \<Rightarrow> VfdwOptionDef \<Rightarrow> string \<Rightarrow> bool result" where
  "vfdw_parse_bool env def value = (case oe_parse_bool env value of None \<Rightarrow> vfdw_reject def | Some b \<Rightarrow> Inr b)"

fun enum_loop :: "string list \<Rightarrow> string \<Rightarrow> nat \<Rightarrow> nat option" where
  "enum_loop [] value i = None"
| "enum_loop (v # vs) value i = (if v = value then Some i else enum_loop vs value (i + 1))"

definition vfdw_parse_enum :: "VfdwOptionDef \<Rightarrow> string \<Rightarrow> nat result" where
  "vfdw_parse_enum def value = (case enum_loop (od_values def) value 0 of None \<Rightarrow> vfdw_reject def | Some i \<Rightarrow> Inr i)"

definition vfdw_parse_path :: "opt_env \<Rightarrow> VfdwOptionDef \<Rightarrow> string \<Rightarrow> string result" where
  "vfdw_parse_path env def value =
     (if value = [] then vfdw_reject def
      else if \<not> oe_is_absolute_path env value then vfdw_reject def
      else Inr value)"

section \<open>Validation\<close>

definition vfdw_check_option_priv :: "opt_env \<Rightarrow> VfdwOptionDef \<Rightarrow> string \<Rightarrow> unit result" where
  "vfdw_check_option_priv env def value =
     (case od_priv def of
        VFDW_OPTPRIV_NONE \<Rightarrow> Inr ()
      | VFDW_OPTPRIV_SUPERUSER \<Rightarrow>
          if oe_superuser env then Inr ()
          else raise ERRCODE_INSUFFICIENT_PRIVILEGE (''permission denied to set option '' @ od_name def)
      | VFDW_OPTPRIV_SUPERUSER_TO_DISABLE \<Rightarrow>
          result_bind (vfdw_parse_bool env def value) (\<lambda>b.
            if b \<or> oe_superuser env then Inr ()
            else raise ERRCODE_INSUFFICIENT_PRIVILEGE (''permission denied to turn off option '' @ od_name def)))"

definition vfdw_validate_option :: "opt_env \<Rightarrow> VfdwOptionDef \<Rightarrow> string \<Rightarrow> unit result" where
  "vfdw_validate_option env def value =
     result_bind
       (case od_kind def of
          VFDW_OPT_STRING \<Rightarrow> Inr ()
        | VFDW_OPT_INT \<Rightarrow> result_bind (vfdw_parse_int def value) (\<lambda>_. Inr ())
        | VFDW_OPT_BOOL \<Rightarrow> result_bind (vfdw_parse_bool env def value) (\<lambda>_. Inr ())
        | VFDW_OPT_ENUM \<Rightarrow> result_bind (vfdw_parse_enum def value) (\<lambda>_. Inr ())
        | VFDW_OPT_PATH \<Rightarrow> result_bind (vfdw_parse_path env def value) (\<lambda>_. Inr ()))
       (\<lambda>_. vfdw_check_option_priv env def value)"

type_synonym options = "(string \<times> string) list"

definition vfdw_check_key_options :: "options \<Rightarrow> unit result" where
  "vfdw_check_key_options options =
     (let count = length (filter (\<lambda>(name, _). name \<in> set [''singleton_key'', ''keyprefix'', ''keyset'']) options)
      in if count > 1 then raise ERRCODE_INVALID_PARAMETER_VALUE ''a table may name only one key-discovery option''
         else Inr ())"

text \<open>\<open>defGetBoolean\<close> on an option the validator has already read as a boolean is \<open>parse_bool\<close>.\<close>

definition shape_step :: "opt_env \<Rightarrow> string option \<times> bool \<times> bool \<Rightarrow> string \<times> string \<Rightarrow> string option \<times> bool \<times> bool" where
  "shape_step env acc opt =
     (case acc of (tabletype, legacy, indexed) \<Rightarrow> case opt of (name, value) \<Rightarrow>
        if name = ''tabletype'' then (Some value, legacy, indexed)
        else if name = ''legacy_value'' then (tabletype, oe_parse_bool env value = Some True, indexed)
        else if name = ''search_index'' then (tabletype, legacy, True)
        else (tabletype, legacy, indexed))"

definition vfdw_check_shape_options :: "opt_env \<Rightarrow> options \<Rightarrow> unit result" where
  "vfdw_check_shape_options env options =
     (case foldl (shape_step env) (None, False, False) options of (tabletype, legacy, indexed) \<Rightarrow>
        if tabletype = Some ''vector'' \<and> \<not> indexed
        then raise ERRCODE_INVALID_PARAMETER_VALUE ''tabletype vector requires the search_index option''
        else if legacy \<and> tabletype = Some ''string''
        then raise ERRCODE_INVALID_PARAMETER_VALUE ''legacy_value cannot be combined with tabletype string''
        else Inr ())"

fun validator_loop :: "opt_env \<Rightarrow> opt_context \<Rightarrow> options \<Rightarrow> string list \<Rightarrow> unit result" where
  "validator_loop env context [] seen = Inr ()"
| "validator_loop env context ((name, value) # rest) seen =
     (case vfdw_find_option name context of
        None \<Rightarrow> raise ERRCODE_FDW_INVALID_OPTION_NAME (''invalid option '' @ name)
      | Some odef \<Rightarrow>
          if name \<in> set seen then raise ERRCODE_SYNTAX_ERROR (''option '' @ name @ '' specified more than once'')
          else result_bind (vfdw_validate_option env odef value) (\<lambda>_. validator_loop env context rest (seen @ [name])))"

definition valkey_fdw_validator :: "opt_env \<Rightarrow> opt_context \<Rightarrow> options \<Rightarrow> unit result" where
  "valkey_fdw_validator env context options =
     result_bind (validator_loop env context options []) (\<lambda>_.
       if context = ForeignTableRelationId
       then result_bind (vfdw_check_key_options options) (\<lambda>_. vfdw_check_shape_options env options)
       else Inr ())"

section \<open>Reading the options of a server and of a user mapping\<close>

record VfdwServerOptions =
  so_host :: bytes
  so_port :: int
  so_unix_socket_path :: "bytes option"
  so_cluster :: bool
  so_prefer_replica :: bool
  so_tls :: bool
  so_tls_ca_file :: "bytes option"
  so_tls_cert_file :: "bytes option"
  so_tls_key_file :: "bytes option"
  so_tls_sni :: "bytes option"
  so_tls_verify :: nat
  so_connect_timeout_ms :: int
  so_command_timeout_ms :: int
  so_pipeline_batch :: int
  so_scan_count :: int
  so_max_reply_elements :: int
  so_reader_buffer_bytes :: int
  so_write_max_ops :: int
  so_write_max_bytes :: int
  so_write_retry_count :: int

record VfdwUserOptions =
  uo_username :: "bytes option"
  uo_password :: "bytes option"
  uo_password_required :: bool

definition vfdw_default :: "string \<Rightarrow> opt_context \<Rightarrow> string option" where
  "vfdw_default name context = Option.bind (vfdw_find_option name context) od_defval"

definition vfdw_default_int :: "string \<Rightarrow> int result" where
  "vfdw_default_int name =
     (let def = the (vfdw_find_option name ForeignServerRelationId) in vfdw_parse_int def (the (od_defval def)))"

definition vfdw_server_defaults :: "VfdwServerOptions result" where
  "vfdw_server_defaults =
     result_bind (vfdw_default_int ''port'') (\<lambda>port.
     result_bind (vfdw_default_int ''connect_timeout_ms'') (\<lambda>connect_timeout_ms.
     result_bind (vfdw_default_int ''command_timeout_ms'') (\<lambda>command_timeout_ms.
     result_bind (vfdw_default_int ''pipeline_batch'') (\<lambda>pipeline_batch.
     result_bind (vfdw_default_int ''scan_count'') (\<lambda>scan_count.
     result_bind (vfdw_default_int ''max_reply_elements'') (\<lambda>max_reply_elements.
     result_bind (vfdw_default_int ''reader_buffer_bytes'') (\<lambda>reader_buffer_bytes.
     result_bind (vfdw_default_int ''write_max_ops'') (\<lambda>write_max_ops.
     result_bind (vfdw_default_int ''write_retry_count'') (\<lambda>write_retry_count.
     result_bind (vfdw_default_int ''write_max_bytes'') (\<lambda>write_max_bytes.
     Inr \<lparr>so_host = the (vfdw_default ''host'' ForeignServerRelationId), so_port = port, so_unix_socket_path = None,
       so_cluster = False, so_prefer_replica = False, so_tls = False, so_tls_ca_file = None, so_tls_cert_file = None,
       so_tls_key_file = None, so_tls_sni = None, so_tls_verify = 0, so_connect_timeout_ms = connect_timeout_ms,
       so_command_timeout_ms = command_timeout_ms, so_pipeline_batch = pipeline_batch, so_scan_count = scan_count,
       so_max_reply_elements = max_reply_elements, so_reader_buffer_bytes = reader_buffer_bytes,
       so_write_max_ops = write_max_ops, so_write_max_bytes = write_max_bytes, so_write_retry_count = write_retry_count\<rparr>))))))))))"

definition vfdw_apply_server_option ::
  "opt_env \<Rightarrow> VfdwOptionDef \<Rightarrow> string \<Rightarrow> VfdwServerOptions \<Rightarrow> VfdwServerOptions result" where
  "vfdw_apply_server_option env def value out =
     (let name = od_name def;
          int = (\<lambda>upd. result_bind (vfdw_parse_int def value) (\<lambda>v. Inr (upd v)));
          flag = (\<lambda>upd. result_bind (vfdw_parse_bool env def value) (\<lambda>b. Inr (upd b)));
          path = (\<lambda>upd. result_bind (vfdw_parse_path env def value) (\<lambda>p. Inr (upd p)))
      in if name = ''host'' then Inr (out\<lparr>so_host := value\<rparr>)
      else if name = ''port'' then int (\<lambda>v. out\<lparr>so_port := v\<rparr>)
      else if name = ''unix_socket_path'' then Inr (out\<lparr>so_unix_socket_path := Some value\<rparr>)
      else if name = ''cluster'' then flag (\<lambda>b. out\<lparr>so_cluster := b\<rparr>)
      else if name = ''prefer_replica'' then flag (\<lambda>b. out\<lparr>so_prefer_replica := b\<rparr>)
      else if name = ''tls'' then flag (\<lambda>b. out\<lparr>so_tls := b\<rparr>)
      else if name = ''tls_ca_file'' then path (\<lambda>p. out\<lparr>so_tls_ca_file := Some p\<rparr>)
      else if name = ''tls_cert_file'' then path (\<lambda>p. out\<lparr>so_tls_cert_file := Some p\<rparr>)
      else if name = ''tls_key_file'' then path (\<lambda>p. out\<lparr>so_tls_key_file := Some p\<rparr>)
      else if name = ''tls_sni'' then Inr (out\<lparr>so_tls_sni := Some value\<rparr>)
      else if name = ''tls_verify'' then result_bind (vfdw_parse_enum def value) (\<lambda>i. Inr (out\<lparr>so_tls_verify := i\<rparr>))
      else if name = ''connect_timeout_ms'' then int (\<lambda>v. out\<lparr>so_connect_timeout_ms := v\<rparr>)
      else if name = ''command_timeout_ms'' then int (\<lambda>v. out\<lparr>so_command_timeout_ms := v\<rparr>)
      else if name = ''pipeline_batch'' then int (\<lambda>v. out\<lparr>so_pipeline_batch := v\<rparr>)
      else if name = ''scan_count'' then int (\<lambda>v. out\<lparr>so_scan_count := v\<rparr>)
      else if name = ''max_reply_elements'' then int (\<lambda>v. out\<lparr>so_max_reply_elements := v\<rparr>)
      else if name = ''reader_buffer_bytes'' then int (\<lambda>v. out\<lparr>so_reader_buffer_bytes := v\<rparr>)
      else if name = ''write_max_ops'' then int (\<lambda>v. out\<lparr>so_write_max_ops := v\<rparr>)
      else if name = ''write_retry_count'' then int (\<lambda>v. out\<lparr>so_write_retry_count := v\<rparr>)
      else if name = ''write_max_bytes'' then int (\<lambda>v. out\<lparr>so_write_max_bytes := v\<rparr>)
      else Inr out)"

definition server_option_step :: "opt_env \<Rightarrow> string \<times> string \<Rightarrow> VfdwServerOptions \<Rightarrow> VfdwServerOptions result" where
  "server_option_step env opt out =
     (case vfdw_find_option (fst opt) ForeignServerRelationId of
        None \<Rightarrow> Inr out
      | Some def \<Rightarrow> vfdw_apply_server_option env def (snd opt) out)"

definition vfdw_read_server_options :: "opt_env \<Rightarrow> options \<Rightarrow> VfdwServerOptions result" where
  "vfdw_read_server_options env options =
     result_bind vfdw_server_defaults (result_fold (server_option_step env) options)"

definition user_option_step :: "opt_env \<Rightarrow> string \<times> string \<Rightarrow> VfdwUserOptions \<Rightarrow> VfdwUserOptions result" where
  "user_option_step env opt out =
     (case vfdw_find_option (fst opt) UserMappingRelationId of
        None \<Rightarrow> Inr out
      | Some def \<Rightarrow>
          if od_name def = ''username'' then Inr (out\<lparr>uo_username := Some (snd opt)\<rparr>)
          else if od_name def = ''password'' then Inr (out\<lparr>uo_password := Some (snd opt)\<rparr>)
          else if od_name def = ''password_required''
          then result_bind (vfdw_parse_bool env def (snd opt)) (\<lambda>b. Inr (out\<lparr>uo_password_required := b\<rparr>))
          else Inr out)"

definition vfdw_read_user_options :: "opt_env \<Rightarrow> options \<Rightarrow> VfdwUserOptions result" where
  "vfdw_read_user_options env options =
     result_fold (user_option_step env) options \<lparr>uo_username = None, uo_password = None, uo_password_required = True\<rparr>"

section \<open>Lemmas\<close>

lemma find_option_name: "vfdw_find_option name context = Some def \<Longrightarrow> od_name def = name \<and> od_context def = context"
  by (auto simp: vfdw_find_option_def find_Some_iff)

lemma parse_int_range: "vfdw_parse_int def value = Inr v \<Longrightarrow> od_minval def \<le> v \<and> v \<le> od_maxval def"
  by (auto simp: vfdw_parse_int_def vfdw_reject_def split: if_splits prod.splits)

text \<open>The range the table gives a server option.\<close>

definition server_range :: "string \<Rightarrow> (int \<times> int) option" where
  "server_range name = map_option (\<lambda>def. (od_minval def, od_maxval def)) (vfdw_find_option name ForeignServerRelationId)"

definition in_range :: "string \<Rightarrow> int \<Rightarrow> bool" where
  "in_range name v \<longleftrightarrow> (case server_range name of None \<Rightarrow> False | Some (lo, hi) \<Rightarrow> lo \<le> v \<and> v \<le> hi)"

definition server_options_ok :: "VfdwServerOptions \<Rightarrow> bool" where
  "server_options_ok out \<longleftrightarrow>
     in_range ''port'' (so_port out) \<and>
     in_range ''connect_timeout_ms'' (so_connect_timeout_ms out) \<and>
     in_range ''command_timeout_ms'' (so_command_timeout_ms out) \<and>
     in_range ''pipeline_batch'' (so_pipeline_batch out) \<and>
     in_range ''scan_count'' (so_scan_count out) \<and>
     in_range ''max_reply_elements'' (so_max_reply_elements out) \<and>
     in_range ''reader_buffer_bytes'' (so_reader_buffer_bytes out) \<and>
     in_range ''write_max_ops'' (so_write_max_ops out) \<and>
     in_range ''write_retry_count'' (so_write_retry_count out) \<and>
     in_range ''write_max_bytes'' (so_write_max_bytes out)"

lemma parse_int_in_range:
  "vfdw_find_option name ForeignServerRelationId = Some def \<Longrightarrow> vfdw_parse_int def value = Inr v \<Longrightarrow> in_range name v"
  using parse_int_range by (fastforce simp: in_range_def server_range_def)

lemma find_self: "vfdw_find_option name context = Some def \<Longrightarrow> vfdw_find_option (od_name def) context = Some def"
  using find_option_name by fastforce

lemma apply_keeps_ok:
  assumes "vfdw_find_option name ForeignServerRelationId = Some def" and "vfdw_apply_server_option env def value out = Inr out'"
    and "server_options_ok out"
  shows "server_options_ok out'"
proof -
  have n: "od_name def = name" using find_option_name [OF assms(1)] by simp
  have r: "vfdw_parse_int def value = Inr v \<Longrightarrow> in_range name v" for v by (rule parse_int_in_range [OF assms(1)])
  show ?thesis using assms(2,3) unfolding vfdw_apply_server_option_def Let_def n server_options_ok_def
    by (auto simp: result_bind_Inr_iff split: if_splits dest: r)
qed

lemma server_ranges:
  "server_range ''port'' = Some (1, 65535)"
  "server_range ''connect_timeout_ms'' = Some (1, 3600000)"
  "server_range ''command_timeout_ms'' = Some (1, 3600000)"
  "server_range ''pipeline_batch'' = Some (1, 100000)"
  "server_range ''scan_count'' = Some (1, 1000000)"
  "server_range ''max_reply_elements'' = Some (1, 1000000000)"
  "server_range ''reader_buffer_bytes'' = Some (1024, 1073741824)"
  "server_range ''write_max_ops'' = Some (1, 1000000)"
  "server_range ''write_retry_count'' = Some (0, 10)"
  "server_range ''write_max_bytes'' = Some (65536, 1073741824)"
  by code_simp+

lemma range_table:
  "in_range ''port'' v = (1 \<le> v \<and> v \<le> 65535)"
  "in_range ''connect_timeout_ms'' v = (1 \<le> v \<and> v \<le> 3600000)"
  "in_range ''command_timeout_ms'' v = (1 \<le> v \<and> v \<le> 3600000)"
  "in_range ''pipeline_batch'' v = (1 \<le> v \<and> v \<le> 100000)"
  "in_range ''scan_count'' v = (1 \<le> v \<and> v \<le> 1000000)"
  "in_range ''max_reply_elements'' v = (1 \<le> v \<and> v \<le> 1000000000)"
  "in_range ''reader_buffer_bytes'' v = (1024 \<le> v \<and> v \<le> 1073741824)"
  "in_range ''write_max_ops'' v = (1 \<le> v \<and> v \<le> 1000000)"
  "in_range ''write_retry_count'' v = (0 \<le> v \<and> v \<le> 10)"
  "in_range ''write_max_bytes'' v = (65536 \<le> v \<and> v \<le> 1073741824)"
  by (simp_all only: in_range_def server_ranges option.case prod.case)

lemma parse_digits:
  assumes "ds \<noteq> []" and "list_all is_digit ds" and "od_minval def \<le> int (dec_val ds)" and "int (dec_val ds) \<le> od_maxval def"
    and "od_maxval def < 2 ^ 63"
  shows "vfdw_parse_int def ds = Inr (int (dec_val ds))"
proof -
  have tw: "takeWhile is_digit ds = ds" "dropWhile is_digit ds = []" using assms(2) by (simp_all add: list_all_iff)
  have h: "is_digit (hd ds)" using assms(1,2) by (cases ds) auto
  then have sp: "dropWhile isspace ds = ds" and hd: "hd ds \<noteq> CHR ''-''" "hd ds \<noteq> CHR ''+''"
    using assms(1) by (cases ds; auto simp: is_digit_def)+
  have "strtol ds = (int (dec_val ds), [], False)"
    unfolding strtol_def Let_def sp using assms(1,4,5) by (simp add: tw hd)
  then show ?thesis using assms(1,3,4) by (simp add: vfdw_parse_int_def)
qed

lemma default_in_range:
  assumes "vfdw_default name ForeignServerRelationId = Some ds" and "server_range name = Some (lo, hi)" and "ds \<noteq> []"
    and "list_all is_digit ds" and "lo \<le> int (dec_val ds)" and "int (dec_val ds) \<le> hi" and "hi < 2 ^ 63"
  shows "\<exists>v. vfdw_default_int name = Inr v \<and> in_range name v"
proof -
  obtain def where d: "vfdw_find_option name ForeignServerRelationId = Some def" "od_minval def = lo" "od_maxval def = hi"
    "od_defval def = Some ds" using assms(1,2) by (auto simp: server_range_def vfdw_default_def)
  then have "vfdw_default_int name = Inr (int (dec_val ds))" using parse_digits [OF assms(3,4)] assms(5-7)
    by (simp add: vfdw_default_int_def)
  then show ?thesis using assms(2,5,6) by (simp add: in_range_def)
qed

lemma default_texts:
  "vfdw_default ''port'' ForeignServerRelationId = Some ''6379''"
  "vfdw_default ''connect_timeout_ms'' ForeignServerRelationId = Some ''5000''"
  "vfdw_default ''command_timeout_ms'' ForeignServerRelationId = Some ''30000''"
  "vfdw_default ''pipeline_batch'' ForeignServerRelationId = Some ''256''"
  "vfdw_default ''scan_count'' ForeignServerRelationId = Some ''1000''"
  "vfdw_default ''max_reply_elements'' ForeignServerRelationId = Some ''8388608''"
  "vfdw_default ''reader_buffer_bytes'' ForeignServerRelationId = Some ''65536''"
  "vfdw_default ''write_max_ops'' ForeignServerRelationId = Some ''10000''"
  "vfdw_default ''write_retry_count'' ForeignServerRelationId = Some ''3''"
  "vfdw_default ''write_max_bytes'' ForeignServerRelationId = Some ''67108864''"
  by code_simp+

lemma default_ints:
  "\<exists>v. vfdw_default_int ''port'' = Inr v \<and> in_range ''port'' v"
  "\<exists>v. vfdw_default_int ''connect_timeout_ms'' = Inr v \<and> in_range ''connect_timeout_ms'' v"
  "\<exists>v. vfdw_default_int ''command_timeout_ms'' = Inr v \<and> in_range ''command_timeout_ms'' v"
  "\<exists>v. vfdw_default_int ''pipeline_batch'' = Inr v \<and> in_range ''pipeline_batch'' v"
  "\<exists>v. vfdw_default_int ''scan_count'' = Inr v \<and> in_range ''scan_count'' v"
  "\<exists>v. vfdw_default_int ''max_reply_elements'' = Inr v \<and> in_range ''max_reply_elements'' v"
  "\<exists>v. vfdw_default_int ''reader_buffer_bytes'' = Inr v \<and> in_range ''reader_buffer_bytes'' v"
  "\<exists>v. vfdw_default_int ''write_max_ops'' = Inr v \<and> in_range ''write_max_ops'' v"
  "\<exists>v. vfdw_default_int ''write_retry_count'' = Inr v \<and> in_range ''write_retry_count'' v"
  "\<exists>v. vfdw_default_int ''write_max_bytes'' = Inr v \<and> in_range ''write_max_bytes'' v"
  by (rule default_in_range, rule default_texts, rule server_ranges, simp_all add: dec_val_def digit_val_def is_digit_def)+

lemma defaults_ok: "\<exists>out. vfdw_server_defaults = Inr out \<and> server_options_ok out"
  using default_ints unfolding vfdw_server_defaults_def server_options_ok_def by auto

text \<open>The kind of every server option that is not a plain string.\<close>

definition server_kind :: "string \<Rightarrow> VfdwOptKind option" where
  "server_kind name = map_option od_kind (vfdw_find_option name ForeignServerRelationId)"

lemma kind_table:
  "list_all (\<lambda>n. server_kind n = Some VFDW_OPT_INT) [''port'', ''connect_timeout_ms'', ''command_timeout_ms'', ''pipeline_batch'', ''scan_count'', ''max_reply_elements'', ''reader_buffer_bytes'', ''write_max_ops'', ''write_retry_count'', ''write_max_bytes'']"
  "list_all (\<lambda>n. server_kind n = Some VFDW_OPT_BOOL) [''cluster'', ''prefer_replica'', ''tls'']"
  "list_all (\<lambda>n. server_kind n = Some VFDW_OPT_PATH) [''tls_ca_file'', ''tls_cert_file'', ''tls_key_file'']"
  "server_kind ''tls_verify'' = Some VFDW_OPT_ENUM"
  by code_simp+

lemma result_bind_unit: "result_bind r (\<lambda>_. Inr ()) = Inr () \<longleftrightarrow> (\<exists>x. r = Inr x)"
  by (cases r) auto

lemma validated_parses:
  assumes "vfdw_validate_option env def value = Inr ()"
  shows "od_kind def = VFDW_OPT_INT \<Longrightarrow> \<exists>v. vfdw_parse_int def value = Inr v"
    and "od_kind def = VFDW_OPT_BOOL \<Longrightarrow> \<exists>b. vfdw_parse_bool env def value = Inr b"
    and "od_kind def = VFDW_OPT_PATH \<Longrightarrow> \<exists>p. vfdw_parse_path env def value = Inr p"
    and "od_kind def = VFDW_OPT_ENUM \<Longrightarrow> \<exists>i. vfdw_parse_enum def value = Inr i"
  using assms by (auto simp: vfdw_validate_option_def result_bind_Inr_iff)

lemma apply_validated:
  assumes "vfdw_find_option name ForeignServerRelationId = Some def" and "vfdw_validate_option env def value = Inr ()"
  shows "\<exists>out'. vfdw_apply_server_option env def value out = Inr out'"
proof -
  have n: "od_name def = name" using find_option_name [OF assms(1)] by simp
  have k: "server_kind name = Some k \<Longrightarrow> od_kind def = k" for k using assms(1) by (simp add: server_kind_def)
  have i: "\<exists>v. vfdw_parse_int def value = Inr v" if "name \<in> set [''port'', ''connect_timeout_ms'', ''command_timeout_ms'', ''pipeline_batch'', ''scan_count'', ''max_reply_elements'', ''reader_buffer_bytes'', ''write_max_ops'', ''write_retry_count'', ''write_max_bytes'']"
    using that kind_table(1) k validated_parses(1) [OF assms(2)] by (auto simp: list_all_iff)
  have b: "\<exists>v. vfdw_parse_bool env def value = Inr v" if "name \<in> set [''cluster'', ''prefer_replica'', ''tls'']"
    using that kind_table(2) k validated_parses(2) [OF assms(2)] by (auto simp: list_all_iff)
  have p: "\<exists>v. vfdw_parse_path env def value = Inr v" if "name \<in> set [''tls_ca_file'', ''tls_cert_file'', ''tls_key_file'']"
    using that kind_table(3) k validated_parses(3) [OF assms(2)] by (auto simp: list_all_iff)
  have e: "\<exists>v. vfdw_parse_enum def value = Inr v" if "name = ''tls_verify''"
    using that kind_table(4) k validated_parses(4) [OF assms(2)] by auto
  show ?thesis unfolding vfdw_apply_server_option_def Let_def n using i b p e by (auto simp: result_bind_Inr_iff)
qed

lemma read_validated:
  "validator_loop env ForeignServerRelationId options seen = Inr () \<Longrightarrow> \<exists>out'. result_fold (server_option_step env) options out = Inr out'"
proof (induction options arbitrary: seen out)
  case (Cons opt options)
  obtain name v where eq: "opt = (name, v)" by (cases opt)
  from Cons.prems obtain def where d: "vfdw_find_option name ForeignServerRelationId = Some def"
    and ok: "vfdw_validate_option env def v = Inr ()"
    and rest: "validator_loop env ForeignServerRelationId options (seen @ [name]) = Inr ()"
    by (auto simp: eq result_bind_Inr_iff split: option.splits if_splits)
  obtain out1 where "vfdw_apply_server_option env def v out = Inr out1" using apply_validated [OF d ok] by blast
  then show ?case using Cons.IH [OF rest] d by (simp add: eq server_option_step_def)
qed simp

lemma read_in_range:
  assumes "vfdw_read_server_options env options = Inr out" shows "server_options_ok out"
proof -
  obtain d where d: "vfdw_server_defaults = Inr d" "server_options_ok d" using defaults_ok by blast
  have "result_fold (server_option_step env) options d = Inr out" using assms unfolding vfdw_read_server_options_def d(1) by simp
  then show ?thesis
    by (rule result_fold_invariant [where P = server_options_ok, OF _ d(2)])
       (auto simp: server_option_step_def split: option.splits intro: apply_keeps_ok)
qed

text \<open>C37. Every server's options are in range. Options the validator accepted can always be read, so no
  statement fails later over an option the DDL let through; and whatever list is read, validated or
  not, each number that comes out lies between the bounds of the option table, defaults included:
  a batch holds at least one command, a port is a port, and a flush retries at most ten times.\<close>

theorem server_options_bounded:
  "(valkey_fdw_validator env ForeignServerRelationId options = Inr () \<longrightarrow>
      (\<exists>out. vfdw_read_server_options env options = Inr out)) \<and>
   (\<forall>out. vfdw_read_server_options env options = Inr out \<longrightarrow>
     1 \<le> so_port out \<and> so_port out \<le> 65535 \<and>
     1 \<le> so_pipeline_batch out \<and> so_pipeline_batch out \<le> 100000 \<and>
     1 \<le> so_scan_count out \<and> so_scan_count out \<le> 1000000 \<and>
     1 \<le> so_connect_timeout_ms out \<and> so_connect_timeout_ms out \<le> 3600000 \<and>
     1 \<le> so_command_timeout_ms out \<and> so_command_timeout_ms out \<le> 3600000 \<and>
     1 \<le> so_max_reply_elements out \<and> so_max_reply_elements out \<le> 1000000000 \<and>
     1024 \<le> so_reader_buffer_bytes out \<and> so_reader_buffer_bytes out \<le> 1073741824 \<and>
     1 \<le> so_write_max_ops out \<and> so_write_max_ops out \<le> 1000000 \<and>
     65536 \<le> so_write_max_bytes out \<and> so_write_max_bytes out \<le> 1073741824 \<and>
     0 \<le> so_write_retry_count out \<and> so_write_retry_count out \<le> 10)"
proof (intro conjI impI allI)
  assume "valkey_fdw_validator env ForeignServerRelationId options = Inr ()"
  then have "validator_loop env ForeignServerRelationId options [] = Inr ()"
    by (auto simp: valkey_fdw_validator_def result_bind_Inr_iff)
  moreover obtain d where d: "vfdw_server_defaults = Inr d" using defaults_ok by blast
  ultimately show "\<exists>out. vfdw_read_server_options env options = Inr out"
    unfolding vfdw_read_server_options_def d using read_validated by simp
qed (auto dest!: read_in_range simp: server_options_ok_def range_table)

theorem server_options_bounded_witness:
  "\<exists>out. vfdw_read_server_options \<lparr>oe_parse_bool = (\<lambda>_. None), oe_is_absolute_path = (\<lambda>_. True), oe_superuser = False\<rparr>
     [(''port'', ''7000'')] = Inr out"
proof -
  let ?e = "\<lparr>oe_parse_bool = (\<lambda>_. None), oe_is_absolute_path = (\<lambda>_. True), oe_superuser = False\<rparr>"
  have "valkey_fdw_validator ?e ForeignServerRelationId [(''port'', ''7000'')] = Inr ()" by code_simp
  then show ?thesis using server_options_bounded [of ?e "[(''port'', ''7000'')]"] by blast
qed

text \<open>A text of blanks passes for the integer 0, although an empty one is refused: \<open>strtol\<close> converts
  nothing and the loop over trailing blanks then reaches the end.\<close>

lemma blank_integer_is_zero:
  "vfdw_parse_int (option_def ''database'' ForeignTableRelationId VFDW_OPT_INT 0 15 [] (Some ''0'') False VFDW_OPTPRIV_NONE) ''  '' = Inr 0"
  by code_simp

text \<open>\<open>legacy_value\<close> over a string table is refused when the table says \<open>tabletype 'string'\<close>, and passes
  when it leaves the type to its default, which is string.\<close>

lemma default_string_legacy_validates:
  "valkey_fdw_validator \<lparr>oe_parse_bool = (\<lambda>_. Some True), oe_is_absolute_path = (\<lambda>_. True), oe_superuser = True\<rparr>
     ForeignTableRelationId [(''legacy_value'', ''true'')] = Inr ()"
  by code_simp

end
