(* ===== verification/Conn.thy ===== *)
theory Conn
  imports Wire Options "HOL-Library.AList"
begin

text \<open>
  The connection pool: \<open>src/vfdw_conn.c\<close>, \<open>src/vfdw_conn_pool.c\<close> and \<open>src/vfdw_conn_xact.c\<close>.

  The hash table is an association list from (server, user, slot) to entries; \<open>hash_search\<close> with
  HASH_ENTER adds an entry whose bytes are whatever the allocator left there (\<open>ce_garbage\<close>), which
  \<open>vfdw_conn_init_entry\<close> then fills in. A pointer to an entry is its key. What is outside is a
  record of arguments: connecting a socket, exchanging one command for its reply, attaching TLS,
  PostgreSQL's system caches, subtransaction id and superuser test.

  An operation that raises leaves the pool changed, so fallible operations return the result and
  the new state.
\<close>

section \<open>Data\<close>

datatype VfdwCap = VFDW_CAP_UNKNOWN | VFDW_CAP_PRESENT | VFDW_CAP_ABSENT

record VfdwConnKey =
  ck_serverid :: Oid
  ck_userid :: Oid
  ck_slot :: nat

type_synonym SubTransactionId = nat

abbreviation (input) InvalidSubTransactionId :: SubTransactionId where
  "InvalidSubTransactionId \<equiv> 0"

text \<open>A socket is a number; \<open>None\<close> is NULL.\<close>

record VfdwConn =
  vc_conn :: "nat option"
  vc_node_host :: bytes
  vc_node_port :: int
  vc_opts :: VfdwServerOptions
  vc_resp3 :: bool
  vc_database :: int
  vc_in_conversation :: bool
  vc_invalidated :: bool
  vc_leased :: bool
  vc_script_loaded :: bool
  vc_write_refused :: bool
  vc_write_refusal :: bytes
  vc_field_ttl :: VfdwCap
  vc_lease_subid :: SubTransactionId
  vc_server_hashvalue :: "32 word"
  vc_mapping_hashvalue :: "32 word"

type_synonym conn_pool = "(VfdwConnKey \<times> VfdwConn) list"

record conn_env =
  ce_garbage :: VfdwConn
  ce_subid :: SubTransactionId
  ce_connect :: "bytes \<Rightarrow> int \<Rightarrow> bytes option \<Rightarrow> nat result"
  ce_ask :: "nat \<Rightarrow> bytes list \<Rightarrow> valkeyReply result"
  ce_tls_attach :: "unit result"
  ce_tls_reason :: "bytes option"
  ce_superuser :: "Oid \<Rightarrow> bool"
  ce_server_hash :: "Oid \<Rightarrow> 32 word"
  ce_mapping_hash :: "Oid \<Rightarrow> 32 word"
  ce_server_options :: "Oid \<Rightarrow> VfdwServerOptions"
  ce_user_options :: "Oid \<Rightarrow> VfdwUserOptions"
  ce_script :: bytes

abbreviation (input) VFDW_MAX_CONN_SLOTS :: nat where "VFDW_MAX_CONN_SLOTS \<equiv> 32"
abbreviation (input) VFDW_MAX_NODE_HOST :: nat where "VFDW_MAX_NODE_HOST \<equiv> 256"
abbreviation (input) VFDW_MAX_WRITE_REFUSAL :: nat where "VFDW_MAX_WRITE_REFUSAL \<equiv> 256"

section \<open>One connection\<close>

definition vfdw_conn_close :: "VfdwConn \<Rightarrow> VfdwConn" where
  "vfdw_conn_close v =
     v\<lparr>vc_conn := None, vc_in_conversation := False, vc_resp3 := False, vc_database := - 1,
       vc_script_loaded := False, vc_write_refused := False, vc_write_refusal := []\<rparr>"

definition vfdw_conn_command ::
  "conn_env \<Rightarrow> string \<Rightarrow> bytes list \<Rightarrow> VfdwConn \<Rightarrow> valkeyReply result \<times> VfdwConn" where
  "vfdw_conn_command env what argv v =
     (let saved = vc_in_conversation v; v1 = v\<lparr>vc_in_conversation := True\<rparr> in
      case ce_ask env (the (vc_conn v)) argv of
        Inl e \<Rightarrow> (Inl e, v1)
      | Inr reply \<Rightarrow>
          if vfdw_reply_is_error (Some reply) then (vfdw_error_from_reply reply what, v1)
          else (Inr reply, v1\<lparr>vc_in_conversation := saved\<rparr>))"

definition vfdw_conn_force_handshake :: "conn_env \<Rightarrow> VfdwConn \<Rightarrow> unit result \<times> VfdwConn" where
  "vfdw_conn_force_handshake env v =
     (case vfdw_conn_command env ''TLS handshake with Valkey failed'' [''PING''] v of
        (Inr _, v1) \<Rightarrow> (Inr (), v1)
      | (Inl e, v1) \<Rightarrow>
          (case ce_tls_reason env of
             Some _ \<Rightarrow> (raise ERRCODE_CONNECTION_FAILURE ''TLS handshake with Valkey failed'', v1)
           | None \<Rightarrow> (Inl e, v1)))"

definition vfdw_conn_authenticate :: "conn_env \<Rightarrow> VfdwUserOptions \<Rightarrow> VfdwConn \<Rightarrow> unit result \<times> VfdwConn" where
  "vfdw_conn_authenticate env user v =
     (case uo_password user of
        None \<Rightarrow> (Inr (), v)
      | Some password \<Rightarrow>
          let argv = [''AUTH''] @ (case uo_username user of Some u \<Rightarrow> [u] | None \<Rightarrow> []) @ [password]
          in case vfdw_conn_command env ''authentication to Valkey failed'' argv v of
               (Inl e, v1) \<Rightarrow> (Inl e, v1) | (Inr _, v1) \<Rightarrow> (Inr (), v1))"

text \<open>\<open>pg_strncasecmp\<close> on the ASCII bytes of a fixed lower-case string.\<close>

definition lower_ascii :: "char \<Rightarrow> char" where
  "lower_ascii c = (if of_char c \<ge> (65 :: nat) \<and> of_char c \<le> (90 :: nat) then char_of (of_char c + 32 :: nat) else c)"

definition contains_nocase :: "string \<Rightarrow> bytes \<Rightarrow> bool" where
  "contains_nocase needle s =
     list_ex (\<lambda>i. i + length needle \<le> length s \<and> map lower_ascii (take (length needle) (drop i s)) = needle)
       [0..<length s + 1]"

definition vfdw_conn_resp3_declined :: "valkeyReply \<Rightarrow> bool" where
  "vfdw_conn_resp3_declined reply =
     (if vfdw_reply_has_prefix (Some reply) ''NOPROTO'' then True
      else if \<not> vfdw_reply_has_prefix (Some reply) ''ERR'' then False
      else contains_nocase ''unknown command'' (the (rp_str reply)))"

definition vfdw_conn_hello_failure :: "valkeyReply \<Rightarrow> string" where
  "vfdw_conn_hello_failure reply =
     (if vfdw_reply_has_prefix (Some reply) ''NOAUTH'' \<or> vfdw_reply_has_prefix (Some reply) ''WRONGPASS'' \<or>
         vfdw_reply_has_prefix (Some reply) ''NOPERM''
      then ''authentication to Valkey failed'' else ''could not negotiate RESP3'')"

definition vfdw_conn_negotiate_resp3 :: "conn_env \<Rightarrow> VfdwConn \<Rightarrow> unit result \<times> VfdwConn" where
  "vfdw_conn_negotiate_resp3 env v =
     (case ce_ask env (the (vc_conn v)) [''HELLO'', ''3''] of
        Inl e \<Rightarrow> (Inl e, v)
      | Inr reply \<Rightarrow>
          if vfdw_reply_is_error (Some reply) \<and> \<not> vfdw_conn_resp3_declined reply
          then (vfdw_error_from_reply reply (vfdw_conn_hello_failure reply), v)
          else (Inr (), v\<lparr>vc_resp3 := (rp_type reply = VALKEY_REPLY_MAP)\<rparr>))"

definition vfdw_conn_probe_script :: "conn_env \<Rightarrow> VfdwConn \<Rightarrow> unit result \<times> VfdwConn" where
  "vfdw_conn_probe_script env v =
     (case ce_ask env (the (vc_conn v)) [''SCRIPT'', ''LOAD'', ce_script env] of
        Inl e \<Rightarrow> (Inl e, v)
      | Inr reply \<Rightarrow>
          let loaded = (\<not> vfdw_reply_is_error (Some reply));
              refused = (\<not> loaded \<and> \<not> vfdw_reply_has_prefix (Some reply) ''LOADING'' \<and>
                         \<not> vfdw_reply_has_prefix (Some reply) ''BUSY'')
          in (Inr (), v\<lparr>vc_script_loaded := loaded, vc_write_refused := refused,
                vc_write_refusal := (case rp_str reply of
                    Some s \<Rightarrow> if refused then take VFDW_MAX_WRITE_REFUSAL s else [] | None \<Rightarrow> [])\<rparr>))"

definition vfdw_conn_select_db :: "conn_env \<Rightarrow> int \<Rightarrow> VfdwConn \<Rightarrow> unit result \<times> VfdwConn" where
  "vfdw_conn_select_db env database v =
     (if vc_database v = database then (Inr (), v)
      else if so_cluster (vc_opts v) then
        if database \<noteq> 0
        then (raise ERRCODE_FEATURE_NOT_SUPPORTED ''Valkey Cluster supports only database 0'', v)
        else (Inr (), v\<lparr>vc_database := 0\<rparr>)
      else case vfdw_conn_command env ''could not select Valkey database'' [''SELECT'', dec_int database]
                  (v\<lparr>vc_database := - 1\<rparr>) of
             (Inl e, v1) \<Rightarrow> (Inl e, v1)
           | (Inr _, v1) \<Rightarrow> (Inr (), v1\<lparr>vc_database := database\<rparr>))"

text \<open>Steps of a handshake, stopping at the first error.\<close>

fun steps :: "(VfdwConn \<Rightarrow> unit result \<times> VfdwConn) list \<Rightarrow> VfdwConn \<Rightarrow> unit result \<times> VfdwConn" where
  "steps [] v = (Inr (), v)"
| "steps (f # fs) v = (case f v of (Inl e, v1) \<Rightarrow> (Inl e, v1) | (Inr _, v1) \<Rightarrow> steps fs v1)"

text \<open>The result, the connection, and whether a socket was opened.\<close>

definition vfdw_conn_open :: "conn_env \<Rightarrow> VfdwUserOptions \<Rightarrow> VfdwConn \<Rightarrow> unit result \<times> VfdwConn \<times> bool" where
  "vfdw_conn_open env user v =
     (let opts = vc_opts v;
          conn = (if vc_node_host v \<noteq> [] then ce_connect env (vc_node_host v) (vc_node_port v) None
                  else ce_connect env (so_host opts) (so_port opts) (so_unix_socket_path opts)) in
      case conn of
        Inl e \<Rightarrow> (Inl e, v, False)
      | Inr c \<Rightarrow>
          let v1 = v\<lparr>vc_conn := Some c, vc_database := - 1, vc_in_conversation := True\<rparr>;
              tls = (if so_tls opts
                     then [\<lambda>x. (ce_tls_attach env, x), vfdw_conn_force_handshake env] else []);
              (r, v2) = steps (tls @ [vfdw_conn_authenticate env user, vfdw_conn_negotiate_resp3 env,
                                      vfdw_conn_probe_script env]) v1
          in case r of Inl e \<Rightarrow> (Inl e, v2, True) | Inr _ \<Rightarrow> (Inr (), v2\<lparr>vc_in_conversation := False\<rparr>, True))"

definition vfdw_conn_check_password_required :: "conn_env \<Rightarrow> Oid \<Rightarrow> VfdwUserOptions \<Rightarrow> unit result" where
  "vfdw_conn_check_password_required env userid uopts =
     (if \<not> uo_password_required uopts then Inr ()
      else if uo_password uopts \<noteq> None then Inr ()
      else if ce_superuser env userid then Inr ()
      else raise ERRCODE_S_R_E_PROHIBITED_SQL_STATEMENT_ATTEMPTED ''password is required'')"

section \<open>Slots\<close>

definition vfdw_conn_init_entry :: "VfdwConn \<Rightarrow> VfdwConn" where
  "vfdw_conn_init_entry v =
     v\<lparr>vc_conn := None, vc_resp3 := False, vc_database := - 1, vc_in_conversation := False,
       vc_invalidated := False, vc_leased := False, vc_lease_subid := InvalidSubTransactionId,
       vc_script_loaded := False, vc_write_refused := False, vc_write_refusal := [],
       vc_node_host := [], vc_node_port := 0\<rparr>"

definition vfdw_conn_node_matches :: "VfdwConn \<Rightarrow> bytes option \<Rightarrow> int \<Rightarrow> bool" where
  "vfdw_conn_node_matches v host port =
     (case host of None \<Rightarrow> vc_node_host v = [] | Some h \<Rightarrow> vc_node_port v = port \<and> vc_node_host v = h)"

text \<open>\<open>strlcpy\<close> into the 256-byte field keeps 255 bytes.\<close>

definition vfdw_conn_claim :: "conn_env \<Rightarrow> bytes option \<Rightarrow> int \<Rightarrow> VfdwConn \<Rightarrow> VfdwConn" where
  "vfdw_conn_claim env node_host node_port v =
     (vfdw_conn_close v)\<lparr>
        vc_node_host := (case node_host of None \<Rightarrow> [] | Some h \<Rightarrow> take (VFDW_MAX_NODE_HOST - 1) h),
        vc_node_port := node_port, vc_leased := True, vc_lease_subid := ce_subid env\<rparr>"

definition vfdw_conn_no_slots :: "'a result" where
  "vfdw_conn_no_slots =
     raise ERRCODE_TOO_MANY_CONNECTIONS ''too many concurrent Valkey scans on one server''"

text \<open>\<open>hash_search\<close> with HASH_ENTER, then \<open>vfdw_conn_init_entry\<close> when it was not found.\<close>

definition hash_enter :: "conn_env \<Rightarrow> VfdwConnKey \<Rightarrow> conn_pool \<Rightarrow> VfdwConn \<times> conn_pool" where
  "hash_enter env key pool =
     (case map_of pool key of
        Some v \<Rightarrow> (v, pool)
      | None \<Rightarrow> let v = vfdw_conn_init_entry (ce_garbage env) in (v, AList.update key v pool))"

definition slot_key :: "Oid \<Rightarrow> Oid \<Rightarrow> nat \<Rightarrow> VfdwConnKey" where
  "slot_key serverid userid slot = \<lparr>ck_serverid = serverid, ck_userid = userid, ck_slot = slot\<rparr>"

text \<open>The for loop: the slot it returned from, or the virgin and the victim it remembers.\<close>

fun slot_loop ::
  "conn_env \<Rightarrow> Oid \<Rightarrow> Oid \<Rightarrow> bytes option \<Rightarrow> int \<Rightarrow> nat list \<Rightarrow> VfdwConnKey option \<Rightarrow> VfdwConnKey option \<Rightarrow>
   conn_pool \<Rightarrow> VfdwConnKey option \<times> VfdwConnKey option \<times> VfdwConnKey option \<times> conn_pool" where
  "slot_loop env sid uid host port [] virgin victim pool = (None, virgin, victim, pool)"
| "slot_loop env sid uid host port (s # ss) virgin victim pool =
     (let key = slot_key sid uid s; (v, pool1) = hash_enter env key pool in
      if vc_leased v then slot_loop env sid uid host port ss virgin victim pool1
      else if vfdw_conn_node_matches v host port then
        (Some key, virgin, victim, AList.update key (v\<lparr>vc_leased := True, vc_lease_subid := ce_subid env\<rparr>) pool1)
      else if vc_conn v = None
      then slot_loop env sid uid host port ss (if virgin = None then Some key else virgin) victim pool1
      else slot_loop env sid uid host port ss virgin (if victim = None then Some key else victim) pool1)"

definition vfdw_conn_take_free_slot ::
  "conn_env \<Rightarrow> Oid \<Rightarrow> Oid \<Rightarrow> bytes option \<Rightarrow> int \<Rightarrow> conn_pool \<Rightarrow> VfdwConnKey result \<times> conn_pool" where
  "vfdw_conn_take_free_slot env sid uid host port pool =
     (case slot_loop env sid uid host port [0..<VFDW_MAX_CONN_SLOTS] None None pool of
        (Some key, _, _, pool1) \<Rightarrow> (Inr key, pool1)
      | (None, virgin, victim, pool1) \<Rightarrow>
          (case (if virgin \<noteq> None then virgin else victim) of
             Some key \<Rightarrow> (Inr key, AList.update key (vfdw_conn_claim env host port (the (map_of pool1 key))) pool1)
           | None \<Rightarrow> (vfdw_conn_no_slots, pool1)))"

definition vfdw_release_connection :: "VfdwConnKey option \<Rightarrow> conn_pool \<Rightarrow> conn_pool" where
  "vfdw_release_connection p pool =
     (case p of
        None \<Rightarrow> pool
      | Some key \<Rightarrow>
          (case map_of pool key of
             None \<Rightarrow> pool
           | Some v \<Rightarrow> AList.update key (v\<lparr>vc_leased := False, vc_lease_subid := InvalidSubTransactionId\<rparr>) pool))"

text \<open>\<open>vfdw_get_connection_internal\<close>; the last component is the number of sockets opened.\<close>

definition vfdw_get_connection_internal ::
  "conn_env \<Rightarrow> Oid \<Rightarrow> Oid \<Rightarrow> Oid \<Rightarrow> bool \<Rightarrow> bytes option \<Rightarrow> int \<Rightarrow> conn_pool \<Rightarrow>
   VfdwConnKey result \<times> conn_pool \<times> nat" where
  "vfdw_get_connection_internal env sid uid umid cluster_aware host port pool =
     (case vfdw_conn_take_free_slot env sid uid host port pool of
        (Inl e, pool1) \<Rightarrow> (Inl e, pool1, 0)
      | (Inr key, pool1) \<Rightarrow>
          let v0 = the (map_of pool1 key);
              v1 = (if vc_invalidated v0 then (vfdw_conn_close v0)\<lparr>vc_invalidated := False\<rparr> else v0);
              uopts = ce_user_options env umid;
              v2 = v1\<lparr>vc_server_hashvalue := ce_server_hash env sid, vc_mapping_hashvalue := ce_mapping_hash env umid,
                      vc_opts := ce_server_options env sid\<rparr>
          in case vfdw_conn_check_password_required env uid uopts of
               Inl e \<Rightarrow> (Inl e, AList.update key v2 pool1, 0)
             | Inr _ \<Rightarrow>
                 if so_cluster (vc_opts v2) \<and> \<not> cluster_aware
                 then (raise ERRCODE_FEATURE_NOT_SUPPORTED ''this operation does not support Valkey Cluster'',
                       AList.update key v2 pool1, 0)
                 else if vc_conn v2 = None then
                   (case vfdw_conn_open env uopts v2 of
                      (Inl e, v3, opened) \<Rightarrow> (Inl e, AList.update key v3 pool1, of_bool opened)
                    | (Inr _, v3, opened) \<Rightarrow> (Inr key, AList.update key v3 pool1, of_bool opened))
                 else (Inr key, AList.update key v2 pool1, 0))"

definition vfdw_get_connection where
  "vfdw_get_connection env sid uid umid pool = vfdw_get_connection_internal env sid uid umid False None 0 pool"

definition vfdw_get_connection_cluster where
  "vfdw_get_connection_cluster env sid uid umid pool = vfdw_get_connection_internal env sid uid umid True None 0 pool"

definition vfdw_get_connection_node where
  "vfdw_get_connection_node env sid uid umid host port pool =
     vfdw_get_connection_internal env sid uid umid True (Some host) port pool"

definition each :: "(VfdwConn \<Rightarrow> VfdwConn) \<Rightarrow> conn_pool \<Rightarrow> conn_pool" where
  "each f pool = map (\<lambda>(k, v). (k, f v)) pool"

datatype syscache = FOREIGNSERVEROID | USERMAPPINGOID

definition vfdw_conn_inval_callback :: "syscache \<Rightarrow> 32 word \<Rightarrow> conn_pool \<Rightarrow> conn_pool" where
  "vfdw_conn_inval_callback cacheid hashvalue = each (\<lambda>v.
     if vc_conn v = None then v
     else if hashvalue = 0 \<or> (cacheid = FOREIGNSERVEROID \<and> vc_server_hashvalue v = hashvalue) \<or>
             (cacheid = USERMAPPINGOID \<and> vc_mapping_hashvalue v = hashvalue)
     then v\<lparr>vc_invalidated := True\<rparr> else v)"

definition vfdw_conn_pool_size :: "conn_pool \<Rightarrow> nat" where
  "vfdw_conn_pool_size pool = length (filter (\<lambda>(k, v). vc_conn v \<noteq> None) pool)"

definition vfdw_conn_leased_count :: "conn_pool \<Rightarrow> nat" where
  "vfdw_conn_leased_count pool = length (filter (\<lambda>(k, v). vc_leased v) pool)"

definition vfdw_conn_peek :: "Oid \<Rightarrow> Oid \<Rightarrow> conn_pool \<Rightarrow> VfdwConnKey option" where
  "vfdw_conn_peek sid uid pool =
     find (\<lambda>key. case map_of pool key of None \<Rightarrow> False | Some v \<Rightarrow> vc_conn v \<noteq> None \<and> vc_in_conversation v)
       (map (slot_key sid uid) [0..<VFDW_MAX_CONN_SLOTS])"

section \<open>Transaction events\<close>

datatype XactEvent =
    XACT_EVENT_COMMIT | XACT_EVENT_PARALLEL_COMMIT | XACT_EVENT_ABORT | XACT_EVENT_PARALLEL_ABORT
  | XACT_EVENT_PREPARE | XACT_EVENT_PRE_COMMIT | XACT_EVENT_PARALLEL_PRE_COMMIT | XACT_EVENT_PRE_PREPARE

datatype SubXactEvent =
  SUBXACT_EVENT_START_SUB | SUBXACT_EVENT_COMMIT_SUB | SUBXACT_EVENT_ABORT_SUB | SUBXACT_EVENT_PRE_COMMIT_SUB

definition conn_xact_entry :: "VfdwConn \<Rightarrow> VfdwConn" where
  "conn_xact_entry v =
     (if vc_conn v = None then v
      else (if vc_in_conversation v \<or> vc_invalidated v then vfdw_conn_close v else v)
             \<lparr>vc_leased := False, vc_lease_subid := InvalidSubTransactionId\<rparr>)"

definition vfdw_conn_xact :: "XactEvent \<Rightarrow> conn_pool \<Rightarrow> conn_pool" where
  "vfdw_conn_xact event pool =
     (if event \<in> {XACT_EVENT_COMMIT, XACT_EVENT_PARALLEL_COMMIT, XACT_EVENT_ABORT, XACT_EVENT_PARALLEL_ABORT}
      then each conn_xact_entry pool else pool)"

definition conn_subxact_entry :: "SubTransactionId \<Rightarrow> VfdwConn \<Rightarrow> VfdwConn" where
  "conn_subxact_entry mySubid v =
     (let v1 = (if vc_conn v \<noteq> None \<and> vc_in_conversation v then vfdw_conn_close v else v) in
      if vc_leased v1 \<and> vc_lease_subid v1 = mySubid
      then v1\<lparr>vc_leased := False, vc_lease_subid := InvalidSubTransactionId, vc_script_loaded := False\<rparr> else v1)"

definition vfdw_conn_subxact :: "SubXactEvent \<Rightarrow> SubTransactionId \<Rightarrow> conn_pool \<Rightarrow> conn_pool" where
  "vfdw_conn_subxact event mySubid pool =
     (if event \<noteq> SUBXACT_EVENT_ABORT_SUB then pool else each (conn_subxact_entry mySubid) pool)"

section \<open>Slots as a total map\<close>

text \<open>The state of a slot: its entry, or what a first touch would make of it.\<close>

definition entry :: "conn_env \<Rightarrow> conn_pool \<Rightarrow> VfdwConnKey \<Rightarrow> VfdwConn" where
  "entry env pool key = (case map_of pool key of Some v \<Rightarrow> v | None \<Rightarrow> vfdw_conn_init_entry (ce_garbage env))"

lemma map_of_each: "map_of (each f pool) k = map_option f (map_of pool k)"
  unfolding each_def by (induction pool) auto

lemma entry_update [simp]: "entry env (AList.update key v pool) k = (if k = key then v else entry env pool k)"
  by (simp add: entry_def update_conv')

lemma the_entry: "map_of pool k \<noteq> None \<Longrightarrow> the (map_of pool k) = entry env pool k"
  by (auto simp: entry_def)

lemma hash_enter_spec:
  assumes "hash_enter env key pool = (v, pool')"
  shows "v = entry env pool key" "entry env pool' k = entry env pool k" "map_of pool' key \<noteq> None"
    "map_of pool k \<noteq> None \<Longrightarrow> map_of pool' k \<noteq> None"
  using assms by (auto simp: hash_enter_def entry_def Let_def update_conv' split: option.splits if_splits)

lemma slot_key_inject [simp]: "slot_key sid uid s = slot_key sid uid s' \<longleftrightarrow> s = s'"
  by (simp add: slot_key_def)

text \<open>A remembered candidate is a free slot of the table.\<close>

definition candidate :: "conn_env \<Rightarrow> Oid \<Rightarrow> Oid \<Rightarrow> conn_pool \<Rightarrow> VfdwConnKey option \<Rightarrow> bool" where
  "candidate env sid uid pool c \<longleftrightarrow>
     (\<forall>k. c = Some k \<longrightarrow> (\<exists>s < VFDW_MAX_CONN_SLOTS. k = slot_key sid uid s) \<and> \<not> vc_leased (entry env pool k) \<and> map_of pool k \<noteq> None)"

lemma candidate_mono:
  assumes "candidate env sid uid pool c" "\<And>k. entry env pool' k = entry env pool k"
    "\<And>k. map_of pool k \<noteq> None \<Longrightarrow> map_of pool' k \<noteq> None"
  shows "candidate env sid uid pool' c"
  using assms unfolding candidate_def by metis

lemma candidate_pick:
  "candidate env sid uid pool c \<Longrightarrow> s < VFDW_MAX_CONN_SLOTS \<Longrightarrow> \<not> vc_leased (entry env pool (slot_key sid uid s)) \<Longrightarrow>
   map_of pool (slot_key sid uid s) \<noteq> None \<Longrightarrow>
   candidate env sid uid pool (if c = None then Some (slot_key sid uid s) else c)"
  by (auto simp: candidate_def)

lemma slot_loop_spec:
  assumes "slot_loop env sid uid host port ss virgin victim pool = (r, vg, vc, pool')"
    and "set ss \<subseteq> {..<VFDW_MAX_CONN_SLOTS}" "candidate env sid uid pool virgin" "candidate env sid uid pool victim"
  shows "(case r of
      Some key \<Rightarrow> (\<exists>s < VFDW_MAX_CONN_SLOTS. key = slot_key sid uid s) \<and> \<not> vc_leased (entry env pool key) \<and>
        vfdw_conn_node_matches (entry env pool key) host port \<and> map_of pool' key \<noteq> None \<and>
        (\<forall>k. entry env pool' k = (if k = key then (entry env pool key)\<lparr>vc_leased := True, vc_lease_subid := ce_subid env\<rparr>
                                  else entry env pool k))
    | None \<Rightarrow> (\<forall>k. entry env pool' k = entry env pool k) \<and> candidate env sid uid pool' vg \<and> candidate env sid uid pool' vc \<and>
        (vg = None \<and> vc = None \<longrightarrow> virgin = None \<and> victim = None \<and>
           (\<forall>s\<in>set ss. vc_leased (entry env pool (slot_key sid uid s)))))"
  using assms
proof (induction ss arbitrary: virgin victim pool)
  case Nil
  then show ?case by auto
next
  case (Cons s ss)
  let ?k = "slot_key sid uid s"
  obtain v pool1 where e: "hash_enter env ?k pool = (v, pool1)" by fastforce
  note h = hash_enter_spec [OF e]
  have sub: "set ss \<subseteq> {..<VFDW_MAX_CONN_SLOTS}" and s: "s < VFDW_MAX_CONN_SLOTS" using Cons.prems(2) by auto
  have vg1: "candidate env sid uid pool1 virgin" and vc1: "candidate env sid uid pool1 victim"
    using candidate_mono [OF Cons.prems(3) h(2,4)] candidate_mono [OF Cons.prems(4) h(2,4)] by auto
  have ent: "entry env pool1 = entry env pool" using h(2) by (simp add: fun_eq_iff)
  show ?case
  proof (cases "vc_leased v")
    case True
    then have run: "slot_loop env sid uid host port ss virgin victim pool1 = (r, vg, vc, pool')"
      using Cons.prems(1) e by simp
    show ?thesis using Cons.IH [OF run sub vg1 vc1] True h(1) unfolding ent by (cases r) auto
  next
    case free: False
    show ?thesis
    proof (cases "vfdw_conn_node_matches v host port")
      case True
      then have "r = Some ?k" "pool' = AList.update ?k (v\<lparr>vc_leased := True, vc_lease_subid := ce_subid env\<rparr>) pool1"
        using Cons.prems(1) e free by (auto simp: Let_def)
      then show ?thesis using True free s h(1) ent by (auto simp: update_conv')
    next
      case False
      have lf: "\<not> vc_leased (entry env pool1 ?k)" using free h(1) ent by simp
      note pick = candidate_pick [OF _ s lf h(3)]
      let ?vg = "if vc_conn v = None then (if virgin = None then Some ?k else virgin) else virgin"
      let ?vc = "if vc_conn v = None then victim else (if victim = None then Some ?k else victim)"
      have run: "slot_loop env sid uid host port ss ?vg ?vc pool1 = (r, vg, vc, pool')"
        using Cons.prems(1) e free False by (auto simp: Let_def split: if_splits)
      have "candidate env sid uid pool1 ?vg" "candidate env sid uid pool1 ?vc" using pick vg1 vc1 by auto
      from Cons.IH [OF run sub this] show ?thesis unfolding ent by (cases r) (auto split: if_splits)
    qed
  qed
qed

text \<open>What a lease changes: one free slot of this server and user, reused as it is or reclaimed.\<close>

definition leases :: "conn_env \<Rightarrow> Oid \<Rightarrow> Oid \<Rightarrow> bytes option \<Rightarrow> int \<Rightarrow> conn_pool \<Rightarrow> VfdwConnKey \<Rightarrow> conn_pool \<Rightarrow> bool" where
  "leases env sid uid host port pool key pool' \<longleftrightarrow>
     (\<exists>s < VFDW_MAX_CONN_SLOTS. key = slot_key sid uid s) \<and> \<not> vc_leased (entry env pool key) \<and> map_of pool' key \<noteq> None \<and>
     (\<forall>k. k \<noteq> key \<longrightarrow> entry env pool' k = entry env pool k) \<and>
     (vfdw_conn_node_matches (entry env pool key) host port \<and>
        entry env pool' key = (entry env pool key)\<lparr>vc_leased := True, vc_lease_subid := ce_subid env\<rparr> \<or>
      entry env pool' key = vfdw_conn_claim env host port (entry env pool key))"

lemma take_slot_spec:
  "(case vfdw_conn_take_free_slot env sid uid host port pool of
      (Inr key, pool') \<Rightarrow> leases env sid uid host port pool key pool'
    | (Inl e, pool') \<Rightarrow> err_code e = ERRCODE_TOO_MANY_CONNECTIONS \<and> entry env pool' = entry env pool \<and>
        (\<forall>s < VFDW_MAX_CONN_SLOTS. vc_leased (entry env pool (slot_key sid uid s))))"
proof -
  obtain r vg vc pool1 where l: "slot_loop env sid uid host port [0..<VFDW_MAX_CONN_SLOTS] None None pool = (r, vg, vc, pool1)"
    by (metis surj_pair)
  have c: "candidate env sid uid pool None" by (simp add: candidate_def)
  have sub: "set [0..<VFDW_MAX_CONN_SLOTS] \<subseteq> {..<VFDW_MAX_CONN_SLOTS}" by auto
  note sp = slot_loop_spec [OF l sub c c]
  show ?thesis
  proof (cases r)
    case (Some key)
    then show ?thesis using sp l by (simp add: vfdw_conn_take_free_slot_def leases_def)
  next
    case None
    have n: "entry env pool1 = entry env pool \<and> candidate env sid uid pool1 vg \<and> candidate env sid uid pool1 vc \<and>
        (vg = None \<and> vc = None \<longrightarrow> (\<forall>s < VFDW_MAX_CONN_SLOTS. vc_leased (entry env pool (slot_key sid uid s))))"
      using sp None by (auto simp: fun_eq_iff atLeast0LessThan)
    define c where "c = (if vg \<noteq> None then vg else vc)"
    have cand: "candidate env sid uid pool1 c" using n by (auto simp: c_def)
    have t: "vfdw_conn_take_free_slot env sid uid host port pool = (case c of
        Some key \<Rightarrow> (Inr key, AList.update key (vfdw_conn_claim env host port (the (map_of pool1 key))) pool1)
      | None \<Rightarrow> (vfdw_conn_no_slots, pool1))"
      unfolding vfdw_conn_take_free_slot_def l None c_def by simp
    show ?thesis
    proof (cases c)
      case c: None
      then have "vg = None \<and> vc = None" by (auto simp: c_def split: if_splits)
      then show ?thesis using t c n by (simp add: vfdw_conn_no_slots_def)
    next
      case (Some key)
      then have "(\<exists>s < VFDW_MAX_CONN_SLOTS. key = slot_key sid uid s) \<and> \<not> vc_leased (entry env pool1 key) \<and> map_of pool1 key \<noteq> None"
        using cand by (simp add: candidate_def)
      then show ?thesis using t Some n the_entry [of pool1 key env] by (simp add: leases_def update_conv')
    qed
  qed
qed

text \<open>The slots of a server and user that are leased.\<close>

definition held :: "conn_env \<Rightarrow> Oid \<Rightarrow> Oid \<Rightarrow> conn_pool \<Rightarrow> nat set" where
  "held env sid uid pool = {s. s < VFDW_MAX_CONN_SLOTS \<and> vc_leased (entry env pool (slot_key sid uid s))}"

lemma slots_exhausted:
  "isl (fst (vfdw_conn_take_free_slot env sid uid host port pool)) \<longleftrightarrow> held env sid uid pool = {..<VFDW_MAX_CONN_SLOTS}"
  using take_slot_spec [where env = env and sid = sid and uid = uid and host = host and port = port and pool = pool]
  by (fastforce simp: leases_def held_def split: prod.splits sum.splits)

lemma take_slot_refusal:
  "vfdw_conn_take_free_slot env sid uid host port pool = (Inl e, pool') \<Longrightarrow>
     e = PgError ERRCODE_TOO_MANY_CONNECTIONS ''too many concurrent Valkey scans on one server''"
  by (auto simp: vfdw_conn_take_free_slot_def vfdw_conn_no_slots_def split: prod.splits option.splits)

section \<open>Handshakes\<close>

text \<open>Who the entry belongs to: what no handshake step touches.\<close>

definition owner :: "VfdwConn \<Rightarrow> nat option \<times> bool \<times> SubTransactionId \<times> bytes \<times> int \<times> bool" where
  "owner v = (vc_conn v, vc_leased v, vc_lease_subid v, vc_node_host v, vc_node_port v, vc_invalidated v)"

definition keeps :: "(VfdwConn \<Rightarrow> unit result \<times> VfdwConn) \<Rightarrow> bool" where
  "keeps f \<longleftrightarrow> (\<forall>v. vc_in_conversation v \<longrightarrow> owner (snd (f v)) = owner v \<and> vc_in_conversation (snd (f v)))"

lemma command_keeps:
  "vc_in_conversation v \<Longrightarrow> vfdw_conn_command env what argv v = (r, v') \<Longrightarrow> owner v' = owner v \<and> vc_in_conversation v'"
  by (auto simp: vfdw_conn_command_def Let_def owner_def split: sum.splits if_splits)

lemma handshake_keeps: "keeps (vfdw_conn_force_handshake env)"
  unfolding keeps_def vfdw_conn_force_handshake_def
  by (auto split: prod.splits sum.splits option.splits dest: command_keeps)

lemma authenticate_keeps: "keeps (vfdw_conn_authenticate env user)"
  unfolding keeps_def vfdw_conn_authenticate_def Let_def
  by (auto split: prod.splits sum.splits option.splits dest: command_keeps)

lemma negotiate_keeps: "keeps (vfdw_conn_negotiate_resp3 env)"
  by (auto simp: keeps_def vfdw_conn_negotiate_resp3_def owner_def split: sum.splits)

lemma probe_keeps: "keeps (vfdw_conn_probe_script env)"
  by (auto simp: keeps_def vfdw_conn_probe_script_def owner_def Let_def split: sum.splits)

lemma tls_keeps: "keeps (Pair r)"
  by (simp add: keeps_def)

lemma steps_keep: "\<forall>f\<in>set fs. keeps f \<Longrightarrow> keeps (steps fs)"
proof (induction fs)
  case (Cons f fs)
  have "owner (snd (steps (f # fs) v)) = owner v \<and> vc_in_conversation (snd (steps (f # fs) v))"
    if "vc_in_conversation v" for v
  proof -
    have f: "owner (snd (f v)) = owner v" "vc_in_conversation (snd (f v))"
      using Cons.prems that by (auto simp: keeps_def)
    moreover have "owner (snd (steps fs (snd (f v)))) = owner v \<and> vc_in_conversation (snd (steps fs (snd (f v))))"
      using Cons.IH Cons.prems f by (simp add: keeps_def)
    ultimately show ?thesis by (cases "f v"; cases "fst (f v)") auto
  qed
  then show ?case by (simp add: keeps_def)
qed (simp add: keeps_def)

lemma open_spec:
  assumes "vfdw_conn_open env user v = (r, v', opened)"
  shows "\<not> isl r \<Longrightarrow> vc_conn v' \<noteq> None \<and> \<not> vc_in_conversation v'"
    and "isl r \<Longrightarrow> v' = v \<or> vc_in_conversation v'"
    and "snd (owner v') = snd (owner v)"
proof -
  let ?fs = "(if so_tls (vc_opts v) then [\<lambda>x. (ce_tls_attach env, x), vfdw_conn_force_handshake env] else []) @
     [vfdw_conn_authenticate env user, vfdw_conn_negotiate_resp3 env, vfdw_conn_probe_script env]"
  have k: "keeps (steps ?fs)"
    by (rule steps_keep) (auto simp: handshake_keeps authenticate_keeps negotiate_keeps probe_keeps tls_keeps)
  have "(\<not> isl r \<longrightarrow> vc_conn v' \<noteq> None \<and> \<not> vc_in_conversation v') \<and> (isl r \<longrightarrow> v' = v \<or> vc_in_conversation v') \<and>
     snd (owner v') = snd (owner v)"
  proof (cases "if vc_node_host v \<noteq> [] then ce_connect env (vc_node_host v) (vc_node_port v) None
                  else ce_connect env (so_host (vc_opts v)) (so_port (vc_opts v)) (so_unix_socket_path (vc_opts v))")
    case (Inl e)
    then have "r = Inl e" "v' = v" using assms by (auto simp: vfdw_conn_open_def Let_def)
    then show ?thesis by simp
  next
    case (Inr c)
    let ?v1 = "v\<lparr>vc_conn := Some c, vc_database := - 1, vc_in_conversation := True\<rparr>"
    obtain q v2 where s: "steps ?fs ?v1 = (q, v2)" by (metis surj_pair)
    have o: "owner v2 = owner ?v1" "vc_in_conversation v2" using k s by (auto simp: keeps_def dest: spec [of _ ?v1])
    have "(r, v', opened) = (case q of Inl e \<Rightarrow> (Inl e, v2, True) | Inr _ \<Rightarrow> (Inr (), v2\<lparr>vc_in_conversation := False\<rparr>, True))"
      using assms Inr s unfolding vfdw_conn_open_def by (simp add: Let_def)
    then show ?thesis using o by (cases q) (auto simp: owner_def)
  qed
  then show "\<not> isl r \<Longrightarrow> vc_conn v' \<noteq> None \<and> \<not> vc_in_conversation v'" "isl r \<Longrightarrow> v' = v \<or> vc_in_conversation v'"
    "snd (owner v') = snd (owner v)" by auto
qed

section \<open>Leases\<close>

text \<open>
  The pool's invariant: an open connection that nobody has leased is not in the middle of a
  conversation, so whoever leases it next reads its own replies.
\<close>

definition pool_idle :: "conn_pool \<Rightarrow> bool" where
  "pool_idle pool \<longleftrightarrow>
     (\<forall>k v. map_of pool k = Some v \<longrightarrow> \<not> vc_leased v \<longrightarrow> vc_conn v \<noteq> None \<longrightarrow> \<not> vc_in_conversation v)"

lemma pool_idle_entry:
  "pool_idle pool \<longleftrightarrow> (\<forall>k. \<not> vc_leased (entry env pool k) \<longrightarrow> vc_conn (entry env pool k) \<noteq> None \<longrightarrow> \<not> vc_in_conversation (entry env pool k))"
  unfolding pool_idle_def entry_def
  by (auto simp: vfdw_conn_init_entry_def split: option.splits)

lemma close_simps [simp]:
  "vc_conn (vfdw_conn_close v) = None" "\<not> vc_in_conversation (vfdw_conn_close v)" "vc_leased (vfdw_conn_close v) = vc_leased v"
  "vc_invalidated (vfdw_conn_close v) = vc_invalidated v" "vc_lease_subid (vfdw_conn_close v) = vc_lease_subid v"
  "vc_node_host (vfdw_conn_close v) = vc_node_host v" "vc_node_port (vfdw_conn_close v) = vc_node_port v"
  by (simp_all add: vfdw_conn_close_def)

text \<open>A leased entry as \<open>vfdw_get_connection_internal\<close> refreshes it before it may open.\<close>

definition refreshed :: "conn_env \<Rightarrow> Oid \<Rightarrow> Oid \<Rightarrow> VfdwConn \<Rightarrow> VfdwConn" where
  "refreshed env sid umid v0 =
     (if vc_invalidated v0 then (vfdw_conn_close v0)\<lparr>vc_invalidated := False\<rparr> else v0)
       \<lparr>vc_server_hashvalue := ce_server_hash env sid, vc_mapping_hashvalue := ce_mapping_hash env umid,
        vc_opts := ce_server_options env sid\<rparr>"

lemma get_connection_cases:
  assumes "vfdw_get_connection_internal env sid uid umid aware host port pool = (r, pool', n)"
  obtains (full) e where "r = Inl e" "err_code e = ERRCODE_TOO_MANY_CONNECTIONS" "entry env pool' = entry env pool"
      "\<forall>s < VFDW_MAX_CONN_SLOTS. vc_leased (entry env pool (slot_key sid uid s))"
  | (slot) key pool1 v where "leases env sid uid host port pool key pool1" "pool' = AList.update key v pool1"
      "snd (owner v) = snd (owner (refreshed env sid umid (entry env pool1 key)))"
      "v = refreshed env sid umid (entry env pool1 key) \<or> vc_in_conversation v \<or> r = Inr key"
      "\<And>k. r = Inr k \<Longrightarrow> k = key \<and> vc_conn v \<noteq> None \<and>
         (v = refreshed env sid umid (entry env pool1 key) \<or> \<not> vc_in_conversation v)"
proof -
  obtain t pool1 where t: "vfdw_conn_take_free_slot env sid uid host port pool = (t, pool1)" by fastforce
  have sp: "case (t, pool1) of
      (Inr key, pool') \<Rightarrow> leases env sid uid host port pool key pool'
    | (Inl e, pool') \<Rightarrow> err_code e = ERRCODE_TOO_MANY_CONNECTIONS \<and> entry env pool' = entry env pool \<and>
        (\<forall>s < VFDW_MAX_CONN_SLOTS. vc_leased (entry env pool (slot_key sid uid s)))"
    unfolding t [symmetric] by (rule take_slot_spec)
  show thesis
  proof (cases t)
    case (Inl e)
    then have "r = Inl e" "pool' = pool1" using assms t by (auto simp: vfdw_get_connection_internal_def)
    then show thesis using sp Inl full [of e] by simp
  next
    case (Inr key)
    have l: "leases env sid uid host port pool key pool1" using sp t Inr by simp
    let ?v = "refreshed env sid umid (entry env pool1 key)"
    have v0: "the (map_of pool1 key) = entry env pool1 key" using l by (intro the_entry) (simp add: leases_def)
    let ?u = "ce_user_options env umid"
    have g: "(r, pool', n) = (case vfdw_conn_check_password_required env uid ?u of
         Inl e \<Rightarrow> (Inl e, AList.update key ?v pool1, 0)
       | Inr _ \<Rightarrow>
           if so_cluster (vc_opts ?v) \<and> \<not> aware
           then (raise ERRCODE_FEATURE_NOT_SUPPORTED ''this operation does not support Valkey Cluster'',
                 AList.update key ?v pool1, 0)
           else if vc_conn ?v = None then
             (case vfdw_conn_open env ?u ?v of
                (Inl e, v3, opened) \<Rightarrow> (Inl e, AList.update key v3 pool1, of_bool opened)
              | (Inr _, v3, opened) \<Rightarrow> (Inr key, AList.update key v3 pool1, of_bool opened))
           else (Inr key, AList.update key ?v pool1, 0))"
      using assms t Inr v0 unfolding vfdw_get_connection_internal_def refreshed_def by (simp only: prod.case sum.case Let_def)
    obtain q v3 o3 where o: "vfdw_conn_open env ?u ?v = (q, v3, o3)" by (metis surj_pair)
    note os = open_spec [OF o]
    have stay: thesis if "pool' = AList.update key ?v pool1" "\<And>k. r = Inr k \<Longrightarrow> k = key \<and> vc_conn ?v \<noteq> None"
      using slot [OF l that(1)] that(2) by blast
    show thesis
    proof (cases "isl (vfdw_conn_check_password_required env uid ?u) \<or> so_cluster (vc_opts ?v) \<and> \<not> aware \<or> vc_conn ?v \<noteq> None")
      case True
      then show thesis using g by (intro stay) (auto split: sum.splits if_splits)
    next
      case False
      then have g': "(r, pool', n) = (case q of Inl e \<Rightarrow> (Inl e, AList.update key v3 pool1, of_bool o3)
          | Inr _ \<Rightarrow> (Inr key, AList.update key v3 pool1, of_bool o3))"
        using g o by (cases "vfdw_conn_check_password_required env uid ?u"; cases q) auto
      then have p: "pool' = AList.update key v3 pool1" by (cases q) simp_all
      show thesis
      proof (cases q)
        case (Inl e)
        then have r: "r = Inl e" using g' by simp
        have i: "v3 = ?v \<or> vc_in_conversation v3" using os(2) Inl by simp
        show thesis by (rule slot [OF l p os(3)]) (use r i in blast)+
      next
        case (Inr x)
        then have r: "r = Inr key" using g' by simp
        have i: "vc_conn v3 \<noteq> None \<and> \<not> vc_in_conversation v3" using os(1) Inr by simp
        show thesis by (rule slot [OF l p os(3)]) (use r i in blast)+
      qed
    qed
  qed
qed

lemma leases_entry:
  assumes "leases env sid uid host port pool key pool1"
  shows "vc_leased (entry env pool1 key)" "vc_lease_subid (entry env pool1 key) = ce_subid env"
    "vc_conn (entry env pool1 key) \<noteq> None \<Longrightarrow>
       vc_conn (entry env pool1 key) = vc_conn (entry env pool key) \<and>
       vc_in_conversation (entry env pool1 key) = vc_in_conversation (entry env pool key)"
  using assms by (auto simp: leases_def vfdw_conn_claim_def)

lemma owner_simps:
  "snd (owner v) = snd (owner w) \<longleftrightarrow>
     vc_leased v = vc_leased w \<and> vc_lease_subid v = vc_lease_subid w \<and> vc_node_host v = vc_node_host w \<and>
     vc_node_port v = vc_node_port w \<and> vc_invalidated v = vc_invalidated w"
  by (auto simp: owner_def)

lemma refreshed_simps [simp]:
  "vc_leased (refreshed env sid umid v) = vc_leased v" "vc_lease_subid (refreshed env sid umid v) = vc_lease_subid v"
  "vc_node_host (refreshed env sid umid v) = vc_node_host v" "vc_node_port (refreshed env sid umid v) = vc_node_port v"
  "\<not> vc_invalidated (refreshed env sid umid v)"
  "vc_conn (refreshed env sid umid v) = (if vc_invalidated v then None else vc_conn v)"
  "vc_in_conversation (refreshed env sid umid v) = (\<not> vc_invalidated v \<and> vc_in_conversation v)"
  by (simp_all add: refreshed_def)

lemma get_keeps_idle:
  assumes "vfdw_get_connection_internal env sid uid umid aware host port pool = (r, pool', n)" and "pool_idle pool"
  shows "pool_idle pool'"
  using assms(1)
proof (cases rule: get_connection_cases)
  case full
  then show ?thesis using assms(2) by (simp add: pool_idle_entry [of _ env])
next
  case (slot key pool1 v)
  have "vc_leased v" using slot(3) leases_entry [OF slot(1)] by (simp add: owner_simps)
  then show ?thesis using assms(2) slot(1,2) by (simp add: pool_idle_entry [of _ env] leases_def)
qed

lemma xact_entry_quiet:
  "vc_conn (conn_xact_entry v) \<noteq> None \<Longrightarrow>
     \<not> vc_leased (conn_xact_entry v) \<and> \<not> vc_in_conversation (conn_xact_entry v) \<and> \<not> vc_invalidated (conn_xact_entry v)"
  by (cases "vc_conn v") (auto simp: conn_xact_entry_def split: if_splits)

section \<open>Properties\<close>

lemma lease_facts:
  assumes "pool_idle pool"
    and "vfdw_get_connection_internal env sid uid umid aware host port pool = (r, pool', n)"
  shows "pool_idle pool' \<and>
    (\<forall>key. r = Inr key \<longrightarrow>
       (\<exists>s < VFDW_MAX_CONN_SLOTS. key = slot_key sid uid s) \<and>
       \<not> vc_leased (entry env pool key) \<and> vc_leased (entry env pool' key) \<and>
       vc_lease_subid (entry env pool' key) = ce_subid env \<and>
       vc_conn (entry env pool' key) \<noteq> None \<and> \<not> vc_in_conversation (entry env pool' key) \<and>
       (\<forall>k. k \<noteq> key \<longrightarrow> entry env pool' k = entry env pool k) \<and> map_of pool' key \<noteq> None)"
  using assms(2)
proof (cases rule: get_connection_cases)
  case full
  then show ?thesis using get_keeps_idle [OF assms(2,1)] by simp
next
  case (slot key pool1 v)
  note le = leases_entry [OF slot(1)]
  have "\<not> vc_in_conversation v \<and> vc_conn v \<noteq> None" if "r = Inr k" for k
  proof -
    have free: "\<not> vc_leased (entry env pool key)" using slot(1) by (simp add: leases_def)
    have c: "vc_conn v \<noteq> None" "v = refreshed env sid umid (entry env pool1 key) \<or> \<not> vc_in_conversation v"
      using slot(5) [OF that] by auto
    moreover have "\<not> vc_in_conversation (refreshed env sid umid (entry env pool1 key))"
      if "vc_conn (refreshed env sid umid (entry env pool1 key)) \<noteq> None"
      using that le(3) free assms(1) pool_idle_entry [of pool env] by (auto split: if_splits)
    ultimately show ?thesis by blast
  qed
  then show ?thesis using get_keeps_idle [OF assms(2,1)] slot(1,2,3,5) le(1,2)
    by (auto simp: owner_simps leases_def update_conv')
qed

text \<open>C33. A lease is exclusive and clean. When the pool gives a connection out, the slot it gives was
  leased by nobody, belongs to the server and user asked for, and is now leased to the calling
  subtransaction; the connection is open and not in the middle of anybody's conversation; no other
  entry has changed; and the pool keeps the invariant that every open, unleased connection is idle,
  which also holds when the request fails half way through a handshake.\<close>

theorem lease_is_exclusive:
  assumes "pool_idle pool"
    and "vfdw_get_connection_internal env sid uid umid aware host port pool = (r, pool', n)"
  shows "pool_idle pool' \<and>
    (\<forall>key. r = Inr key \<longrightarrow>
       (\<exists>s < VFDW_MAX_CONN_SLOTS. key = slot_key sid uid s) \<and>
       \<not> vc_leased (entry env pool key) \<and> vc_leased (entry env pool' key) \<and>
       vc_lease_subid (entry env pool' key) = ce_subid env \<and>
       vc_conn (entry env pool' key) \<noteq> None \<and> \<not> vc_in_conversation (entry env pool' key) \<and>
       (\<forall>k. k \<noteq> key \<longrightarrow> entry env pool' k = entry env pool k))"
  using lease_facts [OF assms] by blast

definition sample_server_options :: VfdwServerOptions where
  "sample_server_options = \<lparr>so_host = ''h'', so_port = 6379, so_unix_socket_path = None, so_cluster = False,
     so_prefer_replica = False, so_tls = False, so_tls_ca_file = None, so_tls_cert_file = None, so_tls_key_file = None,
     so_tls_sni = None, so_tls_verify = 0, so_connect_timeout_ms = 5000, so_command_timeout_ms = 30000,
     so_pipeline_batch = 256, so_scan_count = 1000, so_max_reply_elements = 8388608, so_reader_buffer_bytes = 65536,
     so_write_max_ops = 10000, so_write_max_bytes = 67108864, so_write_retry_count = 3\<rparr>"

definition quiet_conn :: VfdwConn where
  "quiet_conn = \<lparr>vc_conn = None, vc_node_host = [], vc_node_port = 0,
     vc_opts = sample_server_options,
     vc_resp3 = False, vc_database = 0, vc_in_conversation = False, vc_invalidated = False, vc_leased = True,
     vc_script_loaded = False, vc_write_refused = False, vc_write_refusal = [], vc_field_ttl = VFDW_CAP_UNKNOWN,
     vc_lease_subid = 0, vc_server_hashvalue = 0, vc_mapping_hashvalue = 0\<rparr>"

text \<open>An environment whose server answers, and one whose connects all fail.\<close>

definition sample_conn_env :: "bool \<Rightarrow> conn_env" where
  "sample_conn_env up = \<lparr>ce_garbage = quiet_conn, ce_subid = 1,
     ce_connect = (\<lambda>h p u. if up then Inr 7 else raise ERRCODE_CONNECTION_FAILURE ''could not connect to Valkey''),
     ce_ask = (\<lambda>c argv. Inr (Reply VALKEY_REPLY_MAP None 0 [])), ce_tls_attach = Inr (), ce_tls_reason = None,
     ce_superuser = (\<lambda>_. True), ce_server_hash = (\<lambda>_. 1), ce_mapping_hash = (\<lambda>_. 2),
     ce_server_options = (\<lambda>_. vc_opts quiet_conn),
     ce_user_options = (\<lambda>_. \<lparr>uo_username = None, uo_password = Some ''pw'', uo_password_required = True\<rparr>), ce_script = ''lua''\<rparr>"

lemmas conn_exec = vfdw_get_connection_def vfdw_get_connection_internal_def vfdw_conn_take_free_slot_def
  hash_enter_def slot_key_def vfdw_conn_init_entry_def vfdw_conn_node_matches_def
  vfdw_conn_check_password_required_def vfdw_conn_open_def vfdw_conn_authenticate_def vfdw_conn_command_def
  vfdw_conn_negotiate_resp3_def vfdw_conn_probe_script_def vfdw_reply_is_error_def Let_def sample_conn_env_def quiet_conn_def sample_server_options_def
  entry_def

theorem lease_is_exclusive_witness:
  "case vfdw_get_connection (sample_conn_env True) 10 20 30 [] of (r, pool', n) \<Rightarrow>
     r = Inr (slot_key 10 20 0) \<and> vc_conn (entry (sample_conn_env True) pool' (slot_key 10 20 0)) \<noteq> None \<and>
     \<not> vc_in_conversation (entry (sample_conn_env True) pool' (slot_key 10 20 0))"
proof -
  obtain r pool' n where g: "vfdw_get_connection (sample_conn_env True) 10 20 30 [] = (r, pool', n)" by (metis surj_pair)
  have i: "pool_idle []" by (simp add: pool_idle_def)
  have u: "[0..<VFDW_MAX_CONN_SLOTS] = 0 # [1..<VFDW_MAX_CONN_SLOTS]" by (simp add: upt_conv_Cons)
  have "fst (vfdw_get_connection (sample_conn_env True) 10 20 30 []) = Inr (slot_key 10 20 0)"
    unfolding vfdw_get_connection_def vfdw_get_connection_internal_def vfdw_conn_take_free_slot_def u
    by (simp add: conn_exec)
  then have r: "r = Inr (slot_key 10 20 0)" using g by simp
  show ?thesis using lease_is_exclusive [OF i g [unfolded vfdw_get_connection_def]] g r by simp
qed

text \<open>The end of a transaction quiesces the pool: after a commit or an abort every connection that
  is still open is unleased, not in a conversation and not invalidated, so the pool is idle; and the
  abort of a subtransaction keeps the pool idle while it takes back only the leases that
  subtransaction took.\<close>

theorem transaction_end_quiesces:
  assumes "event \<in> {XACT_EVENT_COMMIT, XACT_EVENT_PARALLEL_COMMIT, XACT_EVENT_ABORT, XACT_EVENT_PARALLEL_ABORT}"
  shows "(\<forall>k v. map_of (vfdw_conn_xact event pool) k = Some v \<longrightarrow> vc_conn v \<noteq> None \<longrightarrow>
            \<not> vc_leased v \<and> \<not> vc_in_conversation v \<and> \<not> vc_invalidated v) \<and>
         pool_idle (vfdw_conn_xact event pool) \<and>
         (pool_idle pool \<longrightarrow> pool_idle (vfdw_conn_subxact SUBXACT_EVENT_ABORT_SUB subid pool)) \<and>
         (\<forall>k v. map_of pool k = Some v \<longrightarrow> vc_leased v \<longrightarrow> vc_lease_subid v \<noteq> subid \<longrightarrow>
            (\<exists>v'. map_of (vfdw_conn_subxact SUBXACT_EVENT_ABORT_SUB subid pool) k = Some v' \<and> vc_leased v'))"
proof -
  have x: "map_of (vfdw_conn_xact event pool) k = map_option conn_xact_entry (map_of pool k)" for k
    using assms by (auto simp: vfdw_conn_xact_def map_of_each)
  have sub: "map_of (vfdw_conn_subxact SUBXACT_EVENT_ABORT_SUB subid pool) k = map_option (conn_subxact_entry subid) (map_of pool k)" for k
    by (simp add: vfdw_conn_subxact_def map_of_each)
  have quiet: "\<forall>k v. map_of (vfdw_conn_xact event pool) k = Some v \<longrightarrow> vc_conn v \<noteq> None \<longrightarrow>
      \<not> vc_leased v \<and> \<not> vc_in_conversation v \<and> \<not> vc_invalidated v"
    unfolding x using xact_entry_quiet by blast
  moreover have "\<not> vc_leased (conn_subxact_entry subid v) \<Longrightarrow> vc_conn (conn_subxact_entry subid v) \<noteq> None \<Longrightarrow>
      \<not> vc_in_conversation (conn_subxact_entry subid v)" for v
    by (auto simp: conn_subxact_entry_def Let_def split: if_splits)
  then have "pool_idle (vfdw_conn_subxact SUBXACT_EVENT_ABORT_SUB subid pool)"
    unfolding pool_idle_def sub by blast
  moreover have "vc_leased v \<Longrightarrow> vc_lease_subid v \<noteq> subid \<Longrightarrow> vc_leased (conn_subxact_entry subid v)" for v
    by (simp add: conn_subxact_entry_def Let_def)
  moreover have "pool_idle (vfdw_conn_xact event pool)" using quiet unfolding pool_idle_def by blast
  ultimately show ?thesis by (simp add: sub)
qed

theorem transaction_end_quiesces_witness:
  "pool_idle (vfdw_conn_xact XACT_EVENT_ABORT
     [(slot_key 10 20 0, quiet_conn\<lparr>vc_conn := Some 3, vc_in_conversation := True\<rparr>)])"
  using transaction_end_quiesces [of XACT_EVENT_ABORT
    "[(slot_key 10 20 0, quiet_conn\<lparr>vc_conn := Some 3, vc_in_conversation := True\<rparr>)]"] by simp

section \<open>Leases of connections that never opened\<close>

text \<open>
  \<open>vfdw_conn_xact\<close> skips entries without a socket, so a lease whose open failed outlives its
  transaction. One transaction: ask for a connection, fail, abort.
\<close>

definition failing_transaction :: "conn_env \<Rightarrow> Oid \<Rightarrow> Oid \<Rightarrow> Oid \<Rightarrow> conn_pool \<Rightarrow> conn_pool" where
  "failing_transaction env sid uid umid pool =
     (case vfdw_get_connection env sid uid umid pool of (r, pool', n) \<Rightarrow> vfdw_conn_xact XACT_EVENT_ABORT pool')"

definition none_open :: "conn_env \<Rightarrow> conn_pool \<Rightarrow> bool" where
  "none_open env pool \<longleftrightarrow> (\<forall>k. vc_conn (entry env pool k) = None)"

lemma entry_xact:
  "none_open env pool \<Longrightarrow> entry env (vfdw_conn_xact event pool) k = entry env pool k"
  unfolding none_open_def entry_def vfdw_conn_xact_def
  by (auto simp: map_of_each conn_xact_entry_def split: option.splits dest: spec [of _ k])

lemma open_refused:
  assumes "\<And>h p u. isl (ce_connect env h p u)" and "vfdw_conn_open env user v = (r, v', opened)"
  shows "isl r \<and> v' = v"
proof -
  obtain e where "(if vc_node_host v \<noteq> [] then ce_connect env (vc_node_host v) (vc_node_port v) None
      else ce_connect env (so_host (vc_opts v)) (so_port (vc_opts v)) (so_unix_socket_path (vc_opts v))) = Inl e"
    using assms(1) by (metis isl_def)
  then show ?thesis using assms(2) by (auto simp: vfdw_conn_open_def Let_def)
qed

lemma get_refused:
  assumes down: "\<And>h p u. isl (ce_connect env h p u)" and none: "none_open env pool"
    and g: "vfdw_get_connection_internal env sid uid umid aware host port pool = (r, pool', n)"
  shows "isl r \<and> none_open env pool' \<and>
    (held env sid uid pool' = {..<VFDW_MAX_CONN_SLOTS} \<or> (\<exists>s. s \<notin> held env sid uid pool \<and> held env sid uid pool' = insert s (held env sid uid pool)))"
proof -
  obtain t pool1 where t: "vfdw_conn_take_free_slot env sid uid host port pool = (t, pool1)" by fastforce
  have sp: "case (t, pool1) of
      (Inr key, pool') \<Rightarrow> leases env sid uid host port pool key pool'
    | (Inl e, pool') \<Rightarrow> err_code e = ERRCODE_TOO_MANY_CONNECTIONS \<and> entry env pool' = entry env pool \<and>
        (\<forall>s < VFDW_MAX_CONN_SLOTS. vc_leased (entry env pool (slot_key sid uid s)))"
    unfolding t [symmetric] by (rule take_slot_spec)
  show ?thesis
  proof (cases t)
    case (Inl e)
    then have "r = Inl e" "pool' = pool1" using g t by (auto simp: vfdw_get_connection_internal_def)
    then show ?thesis using sp Inl none by (auto simp: none_open_def held_def)
  next
    case (Inr key)
    have l: "leases env sid uid host port pool key pool1" using sp Inr by simp
    obtain s where s: "s < VFDW_MAX_CONN_SLOTS" "key = slot_key sid uid s" using l by (auto simp: leases_def)
    let ?v = "refreshed env sid umid (entry env pool1 key)"
    have "vc_conn (entry env pool1 key) = None"
      using leases_entry(3) [OF l] none unfolding none_open_def by metis
    then have cv: "vc_conn ?v = None" by simp
    have v0: "the (map_of pool1 key) = entry env pool1 key" using l by (intro the_entry) (simp add: leases_def)
    obtain q v3 o3 where o: "vfdw_conn_open env (ce_user_options env umid) ?v = (q, v3, o3)" by (metis surj_pair)
    have "isl q" "v3 = ?v" using open_refused [OF down o] by auto
    then have "isl r" "pool' = AList.update key ?v pool1"
      using g t Inr v0 cv o unfolding vfdw_get_connection_internal_def refreshed_def
      by (auto simp: Let_def isl_def split: sum.splits if_splits)
    moreover have "held env sid uid (AList.update key ?v pool1) = insert s (held env sid uid pool)" "s \<notin> held env sid uid pool"
      using l s leases_entry(1) [OF l] by (auto simp: held_def leases_def)
    moreover have "none_open env (AList.update key ?v pool1)" using cv l none by (simp add: none_open_def leases_def)
    ultimately show ?thesis by blast
  qed
qed

text \<open>After 32 such transactions the pool refuses every request, with no connection open at all.\<close>

lemma failed_opens_exhaust_pool:
  assumes down: "\<And>h p u. isl (ce_connect env h p u)"
  shows "fst (vfdw_get_connection env sid uid umid (((failing_transaction env sid uid umid) ^^ 32) [])) =
           raise ERRCODE_TOO_MANY_CONNECTIONS ''too many concurrent Valkey scans on one server''"
proof -
  let ?f = "failing_transaction env sid uid umid"
  have inv: "none_open env ((?f ^^ n) []) \<and> min n VFDW_MAX_CONN_SLOTS \<le> card (held env sid uid ((?f ^^ n) []))" for n
  proof (induction n)
    case 0
    then show ?case by (simp add: none_open_def entry_def vfdw_conn_init_entry_def)
  next
    case (Suc n)
    let ?p = "(?f ^^ n) []"
    obtain r pool' m where g: "vfdw_get_connection_internal env sid uid umid False None 0 ?p = (r, pool', m)" by (metis surj_pair)
    note gr = get_refused [OF down conjunct1 [OF Suc.IH] g]
    have p: "(?f ^^ Suc n) [] = vfdw_conn_xact XACT_EVENT_ABORT pool'"
      using g by (simp add: failing_transaction_def vfdw_get_connection_def)
    have e: "entry env (vfdw_conn_xact XACT_EVENT_ABORT pool') k = entry env pool' k" for k using gr Suc by (simp add: entry_xact)
    have fin: "finite (held env sid uid ?p)" by (simp add: held_def)
    have h: "held env sid uid ((?f ^^ Suc n) []) = held env sid uid pool'" unfolding p by (simp add: held_def e)
    have "card (held env sid uid pool') \<ge> min (Suc n) VFDW_MAX_CONN_SLOTS"
      using gr
    proof (elim conjE disjE exE)
      fix s assume "s \<notin> held env sid uid ?p" "held env sid uid pool' = insert s (held env sid uid ?p)"
      then have "card (held env sid uid pool') = Suc (card (held env sid uid ?p))" using fin by simp
      then show ?thesis using Suc by linarith
    qed simp
    moreover have "none_open env ((?f ^^ Suc n) [])" using gr Suc unfolding p none_open_def e by blast
    ultimately show ?case unfolding h by blast
  qed
  let ?p = "(?f ^^ 32) []"
  have "card (held env sid uid ?p) \<ge> card {..<VFDW_MAX_CONN_SLOTS}" using inv [of 32] by simp
  moreover have "held env sid uid ?p \<subseteq> {..<VFDW_MAX_CONN_SLOTS}" by (auto simp: held_def)
  ultimately have "held env sid uid ?p = {..<VFDW_MAX_CONN_SLOTS}" by (meson card_seteq finite_lessThan)
  then have "isl (fst (vfdw_conn_take_free_slot env sid uid None 0 ?p))"
    unfolding slots_exhausted .
  then obtain e pool' where t: "vfdw_conn_take_free_slot env sid uid None 0 ?p = (Inl e, pool')"
    by (metis isl_def prod.collapse)
  then show ?thesis unfolding vfdw_get_connection_def vfdw_get_connection_internal_def t
    using take_slot_refusal [OF t] by simp
qed

end
