(* ===== verification/Cluster.thy ===== *)
theory Cluster
  imports Slot Wire "HOL-Library.Multiset"
begin

text \<open>
  Valkey Cluster: the slot map read from \<open>CLUSTER SHARDS\<close> (\<open>src/vfdw_cluster.c\<close>) and a keyed scan's
  fan-out over the primaries (\<open>src/vfdw_scan_cluster.c\<close>).

  The \<open>owner\<close> array of 16384 \<open>int16\<close> is a function from slot numbers; the casts \<open>(int)\<close> and
  \<open>(int16)\<close> are \<open>signed_take_bit\<close>. The maps per (server, user) are a finite sm. Connecting to a node
  is an argument of the scan's operations.
\<close>

section \<open>Data\<close>

record VfdwClusterNode =
  cn_host :: bytes
  cn_port :: int

abbreviation (input) VFDW_CLUSTER_NSLOTS :: int where "VFDW_CLUSTER_NSLOTS \<equiv> 16384"

record VfdwSlotMap =
  sm_nodes :: "VfdwClusterNode list"
  sm_owner :: "nat \<Rightarrow> int"

text \<open>The casts to \<open>int16\<close> and to a 32-bit \<open>int\<close>.\<close>

definition int16 :: "int \<Rightarrow> int" where
  "int16 i = signed_take_bit 15 i"

definition int32 :: "int \<Rightarrow> int" where
  "int32 i = signed_take_bit 31 i"

section \<open>Reading CLUSTER SHARDS\<close>

text \<open>The loop over name and value pairs from index \<open>i\<close> on.\<close>

function field_loop :: "valkeyReply \<Rightarrow> string \<Rightarrow> nat \<Rightarrow> valkeyReply option result" where
  "field_loop agg name i =
     (if i + 1 < length (rp_element agg) then
        result_bind (vfdw_reply_child agg i) (\<lambda>k.
          if rp_str k = None then field_loop agg name (i + 2)
          else if the (rp_str k) = name then result_bind (vfdw_reply_child agg (i + 1)) (\<lambda>v. Inr (Some v))
          else field_loop agg name (i + 2))
      else Inr None)"
  by pat_completeness auto
termination by (relation "measure (\<lambda>(agg, name, i). length (rp_element agg) - i)") auto

declare field_loop.simps [simp del]

definition vfdw_cluster_field :: "valkeyReply option \<Rightarrow> string \<Rightarrow> valkeyReply option result" where
  "vfdw_cluster_field r name =
     (case r of
        None \<Rightarrow> Inr None
      | Some agg \<Rightarrow>
          if rp_type agg \<notin> {VALKEY_REPLY_ARRAY, VALKEY_REPLY_MAP} then Inr None else field_loop agg name 0)"

text \<open>The index of the node, and the map with it added when it was not there.\<close>

fun intern_loop :: "VfdwClusterNode list \<Rightarrow> bytes \<Rightarrow> int \<Rightarrow> nat \<Rightarrow> nat option" where
  "intern_loop [] host port i = None"
| "intern_loop (n # ns) host port i =
     (if cn_port n = port \<and> cn_host n = host then Some i else intern_loop ns host port (i + 1))"

definition vfdw_cluster_intern :: "bytes \<Rightarrow> int \<Rightarrow> VfdwSlotMap \<Rightarrow> int \<times> VfdwSlotMap" where
  "vfdw_cluster_intern host port sm =
     (case intern_loop (sm_nodes sm) host port 0 of
        Some i \<Rightarrow> (int i, sm)
      | None \<Rightarrow> (int (length (sm_nodes sm)),
                sm\<lparr>sm_nodes := sm_nodes sm @ [\<lparr>cn_host = cstr host, cn_port = port\<rparr>]\<rparr>))"

definition reply_bytes :: "valkeyReply option \<Rightarrow> bytes option" where
  "reply_bytes r = (case r of None \<Rightarrow> None | Some x \<Rightarrow> (case rp_str x of None \<Rightarrow> None | Some s \<Rightarrow> if s = [] then None else Some s))"

text \<open>The host to dial: the endpoint, or the address when the endpoint is missing or empty.\<close>

definition node_host_field :: "valkeyReply \<Rightarrow> bytes option result" where
  "node_host_field node =
     result_bind (vfdw_cluster_field (Some node) ''endpoint'') (\<lambda>e.
       case reply_bytes e of
         Some s \<Rightarrow> Inr (Some s)
       | None \<Rightarrow> result_bind (vfdw_cluster_field (Some node) ''ip'') (\<lambda>a. Inr (reply_bytes a)))"

text \<open>A usable address: a host, and a port that is an integer.\<close>

definition node_address :: "bytes option \<Rightarrow> valkeyReply option \<Rightarrow> (bytes \<times> int) option" where
  "node_address host port =
     (case (host, port) of
        (Some h, Some p) \<Rightarrow> if rp_type p \<noteq> VALKEY_REPLY_INTEGER then None else Some (h, int32 (rp_integer p))
      | _ \<Rightarrow> None)"

function primary_loop :: "valkeyReply \<Rightarrow> nat \<Rightarrow> VfdwSlotMap \<Rightarrow> (int \<times> VfdwSlotMap) result" where
  "primary_loop nodes i sm =
     (if i < length (rp_element nodes) then
        result_bind (vfdw_reply_child nodes i) (\<lambda>node.
        result_bind (vfdw_cluster_field (Some node) ''role'') (\<lambda>role.
          if Option.bind role rp_str \<noteq> Some ''master'' then primary_loop nodes (i + 1) sm
          else result_bind (node_host_field node) (\<lambda>host.
               result_bind (vfdw_cluster_field (Some node) ''port'') (\<lambda>port.
                 case node_address host port of
                   Some (h, p) \<Rightarrow> Inr (vfdw_cluster_intern h p sm)
                 | None \<Rightarrow> primary_loop nodes (i + 1) sm))))
      else Inr (- 1, sm))"
  by pat_completeness auto
termination by (relation "measure (\<lambda>(nodes, i, sm). length (rp_element nodes) - i)") auto

declare primary_loop.simps [simp del]

definition vfdw_cluster_shard_primary :: "valkeyReply \<Rightarrow> VfdwSlotMap \<Rightarrow> (int \<times> VfdwSlotMap) result" where
  "vfdw_cluster_shard_primary shard sm =
     result_bind (vfdw_cluster_field (Some shard) ''nodes'') (\<lambda>nodes.
       case nodes of
         None \<Rightarrow> Inr (- 1, sm)
       | Some ns \<Rightarrow> if rp_type ns \<noteq> VALKEY_REPLY_ARRAY then Inr (- 1, sm) else primary_loop ns 0 sm)"

text \<open>\<open>for (s = lo; s <= hi; s++) map->owner[s] = (int16) node\<close>\<close>

definition claim_range :: "int \<Rightarrow> int \<Rightarrow> int \<Rightarrow> VfdwSlotMap \<Rightarrow> VfdwSlotMap" where
  "claim_range lo hi node sm =
     sm\<lparr>sm_owner := fold (\<lambda>s f. f(s := int16 node)) [nat lo..<nat hi + 1] (sm_owner sm)\<rparr>"

function slots_loop :: "valkeyReply \<Rightarrow> int \<Rightarrow> nat \<Rightarrow> VfdwSlotMap \<Rightarrow> VfdwSlotMap result" where
  "slots_loop slots node i sm =
     (if i + 1 < length (rp_element slots) then
        result_bind (vfdw_reply_child slots i) (\<lambda>lo.
        result_bind (vfdw_reply_child slots (i + 1)) (\<lambda>hi.
          if rp_type lo \<noteq> VALKEY_REPLY_INTEGER \<or> rp_type hi \<noteq> VALKEY_REPLY_INTEGER then slots_loop slots node (i + 2) sm
          else if rp_integer lo < 0 \<or> rp_integer hi \<ge> VFDW_CLUSTER_NSLOTS \<or> rp_integer lo > rp_integer hi
          then slots_loop slots node (i + 2) sm
          else slots_loop slots node (i + 2) (claim_range (rp_integer lo) (rp_integer hi) node sm)))
      else Inr sm)"
  by pat_completeness auto
termination by (relation "measure (\<lambda>(slots, node, i, sm). length (rp_element slots) - i)") auto

declare slots_loop.simps [simp del]

definition vfdw_cluster_apply_slots :: "valkeyReply \<Rightarrow> int \<Rightarrow> VfdwSlotMap \<Rightarrow> VfdwSlotMap result" where
  "vfdw_cluster_apply_slots shard node sm =
     result_bind (vfdw_cluster_field (Some shard) ''slots'') (\<lambda>slots.
       case slots of
         None \<Rightarrow> Inr sm
       | Some ss \<Rightarrow> if rp_type ss \<noteq> VALKEY_REPLY_ARRAY then Inr sm else slots_loop ss node 0 sm)"

definition shard_step :: "valkeyReply \<Rightarrow> VfdwSlotMap \<Rightarrow> VfdwSlotMap result" where
  "shard_step shard sm =
     result_bind (vfdw_cluster_shard_primary shard sm) (\<lambda>(node, map1).
       if node \<ge> 0 then vfdw_cluster_apply_slots shard node map1 else Inr map1)"

function shards_loop :: "valkeyReply \<Rightarrow> nat \<Rightarrow> VfdwSlotMap \<Rightarrow> VfdwSlotMap result" where
  "shards_loop reply i sm =
     (if i < length (rp_element reply) then
        result_bind (vfdw_reply_child reply i) (\<lambda>shard. result_bind (shard_step shard sm) (shards_loop reply (i + 1)))
      else Inr sm)"
  by pat_completeness auto
termination by (relation "measure (\<lambda>(reply, i, sm). length (rp_element reply) - i)") auto

declare shards_loop.simps [simp del]

definition empty_map :: VfdwSlotMap where
  "empty_map = \<lparr>sm_nodes = [], sm_owner = (\<lambda>_. - 1)\<rparr>"

text \<open>\<open>queued\<close> is what queueing the command gives; installing the map copies it.\<close>

definition vfdw_cluster_load :: "unit result \<Rightarrow> int \<Rightarrow> wire \<Rightarrow> (VfdwSlotMap \<times> wire) result" where
  "vfdw_cluster_load queued pipeline_batch w =
     result_bind (vfdw_batch_add queued (vfdw_batch_begin pipeline_batch w)) (\<lambda>b.
     result_bind (vfdw_batch_next b) (\<lambda>(reply, b1).
     result_bind (vfdw_reply_expect reply [VALKEY_REPLY_ARRAY] (''could not read the cluster'' @ [CHR 0x27] @ ''s slot map'')) (\<lambda>_.
     result_bind (shards_loop (the reply) 0 empty_map) (\<lambda>sm.
     result_bind (vfdw_batch_end b1) (\<lambda>w1. Inr (sm, w1))))))"

section \<open>The cache of maps, and routing\<close>

type_synonym cluster_maps = "(Oid \<times> Oid) \<rightharpoonup> VfdwSlotMap option"

text \<open>\<open>vfdw_cluster_map\<close>; \<open>load\<close> is \<open>vfdw_cluster_load\<close> on the connection.\<close>

definition vfdw_cluster_map :: "VfdwSlotMap result \<Rightarrow> Oid \<Rightarrow> Oid \<Rightarrow> cluster_maps \<Rightarrow> VfdwSlotMap result \<times> cluster_maps" where
  "vfdw_cluster_map load serverid userid maps =
     (case maps (serverid, userid) of
        Some (Some m) \<Rightarrow> (Inr m, maps)
      | _ \<Rightarrow> (case load of
               Inl e \<Rightarrow> (Inl e, maps((serverid, userid) \<mapsto> None))
             | Inr m \<Rightarrow> (Inr m, maps((serverid, userid) \<mapsto> Some m))))"

definition vfdw_cluster_invalidate :: "Oid \<Rightarrow> Oid \<Rightarrow> cluster_maps \<Rightarrow> cluster_maps" where
  "vfdw_cluster_invalidate serverid userid maps =
     (case maps (serverid, userid) of None \<Rightarrow> maps | Some _ \<Rightarrow> maps((serverid, userid) \<mapsto> None))"

definition vfdw_cluster_route :: "VfdwSlotMap option \<Rightarrow> bytes \<Rightarrow> VfdwClusterNode option" where
  "vfdw_cluster_route m key =
     (case m of
        None \<Rightarrow> None
      | Some sm \<Rightarrow>
          let owner = sm_owner sm (unat (vfdw_val_slot key))
          in if owner < 0 then None else Some (sm_nodes sm ! nat owner))"

definition vfdw_cluster_is_redirect :: "valkeyReply option \<Rightarrow> bool" where
  "vfdw_cluster_is_redirect r =
     (case r of
        None \<Rightarrow> False
      | Some reply \<Rightarrow>
          if rp_type reply \<noteq> VALKEY_REPLY_ERROR then False
          else (case rp_str reply of
                  None \<Rightarrow> False
                | Some s \<Rightarrow> length s > 6 \<and> take 6 s = ''MOVED '' \<or> length s > 4 \<and> take 4 s = ''ASK ''))"

definition vfdw_cluster_redirect_is_ask :: "valkeyReply option \<Rightarrow> bool" where
  "vfdw_cluster_redirect_is_ask r =
     (case r of
        None \<Rightarrow> False
      | Some reply \<Rightarrow>
          rp_type reply = VALKEY_REPLY_ERROR \<and>
          (case rp_str reply of None \<Rightarrow> False | Some s \<Rightarrow> length s > 4 \<and> take 4 s = ''ASK ''))"

section \<open>A keyed scan over the primaries\<close>

record cluster_scan =
  cs_fanout :: bool
  cs_cur_node :: nat
  cs_nodes :: "VfdwClusterNode list"
  cs_pass_map :: "VfdwSlotMap option"
  cs_redirect_passes :: int
  cs_plan_keys :: "bytes list"
  cs_keys :: "bytes list"
  cs_next_key :: nat
  cs_redirected :: "bytes list"
  cs_retry_pass :: bool
  cs_started :: bool
  cs_cursor :: "bytes option"

definition vfdw_scan_cluster_copy_nodes :: "VfdwSlotMap \<Rightarrow> cluster_scan \<Rightarrow> cluster_scan" where
  "vfdw_scan_cluster_copy_nodes m st = st\<lparr>cs_nodes := sm_nodes m\<rparr>"

text \<open>
  \<open>connect\<close> ends the open batch, gives the connection back and leases one to the node. With no
  node at that index the source has only an assertion; the model reports an internal error there.
\<close>

definition vfdw_scan_cluster_attach ::
  "(VfdwClusterNode \<Rightarrow> unit result) \<Rightarrow> nat \<Rightarrow> cluster_scan \<Rightarrow> cluster_scan result" where
  "vfdw_scan_cluster_attach connect n st =
     (if n \<ge> length (cs_nodes st) then raise ERRCODE_INTERNAL_ERROR ''no node at this index''
      else result_bind (connect (cs_nodes st ! n)) (\<lambda>_.
        Inr (st\<lparr>cs_cur_node := n, cs_started := False, cs_cursor := None\<rparr>)))"

definition vfdw_scan_cluster_setup ::
  "(VfdwClusterNode \<Rightarrow> unit result) \<Rightarrow> bool \<Rightarrow> VfdwSlotMap result \<Rightarrow> cluster_scan \<Rightarrow> (bool \<times> cluster_scan) result" where
  "vfdw_scan_cluster_setup connect is_cluster cluster_map st =
     (let st1 = st\<lparr>cs_fanout := False, cs_cur_node := 0\<rparr> in
      if \<not> is_cluster then Inr (False, st1)
      else result_bind cluster_map (\<lambda>m.
        let st2 = (vfdw_scan_cluster_copy_nodes m st1)\<lparr>cs_pass_map := Some m, cs_fanout := True, cs_redirect_passes := 3\<rparr>
        in result_bind (vfdw_scan_cluster_attach connect 0 st2) (\<lambda>st3. Inr (True, st3))))"

definition vfdw_scan_cluster_advance ::
  "(VfdwClusterNode \<Rightarrow> unit result) \<Rightarrow> cluster_scan \<Rightarrow> (bool \<times> cluster_scan) result" where
  "vfdw_scan_cluster_advance connect st =
     (if \<not> cs_fanout st \<or> cs_cur_node st + 1 \<ge> length (cs_nodes st) then Inr (False, st)
      else result_bind (vfdw_scan_cluster_attach connect (cs_cur_node st + 1) st) (\<lambda>st1. Inr (True, st1)))"

definition vfdw_scan_cluster_keys_for_node :: "cluster_scan \<Rightarrow> cluster_scan" where
  "vfdw_scan_cluster_keys_for_node st =
     (let node = cs_nodes st ! cs_cur_node st;
          mine = (\<lambda>key. case vfdw_cluster_route (cs_pass_map st) key of
                    Some owner \<Rightarrow> \<not> (cn_port owner \<noteq> cn_port node \<or> cn_host owner \<noteq> cn_host node)
                  | None \<Rightarrow> True)
      in st\<lparr>cs_keys := filter mine (cs_plan_keys st), cs_next_key := 0\<rparr>)"

text \<open>The key is copied with \<open>pnstrdup\<close>, which stops at a NUL, but its length is kept: \<open>dup\<close> is the copy.\<close>

definition vfdw_scan_redirected ::
  "Oid \<Rightarrow> Oid \<Rightarrow> valkeyReply option \<Rightarrow> bytes \<Rightarrow> cluster_scan \<Rightarrow> cluster_maps \<Rightarrow> cluster_scan \<times> cluster_maps" where
  "vfdw_scan_redirected serverid userid reply dup st maps =
     (st\<lparr>cs_redirected := cs_redirected st @ [dup]\<rparr>,
      if \<not> vfdw_cluster_redirect_is_ask reply then vfdw_cluster_invalidate serverid userid maps else maps)"

definition vfdw_scan_retry_pass ::
  "(VfdwClusterNode \<Rightarrow> unit result) \<Rightarrow> VfdwSlotMap result \<Rightarrow> cluster_scan \<Rightarrow> (bool \<times> cluster_scan) result" where
  "vfdw_scan_retry_pass connect cluster_map st =
     (if cs_redirected st = [] then Inr (False, st)
      else if cs_redirect_passes st \<le> 0
      then raise ERRCODE_T_R_SERIALIZATION_FAILURE ''gave up following Valkey Cluster redirects''
      else let st1 = st\<lparr>cs_redirect_passes := cs_redirect_passes st - 1, cs_plan_keys := cs_redirected st,
                       cs_redirected := [], cs_retry_pass := True, cs_started := False\<rparr> in
        if cs_fanout st1 then
          result_bind cluster_map (\<lambda>m.
          result_bind (vfdw_scan_cluster_attach connect 0
             (vfdw_scan_cluster_copy_nodes m (st1\<lparr>cs_pass_map := Some m\<rparr>))) (\<lambda>st2. Inr (True, st2)))
        else Inr (True, st1))"

text \<open>The while loop of \<open>vfdw_scan_keys_page\<close>, at most \<open>n\<close> turns; queueing the page is left to the caller.\<close>

fun keys_page_loop :: "nat \<Rightarrow> (VfdwClusterNode \<Rightarrow> unit result) \<Rightarrow> cluster_scan \<Rightarrow> (bool \<times> cluster_scan) result option" where
  "keys_page_loop 0 connect st = None"
| "keys_page_loop (Suc n) connect st =
     (if cs_started st \<and> \<not> cs_fanout st then Some (Inr (False, st))
      else case (if cs_started st then vfdw_scan_cluster_advance connect st else Inr (True, st)) of
        Inl e \<Rightarrow> Some (Inl e)
      | Inr (False, st1) \<Rightarrow> Some (Inr (False, st1))
      | Inr (True, st1) \<Rightarrow>
          let st2 = st1\<lparr>cs_started := True\<rparr>;
              st3 = (if cs_fanout st2 then vfdw_scan_cluster_keys_for_node st2
                     else st2\<lparr>cs_keys := cs_plan_keys st2, cs_next_key := 0\<rparr>)
          in if cs_keys st3 \<noteq> [] then Some (Inr (True, st3)) else keys_page_loop n connect st3)"

definition vfdw_scan_keys_page ::
  "(VfdwClusterNode \<Rightarrow> unit result) \<Rightarrow> cluster_scan \<Rightarrow> (bool \<times> cluster_scan) result option" where
  "vfdw_scan_keys_page connect st =
     (if cs_plan_keys st = [] then Some (Inr (False, st)) else keys_page_loop (length (cs_nodes st) + 2) connect st)"

text \<open>One pass as the scan drives it: pages until there is none, at most \<open>n\<close>.\<close>

fun pass_pages :: "nat \<Rightarrow> (VfdwClusterNode \<Rightarrow> unit result) \<Rightarrow> cluster_scan \<Rightarrow> (bytes list list \<times> cluster_scan) result option" where
  "pass_pages 0 connect st = None"
| "pass_pages (Suc n) connect st =
     (case vfdw_scan_keys_page connect st of
        None \<Rightarrow> None
      | Some (Inl e) \<Rightarrow> Some (Inl e)
      | Some (Inr (False, st1)) \<Rightarrow> Some (Inr ([], st1))
      | Some (Inr (True, st1)) \<Rightarrow>
          (case pass_pages n connect st1 of
             None \<Rightarrow> None | Some (Inl e) \<Rightarrow> Some (Inl e) | Some (Inr (ps, st2)) \<Rightarrow> Some (Inr (cs_keys st1 # ps, st2))))"

section \<open>The slot map is safe to index\<close>

definition map_ok :: "VfdwSlotMap \<Rightarrow> bool" where
  "map_ok m \<longleftrightarrow> (\<forall>s. sm_owner m s = - 1 \<or> 0 \<le> sm_owner m s \<and> sm_owner m s < int (length (sm_nodes m)))"

lemma int16_id: "0 \<le> i \<Longrightarrow> i < 32768 \<Longrightarrow> int16 i = i"
  by (simp add: int16_def signed_take_bit_int_eq_self)

lemma claim_range_owner:
  "sm_owner (claim_range lo hi node m) s = (if nat lo \<le> s \<and> s \<le> nat hi then int16 node else sm_owner m s)"
proof -
  have "fold (\<lambda>s f. f(s := v)) xs f s = (if s \<in> set xs then v else f s)" for xs and f :: "nat \<Rightarrow> int" and v
    by (induction xs arbitrary: f) auto
  then show ?thesis by (auto simp: claim_range_def)
qed

lemma claim_range_nodes [simp]: "sm_nodes (claim_range lo hi node m) = sm_nodes m"
  by (simp add: claim_range_def)

lemma claim_range_ok:
  "map_ok m \<Longrightarrow> 0 \<le> node \<Longrightarrow> node < int (length (sm_nodes m)) \<Longrightarrow> length (sm_nodes m) \<le> 32768 \<Longrightarrow>
   map_ok (claim_range lo hi node m)"
  unfolding map_ok_def claim_range_owner by (auto simp: int16_id)

lemma slots_loop_ok:
  "slots_loop slots node i m = Inr m' \<Longrightarrow> map_ok m \<Longrightarrow> 0 \<le> node \<Longrightarrow> node < int (length (sm_nodes m)) \<Longrightarrow>
   length (sm_nodes m) \<le> 32768 \<Longrightarrow> map_ok m' \<and> sm_nodes m' = sm_nodes m"
proof (induction slots node i m rule: slots_loop.induct)
  case (1 slots node i m)
  show ?case
  proof (cases "i + 1 < length (rp_element slots)")
    case False
    then show ?thesis using "1.prems" by (subst (asm) slots_loop.simps) simp
  next
    case True
    obtain lo hi where lo: "vfdw_reply_child slots i = Inr lo" and hi: "vfdw_reply_child slots (i + 1) = Inr hi"
      using "1.prems"(1) True by (subst (asm) slots_loop.simps) (auto simp: result_bind_Inr_iff)
    note step = "1.prems"(1) [unfolded slots_loop.simps [of slots node i m]]
    show ?thesis
      using step True lo hi "1.IH" [OF True lo hi] "1.prems"(2-) claim_range_ok [of m node "rp_integer lo" "rp_integer hi"]
      by (auto split: if_splits)
  qed
qed

lemma intern_loop_some: "intern_loop ns host port i = Some j \<Longrightarrow> i \<le> j \<and> j < i + length ns"
  by (induction ns arbitrary: i) (fastforce split: if_splits)+

lemma intern_ok:
  assumes "map_ok m" and "vfdw_cluster_intern host port m = (node, m')"
  shows "map_ok m'" "0 \<le> node" "node < int (length (sm_nodes m'))" "length (sm_nodes m') \<le> Suc (length (sm_nodes m))"
    "sm_owner m' = sm_owner m"
  using assms intern_loop_some [of "sm_nodes m" host port 0]
  by (force simp: vfdw_cluster_intern_def map_ok_def split: option.splits)+

lemma primary_loop_ok:
  "primary_loop nodes i m = Inr (node, m') \<Longrightarrow> map_ok m \<Longrightarrow>
   map_ok m' \<and> length (sm_nodes m') \<le> Suc (length (sm_nodes m)) \<and> (node = - 1 \<or> 0 \<le> node \<and> node < int (length (sm_nodes m')))"
proof (induction nodes i m rule: primary_loop.induct)
  case (1 nodes i m)
  show ?case
  proof (cases "i < length (rp_element nodes)")
    case False
    then show ?thesis using "1.prems" by (subst (asm) primary_loop.simps) auto
  next
    case True
    note step = "1.prems"(1) [unfolded primary_loop.simps [of nodes i m]]
    obtain nd role where nd: "vfdw_reply_child nodes i = Inr nd" and role: "vfdw_cluster_field (Some nd) ''role'' = Inr role"
      using step True by (auto simp: result_bind_Inr_iff)
    show ?thesis
    proof (cases "Option.bind role rp_str \<noteq> Some ''master''")
      case skip: True
      then show ?thesis using step True nd role "1.IH"(1) [OF True nd role skip] "1.prems"(2) by simp
    next
      case master: False
      obtain host port where h: "node_host_field nd = Inr host" and p: "vfdw_cluster_field (Some nd) ''port'' = Inr port"
        using step True nd role master by (auto simp: result_bind_Inr_iff)
      show ?thesis
      proof (cases "node_address host port")
        case None
        then have "primary_loop nodes (i + 1) m = Inr (node, m')" using step True nd role master h p by simp
        then show ?thesis using "1.IH"(2) [OF True nd role master h p None] "1.prems"(2) by blast
      next
        case (Some a)
        obtain hh pp where a: "a = (hh, pp)" by (cases a)
        then have "vfdw_cluster_intern hh pp m = (node, m')" using step True nd role master h p Some by simp
        then show ?thesis using intern_ok "1.prems"(2) by blast
      qed
    qed
  qed
qed

lemma shard_step_ok:
  assumes "shard_step shard m = Inr m'" and "map_ok m" and "length (sm_nodes m) < 32768"
  shows "map_ok m' \<and> length (sm_nodes m') \<le> Suc (length (sm_nodes m))"
proof -
  from assms(1) obtain node m1 where p: "vfdw_cluster_shard_primary shard m = Inr (node, m1)"
    and a: "if node \<ge> 0 then vfdw_cluster_apply_slots shard node m1 = Inr m' else m1 = m'"
    by (auto simp: shard_step_def result_bind_Inr_iff split: if_splits)
  have m1: "map_ok m1 \<and> length (sm_nodes m1) \<le> Suc (length (sm_nodes m)) \<and> (node = - 1 \<or> 0 \<le> node \<and> node < int (length (sm_nodes m1)))"
  proof -
    from p consider "node = - 1" "m1 = m" | ns where "primary_loop ns 0 m = Inr (node, m1)"
      by (auto simp: vfdw_cluster_shard_primary_def result_bind_Inr_iff split: option.splits if_splits)
    then show ?thesis
    proof cases
      case 2
      then show ?thesis using primary_loop_ok assms(2) by blast
    qed (use assms(2) in simp)
  qed
  show ?thesis
  proof (cases "node \<ge> 0")
    case True
    then have "vfdw_cluster_apply_slots shard node m1 = Inr m'" using a by simp
    then show ?thesis using m1 True assms(3) slots_loop_ok [of _ node 0 m1 m']
      by (auto simp: vfdw_cluster_apply_slots_def result_bind_Inr_iff split: option.splits if_splits)
  qed (use a m1 in simp)
qed

lemma shards_loop_ok:
  "shards_loop reply i m = Inr m' \<Longrightarrow> map_ok m \<Longrightarrow> length (sm_nodes m) \<le> i \<Longrightarrow> length (rp_element reply) \<le> 32768 \<Longrightarrow> map_ok m'"
proof (induction reply i m rule: shards_loop.induct)
  case (1 reply i m)
  show ?case
  proof (cases "i < length (rp_element reply)")
    case False
    then show ?thesis using "1.prems" by (subst (asm) shards_loop.simps) simp
  next
    case True
    obtain shard m1 where sh: "vfdw_reply_child reply i = Inr shard" and st: "shard_step shard m = Inr m1"
      and rest: "shards_loop reply (i + 1) m1 = Inr m'"
      using "1.prems"(1) True by (subst (asm) shards_loop.simps) (auto simp: result_bind_Inr_iff)
    have "map_ok m1 \<and> length (sm_nodes m1) \<le> Suc (length (sm_nodes m))"
      using shard_step_ok [OF st "1.prems"(2)] "1.prems"(3,4) True by simp
    then show ?thesis using "1.IH" [OF True sh st] rest "1.prems"(3,4) by simp
  qed
qed

lemma route_in_map: "map_ok m \<Longrightarrow> vfdw_cluster_route (Some m) key = Some node \<Longrightarrow> node \<in> set (sm_nodes m)"
proof -
  assume ok: "map_ok m" and r: "vfdw_cluster_route (Some m) key = Some node"
  let ?o = "sm_owner m (unat (vfdw_val_slot key))"
  have o: "0 \<le> ?o" "node = sm_nodes m ! nat ?o" using r by (auto simp: vfdw_cluster_route_def Let_def split: if_splits)
  have "?o = - 1 \<or> 0 \<le> ?o \<and> ?o < int (length (sm_nodes m))" using ok unfolding map_ok_def by blast
  then have "nat ?o < length (sm_nodes m)" using o(1) by linarith
  then show ?thesis using o(2) by simp
qed

section \<open>One pass asks each key of its owner\<close>

definition page_of :: "cluster_scan \<Rightarrow> nat \<Rightarrow> bytes list" where
  "page_of st j = cs_keys (vfdw_scan_cluster_keys_for_node (st\<lparr>cs_cur_node := j\<rparr>))"

text \<open>The next node the pass will visit.\<close>

definition next_node :: "cluster_scan \<Rightarrow> nat" where
  "next_node st = (if cs_started st then cs_cur_node st + 1 else cs_cur_node st)"

definition same_pass :: "cluster_scan \<Rightarrow> cluster_scan \<Rightarrow> bool" where
  "same_pass st st' \<longleftrightarrow> cs_fanout st' = cs_fanout st \<and> cs_nodes st' = cs_nodes st \<and> cs_pass_map st' = cs_pass_map st \<and>
     cs_plan_keys st' = cs_plan_keys st"

lemma page_of_same: "same_pass st st' \<Longrightarrow> page_of st' = page_of st"
  by (simp add: same_pass_def page_of_def vfdw_scan_cluster_keys_for_node_def Let_def fun_eq_iff)

lemma keys_page_loop_spec:
  assumes "\<And>nd. connect nd = Inr ()"
  shows "cs_fanout st \<Longrightarrow> next_node st \<le> length (cs_nodes st) \<Longrightarrow> (cs_started st \<or> cs_cur_node st < length (cs_nodes st)) \<Longrightarrow>
    length (cs_nodes st) - next_node st < n \<Longrightarrow>
    \<exists>st'. same_pass st st' \<and>
      (keys_page_loop n connect st = Some (Inr (False, st')) \<and> (\<forall>j. next_node st \<le> j \<longrightarrow> j < length (cs_nodes st) \<longrightarrow> page_of st j = []) \<or>
       keys_page_loop n connect st = Some (Inr (True, st')) \<and> cs_started st' \<and> next_node st \<le> cs_cur_node st' \<and>
         cs_cur_node st' < length (cs_nodes st) \<and> cs_keys st' = page_of st (cs_cur_node st') \<and>
         (\<forall>j. next_node st \<le> j \<longrightarrow> j < cs_cur_node st' \<longrightarrow> page_of st j = []))"
proof (induction n arbitrary: st)
  case (Suc n)
  let ?k = "next_node st" and ?N = "length (cs_nodes st)"
  show ?case
  proof (cases "?k < ?N")
    case False
    then have "cs_started st \<and> cs_cur_node st + 1 \<ge> ?N" using Suc.prems by (auto simp: next_node_def split: if_splits)
    then have "keys_page_loop (Suc n) connect st = Some (Inr (False, st))"
      using Suc.prems(1) by (simp add: vfdw_scan_cluster_advance_def)
    then show ?thesis using False by (intro exI [of _ st]) (simp add: same_pass_def)
  next
    case True
    define st3 where "st3 = (vfdw_scan_cluster_keys_for_node (st\<lparr>cs_cur_node := ?k,
        cs_cursor := (if cs_started st then None else cs_cursor st), cs_started := True\<rparr>))"
    have page: "cs_keys st3 = page_of st ?k"
      by (simp add: st3_def page_of_def vfdw_scan_cluster_keys_for_node_def Let_def)
    have same: "same_pass st st3" "cs_started st3" "cs_cur_node st3 = ?k"
      by (simp_all add: st3_def same_pass_def vfdw_scan_cluster_keys_for_node_def Let_def)
    have run: "keys_page_loop (Suc n) connect st =
        (if cs_keys st3 \<noteq> [] then Some (Inr (True, st3)) else keys_page_loop n connect st3)"
    proof (cases "cs_started st")
      case s: True
      then have "vfdw_scan_cluster_advance connect st = Inr (True, st\<lparr>cs_cur_node := ?k, cs_started := False, cs_cursor := None\<rparr>)"
        using Suc.prems(1) True assms by (simp add: vfdw_scan_cluster_advance_def vfdw_scan_cluster_attach_def next_node_def)
      then show ?thesis using s Suc.prems(1) by (simp add: st3_def Let_def)
    next
      case False
      then have "st\<lparr>cs_cur_node := ?k, cs_cursor := (if cs_started st then None else cs_cursor st)\<rparr> = st"
        by (simp add: next_node_def)
      then show ?thesis using Suc.prems(1) False by (simp add: st3_def Let_def)
    qed
    show ?thesis
    proof (cases "cs_keys st3 = []")
      case False
      then show ?thesis using run same page True by (intro exI [of _ st3]) auto
    next
      case empty: True
      have nx: "next_node st3 = Suc ?k" using same by (simp add: next_node_def)
      have N: "cs_nodes st3 = cs_nodes st" "cs_fanout st3" using same Suc.prems(1) by (auto simp: same_pass_def)
      have "length (cs_nodes st3) - next_node st3 < n" using Suc.prems(4) True nx N by simp
      from Suc.IH [OF N(2) _ _ this] nx N True same(2)
      obtain st' where st': "same_pass st3 st'"
        "keys_page_loop n connect st3 = Some (Inr (False, st')) \<and> (\<forall>j. Suc ?k \<le> j \<longrightarrow> j < ?N \<longrightarrow> page_of st3 j = []) \<or>
         keys_page_loop n connect st3 = Some (Inr (True, st')) \<and> cs_started st' \<and> Suc ?k \<le> cs_cur_node st' \<and>
         cs_cur_node st' < ?N \<and> cs_keys st' = page_of st3 (cs_cur_node st') \<and>
         (\<forall>j. Suc ?k \<le> j \<longrightarrow> j < cs_cur_node st' \<longrightarrow> page_of st3 j = [])" by auto
      have pg: "page_of st3 j = page_of st j" for j using page_of_same [OF same(1)] by simp
      have k: "page_of st ?k = []" using empty page by simp
      have all: "page_of st j = []" if "?k \<le> j" "\<forall>j. Suc ?k \<le> j \<longrightarrow> j < b \<longrightarrow> page_of st j = []" "j < b" for j b
        using that k by (cases "j = ?k") auto
      have "same_pass st st'" using same(1) st'(1) by (auto simp: same_pass_def)
      from st'(2) show ?thesis unfolding pg
      proof (elim disjE conjE)
        assume "keys_page_loop n connect st3 = Some (Inr (False, st'))" "\<forall>j. Suc ?k \<le> j \<longrightarrow> j < ?N \<longrightarrow> page_of st j = []"
        then show ?thesis using \<open>same_pass st st'\<close> run empty all by (intro exI [of _ st'] conjI disjI1) simp_all
      next
        assume r: "keys_page_loop n connect st3 = Some (Inr (True, st'))" "cs_started st'" "Suc ?k \<le> cs_cur_node st'"
          "cs_cur_node st' < ?N" "cs_keys st' = page_of st (cs_cur_node st')"
          "\<forall>j. Suc ?k \<le> j \<longrightarrow> j < cs_cur_node st' \<longrightarrow> page_of st j = []"
        then show ?thesis using \<open>same_pass st st'\<close> run empty all [OF _ r(6)]
          by (intro exI [of _ st'] conjI disjI2) simp_all
      qed
    qed
  qed
qed simp

lemma pages_split:
  "k \<le> j \<Longrightarrow> j < N \<Longrightarrow> (\<And>i. k \<le> i \<Longrightarrow> i < j \<Longrightarrow> f i = []) \<Longrightarrow>
   concat (map f [k..<N]) = f j @ concat (map f [Suc j..<N])"
proof -
  assume kj: "k \<le> j" "j < N" and e: "\<And>i. k \<le> i \<Longrightarrow> i < j \<Longrightarrow> f i = []"
  have "[k..<N] = [k..<j] @ j # [Suc j..<N]" using kj by (metis le_Suc_ex less_imp_le_nat upt_add_eq_append upt_conv_Cons)
  moreover have "concat (map f [k..<j]) = []" using e by simp
  ultimately show ?thesis by simp
qed

lemma pass_pages_spec:
  assumes conn: "\<And>nd. connect nd = Inr ()"
  shows "cs_fanout st \<Longrightarrow> next_node st \<le> length (cs_nodes st) \<Longrightarrow> (cs_started st \<or> cs_cur_node st < length (cs_nodes st)) \<Longrightarrow>
    length (cs_nodes st) - next_node st < n \<Longrightarrow> cs_plan_keys st \<noteq> [] \<Longrightarrow>
    \<exists>ps st'. pass_pages n connect st = Some (Inr (ps, st')) \<and>
      concat ps = concat (map (page_of st) [next_node st..<length (cs_nodes st)])"
proof (induction n arbitrary: st)
  case (Suc n)
  let ?k = "next_node st" and ?N = "length (cs_nodes st)"
  have "?N - ?k < ?N + 2" by simp
  note kp = keys_page_loop_spec [where connect = connect, OF conn Suc.prems(1,2,3) this]
  have page: "vfdw_scan_keys_page connect st = keys_page_loop (?N + 2) connect st"
    using Suc.prems(5) by (simp add: vfdw_scan_keys_page_def)
  from kp obtain st1 where same: "same_pass st st1" and
    d: "keys_page_loop (?N + 2) connect st = Some (Inr (False, st1)) \<and> (\<forall>j. ?k \<le> j \<longrightarrow> j < ?N \<longrightarrow> page_of st j = []) \<or>
       keys_page_loop (?N + 2) connect st = Some (Inr (True, st1)) \<and> cs_started st1 \<and> ?k \<le> cs_cur_node st1 \<and>
         cs_cur_node st1 < ?N \<and> cs_keys st1 = page_of st (cs_cur_node st1) \<and>
         (\<forall>j. ?k \<le> j \<longrightarrow> j < cs_cur_node st1 \<longrightarrow> page_of st j = [])" by blast
  from d show ?case
  proof (elim disjE conjE)
    assume "keys_page_loop (?N + 2) connect st = Some (Inr (False, st1))" "\<forall>j. ?k \<le> j \<longrightarrow> j < ?N \<longrightarrow> page_of st j = []"
    then show ?thesis using page by simp
  next
    assume r: "keys_page_loop (?N + 2) connect st = Some (Inr (True, st1))" "cs_started st1" "?k \<le> cs_cur_node st1"
      "cs_cur_node st1 < ?N" "cs_keys st1 = page_of st (cs_cur_node st1)"
      "\<forall>j. ?k \<le> j \<longrightarrow> j < cs_cur_node st1 \<longrightarrow> page_of st j = []"
    have nx: "next_node st1 = Suc (cs_cur_node st1)" using r(2) by (simp add: next_node_def)
    have f: "cs_fanout st1" "cs_nodes st1 = cs_nodes st" "cs_plan_keys st1 \<noteq> []"
      using same Suc.prems(1,5) by (auto simp: same_pass_def)
    have "\<exists>ps st'. pass_pages n connect st1 = Some (Inr (ps, st')) \<and>
        concat ps = concat (map (page_of st1) [next_node st1..<length (cs_nodes st1)])"
      by (rule Suc.IH [OF f(1)]) (use nx f r(2,3,4) Suc.prems(4) in auto)
    then obtain ps st' where ps: "pass_pages n connect st1 = Some (Inr (ps, st'))"
      "concat ps = concat (map (page_of st) [Suc (cs_cur_node st1)..<?N])"
      using page_of_same [OF same] nx f(2) by auto
    have "concat (map (page_of st) [?k..<?N]) = page_of st (cs_cur_node st1) @ concat (map (page_of st) [Suc (cs_cur_node st1)..<?N])"
      using r(3,4,6) by (intro pages_split) auto
    then show ?thesis using page r(1,5) ps by simp
  qed
qed simp

lemma count_pages:
  "count (mset (concat (map (\<lambda>j. filter (P j) xs) js))) k = count (mset xs) k * length (filter (\<lambda>j. P j k) js)"
  by (induction js) auto

lemma count_index: "distinct xs \<Longrightarrow> x \<in> set xs \<Longrightarrow> length (filter (\<lambda>j. x = xs ! j) [0..<length xs]) = 1"
proof -
  assume d: "distinct xs" and x: "x \<in> set xs"
  obtain i where i: "i < length xs" "xs ! i = x" using x by (auto simp: in_set_conv_nth)
  have "length (filter (\<lambda>j. x = xs ! j) [0..<length xs]) = card {j. j < length xs \<and> xs ! j = x}"
    by (subst distinct_card [symmetric]) (auto intro!: arg_cong [where f = card])
  also have "{j. j < length xs \<and> xs ! j = x} = {i}" using i d by (auto simp: nth_eq_iff_index_eq)
  finally show ?thesis by simp
qed

section \<open>Properties\<close>

text \<open>C34. The slot map is safe to route with, whatever \<open>CLUSTER SHARDS\<close> answered: as long as it lists at most
  32768 shards (an owner is an \<open>int16\<close>), a map that loads has in every slot either no owner or the
  index of one of its nodes, so routing any key gives no node or a node of the map; and reading it
  leaves the connection out of conversation.\<close>

theorem slot_map_routes_safely:
  assumes "vfdw_cluster_load queued pipeline_batch w = Inr (m, w')"
    and "\<And>r. wire_read w (wire_reads w) = Inr r \<Longrightarrow> length (rp_element r) \<le> 32768" and "0 < pipeline_batch"
  shows "map_ok m \<and> (\<forall>key node. vfdw_cluster_route (Some m) key = Some node \<longrightarrow> node \<in> set (sm_nodes m)) \<and> \<not> wire_busy w'"
proof -
  from assms(1) obtain b reply b1 where b: "vfdw_batch_add queued (vfdw_batch_begin pipeline_batch w) = Inr b"
    and n: "vfdw_batch_next b = Inr (reply, b1)" and l: "shards_loop (the reply) 0 empty_map = Inr m"
    and ex: "\<not> isl (vfdw_reply_expect reply [VALKEY_REPLY_ARRAY] (''could not read the cluster'' @ [CHR 0x27] @ ''s slot map''))"
    and e: "vfdw_batch_end b1 = Inr w'"
    by (auto simp: vfdw_cluster_load_def result_bind_Inr_iff)
  obtain r where r: "reply = Some r" using ex by (cases reply) (auto simp: vfdw_reply_expect_def)
  have wb: "wire_read (b_wire b) = wire_read w \<and> wire_reads (b_wire b) = wire_reads w"
    using b by (auto simp: vfdw_batch_add_def vfdw_batch_begin_def vfdw_batch_flush_def result_bind_Inr_iff Let_def split: if_splits)
  have "wire_read w (wire_reads w) = Inr r"
    using n r wb by (auto simp: vfdw_batch_next_def vfdw_batch_flush_def result_bind_Inr_iff split: if_splits)
  then have "length (rp_element r) \<le> 32768" using assms(2) by blast
  then have ok: "map_ok m" using shards_loop_ok [OF l] r by (simp add: map_ok_def empty_map_def)
  have "\<not> wire_busy w'" using e by (auto simp: vfdw_batch_end_def result_bind_Inr_iff)
  then show ?thesis using ok route_in_map by blast
qed

definition sample_shards :: valkeyReply where
  "sample_shards = Reply VALKEY_REPLY_ARRAY None 0 [Some (Reply VALKEY_REPLY_ARRAY None 0
     [Some (Reply VALKEY_REPLY_STRING (Some ''slots'') 0 []),
      Some (Reply VALKEY_REPLY_ARRAY None 0 [Some (Reply VALKEY_REPLY_INTEGER None 0 []), Some (Reply VALKEY_REPLY_INTEGER None 3 [])]),
      Some (Reply VALKEY_REPLY_STRING (Some ''nodes'') 0 []),
      Some (Reply VALKEY_REPLY_ARRAY None 0 [Some (Reply VALKEY_REPLY_ARRAY None 0
        [Some (Reply VALKEY_REPLY_STRING (Some ''role'') 0 []), Some (Reply VALKEY_REPLY_STRING (Some ''master'') 0 []),
         Some (Reply VALKEY_REPLY_STRING (Some ''ip'') 0 []), Some (Reply VALKEY_REPLY_STRING (Some ''h'') 0 []),
         Some (Reply VALKEY_REPLY_STRING (Some ''port'') 0 []), Some (Reply VALKEY_REPLY_INTEGER None 6379 [])])])])]"

theorem slot_map_routes_safely_witness:
  "\<exists>m w'. vfdw_cluster_load (Inr ()) 8 (quiet_wire\<lparr>wire_read := \<lambda>_. Inr sample_shards\<rparr>) = Inr (m, w') \<and>
     map_ok m \<and> sm_nodes m = [\<lparr>cn_host = ''h'', cn_port = 6379\<rparr>] \<and> sm_owner m 3 = 0 \<and> sm_owner m 4 = - 1"
proof -
  let ?w = "quiet_wire\<lparr>wire_read := \<lambda>_. Inr sample_shards\<rparr>"
  let ?l = "vfdw_cluster_load (Inr ()) 8 ?w"
  have l: "\<not> isl ?l \<and> sm_nodes (fst (projr ?l)) = [\<lparr>cn_host = ''h'', cn_port = 6379\<rparr>] \<and>
      sm_owner (fst (projr ?l)) 3 = 0 \<and> sm_owner (fst (projr ?l)) 4 = - 1"
    by code_simp
  then have i: "?l = Inr (fst (projr ?l), snd (projr ?l))" by (cases ?l) simp_all
  then have "map_ok (fst (projr ?l))"
    using slot_map_routes_safely [of "Inr ()" 8 ?w "fst (projr ?l)" "snd (projr ?l)"]
    by (simp add: quiet_wire_def sample_shards_def)
  then show ?thesis using l i by blast
qed

text \<open>The pass as it stands after \<open>vfdw_scan_cluster_setup\<close> or \<open>vfdw_scan_retry_pass\<close> attached node 0.\<close>

definition fresh_pass :: "VfdwSlotMap \<Rightarrow> cluster_scan \<Rightarrow> bool" where
  "fresh_pass m st \<longleftrightarrow> cs_fanout st \<and> \<not> cs_started st \<and> cs_cur_node st = 0 \<and> cs_pass_map st = Some m \<and> cs_nodes st = sm_nodes m"

lemma setup_fresh:
  "vfdw_scan_cluster_setup connect True (Inr m) st = Inr (b, st') \<Longrightarrow> fresh_pass m st' \<and> cs_redirect_passes st' = 3 \<and>
     cs_plan_keys st' = cs_plan_keys st \<and> sm_nodes m \<noteq> []"
  by (auto simp: vfdw_scan_cluster_setup_def vfdw_scan_cluster_attach_def vfdw_scan_cluster_copy_nodes_def
      fresh_pass_def Let_def result_bind_Inr_iff split: if_splits)

lemma retry_fresh:
  "vfdw_scan_retry_pass connect (Inr m) st = Inr (True, st') \<Longrightarrow> cs_fanout st \<Longrightarrow> fresh_pass m st' \<and>
     cs_redirect_passes st' = cs_redirect_passes st - 1 \<and> 0 < cs_redirect_passes st \<and>
     cs_plan_keys st' = cs_redirected st \<and> cs_redirected st' = []"
  by (auto simp: vfdw_scan_retry_pass_def vfdw_scan_cluster_attach_def vfdw_scan_cluster_copy_nodes_def
      fresh_pass_def Let_def result_bind_Inr_iff split: if_splits)

lemma page_of_fresh:
  "fresh_pass m st \<Longrightarrow> page_of st j = filter (\<lambda>key. case vfdw_cluster_route (Some m) key of
      Some owner \<Rightarrow> owner = sm_nodes m ! j | None \<Rightarrow> True) (cs_plan_keys st)"
  unfolding page_of_def vfdw_scan_cluster_keys_for_node_def fresh_pass_def
  by (auto simp: Let_def intro!: filter_cong split: option.splits)

lemma fanout_counts:
  assumes "\<And>nd. connect nd = Inr ()" and "fresh_pass m st" and "map_ok m" and "distinct (sm_nodes m)"
    and "sm_nodes m \<noteq> []" and "cs_plan_keys st \<noteq> []"
  shows "\<exists>pages st'. pass_pages (length (sm_nodes m) + 1) connect st = Some (Inr (pages, st')) \<and>
     (\<forall>key. count (mset (concat pages)) key =
        count (mset (cs_plan_keys st)) key * (if vfdw_cluster_route (Some m) key = None then length (sm_nodes m) else 1))"
proof -
  let ?N = "length (sm_nodes m)"
  have f: "cs_fanout st" "next_node st = 0" "cs_nodes st = sm_nodes m" "cs_cur_node st < length (cs_nodes st)"
    using assms(2,5) by (auto simp: fresh_pass_def next_node_def)
  obtain pages st' where p: "pass_pages (?N + 1) connect st = Some (Inr (pages, st'))"
    and c: "concat pages = concat (map (page_of st) [0..<?N])"
    using pass_pages_spec [where connect = connect and n = "?N + 1", OF assms(1) f(1)] f assms(6) by auto
  let ?P = "\<lambda>j key. case vfdw_cluster_route (Some m) key of Some owner \<Rightarrow> owner = sm_nodes m ! j | None \<Rightarrow> True"
  have pg: "page_of st = (\<lambda>j. filter (?P j) (cs_plan_keys st))" using page_of_fresh [OF assms(2)] by (simp add: fun_eq_iff)
  have len: "length (filter (\<lambda>j. ?P j key) [0..<?N]) = (if vfdw_cluster_route (Some m) key = None then ?N else 1)" for key
  proof (cases "vfdw_cluster_route (Some m) key")
    case (Some owner)
    then have "length (filter (\<lambda>j. owner = sm_nodes m ! j) [0..<?N]) = 1"
      using count_index [OF assms(4)] route_in_map [OF assms(3)] by blast
    then show ?thesis using Some by simp
  qed simp
  have "count (mset (concat pages)) key =
      count (mset (cs_plan_keys st)) key * (if vfdw_cluster_route (Some m) key = None then ?N else 1)" for key
    unfolding c pg count_pages len ..
  then show ?thesis using p by blast
qed


definition two_nodes :: VfdwSlotMap where
  "two_nodes = \<lparr>sm_nodes = [\<lparr>cn_host = ''a'', cn_port = 1\<rparr>, \<lparr>cn_host = ''b'', cn_port = 1\<rparr>],
     sm_owner = (\<lambda>s. if s < 8192 then 0 else if s < 16000 then 1 else - 1)\<rparr>"

definition sample_scan :: cluster_scan where
  "sample_scan = \<lparr>cs_fanout = True, cs_cur_node = 0, cs_nodes = sm_nodes two_nodes, cs_pass_map = Some two_nodes,
     cs_redirect_passes = 3, cs_plan_keys = [''foo'', ''bar''], cs_keys = [], cs_next_key = 0, cs_redirected = [],
     cs_retry_pass = False, cs_started = False, cs_cursor = None\<rparr>"


text \<open>
  A key of an unowned slot is owed one more fetch per node that redirects it: the next pass, over a
  map that places the slot, fetches it once per copy.
\<close>

lemma unplaced_key_fetched_per_node:
  assumes "\<And>nd. connect nd = Inr ()" and "fresh_pass m st" "map_ok m" "distinct (sm_nodes m)" "sm_nodes m \<noteq> []"
    and "cs_plan_keys st = replicate n key" and "0 < n" and "vfdw_cluster_route (Some m) key \<noteq> None"
  shows "\<exists>pages st'. pass_pages (length (sm_nodes m) + 1) connect st = Some (Inr (pages, st')) \<and> count (mset (concat pages)) key = n"
proof -
  have "cs_plan_keys st \<noteq> []" "count (mset (cs_plan_keys st)) key = n" using assms(6,7) by auto
  then show ?thesis using fanout_counts [where connect = connect, OF assms(1-5)] assms(8) by fastforce
qed

text \<open>Chasing redirects ends, and a scan that gives up says so: every retry pass spends one of the
  three passes, keys still owed with none left raise 40001, and only a scan that owes no key ends
  quietly.\<close>

theorem redirect_chase_is_bounded:
  "(\<exists>st'. vfdw_scan_retry_pass connect load st = Inr (False, st')) = (cs_redirected st = []) \<and>
   (cs_redirected st \<noteq> [] \<and> cs_redirect_passes st \<le> 0 \<longrightarrow>
      vfdw_scan_retry_pass connect load st =
        raise ERRCODE_T_R_SERIALIZATION_FAILURE ''gave up following Valkey Cluster redirects'') \<and>
   (\<forall>st'. vfdw_scan_retry_pass connect load st = Inr (True, st') \<longrightarrow>
      0 < cs_redirect_passes st \<and> cs_redirect_passes st' = cs_redirect_passes st - 1 \<and>
      cs_plan_keys st' = cs_redirected st \<and> cs_redirected st' = [])"
  by (auto simp: vfdw_scan_retry_pass_def vfdw_scan_cluster_attach_def vfdw_scan_cluster_copy_nodes_def Let_def
      result_bind_Inr_iff split: if_splits)

theorem redirect_chase_is_bounded_witness:
  "vfdw_scan_retry_pass (\<lambda>_. Inr ()) (Inr two_nodes) (sample_scan\<lparr>cs_redirected := [''foo''], cs_redirect_passes := 0\<rparr>) =
     raise ERRCODE_T_R_SERIALIZATION_FAILURE ''gave up following Valkey Cluster redirects''"
  using redirect_chase_is_bounded [of "\<lambda>_. Inr ()" "Inr two_nodes" "sample_scan\<lparr>cs_redirected := [''foo''], cs_redirect_passes := 0\<rparr>"]
  by simp

end
