(* ===== verification/Backend.thy ===== *)
theory Backend
  imports Overlay Flush Conn Cluster
begin

text \<open>
  One backend process: the write buffer, the ledger, the overlay, the flush and the connection pool
  under PostgreSQL's transaction events (\<open>src/vfdw_xact.c\<close>, the event half of \<open>src/vfdw_wbuf.c\<close>, and
  the connection half of \<open>src/vfdw_flush.c\<close>).

  The sessions are an inductive step relation: statements, savepoints, errors and the ends of
  transactions in any order PostgreSQL allows. After an error the only steps are aborts; what an
  interrupted fold leaves in the ledger is arbitrary.
\<close>

section \<open>State\<close>

record backend =
  bk_wbuf :: wbuf
  bk_ledger :: ledger
  bk_overlay :: overlay
  bk_flush :: flush
  bk_pool :: conn_pool
  bk_maps :: cluster_maps

text \<open>
  What is outside: the connection environment, the flush's options, the stream behind each
  connection, what \<open>CLUSTER SHARDS\<close> would load, and the bytes a reset context keeps.
\<close>

record txn_env =
  te_conn :: conn_env
  te_flush :: flush_env
  te_wire :: "VfdwConnKey \<Rightarrow> wire"
  te_load :: "VfdwSlotMap result"
  te_initial :: nat

section \<open>Acquiring the flush's connection\<close>

type_synonym 'a pooled = "'a result \<times> conn_pool \<times> cluster_maps"

definition vfdw_flush_connect :: "txn_env \<Rightarrow> VfdwWriteUnit \<Rightarrow> VfdwWriteOp list \<Rightarrow> conn_pool \<Rightarrow> cluster_maps \<Rightarrow> VfdwConnKey pooled" where
  "vfdw_flush_connect env unit ops pool maps =
     (let ce = te_conn env; sid = u_serverid unit; uid = u_userid unit; umid = u_umid unit in
      if \<not> so_cluster (ce_server_options ce sid) then
        (case vfdw_get_connection ce sid uid umid pool of (r, pool1, _) \<Rightarrow> (r, pool1, maps))
      else case vfdw_flush_cluster_slot ops of
        Inl e \<Rightarrow> (Inl e, pool, maps)
      | Inr slot \<Rightarrow>
          (case vfdw_get_connection_cluster ce sid uid umid pool of
             (Inl e, pool1, _) \<Rightarrow> (Inl e, pool1, maps)
           | (Inr key, pool1, _) \<Rightarrow>
               if slot < 0 then (Inr key, pool1, maps)
               else (case vfdw_cluster_map (te_load env) sid uid maps of
                       (Inl e, maps1) \<Rightarrow> (Inl e, pool1, maps1)
                     | (Inr m, maps1) \<Rightarrow>
                         if sm_owner m (nat slot) < 0 then (Inr key, pool1, maps1)
                         else let node = sm_nodes m ! nat (sm_owner m (nat slot)) in
                           (case vfdw_get_connection_node ce sid uid umid (cn_host node) (cn_port node)
                                   (vfdw_release_connection (Some key) pool1) of
                              (r, pool2, _) \<Rightarrow> (r, pool2, maps1)))))"

definition vfdw_flush_acquire :: "txn_env \<Rightarrow> VfdwWriteUnit \<Rightarrow> VfdwWriteOp list \<Rightarrow> conn_pool \<Rightarrow> cluster_maps \<Rightarrow> VfdwConnKey pooled" where
  "vfdw_flush_acquire env unit ops pool maps =
     (if vfdw_conn_peek (u_serverid unit) (u_userid unit) pool \<noteq> None
      then (raise ERRCODE_INTERNAL_ERROR ''valkey_fdw: connection left in conversation at pre-commit'', pool, maps)
      else case vfdw_flush_connect env unit ops pool maps of
        (Inl e, pool1, maps1) \<Rightarrow> (Inl e, pool1, maps1)
      | (Inr key, pool1, maps1) \<Rightarrow>
          (case vfdw_conn_select_db (te_conn env) (u_database unit) (the (map_of pool1 key)) of
             (Inl e, v) \<Rightarrow> (Inl e, AList.update key v pool1, maps1)
           | (Inr _, v) \<Rightarrow> (Inr key, AList.update key v pool1, maps1)))"

text \<open>
  \<open>vfdw_flush_pre_commit\<close> on the backend: acquire when there is something to flush, run the flush
  on the connection's stream, and leave the connection as the flush left it.
\<close>

definition backend_pre_commit :: "txn_env \<Rightarrow> backend \<Rightarrow> (unit result \<times> backend) option" where
  "backend_pre_commit env b =
     (let fe = (te_flush env)\<lparr>fe_ledger := bk_ledger b\<rparr> in
      if vfdw_wbuf_is_empty (bk_wbuf b) then
        map_option (\<lambda>(r, st). (r, b\<lparr>bk_flush := st\<rparr>)) (vfdw_flush_pre_commit fe True (raise ERRCODE_INTERNAL_ERROR []) (bk_flush b))
      else case vfdw_flush_acquire env (wb_unit (bk_wbuf b)) (wbuf_log (bk_wbuf b)) (bk_pool b) (bk_maps b) of
        (Inl e, pool1, maps1) \<Rightarrow>
          map_option (\<lambda>(r, st). (r, b\<lparr>bk_flush := st, bk_pool := pool1, bk_maps := maps1\<rparr>))
            (vfdw_flush_pre_commit fe False (Inl e) (bk_flush b))
      | (Inr key, pool1, maps1) \<Rightarrow>
          let v = the (map_of pool1 key) in
          map_option (\<lambda>(r, st). (r, b\<lparr>bk_flush := st, bk_maps := maps1, bk_pool := AList.update key
               (v\<lparr>vc_script_loaded := fl_loaded st, vc_in_conversation := wire_busy (fl_wire st)\<rparr>) pool1\<rparr>))
            (vfdw_flush_pre_commit fe False (Inr (te_wire env key, vc_script_loaded v)) (bk_flush b)))"

section \<open>The callbacks\<close>

definition vfdw_wbuf_reset :: "nat \<Rightarrow> backend \<Rightarrow> backend" where
  "vfdw_wbuf_reset initial b =
     b\<lparr>bk_wbuf := wbuf_reset initial (bk_wbuf b), bk_ledger := vfdw_ledger_reset,
       bk_overlay := vfdw_overlay_reset (bk_overlay b)\<rparr>"

text \<open>\<open>curlevel\<close> is GetCurrentTransactionNestLevel().\<close>

definition vfdw_wbuf_subxact :: "SubXactEvent \<Rightarrow> int \<Rightarrow> backend \<Rightarrow> unit result \<times> backend" where
  "vfdw_wbuf_subxact event curlevel b =
     (case event of
        SUBXACT_EVENT_ABORT_SUB \<Rightarrow>
          let wb = wbuf_abort_sub curlevel (bk_wbuf b) in
          (case vfdw_ledger_rebuild_from_buffer (wbuf_log wb) of
             Inl e \<Rightarrow> (Inl e, b\<lparr>bk_wbuf := wb\<rparr>)
           | Inr led \<Rightarrow> (Inr (), b\<lparr>bk_wbuf := wb, bk_ledger := led, bk_overlay := vfdw_overlay_reset (bk_overlay b)\<rparr>))
      | SUBXACT_EVENT_PRE_COMMIT_SUB \<Rightarrow> (Inr (), b\<lparr>bk_wbuf := wbuf_pre_commit_sub curlevel (bk_wbuf b)\<rparr>)
      | SUBXACT_EVENT_COMMIT_SUB \<Rightarrow> (Inr (), b)
      | SUBXACT_EVENT_START_SUB \<Rightarrow> (Inr (), b))"

definition vfdw_xact_subxact_callback ::
  "SubXactEvent \<Rightarrow> SubTransactionId \<Rightarrow> int \<Rightarrow> backend \<Rightarrow> unit result \<times> backend" where
  "vfdw_xact_subxact_callback event mySubid curlevel b =
     (case vfdw_wbuf_subxact event curlevel b of
        (Inl e, b1) \<Rightarrow> (Inl e, b1)
      | (Inr _, b1) \<Rightarrow> (Inr (), b1\<lparr>bk_pool := vfdw_conn_subxact event mySubid (bk_pool b1)\<rparr>))"

definition conn_event :: "XactEvent \<Rightarrow> backend \<Rightarrow> backend" where
  "conn_event event b = b\<lparr>bk_pool := vfdw_conn_xact event (bk_pool b)\<rparr>"

definition end_transaction :: "txn_env \<Rightarrow> XactEvent \<Rightarrow> backend \<Rightarrow> backend" where
  "end_transaction env event b =
     (let b1 = vfdw_wbuf_reset (te_initial env) b
      in conn_event event (b1\<lparr>bk_flush := vfdw_flush_reset (bk_flush b1)\<rparr>))"

definition vfdw_xact_callback :: "txn_env \<Rightarrow> XactEvent \<Rightarrow> backend \<Rightarrow> (unit result \<times> backend) option" where
  "vfdw_xact_callback env event b =
     (let empty = vfdw_wbuf_is_empty (bk_wbuf b) in
      case event of
        XACT_EVENT_PRE_COMMIT \<Rightarrow>
          (case backend_pre_commit env b of
             None \<Rightarrow> None | Some (Inl e, b1) \<Rightarrow> Some (Inl e, b1) | Some (Inr _, b1) \<Rightarrow> Some (Inr (), conn_event event b1))
      | XACT_EVENT_PARALLEL_PRE_COMMIT \<Rightarrow>
          Some (if \<not> empty then (raise ERRCODE_INTERNAL_ERROR ''valkey_fdw write buffer is not empty in a parallel worker'', b)
                else (Inr (), conn_event event b))
      | XACT_EVENT_PRE_PREPARE \<Rightarrow>
          Some (if \<not> empty then (raise ERRCODE_FEATURE_NOT_SUPPORTED
                  ''cannot PREPARE a transaction that has written to valkey_fdw foreign tables'', b)
                else (Inr (), conn_event event b))
      | XACT_EVENT_PREPARE \<Rightarrow>
          Some (if \<not> empty then (raise ERRCODE_INTERNAL_ERROR ''valkey_fdw write buffer survived PREPARE'', b)
                else (Inr (), conn_event event b))
      | XACT_EVENT_COMMIT \<Rightarrow>
          Some (if \<not> fl_flushed (bk_flush b) \<and> \<not> empty
                then (raise ERRCODE_INTERNAL_ERROR ''valkey_fdw write buffer was not flushed at pre-commit'', b)
                else (Inr (), end_transaction env event b))
      | XACT_EVENT_PARALLEL_COMMIT \<Rightarrow>
          Some (if \<not> fl_flushed (bk_flush b) \<and> \<not> empty
                then (raise ERRCODE_INTERNAL_ERROR ''valkey_fdw write buffer was not flushed at pre-commit'', b)
                else (Inr (), end_transaction env event b))
      | XACT_EVENT_ABORT \<Rightarrow> Some (Inr (), end_transaction env event b)
      | XACT_EVENT_PARALLEL_ABORT \<Rightarrow> Some (Inr (), end_transaction env event b))"

section \<open>Sessions\<close>

record session =
  ss_backend :: backend
  ss_level :: int
  ss_failed :: bool

text \<open>\<open>ss_failed\<close>: an error is on its way to the abort of the current (sub)transaction.\<close>

definition session_init :: "flush \<Rightarrow> session" where
  "session_init fl = \<lparr>ss_backend = \<lparr>bk_wbuf = wbuf_init, bk_ledger = vfdw_ledger_reset, bk_overlay = overlay_init,
     bk_flush = fl, bk_pool = [], bk_maps = Map.empty\<rparr>, ss_level = 1, ss_failed = False\<rparr>"

definition upd_backend :: "(backend \<Rightarrow> backend) \<Rightarrow> session \<Rightarrow> session" where
  "upd_backend f s = s\<lparr>ss_backend := f (ss_backend s)\<rparr>"

inductive session_step :: "session \<Rightarrow> session \<Rightarrow> bool" where
  bind: "\<not> ss_failed s \<Longrightarrow> mo < 2 ^ 31 \<Longrightarrow>
    vfdw_wbuf_bind sid umid uid db mo mb (ss_level s) i (bk_wbuf (ss_backend s)) = Inr wb \<Longrightarrow>
    session_step s (upd_backend (\<lambda>b. b\<lparr>bk_wbuf := wb\<rparr>) s)"
| write_noted: "\<not> ss_failed s \<Longrightarrow> wbuf_push g r oper (ss_level s) cid (bk_wbuf (ss_backend s)) = Inr wb \<Longrightarrow>
    vfdw_ledger_note (wb_heap wb (wb_brk (bk_wbuf (ss_backend s)))) (bk_ledger (ss_backend s)) = Inr led \<Longrightarrow>
    session_step s (upd_backend (\<lambda>b. b\<lparr>bk_wbuf := wb, bk_ledger := led\<rparr>) s)"
| write_refused: "\<not> ss_failed s \<Longrightarrow> wbuf_push g r oper (ss_level s) cid (bk_wbuf (ss_backend s)) = Inr wb \<Longrightarrow>
    vfdw_ledger_note (wb_heap wb (wb_brk (bk_wbuf (ss_backend s)))) (bk_ledger (ss_backend s)) = Inl e \<Longrightarrow>
    session_step s ((upd_backend (\<lambda>b. b\<lparr>bk_wbuf := wb, bk_ledger := led\<rparr>) s)\<lparr>ss_failed := True\<rparr>)"
| fail: "\<not> ss_failed s \<Longrightarrow> session_step s (s\<lparr>ss_failed := True\<rparr>)"
| ask: "\<not> ss_failed s \<Longrightarrow>
    session_step s (upd_backend (\<lambda>b. b\<lparr>bk_overlay := snd (vfdw_overlay_check (bk_wbuf b) relid key cid (bk_overlay b))\<rparr>) s)"
| lease: "\<not> ss_failed s \<Longrightarrow>
    vfdw_get_connection_internal ce sid uid umid aware host port (bk_pool (ss_backend s)) = (rr, pool, n) \<Longrightarrow>
    session_step s ((upd_backend (\<lambda>b. b\<lparr>bk_pool := pool\<rparr>) s)\<lparr>ss_failed := isl rr\<rparr>)"
| start_sub: "\<not> ss_failed s \<Longrightarrow> session_step s (s\<lparr>ss_level := ss_level s + 1\<rparr>)"
| release_sub: "\<not> ss_failed s \<Longrightarrow> 2 \<le> ss_level s \<Longrightarrow>
    vfdw_xact_subxact_callback SUBXACT_EVENT_PRE_COMMIT_SUB subid (ss_level s) (ss_backend s) = (Inr (), b) \<Longrightarrow>
    session_step s (s\<lparr>ss_backend := b, ss_level := ss_level s - 1\<rparr>)"
| abort_sub: "2 \<le> ss_level s \<Longrightarrow>
    vfdw_xact_subxact_callback SUBXACT_EVENT_ABORT_SUB subid (ss_level s) (ss_backend s) = (Inr (), b) \<Longrightarrow>
    session_step s (s\<lparr>ss_backend := b, ss_level := ss_level s - 1, ss_failed := False\<rparr>)"
| commit: "\<not> ss_failed s \<Longrightarrow> ss_level s = 1 \<Longrightarrow> vfdw_xact_callback env XACT_EVENT_PRE_COMMIT (ss_backend s) = Some (Inr (), b) \<Longrightarrow>
    vfdw_xact_callback env XACT_EVENT_COMMIT b = Some (Inr (), b') \<Longrightarrow> session_step s (s\<lparr>ss_backend := b'\<rparr>)"
| commit_fails: "\<not> ss_failed s \<Longrightarrow> ss_level s = 1 \<Longrightarrow>
    vfdw_xact_callback env XACT_EVENT_PRE_COMMIT (ss_backend s) = Some (Inl e, b) \<Longrightarrow>
    session_step s (s\<lparr>ss_backend := b, ss_failed := True\<rparr>)"
| abort: "ss_level s = 1 \<Longrightarrow> vfdw_xact_callback env XACT_EVENT_ABORT (ss_backend s) = Some (Inr (), b) \<Longrightarrow>
    session_step s (s\<lparr>ss_backend := b, ss_failed := False\<rparr>)"

inductive reachable :: "session \<Rightarrow> bool" where
  start: "reachable (session_init fl)"
| move: "reachable s \<Longrightarrow> session_step s t \<Longrightarrow> reachable t"

section \<open>The fold does not look at links, levels or commands\<close>

definition relabel :: "addr option \<Rightarrow> addr option \<Rightarrow> int \<Rightarrow> VfdwWriteOp \<Rightarrow> VfdwWriteOp" where
  "relabel p n l oper = oper\<lparr>op_prev := p, op_next := n, op_level := l\<rparr>"

lemma relabel_simps [simp]:
  "op_kind (relabel p n l oper) = op_kind oper" "op_relid (relabel p n l oper) = op_relid oper"
  "op_tabletype (relabel p n l oper) = op_tabletype oper" "op_key (relabel p n l oper) = op_key oper"
  "op_oldkey (relabel p n l oper) = op_oldkey oper" "op_member (relabel p n l oper) = op_member oper"
  "op_oldmember (relabel p n l oper) = op_oldmember oper" "op_value (relabel p n l oper) = op_value oper"
  "op_score (relabel p n l oper) = op_score oper" "op_fields (relabel p n l oper) = op_fields oper"
  "op_ttls (relabel p n l oper) = op_ttls oper" "op_packed (relabel p n l oper) = op_packed oper"
  "op_packed_shape (relabel p n l oper) = op_packed_shape oper" "op_keyset (relabel p n l oper) = op_keyset oper"
  by (simp_all add: relabel_def)

lemma helper_frame [simp]:
  "vfdw_ledger_keyset (relabel p n l oper) = vfdw_ledger_keyset oper"
  "vfdw_ledger_check_duplicate plan (relabel p n l oper) = vfdw_ledger_check_duplicate plan oper"
  "vfdw_ledger_is_rename (relabel p n l oper) = vfdw_ledger_is_rename oper"
  "vfdw_ledger_member_precondition (relabel p n l oper) = vfdw_ledger_member_precondition oper"
  "vfdw_ledger_pack_pair (relabel p n l oper) = vfdw_ledger_pack_pair oper"
  "fold_field (relabel p n l oper) = fold_field oper"
  unfolding vfdw_ledger_keyset_def vfdw_ledger_check_duplicate_def vfdw_ledger_is_rename_def
    vfdw_ledger_member_precondition_def vfdw_ledger_pack_pair_def fold_field_def fun_eq_iff relabel_simps
  by (intro allI refl)+

lemma fold_frame [simp]:
  "vfdw_ledger_fold_rename i (relabel p n l oper) = vfdw_ledger_fold_rename i oper"
  "vfdw_ledger_fold_key_delete (relabel p n l oper) = vfdw_ledger_fold_key_delete oper"
  "vfdw_ledger_fold_hash (relabel p n l oper) = vfdw_ledger_fold_hash oper"
  "vfdw_ledger_fold_member (relabel p n l oper) = vfdw_ledger_fold_member oper"
  "vfdw_ledger_fold_list (relabel p n l oper) = vfdw_ledger_fold_list oper"
  "vfdw_ledger_fold_packed_op (relabel p n l oper) = vfdw_ledger_fold_packed_op oper"
  unfolding vfdw_ledger_fold_rename_def vfdw_ledger_fold_key_delete_def vfdw_ledger_fold_hash_def vfdw_ledger_fold_fields_def
    vfdw_ledger_fold_member_def vfdw_ledger_fold_list_def vfdw_ledger_fold_packed_op_def vfdw_ledger_fold_packed_def
    fold_packed_elem_def fun_eq_iff relabel_simps helper_frame
  by (intro allI refl)+

lemma note_frame: "vfdw_ledger_note (relabel p n l oper) = vfdw_ledger_note oper"
  unfolding vfdw_ledger_note_def fold_op_def fold_by_type_def fun_eq_iff relabel_simps helper_frame fold_frame
  by (intro allI refl)

lemma note_payload: "vfdw_ledger_note (payload oper) = vfdw_ledger_note oper"
proof -
  have "payload oper = relabel None None (op_level oper) oper" by (simp add: payload_def relabel_def)
  then show ?thesis by (simp add: note_frame)
qed

lemma note_level: "vfdw_ledger_note (oper\<lparr>op_level := l\<rparr>) = vfdw_ledger_note oper"
proof -
  have "oper\<lparr>op_level := l\<rparr> = relabel (op_prev oper) (op_next oper) l oper" by (simp add: relabel_def)
  then show ?thesis by (simp add: note_frame)
qed

lemma rebuild_map:
  "(\<And>x. vfdw_ledger_note (f x) = vfdw_ledger_note x) \<Longrightarrow>
   vfdw_ledger_rebuild_from_buffer (map f ops) = vfdw_ledger_rebuild_from_buffer ops"
proof -
  assume f: "\<And>x. vfdw_ledger_note (f x) = vfdw_ledger_note x"
  have "result_fold vfdw_ledger_note (map f ops) s = result_fold vfdw_ledger_note ops s" for s
  proof (induction ops arbitrary: s)
    case (Cons x xs)
    then show ?case using f by (cases "vfdw_ledger_note x s") simp_all
  qed simp
  then show ?thesis by (simp add: vfdw_ledger_rebuild_from_buffer_def)
qed

lemma log_sorted: "wbuf_inv lvl st \<Longrightarrow> sorted (map op_level (wbuf_log st))"
  by (auto simp: wbuf_inv_def levels_of_log levels_sorted_def)

text \<open>A prefix of an accepted log is accepted, and the operations below a level are a prefix.\<close>

lemma below_accepted:
  assumes "sorted (map op_level log)" and "vfdw_ledger_rebuild_from_buffer log = Inr led"
  shows "\<exists>led'. vfdw_ledger_rebuild_from_buffer (filter (\<lambda>oper. op_level oper < l) log) = Inr led'"
proof -
  let ?P = "\<lambda>oper. op_level oper < l"
  have "takeWhile ?P log = filter ?P log" using assms(1) by (rule takeWhile_filter_sorted)
  then have "log = filter ?P log @ dropWhile ?P log" by (metis takeWhile_dropWhile_id)
  then have "result_fold vfdw_ledger_note (filter ?P log @ dropWhile ?P log) vfdw_ledger_reset = Inr led"
    using assms(2) by (simp add: vfdw_ledger_rebuild_from_buffer_def)
  then show ?thesis unfolding vfdw_ledger_rebuild_from_buffer_def by (rule result_fold_prefix) blast
qed

section \<open>The invariant of a session\<close>

text \<open>
  Outside an error the ledger is the fold of the log; during one, the operations below the current
  level still fold, which is what the coming abort needs.
\<close>

definition session_inv :: "session \<Rightarrow> bool" where
  "session_inv s \<longleftrightarrow>
     (let b = ss_backend s; wb = bk_wbuf b; log = wbuf_log wb in
      1 \<le> ss_level s \<and> wbuf_inv (ss_level s) wb \<and> overlay_inv wb (bk_overlay b) \<and> pool_idle (bk_pool b) \<and>
      u_max_ops (wb_unit wb) < 2 ^ 31 \<and>
      (\<not> ss_failed s \<longrightarrow> vfdw_ledger_rebuild_from_buffer log = Inr (bk_ledger b)) \<and>
      (\<exists>led. vfdw_ledger_rebuild_from_buffer (filter (\<lambda>oper. op_level oper < ss_level s) log) = Inr led))"

lemma session_invD:
  assumes "session_inv s"
  shows "1 \<le> ss_level s" "wbuf_inv (ss_level s) (bk_wbuf (ss_backend s))"
    "overlay_inv (bk_wbuf (ss_backend s)) (bk_overlay (ss_backend s))" "pool_idle (bk_pool (ss_backend s))"
    "u_max_ops (wb_unit (bk_wbuf (ss_backend s))) < 2 ^ 31"
    "\<not> ss_failed s \<Longrightarrow> vfdw_ledger_rebuild_from_buffer (wbuf_log (bk_wbuf (ss_backend s))) = Inr (bk_ledger (ss_backend s))"
    "\<exists>led. vfdw_ledger_rebuild_from_buffer (filter (\<lambda>oper. op_level oper < ss_level s) (wbuf_log (bk_wbuf (ss_backend s)))) = Inr led"
  using assms by (auto simp: session_inv_def Let_def)

lemma session_invI:
  assumes "1 \<le> ss_level s" "wbuf_inv (ss_level s) (bk_wbuf (ss_backend s))"
    "overlay_inv (bk_wbuf (ss_backend s)) (bk_overlay (ss_backend s))" "pool_idle (bk_pool (ss_backend s))"
    "u_max_ops (wb_unit (bk_wbuf (ss_backend s))) < 2 ^ 31"
    "vfdw_ledger_rebuild_from_buffer (wbuf_log (bk_wbuf (ss_backend s))) = Inr (bk_ledger (ss_backend s))"
  shows "session_inv s"
  using assms below_accepted [OF log_sorted [OF assms(2)] assms(6)] by (simp add: session_inv_def Let_def)

lemma session_inv_fail: "session_inv s \<Longrightarrow> session_inv (s\<lparr>ss_failed := True\<rparr>)"
  by (auto simp: session_inv_def Let_def)

lemma rebuild_nil: "vfdw_ledger_rebuild_from_buffer [] = Inr vfdw_ledger_reset"
  by (simp add: vfdw_ledger_rebuild_from_buffer_def)

lemma bind_cap:
  assumes "vfdw_wbuf_bind sid umid uid db mo mb nest i st = Inr st'" and "mo < 2 ^ 31" "u_max_ops (wb_unit st) < 2 ^ 31"
  shows "u_max_ops (wb_unit st') < 2 ^ 31"
  using assms by (auto simp: vfdw_wbuf_bind_def vfdw_wbuf_context_def Let_def split: if_splits)

lemma push_note:
  assumes "wbuf_inv lvl st" and "wbuf_push g r oper lvl cid st = Inr wb"
  shows "\<exists>x. wbuf_log wb = wbuf_log st @ [x] \<and> op_level x = lvl \<and> vfdw_ledger_note x = vfdw_ledger_note (wb_heap wb (wb_brk st))"
proof -
  obtain as where rel: "wbuf_rel st as" using assms(1) by (auto simp: wbuf_inv_def)
  let ?x = "payload (oper\<lparr>op_level := lvl, op_cid := cid\<rparr>)"
  have "payload (wb_heap wb (wb_brk st)) = ?x" by (rule push_rel(3) [OF rel assms(2)])
  then have "vfdw_ledger_note ?x = vfdw_ledger_note (wb_heap wb (wb_brk st))" by (metis note_payload)
  moreover have "wbuf_log wb = wbuf_log st @ [?x]" by (rule wl.push_log [OF assms])
  ultimately show ?thesis by (intro exI [of _ ?x]) simp
qed

lemma truncate_unit_cap:
  "u_max_ops (wb_unit (fst (wbuf_truncate n lvl st d))) = u_max_ops (wb_unit st)"
  by (induction n lvl st d rule: wbuf_truncate.induct)
     (auto simp: vfdw_wbuf_unlink_tail_def Let_def split: option.splits)

lemma abort_unit_cap: "u_max_ops (wb_unit (wbuf_abort_sub lvl st)) = u_max_ops (wb_unit st)"
  using truncate_unit_cap [of "nat (wb_nlive st)" lvl st False]
  by (auto simp: wbuf_abort_sub_def vfdw_wbuf_rebind_after_truncate_def split: prod.splits)

lemma promote_unit: "wb_unit (wbuf_promote n lvl p st) = wb_unit st"
  by (induction n lvl p st rule: wbuf_promote.induct) (auto split: option.splits)

lemma commit_unit_cap: "u_max_ops (wb_unit (wbuf_pre_commit_sub lvl st)) = u_max_ops (wb_unit st)"
  by (simp add: wbuf_pre_commit_sub_def Let_def promote_unit)

lemma reset_unit_cap: "u_max_ops (wb_unit (wbuf_reset n st)) = u_max_ops (wb_unit st)"
  by (simp add: wbuf_reset_def Let_def)

lemma overlay_short: "overlay_inv st ov \<Longrightarrow> length (wbuf_log st) < 2 ^ 64"
  by (auto simp: overlay_inv_def log_of_rel)

section \<open>The flush's connection\<close>

lemma pool_idle_update:
  "pool_idle pool \<Longrightarrow> vc_leased v \<or> vc_conn v = None \<or> \<not> vc_in_conversation v \<Longrightarrow> pool_idle (AList.update key v pool)"
  by (auto simp: pool_idle_def update_conv')

lemma release_idle:
  "pool_idle pool \<Longrightarrow> map_of pool key \<noteq> None \<Longrightarrow> \<not> vc_in_conversation (the (map_of pool key)) \<Longrightarrow>
   pool_idle (vfdw_release_connection (Some key) pool)"
  by (auto simp: vfdw_release_connection_def intro!: pool_idle_update split: option.splits)

text \<open>A leased connection, in a pool that is idle otherwise.\<close>

definition leased_ok :: "VfdwConnKey result \<Rightarrow> conn_pool \<Rightarrow> bool" where
  "leased_ok r pool \<longleftrightarrow> pool_idle pool \<and>
     (\<forall>key. r = Inr key \<longrightarrow> map_of pool key \<noteq> None \<and> vc_leased (the (map_of pool key)) \<and> \<not> vc_in_conversation (the (map_of pool key)))"

lemma get_leased:
  assumes "vfdw_get_connection_internal ce sid uid umid aware host port pool = (r, pool', n)" and "pool_idle pool"
  shows "leased_ok r pool'"
proof -
  note f = lease_facts [OF assms(2,1)]
  show ?thesis unfolding leased_ok_def
  proof (intro conjI allI impI)
    fix key assume r: "r = Inr key"
    then have m: "map_of pool' key \<noteq> None" using f by blast
    then show "map_of pool' key \<noteq> None" .
    show "vc_leased (the (map_of pool' key))" "\<not> vc_in_conversation (the (map_of pool' key))"
      using f r the_entry [OF m, of ce] by auto
  qed (use f in blast)
qed

lemma flush_connect_leased:
  assumes "vfdw_flush_connect env unit ops pool maps = (r, pool', maps')" and "pool_idle pool"
  shows "leased_ok r pool'"
proof -
  let ?ce = "te_conn env" and ?sid = "u_serverid unit" and ?uid = "u_userid unit" and ?umid = "u_umid unit"
  obtain r0 p0 n0 where g0: "vfdw_get_connection ?ce ?sid ?uid ?umid pool = (r0, p0, n0)" by (metis surj_pair)
  obtain r1 p1 n1 where g1: "vfdw_get_connection_cluster ?ce ?sid ?uid ?umid pool = (r1, p1, n1)" by (metis surj_pair)
  have l0: "leased_ok r0 p0" using get_leased [OF g0 [unfolded vfdw_get_connection_def] assms(2)] .
  have l1: "leased_ok r1 p1" using get_leased [OF g1 [unfolded vfdw_get_connection_cluster_def] assms(2)] .
  have node: "leased_ok r2 p2" if "r1 = Inr key"
    "vfdw_get_connection_node ?ce ?sid ?uid ?umid h pt (vfdw_release_connection (Some key) p1) = (r2, p2, n2)" for key h pt r2 p2 n2
    using get_leased [OF that(2) [unfolded vfdw_get_connection_node_def]] l1 that(1) release_idle by (simp add: leased_ok_def)
  have inl: "leased_ok (Inl e) p" if "leased_ok q p" for e q p using that by (simp add: leased_ok_def)
  have idle: "leased_ok (Inl e) pool" for e using assms(2) by (simp add: leased_ok_def)
  show ?thesis
    using assms(1) l0 l1 node inl [OF l1] idle unfolding vfdw_flush_connect_def Let_def g0 g1
    by (auto split: if_splits sum.splits prod.splits)
qed

lemma select_db_keeps:
  "vfdw_conn_select_db ce db v = (r, v') \<Longrightarrow> vc_leased v' = vc_leased v"
  by (auto simp: vfdw_conn_select_db_def vfdw_conn_command_def Let_def split: if_splits sum.splits)

lemma flush_acquire_idle:
  assumes "vfdw_flush_acquire env unit ops pool maps = (r, pool', maps')" and "pool_idle pool"
  shows "pool_idle pool' \<and> (\<forall>key. r = Inr key \<longrightarrow> vc_leased (the (map_of pool' key)))"
proof (cases "vfdw_conn_peek (u_serverid unit) (u_userid unit) pool \<noteq> None")
  case True
  then show ?thesis using assms by (auto simp: vfdw_flush_acquire_def)
next
  case False
  obtain c p1 m1 where c: "vfdw_flush_connect env unit ops pool maps = (c, p1, m1)" by (metis surj_pair)
  note l = flush_connect_leased [OF c assms(2)]
  show ?thesis
  proof (cases c)
    case (Inl e)
    then show ?thesis using assms(1) False c l by (auto simp: vfdw_flush_acquire_def leased_ok_def)
  next
    case (Inr key)
    obtain q v where s: "vfdw_conn_select_db (te_conn env) (u_database unit) (the (map_of p1 key)) = (q, v)" by fastforce
    have lv: "vc_leased v" using select_db_keeps [OF s] l Inr by (simp add: leased_ok_def)
    have "pool' = AList.update key v p1 \<and> (\<forall>k. r = Inr k \<longrightarrow> k = key)"
      using assms(1) False c Inr s by (cases q) (auto simp: vfdw_flush_acquire_def)
    then show ?thesis using lv l pool_idle_update [of p1 v key] by (auto simp: leased_ok_def update_conv')
  qed
qed

lemma pre_commit_frame:
  assumes "backend_pre_commit env b = Some (r, b')" and "pool_idle (bk_pool b)"
  shows "bk_wbuf b' = bk_wbuf b" "bk_ledger b' = bk_ledger b" "bk_overlay b' = bk_overlay b" "pool_idle (bk_pool b')"
proof -
  obtain q p1 m1 where a: "vfdw_flush_acquire env (wb_unit (bk_wbuf b)) (wbuf_log (bk_wbuf b)) (bk_pool b) (bk_maps b) = (q, p1, m1)"
    by (metis surj_pair)
  note l = flush_acquire_idle [OF a assms(2)]
  have "bk_wbuf b' = bk_wbuf b \<and> bk_ledger b' = bk_ledger b \<and> bk_overlay b' = bk_overlay b \<and> pool_idle (bk_pool b')"
    using assms a l
    by (cases q) (auto simp: backend_pre_commit_def Let_def intro!: pool_idle_update split: if_splits)
  then show "bk_wbuf b' = bk_wbuf b" "bk_ledger b' = bk_ledger b" "bk_overlay b' = bk_overlay b" "pool_idle (bk_pool b')"
    by auto
qed

section \<open>Every step keeps the invariant\<close>

lemma each_idle:
  assumes "\<And>v. \<not> vc_leased (f v) \<Longrightarrow> vc_conn (f v) \<noteq> None \<Longrightarrow> \<not> vc_in_conversation (f v)"
  shows "pool_idle (each f pool)"
  unfolding pool_idle_def map_of_each using assms by blast

lemma subxact_entry_quiet:
  "vc_conn (conn_subxact_entry subid v) \<noteq> None \<Longrightarrow> \<not> vc_in_conversation (conn_subxact_entry subid v)"
  by (auto simp: conn_subxact_entry_def Let_def split: if_splits)

lemma subxact_idle: "pool_idle pool \<Longrightarrow> pool_idle (vfdw_conn_subxact event subid pool)"
  using each_idle [of "conn_subxact_entry subid"] subxact_entry_quiet by (simp add: vfdw_conn_subxact_def)

lemma xact_idle: "pool_idle pool \<Longrightarrow> pool_idle (vfdw_conn_xact event pool)"
  using each_idle [of conn_xact_entry] xact_entry_quiet by (simp add: vfdw_conn_xact_def)

text \<open>An abort of the current subtransaction: it cannot raise, and what it leaves.\<close>

lemma abort_sub_effect:
  assumes "session_inv s"
  shows "\<exists>b'. vfdw_xact_subxact_callback SUBXACT_EVENT_ABORT_SUB subid (ss_level s) (ss_backend s) = (Inr (), b') \<and>
     wbuf_log (bk_wbuf b') = filter (\<lambda>oper. op_level oper < ss_level s) (wbuf_log (bk_wbuf (ss_backend s))) \<and>
     vfdw_ledger_rebuild_from_buffer (wbuf_log (bk_wbuf b')) = Inr (bk_ledger b') \<and>
     wbuf_inv (ss_level s - 1) (bk_wbuf b') \<and> overlay_inv (bk_wbuf b') (bk_overlay b') \<and> pool_idle (bk_pool b') \<and>
     u_max_ops (wb_unit (bk_wbuf b')) < 2 ^ 31"
proof -
  let ?b = "ss_backend s" and ?l = "ss_level s"
  let ?wb = "wbuf_abort_sub ?l (bk_wbuf ?b)"
  note i = session_invD [OF assms]
  have log: "wbuf_log ?wb = filter (\<lambda>oper. op_level oper < ?l) (wbuf_log (bk_wbuf ?b))" by (rule wl.abort_log [OF i(2)])
  obtain led where led: "vfdw_ledger_rebuild_from_buffer (wbuf_log ?wb) = Inr led" using i(7) log by auto
  have "length (wbuf_log ?wb) \<le> length (wbuf_log (bk_wbuf ?b))" unfolding log by (rule length_filter_le)
  then have "length (wbuf_log ?wb) < 2 ^ 64" using overlay_short [OF i(3)] by linarith
  then have ov: "overlay_inv ?wb (vfdw_overlay_reset (bk_overlay ?b))"
    using overlay_inv_reset wl.abort_inv [OF i(2)] by blast
  show ?thesis
    using led log ov i(4,5) wl.abort_inv [OF i(2)]
    by (simp add: vfdw_xact_subxact_callback_def vfdw_wbuf_subxact_def Let_def subxact_idle abort_unit_cap)
qed

lemma end_transaction_inv:
  assumes "pool_idle (bk_pool b)" and "u_max_ops (wb_unit (bk_wbuf b)) < 2 ^ 31"
  shows "session_inv (s\<lparr>ss_backend := end_transaction env event b, ss_level := 1\<rparr>)"
proof -
  let ?wb = "wbuf_reset (te_initial env) (bk_wbuf b)"
  have w: "wbuf_inv 1 ?wb" "wbuf_log ?wb = []" using wbuf_reset_inv_log by auto
  have "overlay_inv ?wb (vfdw_overlay_reset (bk_overlay b))" using overlay_inv_reset [OF w(1)] w(2) by simp
  then show ?thesis using w assms
    by (intro session_invI) (simp_all add: end_transaction_def vfdw_wbuf_reset_def conn_event_def Let_def rebuild_nil xact_idle reset_unit_cap)
qed

lemma session_inv_level:
  "session_inv s \<Longrightarrow> ss_level s = 1 \<Longrightarrow> s\<lparr>ss_backend := b\<rparr> = s\<lparr>ss_backend := b, ss_level := 1\<rparr>"
  by simp

lemma write_inv:
  assumes inv: "session_inv s" and nf: "\<not> ss_failed s"
    and push: "wbuf_push g r oper (ss_level s) cid (bk_wbuf (ss_backend s)) = Inr wb"
  shows "wbuf_inv (ss_level s) wb" "overlay_inv wb (bk_overlay (ss_backend s))" "u_max_ops (wb_unit wb) < 2 ^ 31"
    "vfdw_ledger_note (wb_heap wb (wb_brk (bk_wbuf (ss_backend s)))) (bk_ledger (ss_backend s)) = Inr led \<Longrightarrow>
       vfdw_ledger_rebuild_from_buffer (wbuf_log wb) = Inr led"
    "\<exists>led. vfdw_ledger_rebuild_from_buffer (filter (\<lambda>oper. op_level oper < ss_level s) (wbuf_log wb)) = Inr led"
proof -
  note i = session_invD [OF inv]
  show w: "wbuf_inv (ss_level s) wb" by (rule wl.push_inv [OF i(2) push])
  show "overlay_inv wb (bk_overlay (ss_backend s))" by (rule overlay_inv_push [OF i(3) push i(5)])
  show "u_max_ops (wb_unit wb) < 2 ^ 31" using push_frame(1) [OF push] i(5) by simp
  obtain x where x: "wbuf_log wb = wbuf_log (bk_wbuf (ss_backend s)) @ [x]" "op_level x = ss_level s"
    "vfdw_ledger_note x = vfdw_ledger_note (wb_heap wb (wb_brk (bk_wbuf (ss_backend s))))"
    using push_note [OF i(2) push] by blast
  show "\<exists>led. vfdw_ledger_rebuild_from_buffer (filter (\<lambda>oper. op_level oper < ss_level s) (wbuf_log wb)) = Inr led"
    using i(7) x(1,2) by simp
  assume "vfdw_ledger_note (wb_heap wb (wb_brk (bk_wbuf (ss_backend s)))) (bk_ledger (ss_backend s)) = Inr led"
  then show "vfdw_ledger_rebuild_from_buffer (wbuf_log wb) = Inr led"
    using i(6) [OF nf] x unfolding vfdw_ledger_rebuild_from_buffer_def by (simp add: result_fold_snoc)
qed

lemma release_inv:
  assumes inv: "session_inv s" and nf: "\<not> ss_failed s" and lvl: "2 \<le> ss_level s"
    and cb: "vfdw_xact_subxact_callback SUBXACT_EVENT_PRE_COMMIT_SUB subid (ss_level s) (ss_backend s) = (Inr (), b)"
  shows "session_inv (s\<lparr>ss_backend := b, ss_level := ss_level s - 1\<rparr>)"
proof -
  note i = session_invD [OF inv]
  let ?wb = "wbuf_pre_commit_sub (ss_level s) (bk_wbuf (ss_backend s))"
  have b: "b = (ss_backend s)\<lparr>bk_wbuf := ?wb\<rparr>"
    using cb by (auto simp: vfdw_xact_subxact_callback_def vfdw_wbuf_subxact_def vfdw_conn_subxact_def)
  have log: "wbuf_log ?wb = map (\<lambda>oper. oper\<lparr>op_level := min (op_level oper) (ss_level s - 1)\<rparr>) (wbuf_log (bk_wbuf (ss_backend s)))"
    by (rule wl.commit_log [OF i(2)])
  have "vfdw_ledger_rebuild_from_buffer (wbuf_log ?wb) = Inr (bk_ledger (ss_backend s))"
    unfolding log using i(6) [OF nf] by (simp add: rebuild_map note_level)
  then show ?thesis
    using lvl i(4,5) wl.commit_inv [OF i(2)] overlay_inv_commit_sub [OF i(3,2)]
    by (intro session_invI) (simp_all add: b commit_unit_cap)
qed

lemma session_step_inv: "session_step s t \<Longrightarrow> session_inv s \<Longrightarrow> session_inv t"
proof (induction rule: session_step.induct)
  case (bind s mo sid umid uid db mb i wb)
  note v = session_invD [OF bind.prems]
  show ?case using bind.hyps v wbuf_bind_inv_log [OF bind.hyps(3)] overlay_inv_bind [OF bind.hyps(3)] bind_cap [OF bind.hyps(3,2) v(5)]
    by (intro session_invI) (simp_all add: upd_backend_def)
next
  case (write_noted s g r oper cid wb led)
  note w = write_inv [OF write_noted.prems write_noted.hyps(1,2)] and v = session_invD [OF write_noted.prems]
  show ?case using w(1,2,3) w(4) [OF write_noted.hyps(3)] v(1,4)
    by (intro session_invI) (simp_all add: upd_backend_def)
next
  case (write_refused s g r oper cid wb e led)
  note w = write_inv [OF write_refused.prems write_refused.hyps(1,2)] and v = session_invD [OF write_refused.prems]
  show ?case using w(1,2,3,5) v(1,4) by (simp add: session_inv_def Let_def upd_backend_def)
next
  case (fail s)
  then show ?case by (intro session_inv_fail)
next
  case (ask s relid key cid)
  note v = session_invD [OF ask.prems]
  obtain as where rel: "wbuf_rel (bk_wbuf (ss_backend s)) as" "length as < 2 ^ 64" "overlay_tracks (bk_wbuf (ss_backend s)) as (bk_overlay (ss_backend s))"
    using v(3) by (auto simp: overlay_inv_def)
  have "overlay_inv (bk_wbuf (ss_backend s)) (snd (vfdw_overlay_check (bk_wbuf (ss_backend s)) relid key cid (bk_overlay (ss_backend s))))"
    using overlay_check_spec(2) [OF rel] overlay_invI [OF rel(1,2)] by blast
  then show ?case using v ask.hyps by (intro session_invI) (simp_all add: upd_backend_def)
next
  case (lease s ce sid uid umid aware host port rr pool n)
  note v = session_invD [OF lease.prems]
  have "pool_idle pool" using get_keeps_idle [OF lease.hyps(2) v(4)] .
  then show ?case using v lease.hyps(1) by (simp add: session_inv_def Let_def upd_backend_def)
next
  case (start_sub s)
  note v = session_invD [OF start_sub.prems]
  have "wbuf_inv (ss_level s + 1) (bk_wbuf (ss_backend s))" using wl.deeper [OF v(2)] by simp
  then show ?case using v start_sub.hyps by (intro session_invI) simp_all
next
  case (release_sub s subid b)
  then show ?case by (intro release_inv)
next
  case (abort_sub s subid b)
  obtain b' where "vfdw_xact_subxact_callback SUBXACT_EVENT_ABORT_SUB subid (ss_level s) (ss_backend s) = (Inr (), b')"
     "vfdw_ledger_rebuild_from_buffer (wbuf_log (bk_wbuf b')) = Inr (bk_ledger b')"
     "wbuf_inv (ss_level s - 1) (bk_wbuf b')" "overlay_inv (bk_wbuf b') (bk_overlay b')" "pool_idle (bk_pool b')"
     "u_max_ops (wb_unit (bk_wbuf b')) < 2 ^ 31"
    using abort_sub_effect [OF abort_sub.prems, of subid] by blast
  then show ?case using abort_sub.hyps by (intro session_invI) simp_all
next
  case (commit s env b b')
  note v = session_invD [OF commit.prems]
  obtain b0 where pc: "backend_pre_commit env (ss_backend s) = Some (Inr (), b0)" and b: "b = conn_event XACT_EVENT_PRE_COMMIT b0"
    using commit.hyps(3) by (auto simp: vfdw_xact_callback_def Let_def split: option.splits sum.splits)
  note f = pre_commit_frame [OF pc v(4)]
  have "b' = end_transaction env XACT_EVENT_COMMIT b"
    using commit.hyps(4) by (auto simp: vfdw_xact_callback_def Let_def split: if_splits)
  then show ?case using end_transaction_inv [where b = b and s = s and env = env and event = XACT_EVENT_COMMIT] f v(5) session_inv_level [OF commit.prems commit.hyps(2)]
    by (simp add: b conn_event_def vfdw_conn_xact_def)
next
  case (commit_fails s env e b)
  note v = session_invD [OF commit_fails.prems]
  have pc: "backend_pre_commit env (ss_backend s) = Some (Inl e, b)"
    using commit_fails.hyps(3) by (auto simp: vfdw_xact_callback_def Let_def split: option.splits sum.splits)
  note f = pre_commit_frame [OF pc v(4)]
  show ?case using v f commit_fails.hyps by (simp add: session_inv_def Let_def)
next
  case (abort s env b)
  note v = session_invD [OF abort.prems]
  have "b = end_transaction env XACT_EVENT_ABORT (ss_backend s)"
    using abort.hyps(2) by (simp add: vfdw_xact_callback_def Let_def)
  moreover have "s\<lparr>ss_backend := b, ss_failed := False\<rparr> = s\<lparr>ss_failed := False, ss_backend := b, ss_level := 1\<rparr>"
    using abort.hyps(1) by (cases s) simp
  ultimately show ?case
    using end_transaction_inv [OF v(4,5), where s = "s\<lparr>ss_failed := False\<rparr>" and env = env and event = XACT_EVENT_ABORT] by simp
qed

lemma init_inv: "session_inv (session_init fl)"
proof (rule session_invI)
  have "wbuf_log wbuf_init = []" by (simp add: wbuf_log_def wbuf_init_def)
  then show "vfdw_ledger_rebuild_from_buffer (wbuf_log (bk_wbuf (ss_backend (session_init fl)))) = Inr (bk_ledger (ss_backend (session_init fl)))"
    by (simp add: session_init_def rebuild_nil)
  have "overlay_tracks wbuf_init [] overlay_init" by (simp add: overlay_tracks_def overlay_init_def)
  then show "overlay_inv (bk_wbuf (ss_backend (session_init fl))) (bk_overlay (ss_backend (session_init fl)))"
    by (simp add: session_init_def overlay_inv_init)
  show "u_max_ops (wb_unit (bk_wbuf (ss_backend (session_init fl)))) < 2 ^ 31" by (simp add: session_init_def wbuf_init_def)
qed (simp_all add: session_init_def wbuf_init_inv pool_idle_def)

lemma reachable_inv: "reachable s \<Longrightarrow> session_inv s"
  by (induction rule: reachable.induct) (auto intro: init_inv session_step_inv)

section \<open>Properties\<close>

text \<open>Sessions for the witnesses: a savepoint with an error under way, and a transaction with one write.\<close>

definition bound_wbuf :: wbuf where
  "bound_wbuf = projr (vfdw_wbuf_bind 16384 16385 10 0 3 4096 1 64 wbuf_init)"

definition savepoint_session :: "flush \<Rightarrow> session" where
  "savepoint_session fl = (upd_backend (\<lambda>b. b\<lparr>bk_wbuf := bound_wbuf\<rparr>) (session_init fl))\<lparr>ss_level := 2, ss_failed := True\<rparr>"

lemma bound_session_reachable:
  "reachable (upd_backend (\<lambda>b. b\<lparr>bk_wbuf := bound_wbuf\<rparr>) (session_init fl))"
proof -
  let ?i = "session_init fl"
  have b: "vfdw_wbuf_bind 16384 16385 10 0 3 4096 (ss_level ?i) 64 (bk_wbuf (ss_backend ?i)) = Inr bound_wbuf"
    unfolding bound_wbuf_def session_init_def
    by (simp add: vfdw_wbuf_bind_def vfdw_wbuf_context_def wbuf_init_def Let_def)
  have nf: "\<not> ss_failed ?i" by (simp add: session_init_def)
  show ?thesis by (rule reachable.move [OF reachable.start session_step.bind [OF nf _ b]]) simp
qed

lemma savepoint_session_reachable: "reachable (savepoint_session fl)"
proof -
  let ?s = "upd_backend (\<lambda>b. b\<lparr>bk_wbuf := bound_wbuf\<rparr>) (session_init fl)"
  have nf: "\<not> ss_failed ?s" by (simp add: upd_backend_def session_init_def)
  have "reachable (?s\<lparr>ss_level := ss_level ?s + 1\<rparr>)"
    by (rule reachable.move [OF bound_session_reachable session_step.start_sub [OF nf]])
  then have "reachable (?s\<lparr>ss_level := ss_level ?s + 1, ss_failed := True\<rparr>)"
    using reachable.move [OF _ session_step.fail] nf by simp
  then show ?thesis by (simp add: savepoint_session_def upd_backend_def session_init_def)
qed

definition written_session :: "flush \<Rightarrow> session" where
  "written_session fl = upd_backend (\<lambda>b. b\<lparr>bk_wbuf := sample_buffer,
     bk_ledger := projr (vfdw_ledger_note (wb_heap sample_buffer 0) vfdw_ledger_reset)\<rparr>) (session_init fl)"

lemma written_session_reachable: "reachable (written_session fl)"
proof -
  let ?s = "upd_backend (\<lambda>b. b\<lparr>bk_wbuf := bound_wbuf\<rparr>) (session_init fl)"
  have nf: "\<not> ss_failed ?s" by (simp add: upd_backend_def session_init_def)
  have p: "wbuf_push 200 40 (zero_op\<lparr>op_key := ''user:1''\<rparr>) (ss_level ?s) 0 (bk_wbuf (ss_backend ?s)) = Inr sample_buffer"
    by (simp add: upd_backend_def session_init_def bound_wbuf_def wbuf_exec)
  have brk: "wb_brk (bk_wbuf (ss_backend ?s)) = 0"
    by (simp add: upd_backend_def bound_wbuf_def vfdw_wbuf_bind_def vfdw_wbuf_context_def wbuf_init_def Let_def)
  have led: "bk_ledger (ss_backend ?s) = vfdw_ledger_reset" by (simp add: upd_backend_def session_init_def)
  have h: "payload (wb_heap sample_buffer 0) = zero_op\<lparr>op_key := ''user:1'', op_level := 1\<rparr>"
    by (simp add: wbuf_exec payload_def zero_op_def)
  have "\<not> isl (vfdw_ledger_note (payload (wb_heap sample_buffer 0)) vfdw_ledger_reset)"
    unfolding h by (simp add: ledger_exec)
  then have n: "vfdw_ledger_note (wb_heap sample_buffer (wb_brk (bk_wbuf (ss_backend ?s)))) (bk_ledger (ss_backend ?s)) =
      Inr (projr (vfdw_ledger_note (wb_heap sample_buffer 0) vfdw_ledger_reset))"
    unfolding note_payload brk led by (cases "vfdw_ledger_note (wb_heap sample_buffer 0) vfdw_ledger_reset") simp_all
  show ?thesis
    using reachable.move [OF bound_session_reachable session_step.write_noted [OF nf p n]]
    by (simp add: written_session_def upd_backend_def session_init_def)
qed

text \<open>C31. In every state a session can reach, whatever mix of writes, scans, leases, savepoints, errors,
  commits and aborts led to it: the buffer is a well-formed chain at the current nest level, the
  overlay index is valid for it, every unleased open connection is idle, and, unless an error is
  under way, the incrementally maintained ledger is exactly the fold of the operation log.\<close>

theorem session_stays_consistent:
  assumes "reachable s"
  shows "wbuf_inv (ss_level s) (bk_wbuf (ss_backend s)) \<and>
         overlay_inv (bk_wbuf (ss_backend s)) (bk_overlay (ss_backend s)) \<and> pool_idle (bk_pool (ss_backend s)) \<and>
         (\<not> ss_failed s \<longrightarrow>
            vfdw_ledger_rebuild_from_buffer (wbuf_log (bk_wbuf (ss_backend s))) = Inr (bk_ledger (ss_backend s)))"
  using session_invD [OF reachable_inv [OF assms]] by blast

theorem session_stays_consistent_witness:
  "wbuf_inv 2 (bk_wbuf (ss_backend (savepoint_session sample_flush)))"
  using session_stays_consistent [OF savepoint_session_reachable, of sample_flush]
  by (simp add: savepoint_session_def)

text \<open>Aborting a subtransaction never raises, not even when the error that caused it came from the fold
  itself and left an operation in the buffer that the ledger refuses: the callback returns, the log
  is what it was below the aborted level, the ledger is its fold, and the session goes on one level
  up.\<close>

theorem subtransaction_abort_never_raises:
  assumes "reachable s" and "2 \<le> ss_level s"
  shows "\<exists>b. vfdw_xact_subxact_callback SUBXACT_EVENT_ABORT_SUB subid (ss_level s) (ss_backend s) = (Inr (), b) \<and>
     wbuf_log (bk_wbuf b) = filter (\<lambda>oper. op_level oper < ss_level s) (wbuf_log (bk_wbuf (ss_backend s))) \<and>
     vfdw_ledger_rebuild_from_buffer (wbuf_log (bk_wbuf b)) = Inr (bk_ledger b) \<and>
     reachable (s\<lparr>ss_backend := b, ss_level := ss_level s - 1, ss_failed := False\<rparr>)"
proof -
  obtain b where b: "vfdw_xact_subxact_callback SUBXACT_EVENT_ABORT_SUB subid (ss_level s) (ss_backend s) = (Inr (), b)"
    "wbuf_log (bk_wbuf b) = filter (\<lambda>oper. op_level oper < ss_level s) (wbuf_log (bk_wbuf (ss_backend s)))"
    "vfdw_ledger_rebuild_from_buffer (wbuf_log (bk_wbuf b)) = Inr (bk_ledger b)"
    using abort_sub_effect [OF reachable_inv [OF assms(1)], of subid] by blast
  then show ?thesis using reachable.move [OF assms(1) session_step.abort_sub [OF assms(2) b(1)]] by blast
qed

theorem subtransaction_abort_never_raises_witness:
  "\<exists>b. vfdw_xact_subxact_callback SUBXACT_EVENT_ABORT_SUB 2 2 (ss_backend (savepoint_session sample_flush)) = (Inr (), b)"
  using subtransaction_abort_never_raises [OF savepoint_session_reachable, of sample_flush 2]
  by (auto simp: savepoint_session_def)

lemma pre_commit_flushed:
  "backend_pre_commit env b = Some (Inr (), b') \<Longrightarrow> fl_flushed (bk_flush b')"
  by (auto simp: backend_pre_commit_def vfdw_flush_pre_commit_def Let_def
      split: if_splits prod.splits sum.splits option.splits)

lemma end_transaction_clean:
  "wbuf_log (bk_wbuf (end_transaction env event b)) = [] \<and> bk_ledger (end_transaction env event b) = vfdw_ledger_reset \<and>
   fst (vfdw_overlay_check (bk_wbuf (end_transaction env event b)) relid key cid (bk_overlay (end_transaction env event b))) = (VFDW_OVL_PASS, None)"
proof -
  have "wbuf_log (wbuf_reset (te_initial env) (bk_wbuf b)) = []" using wbuf_reset_inv_log by blast
  moreover have "vfdw_wbuf_is_empty (wbuf_reset (te_initial env) (bk_wbuf b))"
    by (simp add: vfdw_wbuf_is_empty_def wbuf_reset_def Let_def)
  ultimately show ?thesis
    by (simp add: end_transaction_def vfdw_wbuf_reset_def conn_event_def Let_def vfdw_overlay_check_def)
qed


definition sample_txn_env :: txn_env where
  "sample_txn_env = \<lparr>te_conn = sample_conn_env True, te_flush = sample_env, te_wire = \<lambda>_. quiet_wire,
     te_load = raise ERRCODE_INTERNAL_ERROR ''no cluster'', te_initial = 0\<rparr>"


text \<open>A transaction with buffered writes can never be prepared: PREPARE is refused with 0A000 exactly when
  an operation is live, so no write is lost to two-phase commit.\<close>

theorem prepare_refuses_writes:
  assumes "reachable s"
  shows "(vfdw_xact_callback env XACT_EVENT_PRE_PREPARE (ss_backend s) =
            Some (raise ERRCODE_FEATURE_NOT_SUPPORTED ''cannot PREPARE a transaction that has written to valkey_fdw foreign tables'', ss_backend s))
         = (wbuf_log (bk_wbuf (ss_backend s)) \<noteq> [])"
  using wl.empty_log [OF session_invD(2) [OF reachable_inv [OF assms]]]
  by (simp add: vfdw_xact_callback_def Let_def)

theorem prepare_refuses_writes_witness:
  "vfdw_xact_callback sample_txn_env XACT_EVENT_PRE_PREPARE (ss_backend (written_session sample_flush)) =
     Some (raise ERRCODE_FEATURE_NOT_SUPPORTED ''cannot PREPARE a transaction that has written to valkey_fdw foreign tables'',
           ss_backend (written_session sample_flush))"
proof -
  have "wbuf_log (bk_wbuf (ss_backend (written_session sample_flush))) \<noteq> []"
    by (simp add: written_session_def upd_backend_def wbuf_exec wbuf_log_def)
  then show ?thesis using prepare_refuses_writes [OF written_session_reachable, of sample_txn_env sample_flush] by simp
qed

end
