(* ===== verification/Score.thy ===== *)
theory Score
  imports Prelude
begin

text \<open>
  The zset score check of \<open>src/vfdw_score.c\<close>: the scanner that decides how much of a text is a
  decimal number, the test for an infinity, the verdict and the refusal.

  The reference is a grammar, \<open>decimal\<close>: an optional sign, a mantissa with at least one digit and
  an optional exponent. \<open>strtod\<close> is the C library's, a parameter: for a text it gives the number of
  characters consumed, whether \<open>errno\<close> is \<open>ERANGE\<close>, and the class of the value.
\<close>

section \<open>The code\<close>

datatype VfdwScoreVerdict =
    VFDW_SCORE_OK | VFDW_SCORE_EMPTY | VFDW_SCORE_NOT_A_NUMBER | VFDW_SCORE_TRAILING
  | VFDW_SCORE_OVERFLOW | VFDW_SCORE_UNDERFLOW | VFDW_SCORE_NOT_FINITE

definition is_sign :: "char \<Rightarrow> bool" where
  "is_sign c \<longleftrightarrow> c = CHR ''+'' \<or> c = CHR ''-''"

definition is_exp :: "char \<Rightarrow> bool" where
  "is_exp c \<longleftrightarrow> c = CHR ''e'' \<or> c = CHR ''E''"

text \<open>The three digit loops; the count of digits is the distance the index moved.\<close>

function digit_loop :: "bytes \<Rightarrow> nat \<Rightarrow> nat" where
  "digit_loop s i = (if i < length s \<and> is_digit (s ! i) then digit_loop s (i + 1) else i)"
  by auto
termination by (relation "measure (\<lambda>(s, i). length s - i)") auto

declare digit_loop.simps [simp del]

definition vfdw_val_score_scan :: "bytes \<Rightarrow> nat" where
  "vfdw_val_score_scan s =
     (let len = length s;
          i0 = (if 0 < len \<and> is_sign (s ! 0) then 1 else 0);
          i1 = digit_loop s i0;
          dot = i1 < len \<and> s ! i1 = CHR ''.'';
          i2 = (if dot then digit_loop s (i1 + 1) else i1);
          digits = (i1 - i0) + (if dot then i2 - (i1 + 1) else 0)
      in if digits = 0 then 0
         else if i2 < len \<and> is_exp (s ! i2)
         then let i3 = i2 + 1;
                  i4 = (if i3 < len \<and> is_sign (s ! i3) then i3 + 1 else i3);
                  i5 = digit_loop s i4
              in if i5 - i4 > 0 then i5 else i2
         else i2)"

definition lower_letter :: "char \<Rightarrow> char" where
  "lower_letter c = (if 65 \<le> (of_char c :: nat) \<and> (of_char c :: nat) \<le> 90 then char_of ((of_char c :: nat) + 32) else c)"

fun inf_loop :: "bytes \<Rightarrow> bytes \<Rightarrow> bool" where
  "inf_loop [] pat = True"
| "inf_loop (c # cs) [] = False"
| "inf_loop (c # cs) (x # pat) = (if lower_letter c \<noteq> x then False else inf_loop cs pat)"

definition vfdw_val_score_is_infinite :: "bytes \<Rightarrow> bool" where
  "vfdw_val_score_is_infinite s =
     (let t = (if s \<noteq> [] \<and> is_sign (hd s) then tl s else s)
      in if length t \<noteq> 3 \<and> length t \<noteq> 8 then False else inf_loop t ''infinity'')"

datatype float_class = FZero | FFinite | FHuge | FNan

record strtod_result =
  sd_used :: nat
  sd_erange :: bool
  sd_value :: float_class

definition vfdw_val_score_classify :: "(bytes \<Rightarrow> strtod_result) \<Rightarrow> bytes \<Rightarrow> VfdwScoreVerdict" where
  "vfdw_val_score_classify strtod s =
     (if s = [] then VFDW_SCORE_EMPTY
      else let used = vfdw_val_score_scan s in
        if used = 0
        then (if vfdw_val_score_is_infinite s then VFDW_SCORE_NOT_FINITE else VFDW_SCORE_NOT_A_NUMBER)
        else if used < length s then VFDW_SCORE_TRAILING
        else let r = strtod s in
          if sd_used r \<noteq> length s then VFDW_SCORE_TRAILING
          else if sd_erange r \<and> sd_value r = FHuge then VFDW_SCORE_OVERFLOW
          else if sd_erange r \<and> sd_value r = FZero then VFDW_SCORE_UNDERFLOW
          else if sd_value r = FHuge \<or> sd_value r = FNan then VFDW_SCORE_NOT_FINITE
          else VFDW_SCORE_OK)"

primrec vfdw_val_score_verdict_name :: "VfdwScoreVerdict \<Rightarrow> string" where
  "vfdw_val_score_verdict_name VFDW_SCORE_OK = ''ok''"
| "vfdw_val_score_verdict_name VFDW_SCORE_EMPTY = ''empty''"
| "vfdw_val_score_verdict_name VFDW_SCORE_NOT_A_NUMBER = ''not_a_number''"
| "vfdw_val_score_verdict_name VFDW_SCORE_TRAILING = ''trailing''"
| "vfdw_val_score_verdict_name VFDW_SCORE_OVERFLOW = ''overflow''"
| "vfdw_val_score_verdict_name VFDW_SCORE_UNDERFLOW = ''underflow''"
| "vfdw_val_score_verdict_name VFDW_SCORE_NOT_FINITE = ''not_finite''"

definition vfdw_val_check_score :: "(bytes \<Rightarrow> strtod_result) \<Rightarrow> bytes \<Rightarrow> unit result" where
  "vfdw_val_check_score strtod s =
     (if vfdw_val_score_classify strtod s = VFDW_SCORE_OK then Inr ()
      else raise ERRCODE_INVALID_PARAMETER_VALUE ''zset score must be a finite number'')"

section \<open>The grammar\<close>

definition sign_text :: "bytes \<Rightarrow> bool" where
  "sign_text sg \<longleftrightarrow> sg = [] \<or> (\<exists>c. sg = [c] \<and> is_sign c)"

definition mantissa :: "bytes \<Rightarrow> bool" where
  "mantissa m \<longleftrightarrow> (m \<noteq> [] \<and> list_all is_digit m) \<or>
     (\<exists>a b. m = a @ CHR ''.'' # b \<and> list_all is_digit a \<and> list_all is_digit b \<and> a @ b \<noteq> [])"

definition exponent :: "bytes \<Rightarrow> bool" where
  "exponent e \<longleftrightarrow> e = [] \<or> (\<exists>c sg ds. e = c # sg @ ds \<and> is_exp c \<and> sign_text sg \<and> ds \<noteq> [] \<and> list_all is_digit ds)"

definition decimal :: "bytes \<Rightarrow> bool" where
  "decimal s \<longleftrightarrow> (\<exists>sg m e. s = sg @ m @ e \<and> sign_text sg \<and> mantissa m \<and> exponent e)"

section \<open>The scanner on the rest of the text\<close>

lemma digit_loop_eq: "i \<le> length s \<Longrightarrow> digit_loop s i = i + length (takeWhile is_digit (drop i s))"
proof (induction s i rule: digit_loop.induct)
  case (1 s i)
  show ?case
  proof (cases "i < length s \<and> is_digit (s ! i)")
    case True
    then have "drop i s = s ! i # drop (i + 1) s" using Cons_nth_drop_Suc by fastforce
    then show ?thesis using 1 True by (subst digit_loop.simps) simp
  next
    case False
    have "takeWhile is_digit (drop i s) = []"
    proof (cases "i < length s")
      case True
      then have "drop i s = s ! i # drop (Suc i) s" by (simp add: Cons_nth_drop_Suc)
      then show ?thesis using False True by simp
    qed simp
    then show ?thesis using False by (subst digit_loop.simps) auto
  qed
qed

definition strip_sign :: "bytes \<Rightarrow> bytes \<times> bytes" where
  "strip_sign r = (case r of [] \<Rightarrow> ([], []) | c # t \<Rightarrow> if is_sign c then ([c], t) else ([], r))"

definition exp_len :: "bytes \<Rightarrow> nat" where
  "exp_len r = (case r of [] \<Rightarrow> 0
     | c # t \<Rightarrow> if is_exp c then
          (let (sg, u) = strip_sign t; ds = takeWhile is_digit u
           in if ds \<noteq> [] then 1 + length sg + length ds else 0) else 0)"

definition mant_len :: "bytes \<Rightarrow> nat" where
  "mant_len r = (let a = takeWhile is_digit r; t = dropWhile is_digit r in
     case t of [] \<Rightarrow> length a
     | c # u \<Rightarrow> if c = CHR ''.'' then
         (let b = takeWhile is_digit u in if a = [] \<and> b = [] then 0 else length a + 1 + length b)
       else length a)"

lemma split_at: "i < length s \<Longrightarrow> drop i s = s ! i # drop (Suc i) s"
  by (simp add: Cons_nth_drop_Suc)

lemma drop_takeWhile: "drop (length (takeWhile P xs)) xs = dropWhile P xs"
  by (induction xs) auto

lemma digit_loop_drop:
  "i \<le> length s \<Longrightarrow> digit_loop s i \<le> length s \<and> drop (digit_loop s i) s = dropWhile is_digit (drop i s) \<and>
   digit_loop s i - i = length (takeWhile is_digit (drop i s))"
proof -
  assume i: "i \<le> length s"
  have "length (takeWhile is_digit (drop i s)) \<le> length (drop i s)" by (rule length_takeWhile_le)
  then show ?thesis using i drop_takeWhile [of is_digit "drop i s"]
    by (auto simp: digit_loop_eq add.commute)
qed

lemma strip_sign_drop:
  "strip_sign (drop i s) = (if i < length s \<and> is_sign (s ! i) then ([s ! i], drop (Suc i) s) else ([], drop i s))"
proof (cases "i < length s")
  case True
  then show ?thesis by (subst split_at) (auto simp: strip_sign_def split_at)
qed (simp add: strip_sign_def)

lemma exp_len_drop:
  assumes "i < length s" and "is_exp (s ! i)"
  shows "exp_len (drop i s) = (let (sg, u) = strip_sign (drop (Suc i) s); ds = takeWhile is_digit u
           in if ds \<noteq> [] then 1 + length sg + length ds else 0)"
  using assms by (subst split_at) (simp_all add: exp_len_def)

lemma exp_part:
  assumes "i \<le> length s"
  shows "(if i < length s \<and> is_exp (s ! i)
          then let i3 = i + 1; i4 = (if i3 < length s \<and> is_sign (s ! i3) then i3 + 1 else i3); i5 = digit_loop s i4
               in if i5 - i4 > 0 then i5 else i
          else i) = i + exp_len (drop i s)"
proof (cases "i < length s \<and> is_exp (s ! i)")
  case True
  define i4 where "i4 = (if i + 1 < length s \<and> is_sign (s ! (i + 1)) then i + 1 + 1 else i + 1)"
  have "i4 \<le> length s" using True by (auto simp: i4_def)
  note l = digit_loop_drop [OF this]
  have e: "exp_len (drop i s) = (if takeWhile is_digit (drop i4 s) \<noteq> [] then (i4 - i) + length (takeWhile is_digit (drop i4 s)) else 0)"
    using True by (simp add: exp_len_drop strip_sign_drop i4_def)
  have "i < i4" by (simp add: i4_def)
  then show ?thesis using True l unfolding e i4_def [symmetric] Let_def
    by (cases "takeWhile is_digit (drop i4 s)") auto
next
  case False
  have "exp_len (drop i s) = 0"
  proof (cases "i < length s")
    case True
    then show ?thesis using False by (subst split_at) (auto simp: exp_len_def)
  qed (simp add: exp_len_def)
  then show ?thesis using False by auto
qed

lemma mant_part:
  assumes "i \<le> length s"
  defines "i1 \<equiv> digit_loop s i"
  defines "dot \<equiv> i1 < length s \<and> s ! i1 = CHR ''.''"
  defines "i2 \<equiv> (if dot then digit_loop s (i1 + 1) else i1)"
  shows "i2 \<le> length s \<and>
     ((i1 - i) + (if dot then i2 - (i1 + 1) else 0) = 0) = (mant_len (drop i s) = 0) \<and>
     (mant_len (drop i s) \<noteq> 0 \<longrightarrow> i2 = i + mant_len (drop i s))"
proof -
  note l = digit_loop_drop [OF assms(1), folded i1_def]
  have ge: "i \<le> i1" using assms(1) by (simp add: i1_def digit_loop_eq)
  show ?thesis
  proof (cases dot)
    case True
    then have lt: "i1 < length s" by (simp add: dot_def)
    then have "i1 + 1 \<le> length s" by simp
    note l2 = digit_loop_drop [OF this]
    have "i1 + 1 \<le> i2" using \<open>i1 + 1 \<le> length s\<close> True by (simp add: i2_def digit_loop_eq)
    moreover have "dropWhile is_digit (drop i s) = CHR ''.'' # drop (i1 + 1) s"
      using l True split_at [OF lt] by (simp add: dot_def)
    ultimately show ?thesis using True l l2 ge by (auto simp: mant_len_def Let_def i2_def)
  next
    case False
    have "dropWhile is_digit (drop i s) = drop i1 s" using l by simp
    moreover have "\<not> (\<exists>t. drop i1 s = CHR ''.'' # t)"
      using False split_at [of i1 s] by (cases "i1 < length s") (auto simp: dot_def)
    ultimately have "mant_len (drop i s) = length (takeWhile is_digit (drop i s))"
      by (auto simp: mant_len_def Let_def split: list.splits)
    then show ?thesis using False l ge by (auto simp: i2_def)
  qed
qed

text \<open>The scan, on the text after the sign and on the text after the mantissa.\<close>

lemma score_scan_eq:
  "vfdw_val_score_scan s =
     (case strip_sign s of (sg, r) \<Rightarrow>
        if mant_len r = 0 then 0 else length sg + mant_len r + exp_len (drop (mant_len r) r))"
proof -
  define i0 where "i0 = (if 0 < length s \<and> is_sign (s ! 0) then 1 else 0 :: nat)"
  have ss: "strip_sign s = (take i0 s, drop i0 s)"
    using strip_sign_drop [of 0 s] by (cases s) (auto simp: i0_def)
  have le: "i0 \<le> length s" by (cases s) (auto simp: i0_def)
  define i1 where "i1 = digit_loop s i0"
  define dot where "dot \<longleftrightarrow> i1 < length s \<and> s ! i1 = CHR ''.''"
  define i2 where "i2 = (if dot then digit_loop s (i1 + 1) else i1)"
  note m = mant_part [OF le, folded i1_def, folded dot_def, folded i2_def]
  have "vfdw_val_score_scan s = (if mant_len (drop i0 s) = 0 then 0 else i2 + exp_len (drop i2 s))"
    unfolding vfdw_val_score_scan_def Let_def i0_def [symmetric] i1_def [symmetric] dot_def [symmetric] i2_def [symmetric]
    by (simp only: exp_part [OF conjunct1 [OF m], unfolded Let_def] conjunct1 [OF conjunct2 [OF m]])
  then show ?thesis using m le by (simp add: ss add.commute)
qed

section \<open>The scanner accepts the longest number\<close>

lemma class_facts [simp]:
  "is_exp c \<Longrightarrow> \<not> is_digit c" "is_sign c \<Longrightarrow> \<not> is_digit c" "\<not> is_digit (CHR ''.'')" "\<not> is_sign (CHR ''.'')"
  "is_exp c \<Longrightarrow> c \<noteq> CHR ''.''" "is_sign c \<Longrightarrow> \<not> is_exp c"
  by (auto simp: is_exp_def is_sign_def is_digit_def)

lemma strip_sign_append: "sign_text sg \<Longrightarrow> r = [] \<or> \<not> is_sign (hd r) \<Longrightarrow> strip_sign (sg @ r) = (sg, r)"
  by (cases r) (auto simp: strip_sign_def sign_text_def)

lemma strip_sign_parts: "strip_sign r = (sg, u) \<Longrightarrow> r = sg @ u \<and> sign_text sg"
  by (cases r) (auto simp: strip_sign_def sign_text_def split: if_splits)

lemma takeWhile_digits: "list_all is_digit ds \<Longrightarrow> takeWhile is_digit (ds @ t) = ds @ takeWhile is_digit t"
  by (simp add: list_all_iff)

lemma dropWhile_digits: "list_all is_digit ds \<Longrightarrow> dropWhile is_digit (ds @ t) = dropWhile is_digit t"
  by (simp add: list_all_iff dropWhile_append)

lemma takeWhile_all: "list_all P (takeWhile P xs)"
  by (auto simp: list_all_iff dest: set_takeWhileD)

lemma mantissaE:
  assumes "mantissa m"
  obtains (int) "m \<noteq> []" "list_all is_digit m"
  | (frac) a b where "m = a @ CHR ''.'' # b" "list_all is_digit a" "list_all is_digit b" "a @ b \<noteq> []"
  using assms unfolding mantissa_def by blast

lemma mantissa_head: "mantissa m \<Longrightarrow> m \<noteq> [] \<and> \<not> is_sign (hd m)"
proof (erule mantissaE)
  assume "m \<noteq> []" "list_all is_digit m"
  then show ?thesis by (cases m) (auto dest: class_facts(2))
next
  fix a b assume "m = a @ CHR ''.'' # b" "list_all is_digit a"
  then show ?thesis by (cases a) (auto dest: class_facts(2))
qed

lemma mant_len_mantissa: assumes "mant_len r \<noteq> 0" shows "mantissa (take (mant_len r) r)"
proof -
  define a where "a = takeWhile is_digit r"
  define t where "t = dropWhile is_digit r"
  have r: "r = a @ t" and ad: "list_all is_digit a" by (simp_all add: a_def t_def takeWhile_all)
  show ?thesis
  proof (cases "\<exists>u. t = CHR ''.'' # u")
    case True
    then obtain u where u: "t = CHR ''.'' # u" by blast
    let ?b = "takeWhile is_digit u"
    have len: "mant_len r = length a + 1 + length ?b" and ne: "a @ ?b \<noteq> []"
      using assms u by (auto simp: mant_len_def Let_def a_def [symmetric] t_def [symmetric] split: if_splits)
    have "take (mant_len r) r = a @ CHR ''.'' # ?b"
      unfolding len using r u by (simp add: takeWhile_eq_take [symmetric])
    then show ?thesis using ad ne takeWhile_all unfolding mantissa_def by blast
  next
    case False
    then have "mant_len r = length a"
      by (auto simp: mant_len_def Let_def a_def [symmetric] t_def [symmetric] split: list.splits)
    then show ?thesis using r ad assms by (auto simp: mantissa_def)
  qed
qed

lemma mant_len_exact:
  assumes "mantissa m" and "t \<noteq> []" and "is_exp (hd t)"
  shows "mant_len (m @ t) = length m"
proof -
  have tw: "takeWhile is_digit t = []" "dropWhile is_digit t = t" using assms(2,3) by (cases t; simp)+
  from assms(1) show ?thesis
  proof (cases rule: mantissaE)
    case int
    then show ?thesis using assms(2,3) tw
      by (cases t) (auto simp: mant_len_def Let_def takeWhile_digits dropWhile_digits)
  next
    case frac
    then show ?thesis using tw by (auto simp: mant_len_def Let_def takeWhile_digits dropWhile_digits)
  qed
qed

lemma mant_len_ge: assumes "mantissa m" shows "length m \<le> mant_len (m @ t)"
  using assms
proof (cases rule: mantissaE)
  case int
  then show ?thesis
    by (auto simp: mant_len_def Let_def takeWhile_digits dropWhile_digits split: list.splits)
next
  case frac
  then show ?thesis by (auto simp: mant_len_def Let_def takeWhile_digits dropWhile_digits)
qed

lemma exp_len_exponent: "exponent (take (exp_len r) r)"
proof (cases r)
  case (Cons c t)
  obtain sg u where ss: "strip_sign t = (sg, u)" by (metis surj_pair)
  note st = strip_sign_parts [OF ss]
  let ?ds = "takeWhile is_digit u"
  show ?thesis
  proof (cases "is_exp c \<and> ?ds \<noteq> []")
    case True
    then have "exp_len r = 1 + length sg + length ?ds" using Cons ss by (simp add: exp_len_def)
    then have "take (exp_len r) r = c # sg @ ?ds" using Cons st by (simp add: takeWhile_eq_take [symmetric])
    then show ?thesis using True st takeWhile_all unfolding exponent_def by blast
  next
    case False
    then have "exp_len r = 0" using Cons ss by (auto simp: exp_len_def)
    then show ?thesis by (simp add: exponent_def)
  qed
qed (simp add: exponent_def)

lemma exp_len_ge: assumes "exponent e" shows "length e \<le> exp_len (e @ t)"
proof (cases "e = []")
  case False
  then obtain c sg ds where e: "e = c # sg @ ds" "is_exp c" "sign_text sg" "ds \<noteq> []" "list_all is_digit ds"
    using assms unfolding exponent_def by blast
  have h: "\<not> is_sign (hd ds)" using e(4,5) class_facts(2) by (cases ds) auto
  then have "strip_sign (sg @ ds @ t) = (sg, ds @ t)" using e(3,4) by (intro strip_sign_append) auto
  then show ?thesis using e by (simp add: exp_len_def takeWhile_digits)
qed simp

lemma scan_is_number: assumes "vfdw_val_score_scan s \<noteq> 0" shows "decimal (take (vfdw_val_score_scan s) s)"
proof -
  obtain sg r where ss: "strip_sign s = (sg, r)" by (metis surj_pair)
  note st = strip_sign_parts [OF ss]
  have m: "mant_len r \<noteq> 0" and len: "vfdw_val_score_scan s = length sg + mant_len r + exp_len (drop (mant_len r) r)"
    using assms ss by (auto simp: score_scan_eq split: if_splits)
  have "take (vfdw_val_score_scan s) s = sg @ take (mant_len r) r @ take (exp_len (drop (mant_len r) r)) (drop (mant_len r) r)"
    unfolding len by (subst conjunct1 [OF st]) (simp add: add.assoc take_add)
  then show ?thesis using st mant_len_mantissa [OF m] exp_len_exponent unfolding decimal_def by blast
qed

lemma scan_is_longest: assumes "decimal n" shows "length n \<le> vfdw_val_score_scan (n @ t)"
proof -
  obtain sg m e where n: "n = sg @ m @ e" "sign_text sg" "mantissa m" "exponent e"
    using assms unfolding decimal_def by blast
  note h = mantissa_head [OF n(3)]
  have ss: "strip_sign (n @ t) = (sg, m @ e @ t)"
    using strip_sign_append [OF n(2), of "m @ e @ t"] h n(1) by simp
  show ?thesis
  proof (cases "e = []")
    case True
    have "length m \<le> mant_len (m @ t)" by (rule mant_len_ge [OF n(3)])
    moreover from this have "mant_len (m @ t) \<noteq> 0" using h by (cases m) auto
    ultimately show ?thesis using ss n(1) True by (simp add: score_scan_eq)
  next
    case False
    then have x: "is_exp (hd (e @ t))" using n(4) by (auto simp: exponent_def)
    have "mant_len (m @ e @ t) = length m" using mant_len_exact [OF n(3) _ x] False by simp
    then show ?thesis using ss n(1) h exp_len_ge [OF n(4), of t] by (simp add: score_scan_eq)
  qed
qed

lemma check_score_iff:
  "(vfdw_val_check_score strtod s = Inr ()) =
     ((s \<noteq> [] \<and> vfdw_val_score_scan s \<ge> length s) \<and> sd_used (strtod s) = length s \<and>
      sd_value (strtod s) \<notin> {FHuge, FNan} \<and> \<not> (sd_erange (strtod s) \<and> sd_value (strtod s) = FZero))"
proof (cases "s = [] \<or> vfdw_val_score_scan s < length s")
  case True
  then show ?thesis by (auto simp: vfdw_val_check_score_def vfdw_val_score_classify_def Let_def)
next
  case False
  then have "vfdw_val_score_scan s \<noteq> 0" by (cases s) auto
  then show ?thesis using False
    by (cases "sd_value (strtod s)") (simp_all add: vfdw_val_check_score_def vfdw_val_score_classify_def Let_def)
qed

text \<open>C38. The score scanner accepts exactly the decimal numbers. What it returns is the length of the
  longest prefix of the text that the grammar (optional sign, mantissa with at least one digit,
  optional exponent) accepts, and 0 when there is none; so a score passes the check exactly when the
  whole text is such a number and \<open>strtod\<close> reads all of it into a finite double without underflow.\<close>

theorem score_scan_longest_number:
  "(vfdw_val_score_scan s \<noteq> 0 \<longrightarrow> decimal (take (vfdw_val_score_scan s) s)) \<and>
   (\<forall>k \<le> length s. decimal (take k s) \<longrightarrow> k \<le> vfdw_val_score_scan s) \<and>
   ((vfdw_val_check_score strtod s = Inr ()) =
      (decimal s \<and> sd_used (strtod s) = length s \<and> sd_value (strtod s) \<notin> {FHuge, FNan} \<and>
       \<not> (sd_erange (strtod s) \<and> sd_value (strtod s) = FZero)))"
proof -
  have longest: "k \<le> vfdw_val_score_scan s" if "k \<le> length s" "decimal (take k s)" for k
    using scan_is_longest [OF that(2), of "drop k s"] that(1) by simp
  have nonempty: "n \<noteq> []" if "decimal n" for n
    using that mantissa_head by (auto simp: decimal_def)
  have d: "decimal s \<longleftrightarrow> s \<noteq> [] \<and> vfdw_val_score_scan s \<ge> length s"
    using longest [of "length s"] scan_is_number [of s] nonempty [of s] by (cases "vfdw_val_score_scan s = 0") auto
  show ?thesis unfolding check_score_iff d using longest scan_is_number [of s] by blast
qed

theorem score_scan_longest_number_witness:
  "decimal (take (vfdw_val_score_scan ''1e'') ''1e'')"
proof -
  have "vfdw_val_score_scan ''1e'' \<noteq> 0"
    by (simp add: vfdw_val_score_scan_def digit_loop.simps is_sign_def is_exp_def is_digit_def)
  then show ?thesis using score_scan_longest_number [of "''1e''" "\<lambda>_. \<lparr>sd_used = 0, sd_erange = False, sd_value = FNan\<rparr>"] by simp
qed

end
