(* ===== verification/Vec.thy ===== *)
theory Vec
  imports Wire
begin

text \<open>
  Vectors between Valkey's raw little-endian FLOAT32 bytes and PostgreSQL's vector literal:
  \<open>src/vfdw_vec.c\<close>.

  A C \<open>float\<close> is its 32 bits, which is what the two \<open>memcpy\<close>s between \<open>float\<close> and \<open>uint32\<close> move.
  PostgreSQL's \<open>float4out\<close> and \<open>float4in\<close> are parameters. A C string is the list of its characters
  without the terminator, so that the terminator is the end of the list.
\<close>

section \<open>One element\<close>

definition vfdw_vec_get_le :: "bytes \<Rightarrow> 32 word" where
  "vfdw_vec_get_le p =
     of_char (p ! 0) OR push_bit 8 (of_char (p ! 1)) OR push_bit 16 (of_char (p ! 2)) OR push_bit 24 (of_char (p ! 3))"

definition vfdw_vec_put_le :: "32 word \<Rightarrow> bytes" where
  "vfdw_vec_put_le bits =
     [char_of (unat (bits AND 0xff)), char_of (unat (drop_bit 8 bits AND 0xff)),
      char_of (unat (drop_bit 16 bits AND 0xff)), char_of (unat (drop_bit 24 bits AND 0xff))]"

section \<open>Bytes to text\<close>

fun to_text_loop :: "(32 word \<Rightarrow> string) \<Rightarrow> bytes \<Rightarrow> nat \<Rightarrow> string" where
  "to_text_loop float4out b i =
     (if b = [] then []
      else (if i > 0 then '','' else []) @ float4out (vfdw_vec_get_le (take 4 b)) @ to_text_loop float4out (drop 4 b) (i + 4))"

declare to_text_loop.simps [simp del]

definition vfdw_vec_to_text :: "(32 word \<Rightarrow> string) \<Rightarrow> bytes \<Rightarrow> string \<Rightarrow> string result" where
  "vfdw_vec_to_text float4out b what =
     (if b = [] then raise ERRCODE_DATA_EXCEPTION (what @ '' holds no bytes, so it is not a vector'')
      else if length b mod 4 \<noteq> 0
      then raise ERRCODE_DATA_EXCEPTION (what @ '' is '' @ dec_nat (length b) @
             '' bytes, which is not a whole number of float32 elements'')
      else Inr (''['' @ to_text_loop float4out b 0 @ '']''))"

section \<open>Text to bytes\<close>

definition vfdw_vec_bad_form :: "string \<Rightarrow> 'a result" where
  "vfdw_vec_bad_form what = raise ERRCODE_DATA_EXCEPTION (what @ '' is not in vector form'')"

definition vfdw_vec_take_elem :: "(string \<Rightarrow> 32 word result) \<Rightarrow> string \<Rightarrow> string \<Rightarrow> (32 word \<times> string) result" where
  "vfdw_vec_take_elem float4in what p =
     (let stop = (\<lambda>c. c = CHR '','' \<or> c = CHR '']'');
          rest = dropWhile (\<lambda>c. \<not> stop c) p
      in if rest = [] then vfdw_vec_bad_form what
         else result_bind (float4in (takeWhile (\<lambda>c. \<not> stop c) p)) (\<lambda>f. Inr (f, rest)))"

lemma take_elem_shorter:
  "vfdw_vec_take_elem float4in what p = Inr (f, rest) \<Longrightarrow> rest \<noteq> [] \<and> length rest \<le> length p"
  by (auto simp: vfdw_vec_take_elem_def vfdw_vec_bad_form_def Let_def result_bind_Inr_iff length_dropWhile_le split: if_splits)

function from_text_loop :: "(string \<Rightarrow> 32 word result) \<Rightarrow> string \<Rightarrow> string \<Rightarrow> bytes \<Rightarrow> (bytes \<times> string) result" where
  "from_text_loop float4in what p buf =
     (let p1 = dropWhile isspace p in
      if p1 \<noteq> [] \<and> hd p1 = CHR '']'' \<and> buf = [] then raise ERRCODE_DATA_EXCEPTION (what @ '' is an empty vector'')
      else result_bind (vfdw_vec_take_elem float4in what p1) (\<lambda>(f, p2).
        let buf1 = buf @ vfdw_vec_put_le f in
        if hd p2 = CHR '']'' then Inr (buf1, p2) else from_text_loop float4in what (tl p2) buf1))"
  by pat_completeness auto
termination
proof (relation "measure (\<lambda>(_, _, p, _). length p)", goal_cases)
  case (2 float4in what p buf p1 fp f p2 buf1)
  then have "p2 \<noteq> [] \<and> length p2 \<le> length (dropWhile isspace p)" by (metis take_elem_shorter)
  then have "length (tl p2) < length (dropWhile isspace p)" by (cases p2) auto
  then show ?case using length_dropWhile_le [of isspace p] by simp
qed simp

declare from_text_loop.simps [simp del]

definition vfdw_vec_from_text :: "(string \<Rightarrow> 32 word result) \<Rightarrow> string \<Rightarrow> string \<Rightarrow> bytes result" where
  "vfdw_vec_from_text float4in what s =
     (let p = dropWhile isspace s in
      if p = [] \<or> hd p \<noteq> CHR ''['' then vfdw_vec_bad_form what
      else result_bind (from_text_loop float4in what (tl p) []) (\<lambda>(buf, q).
        if dropWhile isspace (tl q) \<noteq> [] then vfdw_vec_bad_form what else Inr buf))"

section \<open>Bits\<close>

lemma and_ff: "(w :: 32 word) AND 0xff = take_bit 8 w"
  by (simp add: take_bit_eq_mask mask_eq_exp_minus_1)

lemma of_char_less [simp]: "(of_char c :: nat) < 256"
  by (metis of_char_mod_256 mod_less_divisor zero_less_numeral)

lemma unat_of_char [simp]: "unat (of_char c :: 32 word) = of_char c"
proof -
  have "unat (of_nat (of_char c) :: 32 word) = of_char c mod 2 ^ 32"
    by (simp add: unat_of_nat)
  moreover have "(of_char c :: nat) < 2 ^ 32" by (rule less_trans [OF of_char_less]) simp
  ultimately show ?thesis by (simp add: of_nat_of_char)
qed

lemma unat_take8: "unat (take_bit 8 (w :: 32 word)) = unat w mod 256"
  unfolding unsigned_take_bit_eq by (simp add: take_bit_eq_mod)

lemma take_of_char: "take_bit 8 (of_char c :: 32 word) = of_char c"
proof (rule unsigned_word_eqI)
  show "unat (take_bit 8 (of_char c :: 32 word)) = unat (of_char c :: 32 word)"
    by (simp add: unat_take8)
qed

lemma bit_of_char: "bit (of_char c :: 32 word) n \<Longrightarrow> n < 8"
  using take_of_char [of c] by (metis bit_take_bit_iff)

lemma byte_word: "(of_char (char_of (unat (w AND 0xff :: 32 word)) :: char) :: 32 word) = take_bit 8 w"
proof (rule unsigned_word_eqI)
  show "unat (of_char (char_of (unat (w AND 0xff)) :: char) :: 32 word) = unat (take_bit 8 w)"
    by (simp add: and_ff unat_take8)
qed

lemma char_word: "char_of (unat (of_char c :: 32 word)) = c"
  by simp

lemma get_put_le: "vfdw_vec_get_le (vfdw_vec_put_le w) = w"
proof -
  have "take_bit 8 w OR push_bit 8 (take_bit 8 (drop_bit 8 w)) OR push_bit 16 (take_bit 8 (drop_bit 16 w)) OR
        push_bit 24 (take_bit 8 (drop_bit 24 w)) = w"
    (is "?u = w")
  proof (rule bit_word_eqI)
    fix n assume "n < LENGTH(32)"
    then show "bit ?u n = bit w n"
      by (cases "n < 16"; cases "n < 24") (auto simp: bit_or_iff bit_push_bit_iff bit_take_bit_iff bit_drop_bit_eq)
  qed
  then show ?thesis by (simp add: vfdw_vec_get_le_def vfdw_vec_put_le_def byte_word numeral_2_eq_2 numeral_3_eq_3)
qed

lemma put_get_le: assumes "length p = 4" shows "vfdw_vec_put_le (vfdw_vec_get_le p) = p"
proof -
  obtain a b c d where p: "p = [a, b, c, d]"
    using assms by (auto simp: numeral_eq_Suc length_Suc_conv)
  let ?w = "of_char a OR push_bit 8 (of_char b) OR push_bit 16 (of_char c) OR push_bit 24 (of_char d) :: 32 word"
  have "take_bit 8 ?w = of_char a" "take_bit 8 (drop_bit 8 ?w) = of_char b"
    "take_bit 8 (drop_bit 16 ?w) = of_char c" "take_bit 8 (drop_bit 24 ?w) = of_char d"
    by (rule bit_word_eqI; auto simp: bit_or_iff bit_push_bit_iff bit_take_bit_iff bit_drop_bit_eq dest: bit_of_char)+
  then show ?thesis
    unfolding vfdw_vec_put_le_def vfdw_vec_get_le_def p and_ff by (simp add: char_word numeral_2_eq_2 numeral_3_eq_3)
qed

section \<open>Round trip\<close>

text \<open>What is relied on of \<open>float4out\<close> and \<open>float4in\<close> for one float: the text reads back as the same
  bits, and is a non-empty run of characters without a delimiter or a leading blank. PostgreSQL's
  shortest-precise output has this for every float but a NaN with a payload.\<close>

definition prints_exactly :: "(32 word \<Rightarrow> string) \<Rightarrow> (string \<Rightarrow> 32 word result) \<Rightarrow> 32 word \<Rightarrow> bool" where
  "prints_exactly float4out float4in x \<longleftrightarrow>
     float4in (float4out x) = Inr x \<and> float4out x \<noteq> [] \<and> \<not> isspace (hd (float4out x)) \<and>
     CHR '','' \<notin> set (float4out x) \<and> CHR '']'' \<notin> set (float4out x)"

fun vec_elems :: "bytes \<Rightarrow> 32 word list" where
  "vec_elems b = (if b = [] then [] else vfdw_vec_get_le (take 4 b) # vec_elems (drop 4 b))"

declare vec_elems.simps [simp del]

lemma to_text_loop_pos: "0 < i \<Longrightarrow> 0 < j \<Longrightarrow> to_text_loop float4out b i = to_text_loop float4out b j"
proof (induction float4out b i arbitrary: j rule: to_text_loop.induct)
  case (1 float4out b i)
  have "b \<noteq> [] \<Longrightarrow> to_text_loop float4out (drop 4 b) (i + 4) = to_text_loop float4out (drop 4 b) (j + 4)"
    using 1(1) [of "j + 4"] by simp
  then show ?case using 1(2,3) by (subst (1 2) to_text_loop.simps) simp
qed

lemma to_text_loop_comma: "b \<noteq> [] \<Longrightarrow> to_text_loop float4out b 4 = CHR '','' # to_text_loop float4out b 0"
  using to_text_loop_pos [of 8 4 float4out "drop 4 b"] by (subst (1 2) to_text_loop.simps) simp

lemma take_elem_text:
  assumes "prints_exactly float4out float4in x" and "c = CHR '','' \<or> c = CHR '']''"
  shows "vfdw_vec_take_elem float4in what (float4out x @ c # t) = Inr (x, c # t)"
proof -
  let ?P = "\<lambda>d. d \<noteq> CHR '','' \<and> d \<noteq> CHR '']''"
  have all: "d \<in> set (float4out x) \<Longrightarrow> ?P d" for d using assms(1) by (auto simp: prints_exactly_def)
  have "takeWhile ?P (float4out x @ c # t) = float4out x" "dropWhile ?P (float4out x @ c # t) = c # t"
    using all assms(2) by (auto simp: takeWhile_append2 dropWhile_append2)
  then show ?thesis using assms by (auto simp: vfdw_vec_take_elem_def prints_exactly_def)
qed

lemma skip_text: "prints_exactly float4out float4in x \<Longrightarrow>
    dropWhile isspace (float4out x @ t) = float4out x @ t \<and> float4out x @ t \<noteq> [] \<and> hd (float4out x @ t) \<noteq> CHR '']''"
  by (cases "float4out x") (auto simp: prints_exactly_def)

lemma from_text_elem:
  assumes "prints_exactly float4out float4in x" and "c = CHR '','' \<or> c = CHR '']''"
  shows "from_text_loop float4in what (float4out x @ c # t) buf =
     (if c = CHR '']'' then Inr (buf @ vfdw_vec_put_le x, c # t)
      else from_text_loop float4in what t (buf @ vfdw_vec_put_le x))"
  by (subst from_text_loop.simps) (simp add: skip_text [OF assms(1)] take_elem_text [OF assms])

lemma from_to_loop:
  "b \<noteq> [] \<Longrightarrow> length b mod 4 = 0 \<Longrightarrow> list_all (prints_exactly float4out float4in) (vec_elems b) \<Longrightarrow>
   from_text_loop float4in what (to_text_loop float4out b 0 @ CHR '']'' # t) buf = Inr (buf @ b, CHR '']'' # t)"
proof (induction b arbitrary: buf rule: vec_elems.induct)
  case (1 b)
  let ?x = "vfdw_vec_get_le (take 4 b)"
  have len: "4 \<le> length b" using 1(2,3) by (cases "length b < 4") auto
  have x: "prints_exactly float4out float4in ?x"
    and others: "list_all (prints_exactly float4out float4in) (vec_elems (drop 4 b))"
    using 1(2,4) by (simp_all add: vec_elems.simps [of b])
  have put: "vfdw_vec_put_le ?x = take 4 b" using len by (simp add: put_get_le)
  have lit: "to_text_loop float4out b 0 = float4out ?x @ to_text_loop float4out (drop 4 b) 4"
    using 1(2) by (subst to_text_loop.simps) simp
  show ?case
  proof (cases "drop 4 b = []")
    case True
    then have "to_text_loop float4out (drop 4 b) 4 = []" and "take 4 b = b"
      using len by (simp_all add: to_text_loop.simps)
    then show ?thesis using from_text_elem [OF x, of "CHR '']''"] put lit by simp
  next
    case False
    have "length (drop 4 b) mod 4 = 0" using len 1(3) le_mod_geq [OF len] by simp
    note ih = 1(1) [OF 1(2) False this others]
    then show ?thesis using from_text_elem [OF x, of "CHR '',''"] put lit False
      by (simp add: to_text_loop_comma)
  qed
qed

lemma from_loop_shape:
  "from_text_loop float4in what p buf = Inr (b, q) \<Longrightarrow> length buf mod 4 = 0 \<Longrightarrow> b \<noteq> [] \<and> length b mod 4 = 0"
proof (induction float4in what p buf rule: from_text_loop.induct)
  case (1 float4in what p buf)
  then obtain f p2 where e: "vfdw_vec_take_elem float4in what (dropWhile isspace p) = Inr (f, p2)"
    by (subst (asm) (2) from_text_loop.simps) (auto simp: Let_def result_bind_Inr_iff split: if_splits)
  have l: "length (buf @ vfdw_vec_put_le f) mod 4 = 0" using 1(3) by (simp add: vfdw_vec_put_le_def)
  show ?case
  proof (cases "hd p2 = CHR '']''")
    case True
    then show ?thesis using 1(2) e l
      by (subst (asm) from_text_loop.simps) (auto simp: Let_def vfdw_vec_put_le_def split: if_splits)
  next
    case False
    then have "from_text_loop float4in what (tl p2) (buf @ vfdw_vec_put_le f) = Inr (b, q)"
      using 1(2) e by (subst (asm) from_text_loop.simps) (auto simp: Let_def split: if_splits)
    then show ?thesis using 1(1) [OF refl _ e refl refl False _ l] 1(2)
      by (subst (asm) (2) from_text_loop.simps) (auto simp: Let_def split: if_splits)
  qed
qed

text \<open>C39. Vectors survive the trip. Every literal the reader accepts is stored as a non-empty, whole
  number of float32 elements, so the printer never refuses it; and printing the stored bytes and
  reading the literal back gives the same bytes, for every float that PostgreSQL prints exactly.\<close>

theorem vector_text_roundtrip:
  assumes "list_all (prints_exactly float4out float4in) (vec_elems b)"
  shows "(b \<noteq> [] \<and> length b mod 4 = 0 \<longrightarrow>
            result_bind (vfdw_vec_to_text float4out b what) (vfdw_vec_from_text float4in what) = Inr b) \<and>
         (\<forall>s v. vfdw_vec_from_text float4in what s = Inr v \<longrightarrow> \<not> isl (vfdw_vec_to_text float4out v what))"
proof (intro conjI impI allI)
  assume b: "b \<noteq> [] \<and> length b mod 4 = 0"
  then show "result_bind (vfdw_vec_to_text float4out b what) (vfdw_vec_from_text float4in what) = Inr b"
    using from_to_loop [of b float4out float4in what "[]" "[]"] assms
    by (simp add: vfdw_vec_to_text_def vfdw_vec_from_text_def isspace_def)
next
  fix s v assume "vfdw_vec_from_text float4in what s = Inr v"
  then obtain q p where "from_text_loop float4in what p [] = Inr (v, q)"
    by (auto simp: vfdw_vec_from_text_def vfdw_vec_bad_form_def Let_def result_bind_Inr_iff split: if_splits)
  from from_loop_shape [OF this] show "\<not> isl (vfdw_vec_to_text float4out v what)"
    by (auto simp: vfdw_vec_to_text_def)
qed

text \<open>A concrete pair: the decimal numeral of the bits.\<close>

definition bits_out :: "32 word \<Rightarrow> string" where
  "bits_out x = dec_nat (unat x)"

definition bits_in :: "string \<Rightarrow> 32 word result" where
  "bits_in s = (case parse_dec s of Some i \<Rightarrow> Inr (word_of_int i) | None \<Rightarrow> raise ERRCODE_INVALID_PARAMETER_VALUE [])"

lemma bits_print_exactly: "prints_exactly bits_out bits_in x"
proof -
  have digits: "c \<in> set (dec_nat n) \<Longrightarrow> is_digit c" for c n using dec_nat_digits [of n] by (auto simp: list_all_iff)
  have h: "is_digit (hd (dec_nat (unat x)))" using digits [of _ "unat x"] by simp
  have p: "parse_dec (dec_nat (unat x)) = Some (int (unat x))"
    using parse_dec_int [of "int (unat x)"] by (simp add: dec_int_def)
  show ?thesis
    using h p digits [of "CHR '',''" "unat x"] digits [of "CHR '']''" "unat x"]
    by (auto simp: prints_exactly_def bits_out_def bits_in_def is_digit_def isspace_def)
qed

theorem vector_text_roundtrip_witness:
  "result_bind (vfdw_vec_to_text bits_out (vfdw_vec_put_le 1 @ vfdw_vec_put_le 0xbf800000) ''v'')
     (vfdw_vec_from_text bits_in ''v'') = Inr (vfdw_vec_put_le 1 @ vfdw_vec_put_le 0xbf800000)"
proof -
  let ?b = "vfdw_vec_put_le 1 @ vfdw_vec_put_le 0xbf800000"
  have "list_all (prints_exactly bits_out bits_in) (vec_elems ?b)" by (simp add: list_all_iff bits_print_exactly)
  moreover have "?b \<noteq> [] \<and> length ?b mod 4 = 0" by (simp add: vfdw_vec_put_le_def)
  ultimately show ?thesis
    using vector_text_roundtrip [where b = ?b and what = "''v''" and float4out = bits_out and float4in = bits_in] by simp
qed

end
