(* ===== verification/Tablemap.thy ===== *)
theory Tablemap
  imports Options Opcode
begin

text \<open>
  What a foreign table's columns mean: \<open>src/vfdw_map.c\<close> and \<open>src/vfdw_map_check.c\<close>, which turn the
  options of a table and its columns into a table map, and the shapes derived from it: the
  writability mask of \<open>src/vfdw_writable.c\<close>, the refusal of \<open>src/vfdw_refuse.c\<close> and the row identity
  of \<open>src/vfdw_rowid.c\<close>.

  A column is a record and the columns are a list, so \<open>natts\<close> is its length; attribute numbers are
  naturals and 0 is \<open>InvalidAttrNumber\<close>. A tuple descriptor is the list of its attributes, whose
  \<open>attnum\<close> is their position from 1. Only the last column of a packed table has a \<open>packed\<close> pointer,
  which is kept in the map. PostgreSQL's type catalogue is a record of functions.
\<close>

section \<open>Data\<close>

datatype VfdwIndexType = VFDW_INDEX_NONE | VFDW_INDEX_TAG | VFDW_INDEX_NUMERIC | VFDW_INDEX_VECTOR

datatype VfdwColKind =
    VFDW_COL_DROPPED | VFDW_COL_KEY | VFDW_COL_VALUE | VFDW_COL_FIELD | VFDW_COL_MEMBER | VFDW_COL_SCORE
  | VFDW_COL_POSITION | VFDW_COL_TTL | VFDW_COL_DISTANCE | VFDW_COL_LEGACY_VALUE

abbreviation (input) InvalidAttrNumber :: nat where
  "InvalidAttrNumber \<equiv> 0"

abbreviation (input) InvalidOid :: Oid where
  "InvalidOid \<equiv> 0"

abbreviation (input) BYTEAOID :: Oid where "BYTEAOID \<equiv> 17"
abbreviation (input) INT8OID :: Oid where "INT8OID \<equiv> 20"
abbreviation (input) INT2OID :: Oid where "INT2OID \<equiv> 21"
abbreviation (input) INT4OID :: Oid where "INT4OID \<equiv> 23"
abbreviation (input) TEXTOID :: Oid where "TEXTOID \<equiv> 25"
abbreviation (input) FLOAT4OID :: Oid where "FLOAT4OID \<equiv> 700"
abbreviation (input) FLOAT8OID :: Oid where "FLOAT8OID \<equiv> 701"
abbreviation (input) INTERVALOID :: Oid where "INTERVALOID \<equiv> 1186"

record VfdwColumn =
  col_attnum :: nat
  col_kind :: VfdwColKind
  col_index_type :: VfdwIndexType
  col_field :: "string option"
  col_typid :: Oid
  col_typmod :: int
  col_typinput :: Oid
  col_typioparam :: Oid
  col_typoutput :: Oid
  col_typisvarlena :: bool
  col_is_binary :: bool
  col_is_domain :: bool
  col_field_slot :: nat
  col_ttl_slot :: nat

record VfdwPackedElem =
  pe_col :: VfdwColumn
  pe_typlen :: int
  pe_typbyval :: bool
  pe_typalign :: char

record VfdwTableMap =
  tm_relid :: Oid
  tm_cols :: "VfdwColumn list"
  tm_keyattno :: nat
  tm_memberattno :: nat
  tm_scoreattno :: nat
  tm_valueattno :: nat
  tm_tabletype :: VfdwTableType
  tm_keyprefix :: "string option"
  tm_keyset :: "string option"
  tm_singleton_key :: "string option"
  tm_search_index :: "string option"
  tm_database :: int
  tm_legacy_value :: bool
  tm_readonly :: bool
  tm_nfields :: nat
  tm_nttl :: nat
  tm_hmget :: bool
  tm_nreq :: nat
  tm_packed :: "VfdwPackedElem option"

text \<open>\<open>palloc0\<close>.\<close>

definition zero_column :: VfdwColumn where
  "zero_column = \<lparr>col_attnum = 0, col_kind = VFDW_COL_DROPPED, col_index_type = VFDW_INDEX_NONE, col_field = None,
     col_typid = 0, col_typmod = 0, col_typinput = 0, col_typioparam = 0, col_typoutput = 0, col_typisvarlena = False,
     col_is_binary = False, col_is_domain = False, col_field_slot = 0, col_ttl_slot = 0\<rparr>"

record pg_attribute =
  att_name :: string
  att_isdropped :: bool
  att_typid :: Oid
  att_typmod :: int
  att_options :: options

record type_env =
  ty_base :: "Oid \<Rightarrow> Oid"
  ty_input :: "Oid \<Rightarrow> Oid \<times> Oid"
  ty_output :: "Oid \<Rightarrow> Oid \<times> bool"
  ty_element :: "Oid \<Rightarrow> Oid"
  ty_lenbyvalalign :: "Oid \<Rightarrow> int \<times> bool \<times> char"
  ty_opt :: opt_env

section \<open>Reading options\<close>

definition vfdw_tabletype_name :: "VfdwTableType \<Rightarrow> string" where
  "vfdw_tabletype_name t =
     (case t of VFDW_TABLE_STRING \<Rightarrow> ''string'' | VFDW_TABLE_HASH \<Rightarrow> ''hash'' | VFDW_TABLE_LIST \<Rightarrow> ''list''
      | VFDW_TABLE_SET \<Rightarrow> ''set'' | VFDW_TABLE_ZSET \<Rightarrow> ''zset'' | VFDW_TABLE_VECTOR \<Rightarrow> ''vector'')"

definition tabletype_of :: "nat \<Rightarrow> VfdwTableType" where
  "tabletype_of i =
     [VFDW_TABLE_STRING, VFDW_TABLE_HASH, VFDW_TABLE_LIST, VFDW_TABLE_SET, VFDW_TABLE_ZSET, VFDW_TABLE_VECTOR] ! i"

definition vfdw_map_default_kind :: "VfdwTableType \<Rightarrow> VfdwColKind" where
  "vfdw_map_default_kind t =
     (case t of VFDW_TABLE_STRING \<Rightarrow> VFDW_COL_VALUE | VFDW_TABLE_LIST \<Rightarrow> VFDW_COL_MEMBER
      | VFDW_TABLE_SET \<Rightarrow> VFDW_COL_MEMBER | _ \<Rightarrow> VFDW_COL_DROPPED)"

text \<open>The locals of \<open>vfdw_map_read_column_options\<close>.\<close>

record column_claims =
  cc_key :: bool
  cc_member :: bool
  cc_score :: bool
  cc_ttl :: bool
  cc_position :: bool
  cc_distance :: bool
  cc_field :: "string option"
  cc_index :: VfdwIndexType

definition vfdw_map_check_single_source :: "column_claims \<Rightarrow> unit result" where
  "vfdw_map_check_single_source cc =
     (let claims = of_bool (cc_key cc) + of_bool (cc_member cc) + of_bool (cc_score cc) + of_bool (cc_distance cc) +
                   of_bool (cc_ttl cc) + of_bool (cc_position cc) + of_bool (cc_field cc \<noteq> None \<and> \<not> cc_ttl cc) :: nat
      in if claims > 1 then raise ERRCODE_INVALID_PARAMETER_VALUE ''column options conflict'' else Inr ())"

definition vfdw_map_index_type :: "VfdwOptionDef \<Rightarrow> string \<Rightarrow> VfdwIndexType result" where
  "vfdw_map_index_type def v =
     result_bind (vfdw_parse_enum def v) (\<lambda>_.
       if v = ''tag'' then Inr VFDW_INDEX_TAG
       else if v = ''numeric'' then Inr VFDW_INDEX_NUMERIC
       else if v = ''vector'' then Inr VFDW_INDEX_VECTOR
       else raise ERRCODE_INTERNAL_ERROR ''valkey_fdw: index_type passed the validator and is not one of the three'')"

definition column_option_step :: "opt_env \<Rightarrow> string \<times> string \<Rightarrow> column_claims \<Rightarrow> column_claims result" where
  "column_option_step env opt cc =
     (case vfdw_find_option (fst opt) AttributeRelationId of
        None \<Rightarrow> Inr cc
      | Some def \<Rightarrow>
          let name = od_name def;
              flag = (\<lambda>upd. result_bind (vfdw_parse_bool env def (snd opt)) (\<lambda>b. Inr (upd b)))
          in if name = ''key'' then flag (\<lambda>b. cc\<lparr>cc_key := b\<rparr>)
             else if name = ''field'' then Inr (cc\<lparr>cc_field := Some (snd opt)\<rparr>)
             else if name = ''member'' then flag (\<lambda>b. cc\<lparr>cc_member := b\<rparr>)
             else if name = ''score'' then flag (\<lambda>b. cc\<lparr>cc_score := b\<rparr>)
             else if name = ''ttl'' then flag (\<lambda>b. cc\<lparr>cc_ttl := b\<rparr>)
             else if name = ''position'' then flag (\<lambda>b. cc\<lparr>cc_position := b\<rparr>)
             else if name = ''distance'' then flag (\<lambda>b. cc\<lparr>cc_distance := b\<rparr>)
             else if name = ''index_type''
             then result_bind (vfdw_map_index_type def (snd opt)) (\<lambda>i. Inr (cc\<lparr>cc_index := i\<rparr>))
             else Inr cc)"

definition claimed_kind :: "column_claims \<Rightarrow> VfdwColKind" where
  "claimed_kind cc =
     (if cc_key cc then VFDW_COL_KEY else if cc_ttl cc then VFDW_COL_TTL else if cc_position cc then VFDW_COL_POSITION
      else if cc_member cc then VFDW_COL_MEMBER else if cc_score cc then VFDW_COL_SCORE
      else if cc_distance cc then VFDW_COL_DISTANCE else if cc_field cc \<noteq> None then VFDW_COL_FIELD
      else VFDW_COL_DROPPED)"

definition vfdw_map_read_column_options :: "opt_env \<Rightarrow> options \<Rightarrow> VfdwColumn \<Rightarrow> VfdwColumn result" where
  "vfdw_map_read_column_options env options col =
     result_bind (result_fold (column_option_step env) options
       \<lparr>cc_key = False, cc_member = False, cc_score = False, cc_ttl = False, cc_position = False, cc_distance = False,
        cc_field = None, cc_index = col_index_type col\<rparr>) (\<lambda>cc.
     result_bind (vfdw_map_check_single_source cc) (\<lambda>_.
       Inr (col\<lparr>col_kind := claimed_kind cc, col_index_type := cc_index cc, col_field := cc_field cc\<rparr>)))"

definition vfdw_map_check_table_options :: "VfdwTableMap \<Rightarrow> unit result" where
  "vfdw_map_check_table_options m =
     (let bad = (\<lambda>msg. raise ERRCODE_INVALID_PARAMETER_VALUE msg) in
      if tm_singleton_key m \<noteq> None \<and> tm_keyprefix m \<noteq> None then bad ''singleton_key cannot be combined with keyprefix''
      else if tm_singleton_key m \<noteq> None \<and> tm_keyset m \<noteq> None then bad ''singleton_key cannot be combined with keyset''
      else if tm_keyprefix m \<noteq> None \<and> tm_keyset m \<noteq> None then bad ''keyprefix cannot be combined with keyset''
      else if tm_tabletype m = VFDW_TABLE_VECTOR \<and> tm_search_index m = None
      then bad ''tabletype vector requires the search_index option''
      else if tm_legacy_value m \<and> tm_tabletype m = VFDW_TABLE_STRING
      then bad ''legacy_value requires a collection tabletype''
      else Inr ())"

definition table_option_step :: "opt_env \<Rightarrow> string \<times> string \<Rightarrow> VfdwTableMap \<Rightarrow> VfdwTableMap result" where
  "table_option_step env opt m =
     (case vfdw_find_option (fst opt) ForeignTableRelationId of
        None \<Rightarrow> Inr m
      | Some def \<Rightarrow>
          let name = od_name def; v = snd opt in
          if name = ''tabletype''
          then result_bind (vfdw_parse_enum def v) (\<lambda>i. Inr (m\<lparr>tm_tabletype := tabletype_of i\<rparr>))
          else if name = ''keyprefix'' then Inr (m\<lparr>tm_keyprefix := Some v\<rparr>)
          else if name = ''keyset'' then Inr (m\<lparr>tm_keyset := Some v\<rparr>)
          else if name = ''singleton_key'' then Inr (m\<lparr>tm_singleton_key := Some v\<rparr>)
          else if name = ''search_index'' then Inr (m\<lparr>tm_search_index := Some v\<rparr>)
          else if name = ''database'' then result_bind (vfdw_parse_int def v) (\<lambda>i. Inr (m\<lparr>tm_database := i\<rparr>))
          else if name = ''legacy_value''
          then result_bind (vfdw_parse_bool env def v) (\<lambda>b. Inr (m\<lparr>tm_legacy_value := b\<rparr>))
          else if name = ''readonly'' then result_bind (vfdw_parse_bool env def v) (\<lambda>b. Inr (m\<lparr>tm_readonly := b\<rparr>))
          else Inr m)"

definition vfdw_map_read_table_options :: "opt_env \<Rightarrow> options \<Rightarrow> VfdwTableMap \<Rightarrow> VfdwTableMap result" where
  "vfdw_map_read_table_options env options m =
     result_bind (result_fold (table_option_step env) options (m\<lparr>tm_tabletype := VFDW_TABLE_STRING, tm_database := 0\<rparr>)) (\<lambda>m1.
     result_bind (vfdw_map_check_table_options m1) (\<lambda>_. Inr m1))"

section \<open>Assigning the columns no option claims\<close>

definition unclaimed :: "VfdwColumn \<Rightarrow> bool" where
  "unclaimed col \<longleftrightarrow> col_kind col = VFDW_COL_DROPPED \<and> col_attnum col \<noteq> InvalidAttrNumber"

text \<open>The state of the loop: \<open>keyattno\<close>, the count and the first of the unclaimed columns.\<close>

fun survey_loop :: "VfdwColumn list \<Rightarrow> nat \<times> nat \<times> nat \<Rightarrow> (nat \<times> nat \<times> nat) result" where
  "survey_loop [] st = Inr st"
| "survey_loop (col # cols) (keyattno, n, first) =
     (if col_kind col = VFDW_COL_KEY
      then if keyattno \<noteq> InvalidAttrNumber
           then raise ERRCODE_INVALID_PARAMETER_VALUE ''only one column may be the Valkey key''
           else survey_loop cols (col_attnum col, n, first)
      else if unclaimed col
      then survey_loop cols (keyattno, n + 1, if first = InvalidAttrNumber then col_attnum col else first)
      else survey_loop cols (keyattno, n, first))"

definition vfdw_map_survey :: "VfdwTableMap \<Rightarrow> (VfdwTableMap \<times> nat \<times> nat) result" where
  "vfdw_map_survey m =
     result_bind (survey_loop (tm_cols m) (tm_keyattno m, 0, InvalidAttrNumber)) (\<lambda>(keyattno, n, first).
       Inr (m\<lparr>tm_keyattno := keyattno\<rparr>, n, first))"

definition vfdw_map_report_unsourced :: "nat \<Rightarrow> 'a result" where
  "vfdw_map_report_unsourced n =
     raise ERRCODE_INVALID_TABLE_DEFINITION (dec_nat n @ '' column(s) have no source in Valkey'')"

definition vfdw_map_assign_legacy :: "VfdwTableMap \<Rightarrow> VfdwTableMap result" where
  "vfdw_map_assign_legacy m =
     (if length (tm_cols m) \<noteq> 2
      then raise ERRCODE_INVALID_TABLE_DEFINITION ''legacy_value tables must have exactly two columns''
      else if col_attnum (tm_cols m ! 0) = InvalidAttrNumber \<or> col_attnum (tm_cols m ! 1) = InvalidAttrNumber
      then raise ERRCODE_INVALID_TABLE_DEFINITION ''legacy_value tables must have exactly two columns''
      else Inr (m\<lparr>tm_cols := [(tm_cols m ! 0)\<lparr>col_kind := VFDW_COL_KEY\<rparr>, (tm_cols m ! 1)\<lparr>col_kind := VFDW_COL_LEGACY_VALUE\<rparr>],
                  tm_keyattno := col_attnum (tm_cols m ! 0)\<rparr>))"

definition vfdw_map_assign_key :: "VfdwTableMap \<Rightarrow> nat \<Rightarrow> nat \<Rightarrow> (VfdwTableMap \<times> nat) result" where
  "vfdw_map_assign_key m n first =
     (let (m1, n1) = (if tm_keyattno m = InvalidAttrNumber \<and> n > 0
                      then (m\<lparr>tm_cols := (tm_cols m)[first - 1 := (tm_cols m ! (first - 1))\<lparr>col_kind := VFDW_COL_KEY\<rparr>],
                              tm_keyattno := first\<rparr>, n - 1)
                      else (m, n))
      in if tm_keyattno m1 = InvalidAttrNumber
         then raise ERRCODE_INVALID_TABLE_DEFINITION ''no column holds the Valkey key''
         else Inr (m1, n1))"

fun claim_first :: "VfdwColKind \<Rightarrow> VfdwColumn list \<Rightarrow> VfdwColumn list option" where
  "claim_first kind [] = None"
| "claim_first kind (col # cols) =
     (if unclaimed col then Some (col\<lparr>col_kind := kind\<rparr> # cols) else map_option ((#) col) (claim_first kind cols))"

definition vfdw_map_assign_remaining :: "VfdwTableMap \<Rightarrow> nat \<Rightarrow> VfdwTableMap \<times> nat" where
  "vfdw_map_assign_remaining m n =
     (let kind = vfdw_map_default_kind (tm_tabletype m) in
      if n \<noteq> 1 \<or> kind = VFDW_COL_DROPPED then (m, n)
      else case claim_first kind (tm_cols m) of None \<Rightarrow> (m, n) | Some cols \<Rightarrow> (m\<lparr>tm_cols := cols\<rparr>, n - 1))"

definition vfdw_map_assign_defaults :: "VfdwTableMap \<Rightarrow> VfdwTableMap result" where
  "vfdw_map_assign_defaults m =
     result_bind (vfdw_map_survey m) (\<lambda>(m1, n, first).
       if tm_legacy_value m1 then vfdw_map_assign_legacy m1
       else result_bind (if tm_singleton_key m1 = None then vfdw_map_assign_key m1 n first else Inr (m1, n)) (\<lambda>(m2, n2).
         case vfdw_map_assign_remaining m2 n2 of (m3, n3) \<Rightarrow>
           if n3 > 0 then vfdw_map_report_unsourced n3 else Inr m3))"

section \<open>Checks\<close>

definition vfdw_filter_name_is_safe :: "string option \<Rightarrow> bool" where
  "vfdw_filter_name_is_safe name =
     (case name of
        None \<Rightarrow> False
      | Some s \<Rightarrow> s \<noteq> [] \<and> list_all (\<lambda>c.
          is_alnum c \<or> c = CHR ''_'' \<or> c = CHR ''-'' \<or> c = CHR ''.'') s)"

definition vfdw_map_position_conflict :: "type_env \<Rightarrow> VfdwTableMap \<Rightarrow> VfdwColumn \<Rightarrow> string option" where
  "vfdw_map_position_conflict env m col =
     (if tm_tabletype m \<noteq> VFDW_TABLE_LIST then Some ''position columns require tabletype list''
      else if ty_base env (col_typid col) \<noteq> INT4OID \<and> ty_base env (col_typid col) \<noteq> INT8OID
      then Some ''position columns must be of type integer or bigint''
      else None)"

definition vfdw_map_field_conflict :: "VfdwTableMap \<Rightarrow> VfdwColumn \<Rightarrow> string option" where
  "vfdw_map_field_conflict m col =
     (if tm_tabletype m \<noteq> VFDW_TABLE_HASH \<and> tm_tabletype m \<noteq> VFDW_TABLE_VECTOR
      then Some ''field columns require tabletype hash or vector''
      else if tm_tabletype m = VFDW_TABLE_VECTOR \<and> \<not> vfdw_filter_name_is_safe (col_field col)
      then Some ''field names on a vector table may hold only letters, digits and some punctuation''
      else None)"

text \<open>The column and the counters are updated in place, also when a reason is returned.\<close>

definition vfdw_map_ttl_conflict :: "type_env \<Rightarrow> VfdwTableMap \<Rightarrow> VfdwColumn \<Rightarrow> string option \<times> VfdwColumn \<times> VfdwTableMap" where
  "vfdw_map_ttl_conflict env m col =
     ((if tm_tabletype m \<noteq> VFDW_TABLE_HASH then Some ''ttl columns require tabletype hash''
       else if col_field col = None then Some ''a ttl column must also name its field''
       else if ty_base env (col_typid col) \<noteq> INTERVALOID then Some ''ttl columns must be of type interval''
       else None),
      col\<lparr>col_ttl_slot := tm_nttl m\<rparr>, m\<lparr>tm_nttl := tm_nttl m + 1\<rparr>)"

definition vfdw_map_column_conflict :: "type_env \<Rightarrow> VfdwTableMap \<Rightarrow> VfdwColumn \<Rightarrow> string option \<times> VfdwColumn \<times> VfdwTableMap" where
  "vfdw_map_column_conflict env m col =
     (case col_kind col of
        VFDW_COL_FIELD \<Rightarrow> (vfdw_map_field_conflict m col, col, m\<lparr>tm_nfields := tm_nfields m + 1\<rparr>)
      | VFDW_COL_SCORE \<Rightarrow>
          ((if tm_tabletype m \<noteq> VFDW_TABLE_ZSET then Some ''score columns require tabletype zset'' else None), col, m)
      | VFDW_COL_MEMBER \<Rightarrow>
          ((if tm_tabletype m \<noteq> VFDW_TABLE_LIST \<and> tm_tabletype m \<noteq> VFDW_TABLE_SET \<and> tm_tabletype m \<noteq> VFDW_TABLE_ZSET
            then Some ''member columns require tabletype list, set or zset'' else None), col, m)
      | VFDW_COL_POSITION \<Rightarrow> (vfdw_map_position_conflict env m col, col, m)
      | VFDW_COL_TTL \<Rightarrow> vfdw_map_ttl_conflict env m col
      | VFDW_COL_DISTANCE \<Rightarrow>
          ((if tm_tabletype m \<noteq> VFDW_TABLE_VECTOR then Some ''distance columns require tabletype vector'' else None), col, m)
      | VFDW_COL_VALUE \<Rightarrow>
          ((if tm_tabletype m \<noteq> VFDW_TABLE_STRING then Some ''this table type has no single value column'' else None), col, m)
      | _ \<Rightarrow> (None, col, m))"

fun check_types_loop :: "type_env \<Rightarrow> VfdwColumn list \<Rightarrow> VfdwTableMap \<Rightarrow> (VfdwColumn list \<times> VfdwTableMap) result" where
  "check_types_loop env [] m = Inr ([], m)"
| "check_types_loop env (col # cols) m =
     (case vfdw_map_column_conflict env m col of
        (Some why, _, _) \<Rightarrow>
          raise ERRCODE_INVALID_TABLE_DEFINITION (''column cannot be used with tabletype '' @ vfdw_tabletype_name (tm_tabletype m))
      | (None, col1, m1) \<Rightarrow> result_bind (check_types_loop env cols m1) (\<lambda>(cols2, m2). Inr (col1 # cols2, m2)))"

definition vfdw_map_check_types :: "type_env \<Rightarrow> VfdwTableMap \<Rightarrow> VfdwTableMap result" where
  "vfdw_map_check_types env m =
     result_bind (check_types_loop env (tm_cols m) m) (\<lambda>(cols, m1). Inr (m1\<lparr>tm_cols := cols\<rparr>))"

definition vfdw_map_resolve_type :: "type_env \<Rightarrow> VfdwColumn \<Rightarrow> Oid \<Rightarrow> int \<Rightarrow> VfdwColumn" where
  "vfdw_map_resolve_type env col typid typmod =
     (let basetypid = ty_base env typid in
      col\<lparr>col_typid := typid, col_typmod := typmod, col_typinput := fst (ty_input env typid),
          col_typioparam := snd (ty_input env typid), col_typoutput := fst (ty_output env typid),
          col_typisvarlena := snd (ty_output env typid), col_is_binary := (basetypid = BYTEAOID),
          col_is_domain := (basetypid \<noteq> typid)\<rparr>)"

definition vfdw_map_resolve_packed :: "type_env \<Rightarrow> VfdwTableMap \<Rightarrow> VfdwTableMap result" where
  "vfdw_map_resolve_packed env m =
     (if \<not> tm_legacy_value m then Inr m
      else let col = last (tm_cols m);
               elemtypid = ty_element env (col_typid col);
               elembase = (if elemtypid \<noteq> InvalidOid then ty_base env elemtypid else InvalidOid)
           in if col_is_domain col then raise ERRCODE_INVALID_TABLE_DEFINITION ''column cannot be a domain over an array''
              else if elembase \<noteq> TEXTOID \<and> elembase \<noteq> BYTEAOID
              then raise ERRCODE_INVALID_TABLE_DEFINITION ''column must be an array of text or of bytea''
              else case ty_lenbyvalalign env elemtypid of (len, byval, align) \<Rightarrow>
                Inr (m\<lparr>tm_packed := Some \<lparr>
                  pe_col = (vfdw_map_resolve_type env zero_column elemtypid (col_typmod col))
                             \<lparr>col_attnum := col_attnum col, col_kind := col_kind col\<rparr>,
                  pe_typlen = len, pe_typbyval = byval, pe_typalign = align\<rparr>\<rparr>))"

text \<open>The three slots of \<open>vfdw_map_index_roles\<close>: member, score, value.\<close>

fun roles_loop :: "VfdwColumn list \<Rightarrow> nat \<times> nat \<times> nat \<Rightarrow> (nat \<times> nat \<times> nat) result" where
  "roles_loop [] st = Inr st"
| "roles_loop (col # cols) (member, score, v) =
     (let twice = raise ERRCODE_INVALID_TABLE_DEFINITION ''only one column may hold each Valkey role'' in
      case col_kind col of
        VFDW_COL_MEMBER \<Rightarrow> if member \<noteq> InvalidAttrNumber then twice else roles_loop cols (col_attnum col, score, v)
      | VFDW_COL_SCORE \<Rightarrow> if score \<noteq> InvalidAttrNumber then twice else roles_loop cols (member, col_attnum col, v)
      | VFDW_COL_VALUE \<Rightarrow> if v \<noteq> InvalidAttrNumber then twice else roles_loop cols (member, score, col_attnum col)
      | _ \<Rightarrow> roles_loop cols (member, score, v))"

definition vfdw_map_index_roles :: "VfdwTableMap \<Rightarrow> VfdwTableMap result" where
  "vfdw_map_index_roles m =
     result_bind (roles_loop (tm_cols m) (InvalidAttrNumber, InvalidAttrNumber, InvalidAttrNumber)) (\<lambda>(member, score, v).
       Inr (m\<lparr>tm_memberattno := member, tm_scoreattno := score, tm_valueattno := v\<rparr>))"

fun hash_fetch_loop :: "VfdwColumn list \<Rightarrow> nat \<Rightarrow> VfdwColumn list \<times> nat" where
  "hash_fetch_loop [] nreq = ([], nreq)"
| "hash_fetch_loop (col # cols) nreq =
     (if col_kind col = VFDW_COL_FIELD
      then let (cols1, n) = hash_fetch_loop cols (nreq + 1) in (col\<lparr>col_field_slot := nreq\<rparr> # cols1, n)
      else if col_kind col = VFDW_COL_TTL
      then let (cols1, n) = hash_fetch_loop cols (nreq + 1) in (col # cols1, n)
      else let (cols1, n) = hash_fetch_loop cols nreq in (col # cols1, n))"

definition vfdw_map_plan_hash_fetch :: "VfdwTableMap \<Rightarrow> VfdwTableMap" where
  "vfdw_map_plan_hash_fetch m =
     (if tm_tabletype m \<noteq> VFDW_TABLE_HASH \<or> tm_legacy_value m then m\<lparr>tm_hmget := False, tm_nreq := 0\<rparr>
      else case hash_fetch_loop (tm_cols m) 0 of (cols, n) \<Rightarrow> m\<lparr>tm_cols := cols, tm_hmget := (n > 0), tm_nreq := n\<rparr>)"

section \<open>Building the map\<close>

definition map_column :: "type_env \<Rightarrow> nat \<Rightarrow> pg_attribute \<Rightarrow> VfdwColumn result" where
  "map_column env i attr =
     (if att_isdropped attr then Inr zero_column
      else vfdw_map_read_column_options (ty_opt env) (att_options attr)
             (vfdw_map_resolve_type env (zero_column\<lparr>col_attnum := i + 1\<rparr>) (att_typid attr) (att_typmod attr)))"

fun map_columns :: "type_env \<Rightarrow> nat \<Rightarrow> pg_attribute list \<Rightarrow> VfdwColumn list result" where
  "map_columns env i [] = Inr []"
| "map_columns env i (attr # attrs) =
     result_bind (map_column env i attr) (\<lambda>col.
     result_bind (map_columns env (i + 1) attrs) (\<lambda>cols. Inr (col # cols)))"

definition zero_map :: "Oid \<Rightarrow> VfdwTableMap" where
  "zero_map relid = \<lparr>tm_relid = relid, tm_cols = [], tm_keyattno = 0, tm_memberattno = 0, tm_scoreattno = 0,
     tm_valueattno = 0, tm_tabletype = VFDW_TABLE_STRING, tm_keyprefix = None, tm_keyset = None, tm_singleton_key = None,
     tm_search_index = None, tm_database = 0, tm_legacy_value = False, tm_readonly = False, tm_nfields = 0, tm_nttl = 0,
     tm_hmget = False, tm_nreq = 0, tm_packed = None\<rparr>"

definition vfdw_map_build :: "type_env \<Rightarrow> Oid \<Rightarrow> pg_attribute list \<Rightarrow> options \<Rightarrow> VfdwTableMap result" where
  "vfdw_map_build env relid attrs table_options =
     result_bind (vfdw_map_read_table_options (ty_opt env) table_options (zero_map relid)) (\<lambda>m0.
     result_bind (map_columns env 0 attrs) (\<lambda>cols.
     result_bind (vfdw_map_assign_defaults (m0\<lparr>tm_cols := cols\<rparr>)) (\<lambda>m1.
     result_bind (vfdw_map_check_types env m1) (\<lambda>m2.
     result_bind (vfdw_map_resolve_packed env m2) (\<lambda>m3.
     result_bind (vfdw_map_index_roles m3) (\<lambda>m4.
     Inr (vfdw_map_plan_hash_fetch m4)))))))"

section \<open>Writability and row identity\<close>

datatype CmdType = CMD_SELECT | CMD_UPDATE | CMD_INSERT | CMD_DELETE

record VfdwWritability =
  w_tabletype :: string
  w_readonly :: bool
  w_legacy :: bool
  w_search_index :: bool
  w_keyopts :: nat

definition writability_step :: "opt_env \<Rightarrow> VfdwWritability \<Rightarrow> string \<times> string \<Rightarrow> VfdwWritability" where
  "writability_step env w opt =
     (let name = fst opt; v = snd opt in
      if name = ''tabletype'' then w\<lparr>w_tabletype := v\<rparr>
      else if name = ''search_index'' then w\<lparr>w_search_index := True\<rparr>
      else if name = ''readonly'' then w\<lparr>w_readonly := w_readonly w \<or> oe_parse_bool env v = Some True\<rparr>
      else if name = ''legacy_value'' then w\<lparr>w_legacy := w_legacy w \<or> oe_parse_bool env v = Some True\<rparr>
      else if name = ''singleton_key'' \<or> name = ''keyprefix'' \<or> name = ''keyset'' then w\<lparr>w_keyopts := w_keyopts w + 1\<rparr>
      else w)"

definition vfdw_map_read_writability :: "opt_env \<Rightarrow> options \<Rightarrow> VfdwWritability" where
  "vfdw_map_read_writability env options =
     foldl (writability_step env)
       \<lparr>w_tabletype = ''string'', w_readonly = False, w_legacy = False, w_search_index = False, w_keyopts = 0\<rparr> options"

text \<open>The attributes that exist, from number 1 on, as the catalogue loop meets them; a dropped one has
  no options.\<close>

definition vfdw_map_has_distance_column :: "opt_env \<Rightarrow> options list \<Rightarrow> bool" where
  "vfdw_map_has_distance_column env attopts =
     list_ex (list_ex (\<lambda>(name, v). name = ''distance'' \<and> oe_parse_bool env v = Some True)) attopts"

definition vfdw_map_write_block :: "opt_env \<Rightarrow> options list \<Rightarrow> VfdwWritability \<Rightarrow> string option" where
  "vfdw_map_write_block env attopts w =
     (if w_readonly w then Some ''The table is declared read-only.''
      else if w_legacy w \<and> w_tabletype w = ''zset'' then Some ''A packed zset reads its members without their scores''
      else if w_tabletype w = ''vector'' then Some ''A vector table is read through a search index''
      else if w_search_index w then Some ''A table with a search_index is served by the search phase''
      else if w_keyopts w > 1 then Some ''This table names more than one key-discovery option''
      else if vfdw_map_has_distance_column env attopts then Some ''A distance column is what a search returns''
      else None)"

text \<open>The mask as the set of operations whose bit is on.\<close>

definition vfdw_map_writability :: "opt_env \<Rightarrow> options list \<Rightarrow> options \<Rightarrow> CmdType set" where
  "vfdw_map_writability env attopts options =
     (let w = vfdw_map_read_writability env options in
      if vfdw_map_write_block env attopts w \<noteq> None then {}
      else if w_tabletype w = ''list'' \<and> \<not> w_legacy w then {CMD_INSERT, CMD_DELETE}
      else {CMD_INSERT, CMD_UPDATE, CMD_DELETE})"

definition vfdw_refuse_unwritable :: "opt_env \<Rightarrow> options list \<Rightarrow> options \<Rightarrow> VfdwTableMap \<Rightarrow> CmdType \<Rightarrow> unit result" where
  "vfdw_refuse_unwritable env attopts options m operation =
     (if tm_readonly m then raise ERRCODE_READ_ONLY_SQL_TRANSACTION ''foreign table is declared read-only''
      else if operation \<notin> vfdw_map_writability env attopts options
      then raise ERRCODE_FEATURE_NOT_SUPPORTED (''cannot write a Valkey table of type '' @ vfdw_tabletype_name (tm_tabletype m))
      else Inr ())"

record VfdwRowId =
  ri_want_key :: bool
  ri_keyattno :: nat
  ri_want_member :: bool
  ri_memberattno :: nat

definition vfdw_rowid_shape :: "VfdwTableMap \<Rightarrow> VfdwRowId result" where
  "vfdw_rowid_shape m =
     (let singleton = tm_singleton_key m \<noteq> None;
          want_member = (\<not> tm_legacy_value m \<and> tm_tabletype m \<in> set [VFDW_TABLE_LIST, VFDW_TABLE_SET, VFDW_TABLE_ZSET]);
          out = \<lparr>ri_want_key = \<not> singleton, ri_keyattno = tm_keyattno m, ri_want_member = want_member,
                 ri_memberattno = tm_memberattno m\<rparr>
      in if ri_want_key out \<and> ri_keyattno out = InvalidAttrNumber
         then raise ERRCODE_INTERNAL_ERROR ''valkey_fdw: table has no key column to identify rows by''
         else if ri_want_member out \<and> ri_memberattno out = InvalidAttrNumber
         then raise ERRCODE_INTERNAL_ERROR ''valkey_fdw: table has no member column to identify rows by''
         else Inr out)"

definition vfdw_rowid_junk_name :: "string \<Rightarrow> nat \<Rightarrow> string" where
  "vfdw_rowid_junk_name role attno = ''vfdw_'' @ role @ ''_a'' @ dec_nat attno"

section \<open>Well-formed maps\<close>

definition of_kind :: "VfdwColKind \<Rightarrow> VfdwColumn list \<Rightarrow> VfdwColumn list" where
  "of_kind kind cols = filter (\<lambda>col. col_kind col = kind) cols"

text \<open>A role's attribute number: the one column of that kind, or \<open>InvalidAttrNumber\<close>.\<close>

definition role_ok :: "VfdwColKind \<Rightarrow> nat \<Rightarrow> VfdwColumn list \<Rightarrow> bool" where
  "role_ok kind attno cols \<longleftrightarrow>
     map col_attnum (of_kind kind cols) = (if attno = InvalidAttrNumber then [] else [attno])"

definition attnums_ok :: "nat \<Rightarrow> VfdwColumn list \<Rightarrow> bool" where
  "attnums_ok k cols \<longleftrightarrow> (\<forall>i < length cols. col_attnum (cols ! i) = k + i + 1 \<or>
     col_attnum (cols ! i) = InvalidAttrNumber \<and> col_kind (cols ! i) = VFDW_COL_DROPPED)"

definition kind_allowed :: "VfdwTableMap \<Rightarrow> VfdwColumn \<Rightarrow> bool" where
  "kind_allowed m col \<longleftrightarrow>
     (case col_kind col of
        VFDW_COL_FIELD \<Rightarrow> col_field col \<noteq> None \<and> tm_tabletype m \<in> {VFDW_TABLE_HASH, VFDW_TABLE_VECTOR} \<and>
          (tm_tabletype m = VFDW_TABLE_VECTOR \<longrightarrow> vfdw_filter_name_is_safe (col_field col))
      | VFDW_COL_TTL \<Rightarrow> col_field col \<noteq> None \<and> tm_tabletype m = VFDW_TABLE_HASH
      | VFDW_COL_SCORE \<Rightarrow> tm_tabletype m = VFDW_TABLE_ZSET
      | VFDW_COL_MEMBER \<Rightarrow> tm_tabletype m \<in> {VFDW_TABLE_LIST, VFDW_TABLE_SET, VFDW_TABLE_ZSET}
      | VFDW_COL_POSITION \<Rightarrow> tm_tabletype m = VFDW_TABLE_LIST
      | VFDW_COL_DISTANCE \<Rightarrow> tm_tabletype m = VFDW_TABLE_VECTOR
      | VFDW_COL_VALUE \<Rightarrow> tm_tabletype m = VFDW_TABLE_STRING
      | VFDW_COL_LEGACY_VALUE \<Rightarrow> tm_legacy_value m
      | _ \<Rightarrow> True)"

text \<open>The fields a hash fetch names, in the order it names them.\<close>

definition request_fields :: "VfdwColumn list \<Rightarrow> string list" where
  "request_fields cols = map (the \<circ> col_field) (filter (\<lambda>col. col_kind col = VFDW_COL_FIELD \<or> col_kind col = VFDW_COL_TTL) cols)"

definition map_wf :: "VfdwTableMap \<Rightarrow> bool" where
  "map_wf m \<longleftrightarrow>
     attnums_ok 0 (tm_cols m) \<and> filter unclaimed (tm_cols m) = [] \<and> list_all (kind_allowed m) (tm_cols m) \<and>
     role_ok VFDW_COL_KEY (tm_keyattno m) (tm_cols m) \<and> (tm_keyattno m = InvalidAttrNumber \<longrightarrow> tm_singleton_key m \<noteq> None) \<and>
     role_ok VFDW_COL_MEMBER (tm_memberattno m) (tm_cols m) \<and> role_ok VFDW_COL_SCORE (tm_scoreattno m) (tm_cols m) \<and>
     role_ok VFDW_COL_VALUE (tm_valueattno m) (tm_cols m) \<and>
     tm_nfields m = length (of_kind VFDW_COL_FIELD (tm_cols m)) \<and>
     map col_ttl_slot (of_kind VFDW_COL_TTL (tm_cols m)) = [0..<tm_nttl m] \<and>
     (tm_hmget m \<longrightarrow> tm_tabletype m = VFDW_TABLE_HASH \<and> \<not> tm_legacy_value m \<and>
        tm_nreq m = length (request_fields (tm_cols m)) \<and>
        list_all (\<lambda>col. col_field_slot col < tm_nreq m \<and> request_fields (tm_cols m) ! col_field_slot col = the (col_field col))
          (of_kind VFDW_COL_FIELD (tm_cols m))) \<and>
     (tm_legacy_value m \<longrightarrow> tm_packed m \<noteq> None \<and> map col_kind (tm_cols m) = [VFDW_COL_KEY, VFDW_COL_LEGACY_VALUE]) \<and>
     (tm_singleton_key m = None \<or> tm_keyprefix m = None) \<and> (tm_singleton_key m = None \<or> tm_keyset m = None) \<and>
     (tm_keyprefix m = None \<or> tm_keyset m = None)"

lemma attnums_ok_Nil [simp]: "attnums_ok k []"
  by (simp add: attnums_ok_def)

lemma attnums_ok_Cons [simp]:
  "attnums_ok k (col # cols) \<longleftrightarrow>
     (col_attnum col = k + 1 \<or> col_attnum col = InvalidAttrNumber \<and> col_kind col = VFDW_COL_DROPPED) \<and> attnums_ok (k + 1) cols"
  by (auto simp: attnums_ok_def less_Suc_eq_0_disj all_conj_distrib)

lemma of_kind_simps [simp]:
  "of_kind k [] = []" "of_kind k (col # cols) = (if col_kind col = k then col # of_kind k cols else of_kind k cols)"
  "of_kind k (xs @ ys) = of_kind k xs @ of_kind k ys"
  by (simp_all add: of_kind_def)

lemma attnums_ok_append: "attnums_ok k (xs @ ys) \<longleftrightarrow> attnums_ok k xs \<and> attnums_ok (k + length xs) ys"
  by (induction xs arbitrary: k) (auto simp: add_ac)

subsection \<open>The columns as their options claim them\<close>

lemma resolve_type_simps [simp]:
  "col_attnum (vfdw_map_resolve_type env col t tm) = col_attnum col" "col_kind (vfdw_map_resolve_type env col t tm) = col_kind col"
  by (simp_all add: vfdw_map_resolve_type_def Let_def)

definition claimed_ok :: "VfdwColumn \<Rightarrow> bool" where
  "claimed_ok col \<longleftrightarrow> col_kind col \<noteq> VFDW_COL_VALUE \<and> col_kind col \<noteq> VFDW_COL_LEGACY_VALUE \<and>
     (col_kind col = VFDW_COL_FIELD \<longrightarrow> col_field col \<noteq> None)"

lemma map_column_ok:
  "map_column env i attr = Inr col \<Longrightarrow>
     (col_attnum col = i + 1 \<or> col_attnum col = 0 \<and> col_kind col = VFDW_COL_DROPPED) \<and> claimed_ok col"
  by (auto simp: map_column_def vfdw_map_read_column_options_def result_bind_Inr_iff claimed_kind_def claimed_ok_def
      zero_column_def split: if_splits)

lemma map_columns_ok: "map_columns env i attrs = Inr cols \<Longrightarrow> attnums_ok i cols \<and> list_all claimed_ok cols"
proof (induction attrs arbitrary: i cols)
  case (Cons attr attrs)
  then show ?case by (auto simp: result_bind_Inr_iff dest!: map_column_ok)
qed simp

subsection \<open>Claiming\<close>

lemma survey_count: "survey_loop cols (k, n, f) = Inr (k', n', f') \<Longrightarrow> n' = n + length (filter unclaimed cols)"
proof (induction cols arbitrary: k n f)
  case (Cons c cols)
  have "col_kind c = VFDW_COL_KEY \<Longrightarrow> \<not> unclaimed c" by (simp add: unclaimed_def)
  then show ?case using Cons by (fastforce split: if_splits)
qed simp

lemma survey_first:
  "survey_loop cols (k, n, f) = Inr (k', n', f') \<Longrightarrow>
     f' = (if f \<noteq> 0 then f else case filter unclaimed cols of [] \<Rightarrow> 0 | c # _ \<Rightarrow> col_attnum c)"
proof (induction cols arbitrary: k n f)
  case (Cons c cols)
  have "col_kind c = VFDW_COL_KEY \<Longrightarrow> \<not> unclaimed c" and "unclaimed c \<Longrightarrow> col_attnum c \<noteq> 0" by (simp_all add: unclaimed_def)
  then show ?case using Cons by (fastforce split: if_splits)
qed simp

lemma survey_key:
  "survey_loop cols (k, n, f) = Inr (k', n', f') \<Longrightarrow> attnums_ok b cols \<Longrightarrow>
     (if k \<noteq> 0 then k' = k \<and> of_kind VFDW_COL_KEY cols = [] else role_ok VFDW_COL_KEY k' cols)"
proof (induction cols arbitrary: k n f b)
  case (Cons c cols)
  show ?case
  proof (cases "col_kind c = VFDW_COL_KEY")
    case True
    then have c: "col_attnum c \<noteq> 0" using Cons.prems(2) by auto
    have k: "k = 0" using True Cons.prems(1) by (auto split: if_splits)
    then have "survey_loop cols (col_attnum c, n, f) = Inr (k', n', f')" using True Cons.prems(1) by simp
    then have "k' = col_attnum c \<and> of_kind VFDW_COL_KEY cols = []"
      using Cons.IH [of "col_attnum c" n f "b + 1"] Cons.prems(2) c by simp
    then show ?thesis using True k c by (simp add: role_ok_def)
  next
    case False
    then obtain n1 f1 where "survey_loop cols (k, n1, f1) = Inr (k', n', f')" using Cons.prems(1) by (auto split: if_splits)
    then show ?thesis using Cons.IH [of k n1 f1 "b + 1"] Cons.prems(2) False by (cases "k = 0") (simp_all add: role_ok_def)
  qed
qed (simp add: role_ok_def)

lemma claim_first_split:
  "claim_first kind cols = Some cols' \<Longrightarrow>
     \<exists>xs c ys. cols = xs @ c # ys \<and> filter unclaimed xs = [] \<and> unclaimed c \<and> cols' = xs @ c\<lparr>col_kind := kind\<rparr> # ys"
proof (induction cols arbitrary: cols')
  case (Cons c cols)
  show ?case
  proof (cases "unclaimed c")
    case True
    then have "c # cols = [] @ c # cols \<and> filter unclaimed [] = [] \<and> unclaimed c \<and> cols' = [] @ c\<lparr>col_kind := kind\<rparr> # cols"
      using Cons.prems by simp
    then show ?thesis by blast
  next
    case False
    then obtain r where r: "claim_first kind cols = Some r" "cols' = c # r" using Cons.prems by auto
    from Cons.IH [OF r(1)] obtain xs d ys where
      "cols = xs @ d # ys" "filter unclaimed xs = []" "unclaimed d" "r = xs @ d\<lparr>col_kind := kind\<rparr> # ys" by blast
    then have "c # cols = (c # xs) @ d # ys \<and> filter unclaimed (c # xs) = [] \<and> unclaimed d \<and>
        cols' = (c # xs) @ d\<lparr>col_kind := kind\<rparr> # ys"
      using False r(2) by simp
    then show ?thesis by blast
  qed
qed simp

lemma claim_first_None: "claim_first kind cols = None \<longleftrightarrow> filter unclaimed cols = []"
  by (induction cols) auto

lemma claim_first_facts:
  assumes "claim_first kind cols = Some cols'" and "kind \<noteq> VFDW_COL_DROPPED" and "attnums_ok k cols"
  shows "length (filter unclaimed cols') = length (filter unclaimed cols) - 1 \<and> attnums_ok k cols' \<and>
    (\<forall>kd. kd \<noteq> kind \<longrightarrow> kd \<noteq> VFDW_COL_DROPPED \<longrightarrow> of_kind kd cols' = of_kind kd cols) \<and>
    (of_kind kind cols = [] \<longrightarrow> role_ok kind (col_attnum (hd (filter unclaimed cols))) cols') \<and>
    (\<forall>c \<in> set cols'. c \<in> set cols \<or> col_kind c = kind)"
proof -
  obtain xs c ys where s: "cols = xs @ c # ys" "filter unclaimed xs = []" "unclaimed c" "cols' = xs @ c\<lparr>col_kind := kind\<rparr> # ys"
    using claim_first_split [OF assms(1)] by blast
  have c: "col_kind c = VFDW_COL_DROPPED" "col_attnum c \<noteq> 0" using s(3) by (simp_all add: unclaimed_def)
  have u: "\<not> unclaimed (c\<lparr>col_kind := kind\<rparr>)" using assms(2) by (simp add: unclaimed_def)
  show ?thesis using assms(2,3) s c u by (auto simp: attnums_ok_append role_ok_def)
qed

lemma update_is_claim:
  assumes "attnums_ok 0 cols" and "filter unclaimed cols \<noteq> []" and "first = col_attnum (hd (filter unclaimed cols))"
  shows "claim_first kind cols = Some (cols[first - 1 := (cols ! (first - 1))\<lparr>col_kind := kind\<rparr>])"
proof -
  obtain cols' where c: "claim_first kind cols = Some cols'" using assms(2) claim_first_None by (metis option.exhaust)
  obtain xs c ys where s: "cols = xs @ c # ys" "filter unclaimed xs = []" "unclaimed c" "cols' = xs @ c\<lparr>col_kind := kind\<rparr> # ys"
    using claim_first_split [OF c] by blast
  have "col_attnum c = length xs + 1" using assms(1) s(1,3) by (auto simp: attnums_ok_append unclaimed_def)
  then have "first - 1 = length xs" using assms(3) s by simp
  then show ?thesis using c s by simp
qed

text \<open>What assigning the defaults leaves: every live column claimed, one key column or a singleton key.\<close>

definition assigned :: "VfdwTableMap \<Rightarrow> bool" where
  "assigned m \<longleftrightarrow> attnums_ok 0 (tm_cols m) \<and> filter unclaimed (tm_cols m) = [] \<and>
     role_ok VFDW_COL_KEY (tm_keyattno m) (tm_cols m) \<and> (tm_keyattno m = InvalidAttrNumber \<longrightarrow> tm_singleton_key m \<noteq> None) \<and>
     (\<forall>c \<in> set (tm_cols m). (col_kind c = VFDW_COL_FIELD \<longrightarrow> col_field c \<noteq> None) \<and>
        (col_kind c = VFDW_COL_LEGACY_VALUE \<longrightarrow> tm_legacy_value m)) \<and>
     (tm_legacy_value m \<longrightarrow> map col_kind (tm_cols m) = [VFDW_COL_KEY, VFDW_COL_LEGACY_VALUE])"

lemma assign_legacy_ok:
  assumes "vfdw_map_assign_legacy m = Inr m'" and "attnums_ok 0 (tm_cols m)" and "tm_legacy_value m"
  shows "assigned m' \<and> m' = m\<lparr>tm_cols := tm_cols m', tm_keyattno := tm_keyattno m'\<rparr>"
proof -
  obtain a b where cols: "tm_cols m = [a, b]" "col_attnum a \<noteq> 0" "col_attnum b \<noteq> 0"
    using assms(1) by (auto simp: vfdw_map_assign_legacy_def numeral_2_eq_2 length_Suc_conv split: if_splits)
  have m': "m' = m\<lparr>tm_cols := [a\<lparr>col_kind := VFDW_COL_KEY\<rparr>, b\<lparr>col_kind := VFDW_COL_LEGACY_VALUE\<rparr>], tm_keyattno := col_attnum a\<rparr>"
    using assms(1) cols by (simp add: vfdw_map_assign_legacy_def)
  show ?thesis using assms(2,3) cols unfolding m' by (auto simp: assigned_def role_ok_def unclaimed_def)
qed

lemma assign_key_ok:
  assumes "vfdw_map_assign_key m n first = Inr (m', n')" and "attnums_ok 0 (tm_cols m)" and "list_all claimed_ok (tm_cols m)"
    and "role_ok VFDW_COL_KEY (tm_keyattno m) (tm_cols m)" and "n = length (filter unclaimed (tm_cols m))"
    and "first = (case filter unclaimed (tm_cols m) of [] \<Rightarrow> 0 | c # _ \<Rightarrow> col_attnum c)"
  shows "attnums_ok 0 (tm_cols m') \<and> list_all claimed_ok (tm_cols m') \<and> role_ok VFDW_COL_KEY (tm_keyattno m') (tm_cols m') \<and>
    n' = length (filter unclaimed (tm_cols m')) \<and> tm_keyattno m' \<noteq> 0 \<and> m' = m\<lparr>tm_cols := tm_cols m', tm_keyattno := tm_keyattno m'\<rparr>"
proof (cases "tm_keyattno m = 0 \<and> n > 0")
  case True
  let ?u = "(tm_cols m)[first - 1 := (tm_cols m ! (first - 1))\<lparr>col_kind := VFDW_COL_KEY\<rparr>]"
  have ne: "filter unclaimed (tm_cols m) \<noteq> []" using True assms(5) by auto
  have f: "first = col_attnum (hd (filter unclaimed (tm_cols m)))" using ne assms(6) by (auto split: list.splits)
  note c = update_is_claim [OF assms(2) ne f, of VFDW_COL_KEY]
  note facts = claim_first_facts [OF c _ assms(2)]
  have k: "of_kind VFDW_COL_KEY (tm_cols m) = []" using assms(4) True by (simp add: role_ok_def)
  have m': "m' = m\<lparr>tm_cols := ?u, tm_keyattno := first\<rparr>" "n' = n - 1" "first \<noteq> 0"
    using assms(1) True by (auto simp: vfdw_map_assign_key_def split: if_splits)
  have "list_all claimed_ok ?u" using facts assms(3) by (auto simp: list_all_iff claimed_ok_def)
  then show ?thesis using facts k m' assms(5) f by simp
next
  case False
  then have "tm_keyattno m \<noteq> 0 \<and> m' = m \<and> n' = n" using assms(1) by (auto simp: vfdw_map_assign_key_def split: if_splits)
  then show ?thesis using assms by simp
qed

lemma assign_remaining_ok:
  assumes "vfdw_map_assign_remaining m n = (m', 0)" and "attnums_ok 0 (tm_cols m)" and "list_all claimed_ok (tm_cols m)"
    and "role_ok VFDW_COL_KEY k (tm_cols m)" and "n = length (filter unclaimed (tm_cols m))"
  shows "attnums_ok 0 (tm_cols m') \<and> filter unclaimed (tm_cols m') = [] \<and> role_ok VFDW_COL_KEY k (tm_cols m') \<and>
    (\<forall>c \<in> set (tm_cols m'). (col_kind c = VFDW_COL_FIELD \<longrightarrow> col_field c \<noteq> None) \<and> col_kind c \<noteq> VFDW_COL_LEGACY_VALUE) \<and>
    m' = m\<lparr>tm_cols := tm_cols m'\<rparr>"
proof (cases "n = 0")
  case True
  then show ?thesis using assms by (auto simp: vfdw_map_assign_remaining_def Let_def list_all_iff claimed_ok_def)
next
  case False
  let ?k = "vfdw_map_default_kind (tm_tabletype m)"
  have n1: "n = 1" and kd: "?k \<noteq> VFDW_COL_DROPPED"
    using assms(1) False by (auto simp: vfdw_map_assign_remaining_def Let_def split: if_splits)
  have kk: "?k \<noteq> VFDW_COL_KEY \<and> ?k \<noteq> VFDW_COL_FIELD \<and> ?k \<noteq> VFDW_COL_LEGACY_VALUE"
    by (simp add: vfdw_map_default_kind_def split: VfdwTableType.splits)
  obtain cols where c: "claim_first ?k (tm_cols m) = Some cols" and m': "m' = m\<lparr>tm_cols := cols\<rparr>"
    using assms(1) n1 kd by (auto simp: vfdw_map_assign_remaining_def Let_def split: option.splits)
  note facts = claim_first_facts [OF c kd assms(2)]
  have "filter unclaimed cols = []" using facts n1 assms(5) by simp
  moreover have "of_kind VFDW_COL_KEY cols = of_kind VFDW_COL_KEY (tm_cols m)" using facts kk by fastforce
  then have "role_ok VFDW_COL_KEY k cols" using assms(4) by (simp add: role_ok_def)
  moreover have "\<forall>c \<in> set cols. (col_kind c = VFDW_COL_FIELD \<longrightarrow> col_field c \<noteq> None) \<and> col_kind c \<noteq> VFDW_COL_LEGACY_VALUE"
    using facts assms(3) kk by (auto simp: list_all_iff claimed_ok_def)
  ultimately show ?thesis using facts unfolding m' by simp
qed

lemma assign_defaults_ok:
  assumes "vfdw_map_assign_defaults m = Inr m'" and "attnums_ok 0 (tm_cols m)" and "tm_keyattno m = 0" and "list_all claimed_ok (tm_cols m)"
  shows "assigned m' \<and> m' = m\<lparr>tm_cols := tm_cols m', tm_keyattno := tm_keyattno m'\<rparr>"
proof -
  obtain k n f where sv: "survey_loop (tm_cols m) (0, 0, 0) = Inr (k, n, f)"
    using assms(1,3) by (auto simp: vfdw_map_assign_defaults_def vfdw_map_survey_def result_bind_Inr_iff)
  let ?m1 = "m\<lparr>tm_keyattno := k\<rparr>"
  have n: "n = length (filter unclaimed (tm_cols ?m1))" using survey_count [OF sv] by simp
  have f: "f = (case filter unclaimed (tm_cols ?m1) of [] \<Rightarrow> 0 | c # _ \<Rightarrow> col_attnum c)" using survey_first [OF sv] by simp
  have r: "role_ok VFDW_COL_KEY (tm_keyattno ?m1) (tm_cols ?m1)" using survey_key [OF sv assms(2)] by simp
  have step: "(if tm_legacy_value ?m1 then vfdw_map_assign_legacy ?m1
       else result_bind (if tm_singleton_key ?m1 = None then vfdw_map_assign_key ?m1 n f else Inr (?m1, n)) (\<lambda>(m2, n2).
         case vfdw_map_assign_remaining m2 n2 of (m3, n3) \<Rightarrow> if n3 > 0 then vfdw_map_report_unsourced n3 else Inr m3)) = Inr m'"
    using assms(1,3) sv by (simp add: vfdw_map_assign_defaults_def vfdw_map_survey_def)
  show ?thesis
  proof (cases "tm_legacy_value m")
    case True
    then show ?thesis using assign_legacy_ok [of ?m1 m'] step assms(2) by simp
  next
    case False
    let ?A = "if tm_singleton_key m = None then vfdw_map_assign_key ?m1 n f else Inr (?m1, n)"
    let ?B = "\<lambda>(m2, n2). case vfdw_map_assign_remaining m2 n2 of (m3, n3) \<Rightarrow> if n3 > 0 then vfdw_map_report_unsourced n3 else Inr m3"
    have "result_bind ?A ?B = Inr m'" using step False by simp
    then obtain x where "?A = Inr x" "?B x = Inr m'" unfolding result_bind_Inr_iff by blast
    moreover obtain m2 n2 where "x = (m2, n2)" by (metis surj_pair)
    ultimately have k2: "?A = Inr (m2, n2)" and r2: "?B (m2, n2) = Inr m'" by simp_all
    have rem: "vfdw_map_assign_remaining m2 n2 = (m', 0)"
      using r2 by (cases "vfdw_map_assign_remaining m2 n2") (auto simp: vfdw_map_report_unsourced_def split: if_splits)
    have s2: "attnums_ok 0 (tm_cols m2) \<and> list_all claimed_ok (tm_cols m2) \<and> role_ok VFDW_COL_KEY (tm_keyattno m2) (tm_cols m2) \<and>
        n2 = length (filter unclaimed (tm_cols m2)) \<and> (tm_keyattno m2 = 0 \<longrightarrow> tm_singleton_key m2 \<noteq> None) \<and>
        m2 = m\<lparr>tm_cols := tm_cols m2, tm_keyattno := tm_keyattno m2\<rparr>"
    proof (cases "tm_singleton_key m = None")
      case True
      then show ?thesis using assign_key_ok [of ?m1 n f m2 n2] k2 assms(2,4) r n f by simp
    next
      case False
      then have "m2 = ?m1 \<and> n2 = n" using k2 by auto
      then show ?thesis using False assms(2,4) r n by simp
    qed
    note s3 = assign_remaining_ok [OF rem, of "tm_keyattno m2"]
    obtain cols3 where e3: "m' = m2\<lparr>tm_cols := cols3\<rparr>" using s2 s3 by blast
    obtain cols2 a where e2: "m2 = m\<lparr>tm_cols := cols2, tm_keyattno := a\<rparr>" using s2 by blast
    show ?thesis using s2 s3 False unfolding assigned_def e3 e2 by auto
  qed
qed

subsection \<open>Slots\<close>

definition shape :: "VfdwColumn \<Rightarrow> nat \<times> VfdwColKind \<times> string option" where
  "shape col = (col_attnum col, col_kind col, col_field col)"

lemma same_shape:
  "map shape cols = map shape cols' \<Longrightarrow>
     length cols = length cols' \<and> attnums_ok k cols = attnums_ok k cols' \<and>
     map col_attnum (of_kind kd cols) = map col_attnum (of_kind kd cols') \<and>
     length (filter unclaimed cols) = length (filter unclaimed cols') \<and> list_all (kind_allowed m) cols = list_all (kind_allowed m) cols' \<and>
     request_fields cols = request_fields cols' \<and> length (of_kind kd cols) = length (of_kind kd cols') \<and>
     map col_kind cols = map col_kind cols'"
proof -
  assume "map shape cols = map shape cols'"
  then have "list_all2 (\<lambda>c d. shape c = shape d) cols cols'"
    by (metis (mono_tags, lifting) length_map list_all2_conv_all_nth nth_map)
  then show ?thesis
  proof (induction arbitrary: k rule: list_all2_induct)
    case (Cons c cs d ds)
    have e: "col_attnum c = col_attnum d" "col_kind c = col_kind d" "col_field c = col_field d"
      using Cons.hyps(1) by (simp_all add: shape_def)
    have al: "kind_allowed m c = kind_allowed m d" by (cases "col_kind d") (simp_all add: kind_allowed_def e)
    show ?case using Cons.IH [of "k + 1"] e al by (simp add: unclaimed_def request_fields_def)
  qed simp
qed

lemma kind_allowed_cong:
  "tm_tabletype m = tm_tabletype m' \<Longrightarrow> tm_legacy_value m = tm_legacy_value m' \<Longrightarrow> kind_allowed m = kind_allowed m'"
  by (simp add: kind_allowed_def fun_eq_iff split: VfdwColKind.splits)

lemmas conflict_defs = vfdw_map_column_conflict_def vfdw_map_field_conflict_def vfdw_map_ttl_conflict_def kind_allowed_def
  shape_def vfdw_map_position_conflict_def

lemma conflict_free:
  assumes "vfdw_map_column_conflict env m col = (None, col1, m1)"
    and "col_kind col = VFDW_COL_FIELD \<longrightarrow> col_field col \<noteq> None" and "col_kind col = VFDW_COL_LEGACY_VALUE \<longrightarrow> tm_legacy_value m"
  shows "shape col1 = shape col \<and> kind_allowed m col \<and>
    m1 = m\<lparr>tm_nfields := tm_nfields m + (if col_kind col = VFDW_COL_FIELD then 1 else 0),
           tm_nttl := tm_nttl m + (if col_kind col = VFDW_COL_TTL then 1 else 0)\<rparr> \<and>
    (col_kind col = VFDW_COL_TTL \<longrightarrow> col_ttl_slot col1 = tm_nttl m)"
proof (cases "col_kind col")
  case VFDW_COL_DROPPED
  then show ?thesis using assms by (auto simp: conflict_defs split: if_splits)
next
  case VFDW_COL_KEY
  then show ?thesis using assms by (auto simp: conflict_defs split: if_splits)
next
  case VFDW_COL_VALUE
  then show ?thesis using assms by (auto simp: conflict_defs split: if_splits)
next
  case VFDW_COL_FIELD
  have "vfdw_map_field_conflict m col = None" "col1 = col" "m1 = m\<lparr>tm_nfields := tm_nfields m + 1\<rparr>"
    using assms(1) VFDW_COL_FIELD by (auto simp: vfdw_map_column_conflict_def)
  then show ?thesis using assms(2) VFDW_COL_FIELD
    by (cases "tm_tabletype m") (simp_all add: vfdw_map_field_conflict_def kind_allowed_def split: if_splits)
next
  case VFDW_COL_MEMBER
  then show ?thesis using assms by (auto simp: conflict_defs split: if_splits)
next
  case VFDW_COL_SCORE
  then show ?thesis using assms by (auto simp: conflict_defs split: if_splits)
next
  case VFDW_COL_POSITION
  then show ?thesis using assms by (auto simp: conflict_defs split: if_splits)
next
  case VFDW_COL_TTL
  then show ?thesis using assms by (auto simp: conflict_defs split: if_splits)
next
  case VFDW_COL_DISTANCE
  then show ?thesis using assms by (auto simp: conflict_defs split: if_splits)
next
  case VFDW_COL_LEGACY_VALUE
  then show ?thesis using assms by (auto simp: conflict_defs split: if_splits)
qed

lemma check_types_ok:
  "check_types_loop env cols m = Inr (cols', m') \<Longrightarrow>
   \<forall>c \<in> set cols. (col_kind c = VFDW_COL_FIELD \<longrightarrow> col_field c \<noteq> None) \<and> (col_kind c = VFDW_COL_LEGACY_VALUE \<longrightarrow> tm_legacy_value m) \<Longrightarrow>
   map shape cols' = map shape cols \<and> list_all (kind_allowed m) cols \<and>
   m' = m\<lparr>tm_nfields := tm_nfields m + length (of_kind VFDW_COL_FIELD cols), tm_nttl := tm_nttl m + length (of_kind VFDW_COL_TTL cols)\<rparr> \<and>
   map col_ttl_slot (of_kind VFDW_COL_TTL cols') = [tm_nttl m..<tm_nttl m + length (of_kind VFDW_COL_TTL cols)]"
proof (induction cols arbitrary: m cols' m')
  case (Cons c cols)
  obtain c1 m1 cols2 where c: "vfdw_map_column_conflict env m c = (None, c1, m1)"
    and l: "check_types_loop env cols m1 = Inr (cols2, m')" and eq: "cols' = c1 # cols2"
    using Cons.prems(1) by (auto simp: result_bind_Inr_iff split: prod.splits option.splits)
  note cf = conflict_free [OF c]
  have m1: "m1 = m\<lparr>tm_nfields := tm_nfields m + (if col_kind c = VFDW_COL_FIELD then 1 else 0),
           tm_nttl := tm_nttl m + (if col_kind c = VFDW_COL_TTL then 1 else 0)\<rparr>" using cf Cons.prems(2) by simp
  have al: "kind_allowed m1 = kind_allowed m" by (rule kind_allowed_cong) (simp_all add: m1)
  have k: "col_kind c1 = col_kind c" using cf Cons.prems(2) by (simp add: shape_def)
  have "\<forall>c \<in> set cols. (col_kind c = VFDW_COL_FIELD \<longrightarrow> col_field c \<noteq> None) \<and> (col_kind c = VFDW_COL_LEGACY_VALUE \<longrightarrow> tm_legacy_value m1)"
    using Cons.prems(2) by (simp add: m1)
  note ih = Cons.IH [OF l this, unfolded al]
  show ?case
  proof (cases "col_kind c = VFDW_COL_TTL")
    case True
    then show ?thesis using ih cf Cons.prems(2) k by (simp add: eq m1 upt_rec)
  next
    case False
    then show ?thesis using ih cf Cons.prems(2) k by (simp add: eq m1)
  qed
qed simp

lemma roles_loop_ok:
  "roles_loop cols (a, b, c) = Inr (a', b', c') \<Longrightarrow> attnums_ok k cols \<Longrightarrow>
     (if a \<noteq> 0 then a' = a \<and> of_kind VFDW_COL_MEMBER cols = [] else role_ok VFDW_COL_MEMBER a' cols) \<and>
     (if b \<noteq> 0 then b' = b \<and> of_kind VFDW_COL_SCORE cols = [] else role_ok VFDW_COL_SCORE b' cols) \<and>
     (if c \<noteq> 0 then c' = c \<and> of_kind VFDW_COL_VALUE cols = [] else role_ok VFDW_COL_VALUE c' cols)"
proof (induction cols arbitrary: a b c k)
  case (Cons x cols)
  have at: "attnums_ok (k + 1) cols" using Cons.prems(2) by simp
  have n: "col_kind x \<noteq> VFDW_COL_DROPPED \<Longrightarrow> col_attnum x \<noteq> 0" using Cons.prems(2) by auto
  consider (m) "col_kind x = VFDW_COL_MEMBER" "a = 0" "roles_loop cols (col_attnum x, b, c) = Inr (a', b', c')"
    | (s) "col_kind x = VFDW_COL_SCORE" "b = 0" "roles_loop cols (a, col_attnum x, c) = Inr (a', b', c')"
    | (v) "col_kind x = VFDW_COL_VALUE" "c = 0" "roles_loop cols (a, b, col_attnum x) = Inr (a', b', c')"
    | (other) "col_kind x \<notin> {VFDW_COL_MEMBER, VFDW_COL_SCORE, VFDW_COL_VALUE}" "roles_loop cols (a, b, c) = Inr (a', b', c')"
    using Cons.prems(1) by (cases "col_kind x") (auto simp: Let_def split: if_splits)
  then show ?case
  proof cases
    case m
    then show ?thesis using Cons.IH [OF m(3) at] n by (auto simp: role_ok_def)
  next
    case s
    then show ?thesis using Cons.IH [OF s(3) at] n by (auto simp: role_ok_def)
  next
    case v
    then show ?thesis using Cons.IH [OF v(3) at] n by (auto simp: role_ok_def)
  next
    case other
    then show ?thesis using Cons.IH [OF other(2) at] by (auto simp: role_ok_def)
  qed
qed (simp add: role_ok_def)

lemma hash_fetch_ok:
  "hash_fetch_loop cols n = (cols', n') \<Longrightarrow>
     map shape cols' = map shape cols \<and> map col_ttl_slot (of_kind VFDW_COL_TTL cols') = map col_ttl_slot (of_kind VFDW_COL_TTL cols) \<and>
     n' = n + length (request_fields cols) \<and>
     list_all (\<lambda>col. n \<le> col_field_slot col \<and> col_field_slot col < n' \<and>
        request_fields cols ! (col_field_slot col - n) = the (col_field col)) (of_kind VFDW_COL_FIELD cols')"
proof (induction cols arbitrary: n cols')
  case (Cons c cols)
  show ?case
  proof (cases "col_kind c = VFDW_COL_FIELD \<or> col_kind c = VFDW_COL_TTL")
    case True
    then obtain cols1 c1 where l: "hash_fetch_loop cols (n + 1) = (cols1, n')" and eq: "cols' = c1 # cols1"
      and c1: "c1 = (if col_kind c = VFDW_COL_FIELD then c\<lparr>col_field_slot := n\<rparr> else c)"
      using Cons.prems by (auto split: prod.splits if_splits)
    have rf: "request_fields (c # cols) = the (col_field c) # request_fields cols" using True by (auto simp: request_fields_def)
    have nth: "n + 1 \<le> s \<Longrightarrow> request_fields (c # cols) ! (s - n) = request_fields cols ! (s - (n + 1))" for s
    proof -
      assume "n + 1 \<le> s"
      then have "s - n = Suc (s - (n + 1))" by simp
      then show ?thesis unfolding rf by simp
    qed
    note ih = Cons.IH [OF l]
    have "list_all (\<lambda>col. n \<le> col_field_slot col \<and> col_field_slot col < n' \<and>
        request_fields (c # cols) ! (col_field_slot col - n) = the (col_field col)) (of_kind VFDW_COL_FIELD cols1)"
      using ih nth by (auto simp: list_all_iff)
    then show ?thesis using ih True rf unfolding eq c1 by (auto simp: shape_def)
  next
    case False
    then obtain cols1 where l: "hash_fetch_loop cols n = (cols1, n')" and eq: "cols' = c # cols1"
      using Cons.prems by (auto split: prod.splits)
    have "request_fields (c # cols) = request_fields cols" using False by (simp add: request_fields_def)
    then show ?thesis using Cons.IH [OF l] False by (auto simp: eq)
  qed
qed (simp add: request_fields_def)

lemma table_options_ok:
  assumes "vfdw_map_read_table_options env options m = Inr m'"
  shows "(tm_singleton_key m' = None \<or> tm_keyprefix m' = None) \<and> (tm_singleton_key m' = None \<or> tm_keyset m' = None) \<and>
    (tm_keyprefix m' = None \<or> tm_keyset m' = None) \<and>
    (tm_keyattno m', tm_nfields m', tm_nttl m') = (tm_keyattno m, tm_nfields m, tm_nttl m)"
proof -
  obtain m1 where f: "result_fold (table_option_step env) options (m\<lparr>tm_tabletype := VFDW_TABLE_STRING, tm_database := 0\<rparr>) = Inr m1"
    and c: "vfdw_map_check_table_options m1 = Inr ()" and eq: "m' = m1"
    using assms by (auto simp: vfdw_map_read_table_options_def result_bind_Inr_iff)
  have "(tm_keyattno m1, tm_nfields m1, tm_nttl m1) = (tm_keyattno m, tm_nfields m, tm_nttl m)"
    by (rule result_fold_invariant [where P = "\<lambda>x. (tm_keyattno x, tm_nfields x, tm_nttl x) = (tm_keyattno m, tm_nfields m, tm_nttl m)", OF f])
       (auto simp: table_option_step_def Let_def result_bind_Inr_iff split: option.splits if_splits)
  then show ?thesis using c eq by (auto simp: vfdw_map_check_table_options_def Let_def split: if_splits)
qed

lemma resolve_packed_ok:
  assumes "vfdw_map_resolve_packed env m = Inr m'"
  shows "m' = m\<lparr>tm_packed := tm_packed m'\<rparr> \<and> (tm_legacy_value m \<longrightarrow> tm_packed m' \<noteq> None)"
  using assms by (auto simp: vfdw_map_resolve_packed_def Let_def split: if_splits prod.splits)

lemma map_build_wf: assumes "vfdw_map_build env relid attrs options = Inr m" shows "map_wf m"
proof -
  obtain m0 cols m1 m2 m3 m4 where b0: "vfdw_map_read_table_options (ty_opt env) options (zero_map relid) = Inr m0"
    and bc: "map_columns env 0 attrs = Inr cols" and b1: "vfdw_map_assign_defaults (m0\<lparr>tm_cols := cols\<rparr>) = Inr m1"
    and b2: "vfdw_map_check_types env m1 = Inr m2" and b3: "vfdw_map_resolve_packed env m2 = Inr m3"
    and b4: "vfdw_map_index_roles m3 = Inr m4" and b5: "m = vfdw_map_plan_hash_fetch m4"
    using assms by (auto simp: vfdw_map_build_def result_bind_Inr_iff)
  note t0 = table_options_ok [OF b0]
  note tc = map_columns_ok [OF bc]
  have t1: "assigned m1" and e1: "m1 = m0\<lparr>tm_cols := tm_cols m1, tm_keyattno := tm_keyattno m1\<rparr>"
    using assign_defaults_ok [OF b1] tc t0 by (auto simp: zero_map_def)
  have z: "tm_nfields m1 = 0" "tm_nttl m1 = 0" using t0 by (subst e1; simp add: zero_map_def)+
  obtain cols2 m2' where l2: "check_types_loop env (tm_cols m1) m1 = Inr (cols2, m2')" and m2: "m2 = m2'\<lparr>tm_cols := cols2\<rparr>"
    using b2 by (auto simp: vfdw_map_check_types_def result_bind_Inr_iff)
  note t2 = check_types_ok [OF l2] and a1 = t1 [unfolded assigned_def]
  have ct: "map shape cols2 = map shape (tm_cols m1)" "list_all (kind_allowed m1) (tm_cols m1)"
    "m2 = m1\<lparr>tm_cols := cols2, tm_nfields := length (of_kind VFDW_COL_FIELD (tm_cols m1)), tm_nttl := length (of_kind VFDW_COL_TTL (tm_cols m1))\<rparr>"
    "map col_ttl_slot (of_kind VFDW_COL_TTL cols2) = [0..<length (of_kind VFDW_COL_TTL (tm_cols m1))]"
    using t2 a1 z m2 by auto
  obtain pk where m3: "m3 = m2\<lparr>tm_packed := pk\<rparr>" and pk: "tm_legacy_value m2 \<longrightarrow> pk \<noteq> None"
    using resolve_packed_ok [OF b3] by metis
  obtain a b c where rl: "roles_loop cols2 (0, 0, 0) = Inr (a, b, c)"
    and m4: "m4 = m3\<lparr>tm_memberattno := a, tm_scoreattno := b, tm_valueattno := c\<rparr>"
    using b4 by (auto simp: vfdw_map_index_roles_def result_bind_Inr_iff m3 m2)
  obtain cols5 n5 where hf: "hash_fetch_loop cols2 0 = (cols5, n5)" by (metis surj_pair)
  note t5 = hash_fetch_ok [OF hf]
  define w where "w \<longleftrightarrow> \<not> (tm_tabletype m1 \<noteq> VFDW_TABLE_HASH \<or> tm_legacy_value m1)"
  define colsF where "colsF = (if w then cols5 else cols2)"
  have m: "m = m1\<lparr>tm_cols := colsF, tm_nfields := length (of_kind VFDW_COL_FIELD (tm_cols m1)), tm_nttl := length (of_kind VFDW_COL_TTL (tm_cols m1)),
      tm_packed := pk, tm_memberattno := a, tm_scoreattno := b, tm_valueattno := c, tm_hmget := (w \<and> n5 > 0), tm_nreq := (if w then n5 else 0)\<rparr>"
    unfolding b5 m4 m3 ct(3) vfdw_map_plan_hash_fetch_def colsF_def w_def by (simp add: hf)
  have sh: "map shape colsF = map shape (tm_cols m1)" using ct(1) t5 by (simp add: colsF_def)
  note sF = same_shape [OF sh, where k = 0 and m = m1] and s2 = same_shape [OF ct(1), where k = 0 and m = m1]
  have F: "attnums_ok 0 colsF" "filter unclaimed colsF = []" "list_all (kind_allowed m1) colsF"
    "request_fields colsF = request_fields (tm_cols m1)" "map col_kind colsF = map col_kind (tm_cols m1)"
    using sF [where kd = VFDW_COL_FIELD] a1 ct(2) by auto
  have len: "length (of_kind kd colsF) = length (of_kind kd (tm_cols m1))" and role: "role_ok kd x colsF = role_ok kd x (tm_cols m1)"
    and role2: "role_ok kd x cols2 = role_ok kd x (tm_cols m1)" for kd x
    using sF [where kd = kd] s2 [where kd = kd] by (simp_all add: role_ok_def)
  have at2: "attnums_ok 0 cols2" and rf2: "request_fields cols2 = request_fields (tm_cols m1)" using s2 a1 by auto
  have ttl: "map col_ttl_slot (of_kind VFDW_COL_TTL colsF) = [0..<length (of_kind VFDW_COL_TTL (tm_cols m1))]"
    using t5 ct(4) by (simp add: colsF_def)
  have roles: "role_ok VFDW_COL_MEMBER a colsF" "role_ok VFDW_COL_SCORE b colsF" "role_ok VFDW_COL_VALUE c colsF"
    using roles_loop_ok [OF rl at2] by (simp_all add: role role2)
  have slots: "n5 = length (request_fields colsF)"
    "list_all (\<lambda>col. col_field_slot col < n5 \<and> request_fields colsF ! col_field_slot col = the (col_field col)) (of_kind VFDW_COL_FIELD colsF)"
    if w using t5 that unfolding F(4) rf2 by (auto simp: colsF_def)
  have ka: "kind_allowed m = kind_allowed m1" by (rule kind_allowed_cong) (simp_all add: m)
  obtain cm1 km1 where e1': "m1 = m0\<lparr>tm_cols := cm1, tm_keyattno := km1\<rparr>" using e1 by blast
  have keys: "tm_singleton_key m1 = None \<or> tm_keyprefix m1 = None" "tm_singleton_key m1 = None \<or> tm_keyset m1 = None"
      "tm_keyprefix m1 = None \<or> tm_keyset m1 = None" using t0 by (simp_all add: e1')
  have hm: "tm_hmget m \<Longrightarrow> tm_tabletype m = VFDW_TABLE_HASH \<and> \<not> tm_legacy_value m \<and> tm_nreq m = length (request_fields (tm_cols m)) \<and>
      list_all (\<lambda>col. col_field_slot col < tm_nreq m \<and> request_fields (tm_cols m) ! col_field_slot col = the (col_field col))
        (of_kind VFDW_COL_FIELD (tm_cols m))"
    using slots by (simp add: m w_def)
  have lg: "tm_legacy_value m \<Longrightarrow> tm_packed m \<noteq> None \<and> map col_kind (tm_cols m) = [VFDW_COL_KEY, VFDW_COL_LEGACY_VALUE]"
    using pk a1 F(5) ct(3) by (simp add: m)
  have ky: "role_ok VFDW_COL_KEY (tm_keyattno m) (tm_cols m)" "tm_keyattno m = 0 \<longrightarrow> tm_singleton_key m \<noteq> None"
    using a1 by (simp_all add: m role)
  show ?thesis unfolding map_wf_def ka using hm lg ky F(1-3) keys roles ttl len by (simp add: m)
qed

text \<open>C36. Every table map the code builds is well formed, whatever options the table and its columns
  carry. Live columns sit at their attribute number and all have a source; the key, member, score and
  value numbers each name the one column of that kind, and a table without a key column has a
  singleton key; every column kind fits the table type; the counters are the numbers of columns; the
  ttl slots are numbered in order; and the slot of each hash field is the position of its own name in
  the field list the fetch sends.\<close>

theorem table_map_well_formed:
  assumes "vfdw_map_build env relid attrs options = Inr m"
  shows "map_wf m"
  using assms by (rule map_build_wf)

definition sample_type_env :: type_env where
  "sample_type_env = \<lparr>ty_base = id, ty_input = (\<lambda>t. (t, t)), ty_output = (\<lambda>t. (t, False)), ty_element = (\<lambda>_. 0),
     ty_lenbyvalalign = (\<lambda>_. (0, False, CHR ''c'')),
     ty_opt = \<lparr>oe_parse_bool = (\<lambda>s. if s = ''true'' then Some True else if s = ''false'' then Some False else None),
       oe_is_absolute_path = (\<lambda>_. True), oe_superuser = False\<rparr>\<rparr>"

definition sample_attrs :: "pg_attribute list" where
  "sample_attrs =
     [\<lparr>att_name = ''id'', att_isdropped = False, att_typid = 25, att_typmod = - 1, att_options = [(''key'', ''true'')]\<rparr>,
      \<lparr>att_name = ''age'', att_isdropped = False, att_typid = 23, att_typmod = - 1, att_options = [(''field'', ''age'')]\<rparr>,
      \<lparr>att_name = ''age_ttl'', att_isdropped = False, att_typid = 1186, att_typmod = - 1,
        att_options = [(''ttl'', ''true''), (''field'', ''age'')]\<rparr>,
      \<lparr>att_name = ''name'', att_isdropped = False, att_typid = 25, att_typmod = - 1, att_options = [(''field'', ''name'')]\<rparr>]"

definition sample_options :: options where
  "sample_options = [(''tabletype'', ''hash''), (''keyprefix'', ''user:'')]"

definition sample_map :: VfdwTableMap where
  "sample_map = projr (vfdw_map_build sample_type_env 1 sample_attrs sample_options)"

lemma sample_map_built: "vfdw_map_build sample_type_env 1 sample_attrs sample_options = Inr sample_map"
proof -
  have "\<not> isl (vfdw_map_build sample_type_env 1 sample_attrs sample_options)" by code_simp
  then show ?thesis by (simp add: sample_map_def)
qed

lemma sample_map_value:
  "sample_map =
     \<lparr>tm_relid = 1, tm_cols = [\<lparr>col_attnum = 1, col_kind = VFDW_COL_KEY, col_index_type =
     VFDW_INDEX_NONE, col_field = None, col_typid = 25, col_typmod = - 1, col_typinput = 25, col_typioparam = 25,
     col_typoutput = 25, col_typisvarlena = False, col_is_binary = False, col_is_domain = False, col_field_slot = 0,
     col_ttl_slot = 0\<rparr>, \<lparr>col_attnum = 2, col_kind = VFDW_COL_FIELD, col_index_type = VFDW_INDEX_NONE,
     col_field = Some ''age'', col_typid = 23, col_typmod = - 1, col_typinput = 23, col_typioparam = 23,
     col_typoutput = 23, col_typisvarlena = False, col_is_binary = False, col_is_domain = False, col_field_slot = 0,
     col_ttl_slot = 0\<rparr>, \<lparr>col_attnum = 3, col_kind = VFDW_COL_TTL, col_index_type = VFDW_INDEX_NONE,
     col_field = Some ''age'', col_typid = 1186, col_typmod = - 1, col_typinput = 1186, col_typioparam = 1186,
     col_typoutput = 1186, col_typisvarlena = False, col_is_binary = False, col_is_domain = False, col_field_slot =
     0, col_ttl_slot = 0\<rparr>, \<lparr>col_attnum = 4, col_kind = VFDW_COL_FIELD, col_index_type =
     VFDW_INDEX_NONE, col_field = Some ''name'', col_typid = 25, col_typmod = - 1, col_typinput = 25, col_typioparam
     = 25, col_typoutput = 25, col_typisvarlena = False, col_is_binary = False, col_is_domain = False,
     col_field_slot = 2, col_ttl_slot = 0\<rparr>], tm_keyattno = 1, tm_memberattno = 0, tm_scoreattno = 0,
     tm_valueattno = 0, tm_tabletype = VFDW_TABLE_HASH, tm_keyprefix = Some ''user:'', tm_keyset = None,
     tm_singleton_key = None, tm_search_index = None, tm_database = 0, tm_legacy_value = False, tm_readonly = False,
     tm_nfields = 2, tm_nttl = 1, tm_hmget = True, tm_nreq = 3, tm_packed = None\<rparr>"
  by code_simp

theorem table_map_well_formed_witness: "map_wf sample_map"
  using table_map_well_formed [OF sample_map_built] .

end
