(* ===== verification/Searchfilter.thy ===== *)
theory Searchfilter
  imports Tablemap "HOL-Library.Multiset"
begin

text \<open>
  Pushing WHERE clauses into a vector search: \<open>src/vfdw_filter.c\<close>.

  An expression is a variable, an operator call, or anything else; what the planner's own functions
  say of one (\<open>strip_implicit_coercions\<close>, \<open>pull_varnos\<close>, \<open>exprType\<close>, \<open>get_opname\<close>) is a record of
  parameters. A bound value at run time is \<open>None\<close> when it is NULL and otherwise its type, its value
  as a float8 and its text; \<open>float8out\<close> and the tag's output function are inside those.
\<close>

section \<open>Expressions and terms\<close>

datatype node = Var nat nat int | OpExpr Oid Oid "node list" | OtherNode nat

record planner =
  pl_strip :: "node \<Rightarrow> node option"
  pl_varnos :: "node \<Rightarrow> nat set"
  pl_exprType :: "node \<Rightarrow> Oid"
  pl_opname :: "Oid \<Rightarrow> string option"

record VfdwFilterTerm =
  ft_field :: string
  ft_bound :: node
  ft_lower :: bool
  ft_exclusive :: bool
  ft_both :: bool
  ft_tag :: bool

abbreviation (input) BOOLOID :: Oid where "BOOLOID \<equiv> 16"

definition vfdw_filter_type_is_exact :: "type_env \<Rightarrow> Oid \<Rightarrow> bool" where
  "vfdw_filter_type_is_exact env typid \<longleftrightarrow> ty_base env typid \<in> set [INT2OID, INT4OID, FLOAT4OID, FLOAT8OID]"

text \<open>\<open>vfdw_var_of_rel\<close> and the bounds test on the attribute number, shared by the two field finders.\<close>

definition column_of :: "planner \<Rightarrow> nat \<Rightarrow> VfdwTableMap \<Rightarrow> node \<Rightarrow> VfdwColumn option" where
  "column_of pl relid m nd =
     (case pl_strip pl nd of
        Some (Var varno varlevelsup varattno) \<Rightarrow>
          if varno \<noteq> relid \<or> varlevelsup \<noteq> 0 then None
          else if varattno < 1 \<or> varattno > int (length (tm_cols m)) then None
          else Some (tm_cols m ! nat (varattno - 1))
      | _ \<Rightarrow> None)"

definition vfdw_filter_numeric_field :: "type_env \<Rightarrow> planner \<Rightarrow> nat \<Rightarrow> VfdwTableMap \<Rightarrow> node \<Rightarrow> string option" where
  "vfdw_filter_numeric_field env pl relid m nd =
     (case column_of pl relid m nd of
        None \<Rightarrow> None
      | Some col \<Rightarrow>
          if col_kind col \<noteq> VFDW_COL_FIELD \<or> col_index_type col \<noteq> VFDW_INDEX_NUMERIC then None
          else if \<not> vfdw_filter_type_is_exact env (col_typid col) then None
          else if \<not> vfdw_filter_name_is_safe (col_field col) then None
          else col_field col)"

definition vfdw_filter_tag_field :: "planner \<Rightarrow> nat \<Rightarrow> VfdwTableMap \<Rightarrow> node \<Rightarrow> string option" where
  "vfdw_filter_tag_field pl relid m nd =
     (case column_of pl relid m nd of
        None \<Rightarrow> None
      | Some col \<Rightarrow>
          if col_kind col \<noteq> VFDW_COL_FIELD \<or> col_index_type col \<noteq> VFDW_INDEX_TAG then None
          else if \<not> vfdw_filter_name_is_safe (col_field col) then None
          else col_field col)"

section \<open>Compiling\<close>

definition vfdw_filter_op_is_equality :: "planner \<Rightarrow> Oid \<Rightarrow> bool" where
  "vfdw_filter_op_is_equality pl opno \<longleftrightarrow> pl_opname pl opno = Some ''=''"

definition vfdw_filter_op_range :: "planner \<Rightarrow> Oid \<Rightarrow> bool \<Rightarrow> VfdwFilterTerm \<Rightarrow> VfdwFilterTerm option" where
  "vfdw_filter_op_range pl opno var_on_left term =
     (case pl_opname pl opno of
        None \<Rightarrow> None
      | Some name \<Rightarrow>
          let t = term\<lparr>ft_both := False, ft_exclusive := False\<rparr> in
          if name = ''='' then Some (t\<lparr>ft_both := True\<rparr>)
          else if name = ''<'' then Some (t\<lparr>ft_lower := \<not> var_on_left, ft_exclusive := True\<rparr>)
          else if name = ''<='' then Some (t\<lparr>ft_lower := \<not> var_on_left\<rparr>)
          else if name = ''>'' then Some (t\<lparr>ft_lower := var_on_left, ft_exclusive := True\<rparr>)
          else if name = ''>='' then Some (t\<lparr>ft_lower := var_on_left\<rparr>)
          else None)"

definition zero_term :: "string \<Rightarrow> node \<Rightarrow> VfdwFilterTerm" where
  "zero_term field bound = \<lparr>ft_field = field, ft_bound = bound, ft_lower = False, ft_exclusive = False, ft_both = False, ft_tag = False\<rparr>"

text \<open>The field on one side and the bound on the other, the left side tried first.\<close>

definition pick_side :: "(node \<Rightarrow> string option) \<Rightarrow> node \<Rightarrow> node \<Rightarrow> (string \<times> node \<times> bool) option" where
  "pick_side field_of l r =
     (case field_of l of
        Some f \<Rightarrow> Some (f, r, True)
      | None \<Rightarrow> (case field_of r of Some f \<Rightarrow> Some (f, l, False) | None \<Rightarrow> None))"

definition vfdw_filter_tag_term :: "planner \<Rightarrow> nat \<Rightarrow> VfdwTableMap \<Rightarrow> Oid \<Rightarrow> node \<Rightarrow> node \<Rightarrow> VfdwFilterTerm option" where
  "vfdw_filter_tag_term pl relid m opno l r =
     (case pick_side (vfdw_filter_tag_field pl relid m) l r of
        None \<Rightarrow> None
      | Some (field, bound, _) \<Rightarrow>
          if relid \<in> pl_varnos pl bound then None
          else if \<not> vfdw_filter_op_is_equality pl opno then None
          else Some ((zero_term field bound)\<lparr>ft_tag := True\<rparr>))"

definition vfdw_filter_one :: "type_env \<Rightarrow> planner \<Rightarrow> nat \<Rightarrow> VfdwTableMap \<Rightarrow> node \<Rightarrow> VfdwFilterTerm option" where
  "vfdw_filter_one env pl relid m clause =
     (case clause of
        OpExpr opno restype [l, r] \<Rightarrow>
          if restype \<noteq> BOOLOID then None
          else (case pick_side (vfdw_filter_numeric_field env pl relid m) l r of
                  None \<Rightarrow> vfdw_filter_tag_term pl relid m opno l r
                | Some (field, bound, var_on_left) \<Rightarrow>
                    if relid \<in> pl_varnos pl bound then None
                    else if \<not> vfdw_filter_type_is_exact env (pl_exprType pl bound) then None
                    else vfdw_filter_op_range pl opno var_on_left (zero_term field bound))
      | _ \<Rightarrow> None)"

text \<open>\<open>None\<close> is the NULL result with a reason: one clause that does not compile refuses them all.\<close>

fun vfdw_filter_compile :: "type_env \<Rightarrow> planner \<Rightarrow> nat \<Rightarrow> VfdwTableMap \<Rightarrow> node list \<Rightarrow> VfdwFilterTerm list option" where
  "vfdw_filter_compile env pl relid m [] = Some []"
| "vfdw_filter_compile env pl relid m (clause # clauses) =
     (case vfdw_filter_one env pl relid m clause of
        None \<Rightarrow> None
      | Some term \<Rightarrow> map_option ((#) term) (vfdw_filter_compile env pl relid m clauses))"

section \<open>The plan's copy of the terms\<close>

abbreviation (input) VFDW_FILTER_LOWER :: "32 word" where "VFDW_FILTER_LOWER \<equiv> 0x01"
abbreviation (input) VFDW_FILTER_EXCLUSIVE :: "32 word" where "VFDW_FILTER_EXCLUSIVE \<equiv> 0x02"
abbreviation (input) VFDW_FILTER_BOTH :: "32 word" where "VFDW_FILTER_BOTH \<equiv> 0x04"
abbreviation (input) VFDW_FILTER_TAG :: "32 word" where "VFDW_FILTER_TAG \<equiv> 0x08"

definition term_flags :: "VfdwFilterTerm \<Rightarrow> 32 word" where
  "term_flags t =
     (let f0 = 0;
          f1 = (if ft_lower t then f0 OR VFDW_FILTER_LOWER else f0);
          f2 = (if ft_exclusive t then f1 OR VFDW_FILTER_EXCLUSIVE else f1);
          f3 = (if ft_both t then f2 OR VFDW_FILTER_BOTH else f2)
      in if ft_tag t then f3 OR VFDW_FILTER_TAG else f3)"

definition vfdw_filter_encode :: "VfdwFilterTerm list \<Rightarrow> node list \<Rightarrow> (string \<times> 32 word) list \<times> node list" where
  "vfdw_filter_encode terms bounds = (map (\<lambda>t. (ft_field t, term_flags t)) terms, bounds @ map ft_bound terms)"

text \<open>A decoded term has no bound: \<open>palloc0\<close> left it NULL, the expression with number 0 here.\<close>

definition vfdw_filter_decode :: "(string \<times> 32 word) list \<Rightarrow> VfdwFilterTerm list" where
  "vfdw_filter_decode encoded = map (\<lambda>(field, flags).
     \<lparr>ft_field = field, ft_bound = OtherNode 0, ft_lower = (flags AND VFDW_FILTER_LOWER \<noteq> 0),
      ft_exclusive = (flags AND VFDW_FILTER_EXCLUSIVE \<noteq> 0), ft_both = (flags AND VFDW_FILTER_BOTH \<noteq> 0),
      ft_tag = (flags AND VFDW_FILTER_TAG \<noteq> 0)\<rparr>) encoded"

definition describe_term :: "VfdwFilterTerm \<Rightarrow> string" where
  "describe_term t =
     ''@'' @ ft_field t @
     (if ft_tag t then '':{$}'' else if ft_both t then '':[$ $]''
      else if ft_lower t then '':['' @ (if ft_exclusive t then ''('' else []) @ ''$ +inf]''
      else '':[-inf '' @ (if ft_exclusive t then ''('' else []) @ ''$]'')"

definition vfdw_filter_describe :: "VfdwFilterTerm list \<Rightarrow> string" where
  "vfdw_filter_describe terms =
     foldl (\<lambda>buf t. buf @ (if buf \<noteq> [] then '' '' else []) @ describe_term t) [] terms"

definition vfdw_filter_is_exact :: "VfdwFilterTerm list \<Rightarrow> bool" where
  "vfdw_filter_is_exact terms \<longleftrightarrow> list_all (\<lambda>t. \<not> ft_tag t) terms"

section \<open>Rendering\<close>

datatype float8 = F8_NaN | F8_Inf bool | F8_Finite string

record bound_value =
  bv_typid :: Oid
  bv_float :: float8
  bv_text :: string

definition vfdw_filter_bound_text :: "type_env \<Rightarrow> bound_value \<Rightarrow> string option result" where
  "vfdw_filter_bound_text env v =
     (if \<not> vfdw_filter_type_is_exact env (bv_typid v)
      then raise ERRCODE_INTERNAL_ERROR ''valkey_fdw: filter bound of unexpected type''
      else Inr (case bv_float v of
                  F8_NaN \<Rightarrow> None
                | F8_Inf pos \<Rightarrow> Some (if pos then ''+inf'' else ''-inf'')
                | F8_Finite s \<Rightarrow> Some s))"

definition tag_char :: "char \<Rightarrow> bool" where
  "tag_char c \<longleftrightarrow>
     is_alnum c \<or> c = CHR ''_'' \<or> c = CHR ''-'' \<or> c = CHR ''.'' \<or> c = CHR '' ''"

definition vfdw_filter_render_tag :: "VfdwFilterTerm \<Rightarrow> bound_value \<Rightarrow> string" where
  "vfdw_filter_render_tag t v =
     (if list_all tag_char (bv_text v) then ''@'' @ ft_field t @ '':{'' @ bv_text v @ ''} '' else [])"

definition vfdw_filter_render_range :: "type_env \<Rightarrow> VfdwFilterTerm \<Rightarrow> bound_value \<Rightarrow> string option result" where
  "vfdw_filter_render_range env t v =
     result_bind (vfdw_filter_bound_text env v) (\<lambda>r.
       case r of
         None \<Rightarrow> Inr None
       | Some num \<Rightarrow>
           if ft_both t \<and> num \<noteq> [] \<and> hd num \<noteq> CHR ''-'' \<and> length num > 1 \<and> num ! 1 = CHR ''i''
           then raise ERRCODE_FEATURE_NOT_SUPPORTED ''cannot search for a field equal to infinity''
           else let open = (if ft_exclusive t then ''('' else []) in
             Inr (Some (''@'' @ ft_field t @ '':['' @
               (if ft_both t then num @ '' '' @ num
                else if ft_lower t then open @ num @ '' +inf''
                else ''-inf '' @ open @ num) @ ''] '')))"

text \<open>\<open>None\<close> is the result false: no row can match, and the caller sends nothing.\<close>

fun vfdw_filter_render :: "type_env \<Rightarrow> (VfdwFilterTerm \<times> bound_value option) list \<Rightarrow> string \<Rightarrow> string option result" where
  "vfdw_filter_render env [] out = Inr (Some out)"
| "vfdw_filter_render env ((t, None) # rest) out = Inr None"
| "vfdw_filter_render env ((t, Some v) # rest) out =
     (if ft_tag t then vfdw_filter_render env rest (out @ vfdw_filter_render_tag t v)
      else result_bind (vfdw_filter_render_range env t v) (\<lambda>r.
        case r of None \<Rightarrow> Inr None | Some s \<Rightarrow> vfdw_filter_render env rest (out @ s)))"

section \<open>What a term means\<close>

definition op_holds :: "string \<Rightarrow> 'a :: linorder \<Rightarrow> 'a \<Rightarrow> bool" where
  "op_holds name a b \<longleftrightarrow>
     (if name = ''='' then a = b else if name = ''<'' then a < b else if name = ''<='' then a \<le> b
      else if name = ''>'' then b < a else name = ''>='' \<and> b \<le> a)"

definition term_holds :: "VfdwFilterTerm \<Rightarrow> 'a :: linorder \<Rightarrow> 'a \<Rightarrow> bool" where
  "term_holds t x b \<longleftrightarrow>
     (if ft_both t then x = b
      else if ft_lower t then (if ft_exclusive t then b < x else b \<le> x)
      else (if ft_exclusive t then x < b else x \<le> b))"

lemma op_range_means:
  assumes "vfdw_filter_op_range pl opno left t = Some t'" and "pl_opname pl opno = Some name"
  shows "term_holds t' x b = op_holds name (if left then x else b) (if left then b else x)"
  using assms by (auto simp: vfdw_filter_op_range_def term_holds_def op_holds_def Let_def split: if_splits)

lemma op_range_keeps: "vfdw_filter_op_range pl opno left t = Some t' \<Longrightarrow> ft_field t' = ft_field t \<and> ft_bound t' = ft_bound t \<and> ft_tag t' = ft_tag t"
  by (auto simp: vfdw_filter_op_range_def Let_def split: if_splits option.splits)

lemma pick_side_cases:
  assumes "pick_side g l r = Some (f, b, left)"
  shows "g (if left then l else r) = Some f \<and> b = (if left then r else l)"
  using assms by (auto simp: pick_side_def split: option.splits)

lemma numeric_field_safe:
  "vfdw_filter_numeric_field env pl relid m nd = Some f \<Longrightarrow> vfdw_filter_name_is_safe (Some f) \<and>
     (\<exists>col. column_of pl relid m nd = Some col \<and> col_kind col = VFDW_COL_FIELD \<and> col_field col = Some f)"
  by (auto simp: vfdw_filter_numeric_field_def split: option.splits if_splits)

lemma tag_field_safe:
  "vfdw_filter_tag_field pl relid m nd = Some f \<Longrightarrow> vfdw_filter_name_is_safe (Some f) \<and>
     (\<exists>col. column_of pl relid m nd = Some col \<and> col_kind col = VFDW_COL_FIELD \<and> col_field col = Some f)"
  by (auto simp: vfdw_filter_tag_field_def split: option.splits if_splits)

lemma filter_one_cases:
  assumes "vfdw_filter_one env pl relid m clause = Some t"
  obtains opno l r left name where "clause = OpExpr opno BOOLOID [l, r]" and "pl_opname pl opno = Some name"
    and "\<exists>col. column_of pl relid m (if left then l else r) = Some col \<and> col_kind col = VFDW_COL_FIELD \<and> col_field col = Some (ft_field t)"
    and "vfdw_filter_name_is_safe (Some (ft_field t))"
    and "ft_bound t = (if left then r else l)" and "relid \<notin> pl_varnos pl (ft_bound t)"
    and "if ft_tag t then name = ''='' else vfdw_filter_op_range pl opno left (zero_term (ft_field t) (ft_bound t)) = Some t"
proof -
  obtain opno l r where c: "clause = OpExpr opno BOOLOID [l, r]"
    using assms by (auto simp: vfdw_filter_one_def split: node.splits list.splits if_splits)
  show thesis
  proof (cases "pick_side (vfdw_filter_numeric_field env pl relid m) l r")
    case None
    then have "vfdw_filter_tag_term pl relid m opno l r = Some t" using assms c by (simp add: vfdw_filter_one_def)
    then obtain f b left where p: "pick_side (vfdw_filter_tag_field pl relid m) l r = Some (f, b, left)" "relid \<notin> pl_varnos pl b"
      "pl_opname pl opno = Some ''=''" "t = (zero_term f b)\<lparr>ft_tag := True\<rparr>"
      by (auto simp: vfdw_filter_tag_term_def vfdw_filter_op_is_equality_def split: option.splits prod.splits if_splits)
    note ps = pick_side_cases [OF p(1)]
    show thesis using that [OF c p(3), of left] ps tag_field_safe [of pl relid m _ f] p(2,4) by (auto simp: zero_term_def)
  next
    case (Some fbl)
    obtain f b left where eq: "fbl = (f, b, left)" by (metis surj_pair)
    have t: "relid \<notin> pl_varnos pl b" "vfdw_filter_op_range pl opno left (zero_term f b) = Some t"
      using assms c Some eq by (auto simp: vfdw_filter_one_def split: if_splits)
    note ps = pick_side_cases [OF Some [unfolded eq]] and k = op_range_keeps [OF t(2)]
    obtain name where n: "pl_opname pl opno = Some name" using t(2) by (auto simp: vfdw_filter_op_range_def split: option.splits)
    show thesis using that [OF c n, of left] ps numeric_field_safe [of env pl relid m _ f] t k by (auto simp: zero_term_def)
  qed
qed


definition sample_planner :: planner where
  "sample_planner = \<lparr>pl_strip = Some, pl_varnos = (\<lambda>nd. case nd of Var v _ _ \<Rightarrow> {v} | _ \<Rightarrow> {}), pl_exprType = (\<lambda>_. 23),
     pl_opname = (\<lambda>opno. if opno = 97 then Some ''<'' else None)\<rparr>"

definition sample_vector_map :: VfdwTableMap where
  "sample_vector_map = (zero_map 1)\<lparr>tm_tabletype := VFDW_TABLE_VECTOR, tm_cols :=
     [zero_column\<lparr>col_attnum := 1, col_kind := VFDW_COL_FIELD, col_index_type := VFDW_INDEX_NUMERIC, col_field := Some ''price'',
        col_typid := 23\<rparr>]\<rparr>"


text \<open>The executor runs the filter the planner compiled: encoding the terms into the plan and decoding
  them again, with the bounds put back in order, gives every term unchanged, and so the same
  description and the same answer to whether the search needs a recheck.\<close>

theorem filter_plan_roundtrip:
  "case vfdw_filter_encode terms [] of (encoded, bounds) \<Rightarrow>
     length bounds = length terms \<and>
     map2 (\<lambda>t b. t\<lparr>ft_bound := b\<rparr>) (vfdw_filter_decode encoded) bounds = terms \<and>
     vfdw_filter_describe (vfdw_filter_decode encoded) = vfdw_filter_describe terms \<and>
     vfdw_filter_is_exact (vfdw_filter_decode encoded) = vfdw_filter_is_exact terms"
proof -
  let ?d = "\<lambda>t. t\<lparr>ft_bound := OtherNode 0\<rparr>"
  have d: "vfdw_filter_decode (map (\<lambda>t. (ft_field t, term_flags t)) terms) = map ?d terms"
    by (simp add: vfdw_filter_decode_def) (simp add: term_flags_def)
  have z: "map2 (\<lambda>t b. t\<lparr>ft_bound := b\<rparr>) (map ?d terms) (map ft_bound terms) = terms" by (induction terms) auto
  have desc: "describe_term (?d t) = describe_term t" for t by (simp add: describe_term_def)
  have "foldl (\<lambda>buf t. buf @ (if buf \<noteq> [] then '' '' else []) @ describe_term t) acc (map ?d terms) =
      foldl (\<lambda>buf t. buf @ (if buf \<noteq> [] then '' '' else []) @ describe_term t) acc terms" for acc
    by (induction terms arbitrary: acc) (simp_all add: desc)
  then show ?thesis using z by (simp add: vfdw_filter_encode_def d vfdw_filter_describe_def vfdw_filter_is_exact_def list_all_iff)
qed

text \<open>Equality with plus infinity is refused; with minus infinity the same query is sent.\<close>

lemma minus_infinity_is_sent:
  "vfdw_filter_render_range sample_type_env (zero_term ''p'' (OtherNode 0)\<lparr>ft_both := True\<rparr>) \<lparr>bv_typid = 701, bv_float = F8_Inf True, bv_text = []\<rparr> =
     raise ERRCODE_FEATURE_NOT_SUPPORTED ''cannot search for a field equal to infinity''"
  "vfdw_filter_render_range sample_type_env (zero_term ''p'' (OtherNode 0)\<lparr>ft_both := True\<rparr>) \<lparr>bv_typid = 701, bv_float = F8_Inf False, bv_text = []\<rparr> =
     Inr (Some ''@p:[-inf -inf] '')"
  by code_simp+

end
