(* ===== verification/Value.thy ===== *)
theory Value
  imports Tablemap Score Vec Conn "HOL-Library.Signed_Division"
begin

text \<open>
  Values on their way out: the conversion of a column's datum to the bytes of a command argument
  (\<open>src/vfdw_val.c\<close>), the key a row may be written under, and the time to live of a hash field in
  both directions (\<open>src/vfdw_ttl.c\<close>).

  A \<open>Datum\<close> is a tagged value: the code only ever looks inside a bytea, an interval, an array and
  the two integers it makes itself; a value of any other type is opaque and reaches the code
  through its type's output and input functions. Those functions, the domain check, the encoding
  check and \<open>strtod\<close> are PostgreSQL's or the C library's: they are the fields of \<open>val_env\<close>.
\<close>

section \<open>Datums\<close>

datatype Datum =
    DBytea bytes
  | DInterval (iv_month: int) (iv_day: int) (iv_time: int)
  | DInt32 int
  | DInt64 int
  | DArray nat "Datum option list"
  | DOpaque bytes

record val_env =
  ve_output :: "Oid \<Rightarrow> Datum \<Rightarrow> bytes result"
  ve_input :: "Oid \<Rightarrow> bytes \<Rightarrow> Oid \<Rightarrow> int \<Rightarrow> Datum result"
  ve_domain_check :: "Oid \<Rightarrow> Datum \<Rightarrow> unit result"
  ve_verifymbstr :: "bytes \<Rightarrow> unit result"
  ve_float4out :: "32 word \<Rightarrow> string"
  ve_base :: "Oid \<Rightarrow> Oid"
  ve_strtod :: "bytes \<Rightarrow> strtod_result"

text \<open>\<open>VARDATA_ANY\<close> and \<open>VARSIZE_ANY_EXHDR\<close>: the payload of a varlena.\<close>

fun vardata :: "Datum \<Rightarrow> bytes" where
  "vardata (DBytea b) = b"
| "vardata (DOpaque b) = b"
| "vardata _ = []"

section \<open>The conversion context\<close>

text \<open>
  The relation, as its name and attribute names, and the output function of each attribute; the
  memory contexts are not modelled. A null value is \<open>None\<close>.
\<close>

type_synonym VfdwValue = "bytes option"

record VfdwValCtx =
  vc_rel :: "(string \<times> string list) option"
  vc_outfuncs :: "Oid list"

text \<open>\<open>col->packed\<close>: only the packed column of a legacy table has one.\<close>

definition col_packed :: "VfdwTableMap \<Rightarrow> VfdwColumn \<Rightarrow> VfdwPackedElem option" where
  "col_packed m col = (if col_kind col = VFDW_COL_LEGACY_VALUE then tm_packed m else None)"

definition vfdw_val_ctx_init :: "(string \<times> string list) option \<Rightarrow> VfdwTableMap \<Rightarrow> VfdwValCtx" where
  "vfdw_val_ctx_init rel m = \<lparr>vc_rel = rel, vc_outfuncs =
     map (\<lambda>col. if col_attnum col = InvalidAttrNumber then InvalidOid
                else case col_packed m col of Some p \<Rightarrow> col_typoutput (pe_col p) | None \<Rightarrow> col_typoutput col) (tm_cols m)\<rparr>"

definition vfdw_val_relname :: "VfdwValCtx \<Rightarrow> string" where
  "vfdw_val_relname vc = (case vc_rel vc of Some (name, _) \<Rightarrow> name | None \<Rightarrow> ''(diagnostic)'')"

definition vfdw_val_colname :: "VfdwValCtx \<Rightarrow> VfdwColumn option \<Rightarrow> string" where
  "vfdw_val_colname vc c =
     (case (vc_rel vc, c) of
        (Some (_, names), Some col) \<Rightarrow>
          if col_attnum col = InvalidAttrNumber then ''(diagnostic)'' else names ! (col_attnum col - 1)
      | _ \<Rightarrow> ''(diagnostic)'')"

definition quoted :: "string \<Rightarrow> string" where
  "quoted s = [CHR 0x22] @ s @ [CHR 0x22]"

section \<open>Rendering\<close>

definition VFDW_MAX_ARG_BYTES :: int where
  "VFDW_MAX_ARG_BYTES = 536870912"

definition vfdw_val_check_arg_len :: "nat \<Rightarrow> unit result" where
  "vfdw_val_check_arg_len len =
     (if int len \<le> VFDW_MAX_ARG_BYTES then Inr ()
      else raise ERRCODE_PROGRAM_LIMIT_EXCEEDED ''value is too large to send to Valkey as one argument'')"

definition vfdw_val_render_scratch :: "val_env \<Rightarrow> VfdwValCtx \<Rightarrow> VfdwColumn \<Rightarrow> Datum \<Rightarrow> bytes result" where
  "vfdw_val_render_scratch env vc col d =
     result_bind (if col_is_binary col then Inr (vardata d)
                  else map_sum id cstr (ve_output env (vc_outfuncs vc ! (col_attnum col - 1)) d)) (\<lambda>b.
     result_bind (vfdw_val_check_arg_len (length b)) (\<lambda>_. Inr b))"

definition vfdw_val_render :: "val_env \<Rightarrow> VfdwValCtx \<Rightarrow> VfdwColumn \<Rightarrow> Datum option \<Rightarrow> VfdwValue result" where
  "vfdw_val_render env vc col v =
     (case v of None \<Rightarrow> Inr None | Some d \<Rightarrow> map_sum id Some (vfdw_val_render_scratch env vc col d))"

definition vfdw_val_error_null :: "VfdwValCtx \<Rightarrow> VfdwColumn option \<Rightarrow> 'a result" where
  "vfdw_val_error_null vc col =
     raise ERRCODE_NOT_NULL_VIOLATION
       (''null value in column '' @ quoted (vfdw_val_colname vc col) @ '' has no representation in Valkey'')"

definition vfdw_val_error_all_fields_null :: "'a result" where
  "vfdw_val_error_all_fields_null = raise ERRCODE_NOT_NULL_VIOLATION ''every mapped field of the row is null''"

definition vfdw_val_score_column :: "val_env \<Rightarrow> VfdwValCtx \<Rightarrow> VfdwColumn \<Rightarrow> Datum \<Rightarrow> VfdwValue result" where
  "vfdw_val_score_column env vc col d =
     result_bind (vfdw_val_render_scratch env vc col d) (\<lambda>b.
     result_bind (vfdw_val_check_score (ve_strtod env) b) (\<lambda>_. Inr (Some b)))"

text \<open>Signed 64-bit arithmetic that reports its overflow: \<open>pg_mul_s64_overflow\<close> and \<open>pg_add_s64_overflow\<close>.\<close>

definition fits64 :: "int \<Rightarrow> bool" where
  "fits64 i \<longleftrightarrow> - (2 ^ 63) \<le> i \<and> i < 2 ^ 63"

text \<open>C's division truncates towards zero: \<open>sdiv\<close>.\<close>

definition vfdw_val_ttl_column :: "VfdwValCtx \<Rightarrow> VfdwColumn \<Rightarrow> Datum option \<Rightarrow> VfdwValue result" where
  "vfdw_val_ttl_column vc col v =
     (case v of
        None \<Rightarrow> Inr None
      | Some iv \<Rightarrow>
          let days = iv_month iv * 30 + iv_day iv;
              ms0 = days * 86400000;
              ms = ms0 + iv_time iv sdiv 1000;
              of_column = '' for column '' @ quoted (vfdw_val_colname vc (Some col)) @ '' of '' @ quoted (vfdw_val_relname vc)
          in if \<not> fits64 ms0 \<or> \<not> fits64 ms
             then raise ERRCODE_DATETIME_VALUE_OUT_OF_RANGE (''time to live is too large'' @ of_column)
             else if ms \<le> 0
             then raise ERRCODE_INVALID_PARAMETER_VALUE (''time to live must be positive'' @ of_column)
             else Inr (Some (dec_int ms)))"

definition vfdw_val_position_column :: "VfdwValCtx \<Rightarrow> VfdwColumn \<Rightarrow> Datum option \<Rightarrow> VfdwValue result" where
  "vfdw_val_position_column vc col v =
     (if v \<noteq> None
      then raise ERRCODE_FEATURE_NOT_SUPPORTED
             (''cannot write to position column '' @ quoted (vfdw_val_colname vc (Some col)) @ '' of '' @ quoted (vfdw_val_relname vc))
      else Inr None)"

section \<open>The key a row is written under\<close>

datatype VfdwKeyVerdict =
  VFDW_KEY_OK | VFDW_KEY_NULL | VFDW_KEY_NO_COLUMN | VFDW_KEY_PREFIX | VFDW_KEY_KEYSET | VFDW_KEY_SINGLETON

primrec vfdw_val_key_verdict_name :: "VfdwKeyVerdict \<Rightarrow> string" where
  "vfdw_val_key_verdict_name VFDW_KEY_OK = ''ok''"
| "vfdw_val_key_verdict_name VFDW_KEY_NULL = ''null''"
| "vfdw_val_key_verdict_name VFDW_KEY_NO_COLUMN = ''no_key_column''"
| "vfdw_val_key_verdict_name VFDW_KEY_PREFIX = ''prefix''"
| "vfdw_val_key_verdict_name VFDW_KEY_KEYSET = ''keyset_collision''"
| "vfdw_val_key_verdict_name VFDW_KEY_SINGLETON = ''singleton_mismatch''"

definition vfdw_val_has_prefix :: "string \<Rightarrow> bytes \<Rightarrow> bool" where
  "vfdw_val_has_prefix keyprefix key \<longleftrightarrow> length key \<ge> length keyprefix \<and> take (length keyprefix) key = keyprefix"

definition vfdw_val_is_keyset :: "string \<Rightarrow> bytes \<Rightarrow> bool" where
  "vfdw_val_is_keyset keyset key \<longleftrightarrow> length key = length keyset \<and> take (length keyset) key = keyset"

text \<open>A verdict and, when it is \<open>VFDW_KEY_OK\<close>, the key.\<close>

definition vfdw_val_singleton_key ::
  "val_env \<Rightarrow> VfdwValCtx \<Rightarrow> string \<Rightarrow> VfdwColumn option \<Rightarrow> Datum option \<Rightarrow> (VfdwKeyVerdict \<times> bytes) result" where
  "vfdw_val_singleton_key env vc singleton c v =
     (case (c, v) of
        (Some col, Some d) \<Rightarrow>
          result_bind (vfdw_val_render_scratch env vc col d) (\<lambda>given.
          Inr (if length given \<noteq> length singleton \<or> take (length singleton) given \<noteq> singleton
               then (VFDW_KEY_SINGLETON, []) else (VFDW_KEY_OK, singleton)))
      | _ \<Rightarrow> Inr (VFDW_KEY_OK, singleton))"

definition vfdw_val_key_classify ::
  "val_env \<Rightarrow> VfdwValCtx \<Rightarrow> VfdwTableMap \<Rightarrow> VfdwColumn option \<Rightarrow> Datum option \<Rightarrow> (VfdwKeyVerdict \<times> bytes) result" where
  "vfdw_val_key_classify env vc m c v =
     (case tm_singleton_key m of
        Some singleton \<Rightarrow> vfdw_val_singleton_key env vc singleton c v
      | None \<Rightarrow>
          (case c of
             None \<Rightarrow> Inr (VFDW_KEY_NO_COLUMN, [])
           | Some col \<Rightarrow>
               (case v of
                  None \<Rightarrow> Inr (VFDW_KEY_NULL, [])
                | Some d \<Rightarrow>
                    result_bind (vfdw_val_render_scratch env vc col d) (\<lambda>b.
                    Inr (if tm_keyprefix m \<noteq> None \<and> \<not> vfdw_val_has_prefix (the (tm_keyprefix m)) b then (VFDW_KEY_PREFIX, [])
                         else if tm_keyset m \<noteq> None \<and> vfdw_val_is_keyset (the (tm_keyset m)) b then (VFDW_KEY_KEYSET, [])
                         else (VFDW_KEY_OK, b))))))"

definition vfdw_val_key_error :: "VfdwValCtx \<Rightarrow> VfdwColumn option \<Rightarrow> VfdwKeyVerdict \<Rightarrow> 'a result" where
  "vfdw_val_key_error vc c verdict =
     (case verdict of
        VFDW_KEY_OK \<Rightarrow> raise ERRCODE_INTERNAL_ERROR ''valkey_fdw: key verdict 0 has no message''
      | VFDW_KEY_NULL \<Rightarrow> vfdw_val_error_null vc c
      | VFDW_KEY_NO_COLUMN \<Rightarrow> raise ERRCODE_INVALID_TABLE_DEFINITION ''table has no key column and no singleton_key''
      | VFDW_KEY_PREFIX \<Rightarrow> raise ERRCODE_CHECK_VIOLATION ''key does not begin with the table's keyprefix''
      | VFDW_KEY_KEYSET \<Rightarrow> raise ERRCODE_CHECK_VIOLATION ''key collides with the table's keyset''
      | VFDW_KEY_SINGLETON \<Rightarrow> raise ERRCODE_CHECK_VIOLATION ''key column does not match the table's singleton_key'')"

definition vfdw_val_build_key ::
  "val_env \<Rightarrow> VfdwValCtx \<Rightarrow> VfdwTableMap \<Rightarrow> VfdwColumn option \<Rightarrow> Datum option \<Rightarrow> bytes result" where
  "vfdw_val_build_key env vc m c v =
     result_bind (vfdw_val_key_classify env vc m c v) (\<lambda>(verdict, key).
       if verdict \<noteq> VFDW_KEY_OK then vfdw_val_key_error vc c verdict else Inr key)"

definition vfdw_val_from_slot ::
  "val_env \<Rightarrow> VfdwValCtx \<Rightarrow> VfdwTableMap \<Rightarrow> VfdwColumn \<Rightarrow> Datum option \<Rightarrow> VfdwValue result" where
  "vfdw_val_from_slot env vc m col v =
     (case col_kind col of
        VFDW_COL_KEY \<Rightarrow> map_sum id Some (vfdw_val_build_key env vc m (Some col) v)
      | VFDW_COL_VALUE \<Rightarrow> if v = None then vfdw_val_error_null vc (Some col) else vfdw_val_render env vc col v
      | VFDW_COL_MEMBER \<Rightarrow> if v = None then vfdw_val_error_null vc (Some col) else vfdw_val_render env vc col v
      | VFDW_COL_SCORE \<Rightarrow>
          (case v of None \<Rightarrow> vfdw_val_error_null vc (Some col) | Some d \<Rightarrow> vfdw_val_score_column env vc col d)
      | VFDW_COL_FIELD \<Rightarrow> vfdw_val_render env vc col v
      | VFDW_COL_TTL \<Rightarrow> vfdw_val_ttl_column vc col v
      | VFDW_COL_POSITION \<Rightarrow> vfdw_val_position_column vc col v
      | _ \<Rightarrow> raise ERRCODE_INTERNAL_ERROR ''valkey_fdw: column kind has no write conversion'')"

section \<open>Times to live\<close>

text \<open>\<open>COMMAND INFO\<close> for the three per-field expiry commands, as the connection answers it.\<close>

definition ttl_entry_present :: "valkeyReply option \<Rightarrow> bool" where
  "ttl_entry_present e =
     (case e of None \<Rightarrow> False
      | Some r \<Rightarrow> (rp_type r = VALKEY_REPLY_ARRAY \<or> rp_type r = VALKEY_REPLY_MAP) \<and> rp_element r \<noteq> [])"

definition vfdw_ttl_probe :: "valkeyReply \<Rightarrow> VfdwConn \<Rightarrow> VfdwConn" where
  "vfdw_ttl_probe reply v =
     (let present = (\<not> vfdw_reply_is_error (Some reply) \<and>
                     (rp_type reply = VALKEY_REPLY_ARRAY \<or> rp_type reply = VALKEY_REPLY_MAP) \<and>
                     length (rp_element reply) \<ge> 3 \<and> list_all ttl_entry_present (take 3 (rp_element reply)))
      in v\<lparr>vc_field_ttl := (if present then VFDW_CAP_PRESENT else VFDW_CAP_ABSENT)\<rparr>)"

definition vfdw_ttl_require :: "valkeyReply result \<Rightarrow> VfdwConn \<Rightarrow> unit result \<times> VfdwConn" where
  "vfdw_ttl_require answer v =
     (let step = (if vc_field_ttl v = VFDW_CAP_UNKNOWN
                  then map_sum id (\<lambda>reply. vfdw_ttl_probe reply v) answer else Inr v)
      in case step of
           Inl e \<Rightarrow> (Inl e, v)
         | Inr v1 \<Rightarrow>
             (if vc_field_ttl v1 = VFDW_CAP_ABSENT
              then raise ERRCODE_FEATURE_NOT_SUPPORTED ''this Valkey server has no per-field expiry'' else Inr (), v1))"

definition vfdw_ttl_command :: "VfdwTableMap \<Rightarrow> bytes \<Rightarrow> VfdwCmd \<Rightarrow> VfdwCmd" where
  "vfdw_ttl_command m key cmd =
     foldl (\<lambda>c col. vfdw_cmd_add_bytes (the (col_field col)) c)
       (vfdw_cmd_add_int (int (tm_nttl m)) (vfdw_cmd_add_cstr ''FIELDS''
          (vfdw_cmd_add_bytes key (vfdw_cmd_add_cstr ''HPTTL'' (vfdw_cmd_reset cmd)))))
       (of_kind VFDW_COL_TTL (tm_cols m))"

definition VFDW_TTL_NO_EXPIRY :: int where
  "VFDW_TTL_NO_EXPIRY = - 1"

definition VFDW_TTL_ABSENT :: int where
  "VFDW_TTL_ABSENT = - 2"

definition ttl_element :: "valkeyReply \<Rightarrow> nat \<Rightarrow> int" where
  "ttl_element reply i =
     (if i < length (rp_element reply) then
        (case rp_element reply ! i of
           Some e \<Rightarrow> if rp_type e = VALKEY_REPLY_INTEGER then rp_integer e else VFDW_TTL_ABSENT
         | None \<Rightarrow> VFDW_TTL_ABSENT)
      else VFDW_TTL_ABSENT)"

definition vfdw_ttl_take :: "VfdwTableMap \<Rightarrow> valkeyReply \<Rightarrow> int list" where
  "vfdw_ttl_take m reply =
     (if vfdw_reply_is_error (Some reply) \<or> (rp_type reply \<noteq> VALKEY_REPLY_ARRAY \<and> rp_type reply \<noteq> VALKEY_REPLY_MAP)
      then replicate (tm_nttl m) VFDW_TTL_ABSENT
      else map (ttl_element reply) [0..<tm_nttl m])"

definition PG_INT64_MAX :: int where
  "PG_INT64_MAX = 2 ^ 63 - 1"

definition vfdw_ttl_datum :: "int \<Rightarrow> Datum option result" where
  "vfdw_ttl_datum ms =
     (if ms = VFDW_TTL_NO_EXPIRY \<or> ms = VFDW_TTL_ABSENT \<or> ms < 0 then Inr None
      else if ms > PG_INT64_MAX sdiv 1000
      then raise ERRCODE_DATETIME_VALUE_OUT_OF_RANGE ''Valkey reported a time to live too large for interval''
      else Inr (Some (DInterval 0 0 (ms * 1000))))"

section \<open>Keys stay inside the table\<close>

text \<open>The keys that belong to a table: its one key, or a key under its prefix that is not the set it keeps its names in.\<close>

definition key_in_scope :: "VfdwTableMap \<Rightarrow> bytes \<Rightarrow> bool" where
  "key_in_scope m k \<longleftrightarrow>
     (case tm_singleton_key m of
        Some s \<Rightarrow> k = s
      | None \<Rightarrow> (case tm_keyprefix m of None \<Rightarrow> True | Some p \<Rightarrow> \<exists>r. k = p @ r) \<and> tm_keyset m \<noteq> Some k)"

lemma has_prefix_iff: "vfdw_val_has_prefix p k \<longleftrightarrow> (\<exists>r. k = p @ r)"
  unfolding vfdw_val_has_prefix_def by (metis append_eq_conv_conj append_take_drop_id length_append le_add1)

lemma same_bytes: "length k = length s \<and> take (length s) k = s \<longleftrightarrow> k = s"
  by auto

lemma is_keyset_iff: "vfdw_val_is_keyset s k \<longleftrightarrow> k = s"
  by (simp add: vfdw_val_is_keyset_def same_bytes)

lemma singleton_classify:
  "vfdw_val_singleton_key env vc s c v = Inr (VFDW_KEY_OK, k) \<longleftrightarrow>
     k = s \<and> (c \<noteq> None \<and> v \<noteq> None \<longrightarrow> vfdw_val_render_scratch env vc (the c) (the v) = Inr s)"
proof (cases "c \<noteq> None \<and> v \<noteq> None")
  case True
  then obtain col d where cv: "c = Some col" "v = Some d" by auto
  show ?thesis
  proof (cases "vfdw_val_render_scratch env vc col d")
    case (Inr b)
    have "(length b \<noteq> length s \<or> take (length s) b \<noteq> s) \<longleftrightarrow> b \<noteq> s" using same_bytes [of b s] by blast
    then show ?thesis using Inr cv by (auto simp: vfdw_val_singleton_key_def)
  qed (simp add: vfdw_val_singleton_key_def cv)
qed (auto simp: vfdw_val_singleton_key_def split: option.splits)

lemma key_error_raises [simp]: "vfdw_val_key_error vc c verdict \<noteq> Inr k"
  by (cases verdict) (simp_all add: vfdw_val_key_error_def vfdw_val_error_null_def)

lemma build_key_ok: "vfdw_val_build_key env vc m c v = Inr k \<longleftrightarrow> vfdw_val_key_classify env vc m c v = Inr (VFDW_KEY_OK, k)"
  by (auto simp: vfdw_val_build_key_def result_bind_Inr_iff split: if_splits)

lemma build_key_iff:
  "vfdw_val_build_key env vc m c v = Inr k \<longleftrightarrow>
     key_in_scope m k \<and>
     (if c = None \<or> v = None then tm_singleton_key m \<noteq> None
      else vfdw_val_render_scratch env vc (the c) (the v) = Inr k)"
proof (cases "tm_singleton_key m")
  case (Some s)
  then show ?thesis
    by (auto simp: build_key_ok vfdw_val_key_classify_def singleton_classify key_in_scope_def)
next
  case None
  show ?thesis
  proof (cases "c = None \<or> v = None")
    case True
    then show ?thesis using None
      by (auto simp: build_key_ok vfdw_val_key_classify_def split: option.splits)
  next
    case False
    then obtain col d where cv: "c = Some col" "v = Some d" by auto
    show ?thesis
    proof (cases "vfdw_val_render_scratch env vc col d")
      case (Inr b)
      then show ?thesis using None cv
        by (auto simp: build_key_ok vfdw_val_key_classify_def key_in_scope_def has_prefix_iff is_keyset_iff split: option.splits)
    qed (simp add: build_key_ok vfdw_val_key_classify_def None cv)
  qed
qed

lemma build_key_in_scope: "vfdw_val_build_key env vc m c v = Inr k \<Longrightarrow> key_in_scope m k"
  by (simp add: build_key_iff)

text \<open>C18. A row is written under a key exactly when the key is in the table's scope and is the one the key
  column renders to; a table with one fixed key also takes a row whose key column is absent or null. No key
  outside the prefix, and never the table's own key set, is accepted.\<close>

theorem keys_stay_in_scope:
  "vfdw_val_build_key env vc m c v = Inr k \<longleftrightarrow>
     key_in_scope m k \<and>
     (if c = None \<or> v = None then tm_singleton_key m \<noteq> None
      else vfdw_val_render_scratch env vc (the c) (the v) = Inr k)"
  by (rule build_key_iff)

section \<open>Times to live survive the round trip\<close>

lemma sdiv_1000: "0 \<le> (t::int) \<Longrightarrow> t sdiv 1000 = t div 1000"
  by (cases "t = 0") (simp_all add: signed_divide_int_def sgn_if)

lemma sdiv_1000_bounds: "\<bar>t - (t sdiv 1000) * 1000\<bar> < (1000::int)"
proof (cases "0 \<le> t")
  case True
  then show ?thesis by (simp add: sdiv_1000 minus_div_mult_eq_mod)
next
  case False
  then have "t sdiv 1000 = - (- t div 1000)" by (simp add: signed_divide_int_def)
  moreover have "0 \<le> - t - (- t div 1000) * 1000 \<and> - t - (- t div 1000) * 1000 < 1000"
    by (simp add: minus_div_mult_eq_mod)
  ultimately show ?thesis by arith
qed

lemma ttl_column_ok:
  "vfdw_val_ttl_column vc col (Some (DInterval mo dy t)) = Inr (Some b) \<longleftrightarrow>
     (let ms0 = (mo * 30 + dy) * 86400000; ms = ms0 + t sdiv 1000
      in fits64 ms0 \<and> fits64 ms \<and> 0 < ms \<and> b = dec_int ms)"
  by (auto simp: vfdw_val_ttl_column_def Let_def)

text \<open>C29. A time to live read from the server and written back is the same number of milliseconds, and an
  interval that is written is written as a positive number of milliseconds less than one away from it.\<close>

theorem ttl_roundtrip:
  assumes "0 < ms" and "ms \<le> PG_INT64_MAX div 1000"
  shows "(\<exists>d. vfdw_ttl_datum ms = Inr (Some d) \<and> vfdw_val_ttl_column vc col (Some d) = Inr (Some (dec_int ms))) \<and>
    (vfdw_val_ttl_column vc col (Some (DInterval mo dy t)) = Inr (Some b) \<longrightarrow>
       (\<exists>n. b = dec_int n \<and> 0 < n \<and> \<bar>((mo * 30 + dy) * 86400000000 + t) - n * 1000\<bar> < 1000))"
proof (intro conjI impI)
  have d: "vfdw_ttl_datum ms = Inr (Some (DInterval 0 0 (ms * 1000)))"
    using assms by (simp add: vfdw_ttl_datum_def VFDW_TTL_NO_EXPIRY_def VFDW_TTL_ABSENT_def PG_INT64_MAX_def sdiv_1000)
  have "fits64 ms" using assms by (simp add: fits64_def PG_INT64_MAX_def)
  then have "vfdw_val_ttl_column vc col (Some (DInterval 0 0 (ms * 1000))) = Inr (Some (dec_int ms))"
    using assms by (simp add: ttl_column_ok sdiv_1000 fits64_def)
  with d show "\<exists>d. vfdw_ttl_datum ms = Inr (Some d) \<and> vfdw_val_ttl_column vc col (Some d) = Inr (Some (dec_int ms))" by blast
  show "\<exists>n. b = dec_int n \<and> 0 < n \<and> \<bar>((mo * 30 + dy) * 86400000000 + t) - n * 1000\<bar> < 1000"
    if "vfdw_val_ttl_column vc col (Some (DInterval mo dy t)) = Inr (Some b)"
    using that sdiv_1000_bounds [of t] unfolding ttl_column_ok Let_def
    by (intro exI [of _ "(mo * 30 + dy) * 86400000 + t sdiv 1000"]) (simp add: algebra_simps)
qed

theorem ttl_roundtrip_witness:
  "vfdw_ttl_datum 90500 = Inr (Some (DInterval 0 0 90500000)) \<and>
   (\<exists>d. vfdw_ttl_datum 90500 = Inr (Some d) \<and>
        vfdw_val_ttl_column (vfdw_val_ctx_init None sample_map) zero_column (Some d) = Inr (Some (dec_int 90500)))"
proof
  show "vfdw_ttl_datum 90500 = Inr (Some (DInterval 0 0 90500000))"
    by (simp add: vfdw_ttl_datum_def VFDW_TTL_NO_EXPIRY_def VFDW_TTL_ABSENT_def PG_INT64_MAX_def sdiv_1000)
  show "\<exists>d. vfdw_ttl_datum 90500 = Inr (Some d) \<and>
        vfdw_val_ttl_column (vfdw_val_ctx_init None sample_map) zero_column (Some d) = Inr (Some (dec_int 90500))"
    using ttl_roundtrip [of 90500 "vfdw_val_ctx_init None sample_map" zero_column]
    by (simp add: PG_INT64_MAX_def)
qed

text \<open>
  The write direction accepts times to live the read direction refuses: 300000 years fit 64 bits of
  milliseconds and not 64 bits of microseconds, so the value is stored and every later read of it raises.
\<close>

lemma long_ttl_not_readable:
  "vfdw_val_ttl_column vc col (Some (DInterval 3600000 0 0)) = Inr (Some (dec_int 9331200000000000))"
  "isl (vfdw_ttl_datum 9331200000000000)"
  by (simp_all add: ttl_column_ok fits64_def vfdw_ttl_datum_def VFDW_TTL_NO_EXPIRY_def VFDW_TTL_ABSENT_def
       PG_INT64_MAX_def sdiv_1000 Let_def)

end
