(* ===== verification/Row.thy ===== *)
theory Row
  imports Value
begin

text \<open>
  Rows on their way in: filling a tuple slot from the reply to a key's read command
  (\<open>src/vfdw_row.c\<close>).

  A slot is the list of its attributes, \<open>None\<close> where \<open>tts_isnull\<close> is set. Every conversion can raise,
  so filling is in the \<open>result\<close> type; a slot half filled when an error is raised is not seen by anyone.
\<close>

type_synonym slot = "Datum option list"

record VfdwRowCtx =
  rc_map :: VfdwTableMap
  rc_infuncs :: "Oid list"
  rc_cur_elem :: nat
  rc_ttl_ms :: "int list option"

definition vfdw_row_ctx_init :: "VfdwTableMap \<Rightarrow> VfdwRowCtx" where
  "vfdw_row_ctx_init m = \<lparr>rc_map = m, rc_infuncs =
     map (\<lambda>col. if col_attnum col = InvalidAttrNumber then InvalidOid
                else case col_packed m col of Some p \<Rightarrow> col_typinput (pe_col p) | None \<Rightarrow> col_typinput col) (tm_cols m),
     rc_cur_elem = 0, rc_ttl_ms = (if tm_nttl m > 0 then Some (replicate (tm_nttl m) 0) else None)\<rparr>"

section \<open>One datum\<close>

definition vfdw_row_bytea_datum :: "val_env \<Rightarrow> VfdwColumn \<Rightarrow> bytes \<Rightarrow> Datum result" where
  "vfdw_row_bytea_datum env col data =
     (let d = DBytea data in
      if col_is_domain col then result_bind (ve_domain_check env (col_typid col) d) (\<lambda>_. Inr d) else Inr d)"

definition vfdw_row_datum_from_bytes :: "val_env \<Rightarrow> VfdwRowCtx \<Rightarrow> VfdwColumn \<Rightarrow> bytes \<Rightarrow> Datum result" where
  "vfdw_row_datum_from_bytes env ctx col data =
     (let infunc = ve_input env (rc_infuncs ctx ! (col_attnum col - 1)) in
      if col_is_binary col then vfdw_row_bytea_datum env col data
      else if col_index_type col = VFDW_INDEX_VECTOR
      then result_bind (vfdw_vec_to_text (ve_float4out env) data (the (col_field col))) (\<lambda>lit.
           infunc lit (col_typioparam col) (col_typmod col))
      else result_bind (ve_verifymbstr env data) (\<lambda>_. infunc (cstr data) (col_typioparam col) (col_typmod col)))"

definition put_attr :: "VfdwColumn \<Rightarrow> Datum option \<Rightarrow> slot \<Rightarrow> slot" where
  "put_attr col v sl = sl[col_attnum col - 1 := v]"

definition vfdw_scan_store :: "val_env \<Rightarrow> VfdwRowCtx \<Rightarrow> VfdwColumn \<Rightarrow> bytes option \<Rightarrow> slot \<Rightarrow> slot result" where
  "vfdw_scan_store env ctx col data sl =
     (case data of
        None \<Rightarrow> Inr (put_attr col None sl)
      | Some b \<Rightarrow> result_bind (vfdw_row_datum_from_bytes env ctx col b) (\<lambda>d. Inr (put_attr col (Some d) sl)))"

section \<open>Collections\<close>

text \<open>The element loop of \<open>vfdw_row_store_packed\<close>.\<close>

definition packed_element :: "val_env \<Rightarrow> VfdwRowCtx \<Rightarrow> VfdwPackedElem \<Rightarrow> valkeyReply \<Rightarrow> nat \<Rightarrow> Datum option list \<Rightarrow> Datum option list result" where
  "packed_element env ctx elem reply i acc =
     result_bind (vfdw_reply_child reply i) (\<lambda>e.
       case rp_str e of
         None \<Rightarrow> Inr (acc @ [None])
       | Some b \<Rightarrow> result_bind (vfdw_row_datum_from_bytes env ctx (pe_col elem) b) (\<lambda>d. Inr (acc @ [Some d])))"

definition vfdw_row_store_packed :: "val_env \<Rightarrow> VfdwRowCtx \<Rightarrow> VfdwColumn \<Rightarrow> valkeyReply \<Rightarrow> slot \<Rightarrow> slot result" where
  "vfdw_row_store_packed env ctx col reply sl =
     (let n = length (rp_element reply) in
      result_bind (result_fold (packed_element env ctx (the (col_packed (rc_map ctx) col)) reply) [0..<n] []) (\<lambda>vals.
      Inr (put_attr col (Some (DArray (if n = 0 then 0 else 1) vals)) sl)))"

text \<open>\<open>Some\<close> when the field was found, with its data, which is null for a nil value.\<close>

fun lookup_loop :: "valkeyReply option list \<Rightarrow> string \<Rightarrow> bytes option option result" where
  "lookup_loop (Some k # Some v # rest) field =
     (if rp_str k = Some field then Inr (Some (rp_str v)) else lookup_loop rest field)"
| "lookup_loop (None # v # rest) field =
     raise ERRCODE_FDW_ERROR ''a Valkey aggregate reply is missing an element it declared''"
| "lookup_loop (Some k # None # rest) field =
     raise ERRCODE_FDW_ERROR ''a Valkey aggregate reply is missing an element it declared''"
| "lookup_loop _ field = Inr None"

definition vfdw_scan_hash_lookup :: "valkeyReply \<Rightarrow> string \<Rightarrow> bytes option option result" where
  "vfdw_scan_hash_lookup reply field = lookup_loop (rp_element reply) field"

text \<open>\<open>Some (member, score)\<close> when there is a member at the index.\<close>

definition vfdw_scan_member_at ::
  "valkeyReply \<Rightarrow> nat \<Rightarrow> bool \<Rightarrow> (valkeyReply \<times> valkeyReply option) option result" where
  "vfdw_scan_member_at reply idx want_score =
     (if rp_element reply = [] \<or> idx \<ge> length (rp_element reply) then Inr None
      else result_bind (vfdw_reply_child reply 0) (\<lambda>first.
        if want_score \<and> rp_type first = VALKEY_REPLY_ARRAY then
          result_bind (vfdw_reply_child reply idx) (\<lambda>pair.
            if rp_type pair \<noteq> VALKEY_REPLY_ARRAY \<or> length (rp_element pair) < 2 then Inr None
            else result_bind (vfdw_reply_child pair 0) (\<lambda>mem.
                 result_bind (vfdw_reply_child pair 1) (\<lambda>sc. Inr (Some (mem, Some sc)))))
        else if want_score then
          (if idx + 1 \<ge> length (rp_element reply) then Inr None
           else result_bind (vfdw_reply_child reply idx) (\<lambda>mem.
                result_bind (vfdw_reply_child reply (idx + 1)) (\<lambda>sc. Inr (Some (mem, Some sc)))))
        else result_bind (vfdw_reply_child reply idx) (\<lambda>mem. Inr (Some (mem, None)))))"

definition vfdw_scan_member_stride :: "VfdwTableType \<Rightarrow> valkeyReply \<Rightarrow> nat result" where
  "vfdw_scan_member_stride type reply =
     (if type \<noteq> VFDW_TABLE_ZSET then Inr 1
      else if rp_element reply \<noteq> [] then
        result_bind (vfdw_reply_child reply 0) (\<lambda>first. Inr (if rp_type first = VALKEY_REPLY_ARRAY then 1 else 2))
      else Inr 2)"

definition vfdw_scan_is_multirow :: "VfdwTableMap \<Rightarrow> bool" where
  "vfdw_scan_is_multirow m \<longleftrightarrow>
     (if tm_legacy_value m then False
      else tm_tabletype m = VFDW_TABLE_LIST \<or> tm_tabletype m = VFDW_TABLE_SET \<or> tm_tabletype m = VFDW_TABLE_ZSET)"

section \<open>One column\<close>

definition vfdw_row_store_ttl :: "VfdwRowCtx \<Rightarrow> VfdwColumn \<Rightarrow> slot \<Rightarrow> slot result" where
  "vfdw_row_store_ttl ctx col sl =
     (case rc_ttl_ms ctx of
        None \<Rightarrow> Inr sl
      | Some ttls \<Rightarrow>
          result_bind (vfdw_ttl_datum (ttls ! col_ttl_slot col)) (\<lambda>v.
          case v of None \<Rightarrow> Inr sl | Some d \<Rightarrow> Inr (put_attr col (Some d) sl)))"

definition vfdw_row_store_member :: "val_env \<Rightarrow> VfdwRowCtx \<Rightarrow> VfdwColumn \<Rightarrow> valkeyReply \<Rightarrow> slot \<Rightarrow> slot result" where
  "vfdw_row_store_member env ctx col reply sl =
     result_bind (vfdw_scan_member_at reply (rc_cur_elem ctx) (tm_tabletype (rc_map ctx) = VFDW_TABLE_ZSET)) (\<lambda>r.
       case r of None \<Rightarrow> Inr sl | Some (mem, _) \<Rightarrow> vfdw_scan_store env ctx col (rp_str mem) sl)"

definition VFDW_SEARCH_DIST_ALIAS :: string where
  "VFDW_SEARCH_DIST_ALIAS = ''__vfdw_distance''"

definition vfdw_row_store_distance :: "val_env \<Rightarrow> VfdwRowCtx \<Rightarrow> VfdwColumn \<Rightarrow> valkeyReply \<Rightarrow> slot \<Rightarrow> slot result" where
  "vfdw_row_store_distance env ctx col reply sl =
     (if rp_type reply \<noteq> VALKEY_REPLY_MAP \<and> rp_type reply \<noteq> VALKEY_REPLY_ARRAY then Inr sl
      else result_bind (vfdw_scan_hash_lookup reply VFDW_SEARCH_DIST_ALIAS) (\<lambda>r.
        case r of None \<Rightarrow> Inr sl | Some data \<Rightarrow> vfdw_scan_store env ctx col data sl))"

definition vfdw_row_store_score :: "val_env \<Rightarrow> VfdwRowCtx \<Rightarrow> VfdwColumn \<Rightarrow> valkeyReply \<Rightarrow> slot \<Rightarrow> slot result" where
  "vfdw_row_store_score env ctx col reply sl =
     result_bind (vfdw_scan_member_at reply (rc_cur_elem ctx) True) (\<lambda>r.
       case r of
         Some (_, Some sc) \<Rightarrow> if rp_str sc = None then Inr sl else vfdw_scan_store env ctx col (rp_str sc) sl
       | _ \<Rightarrow> Inr sl)"

definition vfdw_row_store_position :: "val_env \<Rightarrow> VfdwRowCtx \<Rightarrow> VfdwColumn \<Rightarrow> slot \<Rightarrow> slot" where
  "vfdw_row_store_position env ctx col sl =
     put_attr col (Some (if ve_base env (col_typid col) = INT8OID then DInt64 (int (rc_cur_elem ctx))
                         else DInt32 (int (rc_cur_elem ctx)))) sl"

definition vfdw_row_store_field :: "val_env \<Rightarrow> VfdwRowCtx \<Rightarrow> VfdwColumn \<Rightarrow> valkeyReply \<Rightarrow> slot \<Rightarrow> slot result" where
  "vfdw_row_store_field env ctx col reply sl =
     (if rp_type reply \<noteq> VALKEY_REPLY_MAP \<and> rp_type reply \<noteq> VALKEY_REPLY_ARRAY then Inr sl
      else if tm_hmget (rc_map ctx) then
        (if col_field_slot col \<ge> length (rp_element reply) then Inr sl
         else result_bind (vfdw_reply_child reply (col_field_slot col)) (\<lambda>e.
           if rp_str e = None then Inr sl else vfdw_scan_store env ctx col (rp_str e) sl))
      else result_bind (vfdw_scan_hash_lookup reply (the (col_field col))) (\<lambda>r.
        case r of None \<Rightarrow> Inr sl | Some data \<Rightarrow> vfdw_scan_store env ctx col data sl))"

section \<open>The row\<close>

definition vfdw_row_fill_column :: "val_env \<Rightarrow> VfdwRowCtx \<Rightarrow> bytes \<Rightarrow> valkeyReply \<Rightarrow> VfdwColumn \<Rightarrow> slot \<Rightarrow> slot result" where
  "vfdw_row_fill_column env ctx key reply col sl =
     (case col_kind col of
        VFDW_COL_KEY \<Rightarrow> vfdw_scan_store env ctx col (Some key) sl
      | VFDW_COL_VALUE \<Rightarrow> if rp_type reply = VALKEY_REPLY_STRING then vfdw_scan_store env ctx col (rp_str reply) sl else Inr sl
      | VFDW_COL_FIELD \<Rightarrow> vfdw_row_store_field env ctx col reply sl
      | VFDW_COL_LEGACY_VALUE \<Rightarrow> vfdw_row_store_packed env ctx col reply sl
      | VFDW_COL_MEMBER \<Rightarrow> vfdw_row_store_member env ctx col reply sl
      | VFDW_COL_SCORE \<Rightarrow> vfdw_row_store_score env ctx col reply sl
      | VFDW_COL_TTL \<Rightarrow> vfdw_row_store_ttl ctx col sl
      | VFDW_COL_POSITION \<Rightarrow> Inr (vfdw_row_store_position env ctx col sl)
      | VFDW_COL_DISTANCE \<Rightarrow> vfdw_row_store_distance env ctx col reply sl
      | VFDW_COL_DROPPED \<Rightarrow> Inr sl)"

definition vfdw_scan_fill :: "val_env \<Rightarrow> VfdwRowCtx \<Rightarrow> bytes \<Rightarrow> valkeyReply \<Rightarrow> slot result" where
  "vfdw_scan_fill env ctx key reply =
     result_fold (vfdw_row_fill_column env ctx key reply) (tm_cols (rc_map ctx))
       (replicate (length (tm_cols (rc_map ctx))) None)"

end
