(* ===== verification/Modify.thy ===== *)
theory Modify
  imports Row Backend
begin

text \<open>
  INSERT, UPDATE and DELETE: rendering a tuple into a buffered operation (\<open>src/vfdw_render.c\<close>), the
  three executor callbacks (\<open>src/vfdw_modify.c\<close>), COPY and batched inserts (\<open>src/vfdw_copy.c\<close>) and the
  refusals of \<open>src/vfdw_refuse.c\<close>.

  The state the callbacks change is the write buffer and the ledger. As in \<open>Wbuf\<close>, what an allocation
  adds to the context is an argument (\<open>grow\<close> for the operation, \<open>rendered\<close> for what rendering retains),
  and so are the nesting level, the command id and the copied tuple. The planner and executor nodes
  are reduced to what the code reads of them.
\<close>

section \<open>State\<close>

record VfdwModifyState =
  md_map :: VfdwTableMap
  md_vc :: VfdwValCtx
  md_junk_key :: nat
  md_junk_member :: nat
  md_junk_wholerow :: nat

definition slot_getattr :: "slot \<Rightarrow> nat \<Rightarrow> Datum option" where
  "slot_getattr row attno = row ! (attno - 1)"

abbreviation map_col :: "VfdwTableMap \<Rightarrow> nat \<Rightarrow> VfdwColumn" where
  "map_col m attno \<equiv> tm_cols m ! (attno - 1)"

section \<open>Rendering a row\<close>

text \<open>One named argument: the loops of \<open>vfdw_modify_render_fields\<close> and \<open>vfdw_modify_render_ttls\<close>.\<close>

definition render_arg :: "val_env \<Rightarrow> VfdwModifyState \<Rightarrow> slot \<Rightarrow> VfdwColumn \<Rightarrow> VfdwWriteArg list \<Rightarrow> VfdwWriteArg list result" where
  "render_arg env st row col args =
     result_bind (vfdw_val_from_slot env (md_vc st) (md_map st) col (slot_getattr row (col_attnum col))) (\<lambda>v.
     Inr (args @ [\<lparr>arg_name = the (col_field col), arg_isnull = (v = None), arg_data = (case v of Some b \<Rightarrow> b | None \<Rightarrow> [])\<rparr>]))"

definition vfdw_modify_render_fields :: "val_env \<Rightarrow> VfdwModifyState \<Rightarrow> slot \<Rightarrow> VfdwWriteOp \<Rightarrow> VfdwWriteOp result" where
  "vfdw_modify_render_fields env st row oper =
     (if tm_nfields (md_map st) = 0 then Inr oper
      else result_bind (result_fold (render_arg env st row) (of_kind VFDW_COL_FIELD (tm_cols (md_map st))) []) (\<lambda>args.
        if list_all arg_isnull args \<and> op_kind oper = VFDW_OP_INSERT then vfdw_val_error_all_fields_null
        else Inr (oper\<lparr>op_fields := args\<rparr>)))"

definition vfdw_modify_render_ttls :: "val_env \<Rightarrow> VfdwModifyState \<Rightarrow> slot \<Rightarrow> VfdwWriteOp \<Rightarrow> VfdwWriteOp result" where
  "vfdw_modify_render_ttls env st row oper =
     (if tm_nttl (md_map st) = 0 then Inr oper
      else result_bind (result_fold (render_arg env st row) (of_kind VFDW_COL_TTL (tm_cols (md_map st))) []) (\<lambda>args.
        Inr (oper\<lparr>op_ttls := args\<rparr>)))"

definition vfdw_modify_check_position :: "val_env \<Rightarrow> VfdwModifyState \<Rightarrow> slot \<Rightarrow> unit result" where
  "vfdw_modify_check_position env st row =
     result_fold (\<lambda>col _. result_bind (vfdw_val_from_slot env (md_vc st) (md_map st) col (slot_getattr row (col_attnum col)))
                                      (\<lambda>_. Inr ()))
       (of_kind VFDW_COL_POSITION (tm_cols (md_map st))) ()"

definition vfdw_modify_packed_column :: "VfdwTableMap \<Rightarrow> VfdwColumn option" where
  "vfdw_modify_packed_column m = find (\<lambda>col. col_kind col = VFDW_COL_LEGACY_VALUE) (tm_cols m)"

definition vfdw_modify_pack_element ::
  "val_env \<Rightarrow> VfdwModifyState \<Rightarrow> VfdwPackedElem \<Rightarrow> Datum option \<Rightarrow> VfdwWriteArg list \<Rightarrow> VfdwWriteArg list result" where
  "vfdw_modify_pack_element env st elem v args =
     (case v of
        None \<Rightarrow> raise ERRCODE_NULL_VALUE_NOT_ALLOWED ''a packed value may not contain NULL elements''
      | Some d \<Rightarrow>
          result_bind (vfdw_val_render env (md_vc st) (pe_col elem) (Some d)) (\<lambda>b.
          Inr (args @ [\<lparr>arg_name = [], arg_isnull = False, arg_data = the b\<rparr>])))"

definition vfdw_modify_check_pairs :: "VfdwTableMap \<Rightarrow> nat \<Rightarrow> unit result" where
  "vfdw_modify_check_pairs m n =
     (if tm_tabletype m \<noteq> VFDW_TABLE_HASH \<or> n mod 2 = 0 then Inr ()
      else raise ERRCODE_INVALID_PARAMETER_VALUE ''a packed hash needs an even number of elements'')"

fun array_parts :: "Datum \<Rightarrow> nat \<times> Datum option list" where
  "array_parts (DArray ndim elems) = (ndim, elems)"
| "array_parts _ = (0, [])"

definition vfdw_modify_render_packed :: "val_env \<Rightarrow> VfdwModifyState \<Rightarrow> slot \<Rightarrow> VfdwWriteOp \<Rightarrow> VfdwWriteOp result" where
  "vfdw_modify_render_packed env st row oper =
     (case vfdw_modify_packed_column (md_map st) of
        None \<Rightarrow> Inr oper
      | Some col \<Rightarrow>
          (case slot_getattr row (col_attnum col) of
             None \<Rightarrow> Inr (oper\<lparr>op_packed := []\<rparr>)
           | Some d \<Rightarrow>
               let (ndim, elems) = array_parts d in
               if ndim > 1 then raise ERRCODE_INVALID_PARAMETER_VALUE ''a packed value must be a one-dimensional array''
               else result_bind (result_fold (vfdw_modify_pack_element env st (the (col_packed (md_map st) col))) elems []) (\<lambda>args.
                    result_bind (vfdw_modify_check_pairs (md_map st) (length elems)) (\<lambda>_.
                    Inr (oper\<lparr>op_packed := args\<rparr>)))))"

definition vfdw_modify_render_payload :: "val_env \<Rightarrow> VfdwModifyState \<Rightarrow> slot \<Rightarrow> VfdwWriteOp \<Rightarrow> VfdwWriteOp result" where
  "vfdw_modify_render_payload env st row oper =
     (let m = md_map st in
      if tm_legacy_value m then vfdw_modify_render_packed env st row oper
      else if tm_tabletype m = VFDW_TABLE_HASH then
        result_bind (vfdw_modify_render_fields env st row oper) (vfdw_modify_render_ttls env st row)
      else result_bind (vfdw_modify_check_position env st row) (\<lambda>_.
        if tm_valueattno m = InvalidAttrNumber then Inr oper
        else result_bind (vfdw_val_from_slot env (md_vc st) m (map_col m (tm_valueattno m)) (slot_getattr row (tm_valueattno m))) (\<lambda>v.
             Inr (oper\<lparr>op_value := v\<rparr>))))"

definition vfdw_modify_render_key :: "val_env \<Rightarrow> VfdwModifyState \<Rightarrow> slot \<Rightarrow> VfdwWriteOp \<Rightarrow> VfdwWriteOp result" where
  "vfdw_modify_render_key env st row oper =
     (let m = md_map st;
          c = (if tm_keyattno m \<noteq> InvalidAttrNumber then Some (map_col m (tm_keyattno m)) else None);
          v = (if tm_keyattno m \<noteq> InvalidAttrNumber then slot_getattr row (tm_keyattno m) else None)
      in result_bind (vfdw_val_build_key env (md_vc st) m c v) (\<lambda>k. Inr (oper\<lparr>op_key := k\<rparr>)))"

definition vfdw_modify_render_score :: "val_env \<Rightarrow> VfdwModifyState \<Rightarrow> slot \<Rightarrow> VfdwWriteOp \<Rightarrow> VfdwWriteOp result" where
  "vfdw_modify_render_score env st row oper =
     (let m = md_map st; attno = tm_scoreattno m in
      if attno = InvalidAttrNumber then Inr oper
      else result_bind (vfdw_val_from_slot env (md_vc st) m (map_col m attno) (slot_getattr row attno)) (\<lambda>v.
           Inr (oper\<lparr>op_score := v\<rparr>)))"

definition vfdw_modify_render_member :: "val_env \<Rightarrow> VfdwModifyState \<Rightarrow> slot \<Rightarrow> VfdwWriteOp \<Rightarrow> VfdwWriteOp result" where
  "vfdw_modify_render_member env st row oper =
     (let m = md_map st; attno = tm_memberattno m in
      if attno = InvalidAttrNumber then Inr oper
      else result_bind (vfdw_val_from_slot env (md_vc st) m (map_col m attno) (slot_getattr row attno)) (\<lambda>v.
           Inr (oper\<lparr>op_member := v\<rparr>)))"

text \<open>The rendering the two row-carrying callbacks share, in their order.\<close>

definition render_row :: "val_env \<Rightarrow> VfdwModifyState \<Rightarrow> slot \<Rightarrow> VfdwWriteOp \<Rightarrow> VfdwWriteOp result" where
  "render_row env st row oper =
     result_bind (vfdw_modify_render_key env st row oper) (\<lambda>o1.
     result_bind (vfdw_modify_render_score env st row o1) (\<lambda>o2.
     result_bind (vfdw_modify_render_member env st row o2)
       (vfdw_modify_render_payload env st row)))"

section \<open>Row identity\<close>

definition vfdw_rowid_read :: "slot \<Rightarrow> nat \<Rightarrow> Datum result" where
  "vfdw_rowid_read planSlot junkattno =
     (case slot_getattr planSlot junkattno of
        None \<Rightarrow> raise ERRCODE_INTERNAL_ERROR (''valkey_fdw: row identity column '' @ dec_nat junkattno @ '' is null'')
      | Some d \<Rightarrow> Inr d)"

text \<open>The junk attribute of a target list, \<open>ExecFindJunkAttributeInTlist\<close>: 0 when there is none of that name.\<close>

definition find_junk :: "string list \<Rightarrow> string \<Rightarrow> nat" where
  "find_junk tlist name = (case find (\<lambda>i. tlist ! i = name) [0..<length tlist] of Some i \<Rightarrow> i + 1 | None \<Rightarrow> InvalidAttrNumber)"

definition vfdw_rowid_find :: "string list \<Rightarrow> string \<Rightarrow> nat result" where
  "vfdw_rowid_find tlist name =
     (if name = [] then Inr InvalidAttrNumber
      else if find_junk tlist name = InvalidAttrNumber
      then raise ERRCODE_INTERNAL_ERROR (''could not find junk column '' @ quoted name)
      else Inr (find_junk tlist name))"

definition vfdw_rowid_resolve :: "string list \<Rightarrow> string \<times> string \<Rightarrow> (nat \<times> nat) result" where
  "vfdw_rowid_resolve tlist junk_names =
     result_bind (vfdw_rowid_find tlist (fst junk_names)) (\<lambda>k.
     result_bind (vfdw_rowid_find tlist (snd junk_names)) (\<lambda>mem. Inr (k, mem)))"

definition vfdw_rowid_find_wholerow :: "string list \<Rightarrow> nat" where
  "vfdw_rowid_find_wholerow tlist = find_junk tlist ''wholerow''"

text \<open>The junk columns \<open>vfdw_rowid_add_update_targets\<close> adds to the target list, by name.\<close>

definition vfdw_rowid_add_update_targets :: "opt_env \<Rightarrow> options list \<Rightarrow> options \<Rightarrow> VfdwTableMap \<Rightarrow> CmdType \<Rightarrow> string list result" where
  "vfdw_rowid_add_update_targets env attopts options m operation =
     result_bind (vfdw_refuse_unwritable env attopts options m operation) (\<lambda>_.
     result_bind (vfdw_rowid_shape m) (\<lambda>rid.
     Inr ((if ri_want_key rid then [vfdw_rowid_junk_name ''key'' (ri_keyattno rid)] else []) @
          (if ri_want_member rid then [vfdw_rowid_junk_name ''member'' (ri_memberattno rid)] else []) @
          (if operation = CMD_DELETE then [''wholerow''] else []))))"

definition vfdw_modify_junk_names :: "VfdwTableMap \<Rightarrow> CmdType \<Rightarrow> (string \<times> string) result" where
  "vfdw_modify_junk_names m operation =
     (if operation = CMD_INSERT then Inr ([], [])
      else result_bind (vfdw_rowid_shape m) (\<lambda>rid.
        Inr (if ri_want_key rid then vfdw_rowid_junk_name ''key'' (ri_keyattno rid) else [],
             if ri_want_member rid then vfdw_rowid_junk_name ''member'' (ri_memberattno rid) else [])))"

section \<open>Planning and beginning a write\<close>

definition vfdw_refuse_on_conflict :: "bool \<Rightarrow> unit result" where
  "vfdw_refuse_on_conflict on_conflict =
     (if \<not> on_conflict then Inr ()
      else raise ERRCODE_FEATURE_NOT_SUPPORTED ''INSERT ... ON CONFLICT is not supported on Valkey foreign tables'')"

text \<open>
  The attribute numbers of the plan: the updated ones, or every live and not generated one. The first
  component of an attribute says whether it is dropped, the second whether it is generated.
\<close>

definition vfdw_modify_target_attrs :: "int list \<Rightarrow> (bool \<times> bool) list \<Rightarrow> CmdType \<Rightarrow> nat list" where
  "vfdw_modify_target_attrs updated atts operation =
     (if operation = CMD_UPDATE then map nat (filter (\<lambda>a. a > 0) updated)
      else map Suc (filter (\<lambda>i. \<not> fst (atts ! i) \<and> \<not> snd (atts ! i)) [0..<length atts]))"

record modify_plan =
  mp_junk_names :: "string \<times> string"
  mp_target_attrs :: "nat list"
  mp_tabletype :: VfdwTableType
  mp_keysource :: string

definition vfdw_modify_plan ::
  "opt_env \<Rightarrow> options list \<Rightarrow> options \<Rightarrow> VfdwTableMap \<Rightarrow> int list \<Rightarrow> (bool \<times> bool) list \<Rightarrow> CmdType \<Rightarrow> bool \<Rightarrow> modify_plan result" where
  "vfdw_modify_plan env attopts options m updated atts operation on_conflict =
     result_bind (vfdw_refuse_unwritable env attopts options m operation) (\<lambda>_.
     result_bind (vfdw_refuse_on_conflict on_conflict) (\<lambda>_.
     result_bind (vfdw_modify_junk_names m operation) (\<lambda>names.
     Inr \<lparr>mp_junk_names = names, mp_target_attrs = vfdw_modify_target_attrs updated atts operation,
          mp_tabletype = tm_tabletype m,
          mp_keysource = (if tm_singleton_key m \<noteq> None then ''singleton_key'' else ''key column'')\<rparr>)))"

text \<open>The bytes of the refusal go into the DETAIL only.\<close>

definition vfdw_conn_write_refusal :: "VfdwConn \<Rightarrow> bytes option" where
  "vfdw_conn_write_refusal v = (if \<not> vc_write_refused v then None else Some (vc_write_refusal v))"

definition vfdw_refuse_prefer_replica :: "'a result" where
  "vfdw_refuse_prefer_replica =
     raise ERRCODE_READ_ONLY_SQL_TRANSACTION ''cannot write through a Valkey server declared prefer_replica''"

definition vfdw_refuse_no_write_program :: "'a result" where
  "vfdw_refuse_no_write_program =
     raise ERRCODE_FEATURE_NOT_SUPPORTED ''cannot write through a Valkey server that will not load the write program''"

text \<open>
  \<open>vfdw_modify_connect\<close>: the connection is leased, asked, and given back; \<open>answer\<close> is what it replies to
  the expiry probe. After an error the lease is left to the end of the (sub)transaction.
\<close>

definition vfdw_modify_connect ::
  "conn_env \<Rightarrow> Oid \<Rightarrow> Oid \<Rightarrow> Oid \<Rightarrow> valkeyReply result \<Rightarrow> int \<Rightarrow> nat \<Rightarrow> VfdwTableMap \<Rightarrow> wbuf \<Rightarrow> conn_pool \<Rightarrow>
   wbuf result \<times> conn_pool" where
  "vfdw_modify_connect ce sid uid umid answer nest initial m wb pool =
     (case vfdw_get_connection_cluster ce sid uid umid pool of
        (Inl e, pool1, _) \<Rightarrow> (Inl e, pool1)
      | (Inr key, pool1, _) \<Rightarrow>
          let v = the (map_of pool1 key); opts = ce_server_options ce sid in
          if so_prefer_replica opts then (vfdw_refuse_prefer_replica, pool1)
          else if vfdw_conn_write_refusal v \<noteq> None then (vfdw_refuse_no_write_program, pool1)
          else let (ttl, v1) = (if tm_nttl m > 0 then vfdw_ttl_require answer v else (Inr (), v));
                   pool2 = AList.update key v1 pool1
               in case ttl of
                    Inl e \<Rightarrow> (Inl e, pool2)
                  | Inr _ \<Rightarrow>
                      (case vfdw_wbuf_bind sid umid uid (tm_database m) (so_write_max_ops opts) (so_write_max_bytes opts)
                              nest initial wb of
                         Inl e \<Rightarrow> (Inl e, pool2)
                       | Inr wb1 \<Rightarrow> (Inr wb1, vfdw_release_connection (Some key) pool2)))"

text \<open>The state \<open>vfdw_modify_begin\<close> and \<open>vfdw_modify_begin_insert\<close> build before they connect.\<close>

definition vfdw_modify_begin ::
  "opt_env \<Rightarrow> options list \<Rightarrow> options \<Rightarrow> VfdwTableMap \<Rightarrow> (string \<times> string list) option \<Rightarrow> CmdType \<Rightarrow> string list \<Rightarrow> modify_plan \<Rightarrow>
   VfdwModifyState result" where
  "vfdw_modify_begin env attopts options m rel operation tlist plan =
     result_bind (vfdw_refuse_unwritable env attopts options m operation) (\<lambda>_.
     result_bind (vfdw_rowid_resolve tlist (mp_junk_names plan)) (\<lambda>(k, mem).
     Inr \<lparr>md_map = m, md_vc = vfdw_val_ctx_init rel m, md_junk_key = k, md_junk_member = mem,
          md_junk_wholerow = vfdw_rowid_find_wholerow tlist\<rparr>))"

definition vfdw_modify_begin_insert ::
  "opt_env \<Rightarrow> options list \<Rightarrow> options \<Rightarrow> VfdwTableMap \<Rightarrow> (string \<times> string list) option \<Rightarrow> VfdwModifyState result" where
  "vfdw_modify_begin_insert env attopts options m rel =
     result_bind (vfdw_refuse_unwritable env attopts options m CMD_INSERT) (\<lambda>_.
     Inr \<lparr>md_map = m, md_vc = vfdw_val_ctx_init rel m, md_junk_key = InvalidAttrNumber,
          md_junk_member = InvalidAttrNumber, md_junk_wholerow = InvalidAttrNumber\<rparr>)"

section \<open>The callbacks\<close>

definition vfdw_modify_op_begin :: "VfdwModifyState \<Rightarrow> VfdwOpKind \<Rightarrow> VfdwWriteOp \<Rightarrow> VfdwWriteOp" where
  "vfdw_modify_op_begin st kind oper =
     oper\<lparr>op_kind := kind, op_relid := tm_relid (md_map st), op_tabletype := tm_tabletype (md_map st),
          op_packed_shape := tm_legacy_value (md_map st), op_keyset := tm_keyset (md_map st)\<rparr>"

definition vfdw_refuse_no_modify_state :: "'a result" where
  "vfdw_refuse_no_modify_state = raise ERRCODE_INTERNAL_ERROR ''valkey_fdw: a modify callback was reached with no state''"

text \<open>What an operation is charged and stamped with.\<close>

record stamp =
  sp_grow :: nat
  sp_rendered :: nat
  sp_nest :: int
  sp_cid :: CommandId
  sp_tuple :: HeapTuple

text \<open>
  The frame of the three callbacks: allocate the operation, fill it, append it, note it in the ledger.
\<close>

definition buffered :: "stamp \<Rightarrow> (VfdwWriteOp \<Rightarrow> VfdwWriteOp result) \<Rightarrow> wbuf \<times> ledger \<Rightarrow> (wbuf \<times> ledger) result" where
  "buffered sp fill = (\<lambda>(wb, led).
     result_bind (vfdw_wbuf_op_new (sp_grow sp) wb) (\<lambda>(a, wb1).
     result_bind (fill (wb_heap wb1 a)) (\<lambda>oper.
     result_bind (vfdw_wbuf_append a (sp_nest sp) (sp_cid sp)
        (wb1\<lparr>wb_heap := (wb_heap wb1)(a := oper), wb_allocated := wb_allocated wb1 + sp_rendered sp\<rparr>)) (\<lambda>wb2.
     result_bind (vfdw_ledger_note (wb_heap wb2 a) led) (\<lambda>led2. Inr (wb2, led2))))))"

definition stamp_slot :: "VfdwWriteOp \<Rightarrow> VfdwWriteOp" where
  "stamp_slot oper = oper\<lparr>op_hashslot := vfdw_val_slot (op_key oper)\<rparr>"

definition insert_op :: "val_env \<Rightarrow> VfdwModifyState \<Rightarrow> HeapTuple \<Rightarrow> slot \<Rightarrow> VfdwWriteOp \<Rightarrow> VfdwWriteOp result" where
  "insert_op env st tup row oper =
     result_bind (render_row env st row (vfdw_modify_op_begin st VFDW_OP_INSERT oper)) (\<lambda>o1.
     Inr ((stamp_slot o1)\<lparr>op_newtup := Some tup\<rparr>))"

definition vfdw_modify_insert :: "val_env \<Rightarrow> VfdwModifyState option \<Rightarrow> stamp \<Rightarrow> slot \<Rightarrow> wbuf \<times> ledger \<Rightarrow> (wbuf \<times> ledger) result" where
  "vfdw_modify_insert env ms sp row s =
     (case ms of
        None \<Rightarrow> vfdw_refuse_no_modify_state
      | Some st \<Rightarrow> buffered sp (insert_op env st (sp_tuple sp) row) s)"

definition vfdw_modify_read_old :: "val_env \<Rightarrow> VfdwModifyState \<Rightarrow> slot \<Rightarrow> VfdwWriteOp \<Rightarrow> VfdwWriteOp result" where
  "vfdw_modify_read_old env st planSlot oper =
     (let m = md_map st in
      result_bind
        (if md_junk_key st \<noteq> InvalidAttrNumber then
           result_bind (vfdw_rowid_read planSlot (md_junk_key st)) (\<lambda>d.
           result_bind (vfdw_val_render env (md_vc st) (map_col m (tm_keyattno m)) (Some d)) (\<lambda>v.
           Inr (oper\<lparr>op_oldkey := v\<rparr>)))
         else Inr (oper\<lparr>op_oldkey := Some (op_key oper)\<rparr>)) (\<lambda>o1.
      if md_junk_member st = InvalidAttrNumber then Inr o1
      else result_bind (vfdw_rowid_read planSlot (md_junk_member st)) (\<lambda>d.
           result_bind (vfdw_val_render env (md_vc st) (map_col m (tm_memberattno m)) (Some d)) (\<lambda>v.
           Inr (o1\<lparr>op_oldmember := v\<rparr>)))))"

definition update_op :: "val_env \<Rightarrow> VfdwModifyState \<Rightarrow> HeapTuple \<Rightarrow> slot \<Rightarrow> slot \<Rightarrow> VfdwWriteOp \<Rightarrow> VfdwWriteOp result" where
  "update_op env st tup row planSlot oper =
     result_bind (render_row env st row (vfdw_modify_op_begin st VFDW_OP_UPDATE oper)) (\<lambda>o1.
     result_bind (vfdw_modify_read_old env st planSlot o1) (\<lambda>o2.
     Inr ((stamp_slot o2)\<lparr>op_newtup := Some tup\<rparr>)))"

definition vfdw_modify_update ::
  "val_env \<Rightarrow> VfdwModifyState option \<Rightarrow> stamp \<Rightarrow> slot \<Rightarrow> slot \<Rightarrow> wbuf \<times> ledger \<Rightarrow> (wbuf \<times> ledger) result" where
  "vfdw_modify_update env ms sp row planSlot s =
     (case ms of
        None \<Rightarrow> vfdw_refuse_no_modify_state
      | Some st \<Rightarrow>
          if tm_tabletype (md_map st) = VFDW_TABLE_LIST \<and> \<not> tm_legacy_value (md_map st)
          then raise ERRCODE_INTERNAL_ERROR ''valkey_fdw: UPDATE reached the list write path''
          else buffered sp (update_op env st (sp_tuple sp) row planSlot) s)"

definition delete_key :: "val_env \<Rightarrow> VfdwModifyState \<Rightarrow> slot \<Rightarrow> bytes result" where
  "delete_key env st planSlot =
     (let m = md_map st in
      if md_junk_key st \<noteq> InvalidAttrNumber then
        result_bind (vfdw_rowid_read planSlot (md_junk_key st)) (\<lambda>d.
        map_sum id the (vfdw_val_render env (md_vc st) (map_col m (tm_keyattno m)) (Some d)))
      else vfdw_val_build_key env (md_vc st) m None None)"

definition delete_member :: "val_env \<Rightarrow> VfdwModifyState \<Rightarrow> slot \<Rightarrow> VfdwWriteOp \<Rightarrow> VfdwWriteOp result" where
  "delete_member env st planSlot oper =
     (let m = md_map st in
      if md_junk_member st \<noteq> InvalidAttrNumber then
        result_bind (vfdw_rowid_read planSlot (md_junk_member st)) (\<lambda>d.
        result_bind (vfdw_val_render env (md_vc st) (map_col m (tm_memberattno m)) (Some d)) (\<lambda>v.
        Inr (oper\<lparr>op_member := v\<rparr>)))
      else Inr oper)"

definition delete_op :: "val_env \<Rightarrow> VfdwModifyState \<Rightarrow> slot \<Rightarrow> VfdwWriteOp \<Rightarrow> VfdwWriteOp result" where
  "delete_op env st planSlot oper =
     result_bind (delete_key env st planSlot) (\<lambda>k.
     result_bind (delete_member env st planSlot ((vfdw_modify_op_begin st VFDW_OP_DELETE oper)\<lparr>op_key := k\<rparr>)) (\<lambda>o2.
     Inr (stamp_slot o2)))"

text \<open>The slot \<open>RETURNING\<close> sees: the whole row the plan carried, padded with nulls.\<close>

definition vfdw_modify_fill_deleted :: "VfdwModifyState \<Rightarrow> nat \<Rightarrow> slot \<Rightarrow> slot option \<Rightarrow> slot" where
  "vfdw_modify_fill_deleted st natts row wholerow =
     (if md_junk_wholerow st = InvalidAttrNumber then row
      else case wholerow of
             None \<Rightarrow> row
           | Some old \<Rightarrow> take natts old @ replicate (natts - length old) None)"

definition vfdw_modify_delete ::
  "val_env \<Rightarrow> VfdwModifyState option \<Rightarrow> stamp \<Rightarrow> slot \<Rightarrow> wbuf \<times> ledger \<Rightarrow> (wbuf \<times> ledger) result" where
  "vfdw_modify_delete env ms sp planSlot s =
     (case ms of
        None \<Rightarrow> vfdw_refuse_no_modify_state
      | Some st \<Rightarrow> buffered sp (delete_op env st planSlot) s)"

section \<open>Batches\<close>

definition vfdw_modify_batch_size :: "bool \<Rightarrow> bool \<Rightarrow> bool \<Rightarrow> nat" where
  "vfdw_modify_batch_size returning after_row_trigger before_row_trigger =
     (if returning \<or> after_row_trigger \<or> before_row_trigger then 1 else 100)"

definition vfdw_modify_batch_insert ::
  "val_env \<Rightarrow> VfdwModifyState option \<Rightarrow> (stamp \<times> slot) list \<Rightarrow> wbuf \<times> ledger \<Rightarrow> (wbuf \<times> ledger) result" where
  "vfdw_modify_batch_insert env ms rows = result_fold (\<lambda>(sp, row). vfdw_modify_insert env ms sp row) rows"

section \<open>A written row joins the log\<close>

lemma render_key_ok:
  assumes "vfdw_modify_render_key env st row oper = Inr oper'"
  shows "key_in_scope (md_map st) (op_key oper')" "oper' = oper\<lparr>op_key := op_key oper'\<rparr>"
proof -
  obtain c v k where "vfdw_val_build_key env (md_vc st) (md_map st) c v = Inr k" "oper' = oper\<lparr>op_key := k\<rparr>"
    using assms by (auto simp: vfdw_modify_render_key_def Let_def result_bind_Inr_iff)
  then show "key_in_scope (md_map st) (op_key oper')" "oper' = oper\<lparr>op_key := op_key oper'\<rparr>"
    using build_key_in_scope by simp_all
qed

lemma render_frame:
  "vfdw_modify_render_score env st row oper = Inr oper' \<Longrightarrow> \<exists>x. oper' = oper\<lparr>op_score := x\<rparr>"
  "vfdw_modify_render_member env st row oper = Inr oper' \<Longrightarrow> \<exists>x. oper' = oper\<lparr>op_member := x\<rparr>"
  "vfdw_modify_render_payload env st row oper = Inr oper' \<Longrightarrow>
     \<exists>w x y z. oper' = oper\<lparr>op_value := w, op_fields := x, op_ttls := y, op_packed := z\<rparr>"
proof -
  show "\<exists>x. oper' = oper\<lparr>op_score := x\<rparr>" if "vfdw_modify_render_score env st row oper = Inr oper'"
    using that by (cases oper) (auto simp: vfdw_modify_render_score_def Let_def result_bind_Inr_iff split: if_splits)
  show "\<exists>x. oper' = oper\<lparr>op_member := x\<rparr>" if "vfdw_modify_render_member env st row oper = Inr oper'"
    using that by (cases oper) (auto simp: vfdw_modify_render_member_def Let_def result_bind_Inr_iff split: if_splits)
  let ?upd = "\<lambda>w x y z. oper\<lparr>op_value := w, op_fields := x, op_ttls := y, op_packed := z\<rparr>"
  have f: "\<exists>x. o1 = o0\<lparr>op_fields := x\<rparr>" if "vfdw_modify_render_fields env st row o0 = Inr o1" for o0 o1
    using that by (cases o0) (auto simp: vfdw_modify_render_fields_def vfdw_val_error_all_fields_null_def
        result_bind_Inr_iff split: if_splits)
  have t: "\<exists>x. o1 = o0\<lparr>op_ttls := x\<rparr>" if "vfdw_modify_render_ttls env st row o0 = Inr o1" for o0 o1
    using that by (cases o0) (auto simp: vfdw_modify_render_ttls_def result_bind_Inr_iff split: if_splits)
  have k: "\<exists>x. o1 = o0\<lparr>op_packed := x\<rparr>" if "vfdw_modify_render_packed env st row o0 = Inr o1" for o0 o1
    using that by (cases o0) (auto simp: vfdw_modify_render_packed_def result_bind_Inr_iff split: option.splits prod.splits if_splits)
  have same: "\<And>w. oper\<lparr>op_value := w\<rparr> = ?upd w (op_fields oper) (op_ttls oper) (op_packed oper)"
    "\<And>x y. oper\<lparr>op_fields := x, op_ttls := y\<rparr> = ?upd (op_value oper) x y (op_packed oper)"
    "\<And>z. oper\<lparr>op_packed := z\<rparr> = ?upd (op_value oper) (op_fields oper) (op_ttls oper) z"
    "oper = ?upd (op_value oper) (op_fields oper) (op_ttls oper) (op_packed oper)" by simp_all
  assume a: "vfdw_modify_render_payload env st row oper = Inr oper'"
  show "\<exists>w x y z. oper' = ?upd w x y z"
  proof (cases "tm_legacy_value (md_map st)")
    case True
    then have "vfdw_modify_render_packed env st row oper = Inr oper'" using a by (simp add: vfdw_modify_render_payload_def)
    then show ?thesis using k same(3) by metis
  next
    case nl: False
    show ?thesis
    proof (cases "tm_tabletype (md_map st) = VFDW_TABLE_HASH")
      case True
      then obtain o1 where "vfdw_modify_render_fields env st row oper = Inr o1" "vfdw_modify_render_ttls env st row o1 = Inr oper'"
        using a nl by (auto simp: vfdw_modify_render_payload_def result_bind_Inr_iff)
      then show ?thesis using f t same(2) by metis
    next
      case False
      then have "oper' = oper \<or> (\<exists>w. oper' = oper\<lparr>op_value := w\<rparr>)"
        using a nl by (simp add: vfdw_modify_render_payload_def Let_def result_bind_Inr_iff split: if_splits) blast
      then show ?thesis using same(1,4) by metis
    qed
  qed
qed

lemma render_row_ok:
  assumes "render_row env st row oper = Inr oper'"
  shows "key_in_scope (md_map st) (op_key oper') \<and> op_relid oper' = op_relid oper \<and> op_kind oper' = op_kind oper \<and>
    op_tabletype oper' = op_tabletype oper"
proof -
  obtain o1 o2 o3 where k: "vfdw_modify_render_key env st row oper = Inr o1"
    and s: "vfdw_modify_render_score env st row o1 = Inr o2" and mem: "vfdw_modify_render_member env st row o2 = Inr o3"
    and p: "vfdw_modify_render_payload env st row o3 = Inr oper'"
    using assms by (auto simp: render_row_def result_bind_Inr_iff)
  obtain w x y z where o': "oper' = o3\<lparr>op_value := w, op_fields := x, op_ttls := y, op_packed := z\<rparr>"
    using render_frame(3) [OF p] by blast
  obtain sc me where o3: "o2 = o1\<lparr>op_score := sc\<rparr>" "o3 = o2\<lparr>op_member := me\<rparr>"
    using render_frame(1) [OF s] render_frame(2) [OF mem] by blast
  have o1: "o1 = oper\<lparr>op_key := op_key o1\<rparr>" by (rule render_key_ok(2) [OF k])
  have "op_relid o1 = op_relid oper" "op_kind o1 = op_kind oper" "op_tabletype o1 = op_tabletype oper"
    by (subst o1, simp)+
  then show ?thesis using render_key_ok(1) [OF k] by (simp add: o' o3)
qed

lemma buffered_push:
  assumes "buffered sp fill (wb, led) = Inr (wb', led')"
  obtains oper where "fill zero_op = Inr oper" "wbuf_push (sp_grow sp) (sp_rendered sp) oper (sp_nest sp) (sp_cid sp) wb = Inr wb'"
    "vfdw_ledger_note (wb_heap wb' (wb_brk wb)) led = Inr led'"
  using assms by (auto simp: buffered_def wbuf_push_def vfdw_wbuf_op_new_def result_bind_Inr_iff split: if_splits)

text \<open>A successful callback is a step of the session, and its operation is the new end of the log.\<close>

lemma buffered_step:
  assumes s: "reachable s" "\<not> ss_failed s" "sp_nest sp = ss_level s"
    and b: "buffered sp fill (bk_wbuf (ss_backend s), bk_ledger (ss_backend s)) = Inr (wb, led)"
  obtains oper where "fill zero_op = Inr oper"
    "wbuf_log wb = wbuf_log (bk_wbuf (ss_backend s)) @ [payload (oper\<lparr>op_level := ss_level s, op_cid := sp_cid sp\<rparr>)]"
    "reachable (upd_backend (\<lambda>b. b\<lparr>bk_wbuf := wb, bk_ledger := led\<rparr>) s)"
proof -
  obtain oper where f: "fill zero_op = Inr oper"
    and p: "wbuf_push (sp_grow sp) (sp_rendered sp) oper (ss_level s) (sp_cid sp) (bk_wbuf (ss_backend s)) = Inr wb"
    and n: "vfdw_ledger_note (wb_heap wb (wb_brk (bk_wbuf (ss_backend s)))) (bk_ledger (ss_backend s)) = Inr led"
    using buffered_push [OF b] s(3) by metis
  have inv: "wbuf_inv (ss_level s) (bk_wbuf (ss_backend s))" using session_invD(2) [OF reachable_inv [OF s(1)]] .
  show thesis
    by (rule that [OF f wl.push_log [OF inv p] reachable.move [OF s(1) session_step.write_noted [OF s(2) p n]]])
qed

definition joins_log :: "session \<Rightarrow> VfdwTableMap \<Rightarrow> wbuf \<Rightarrow> ledger \<Rightarrow> VfdwWriteOp \<Rightarrow> bool" where
  "joins_log s m wb led oper \<longleftrightarrow>
     wbuf_log wb = wbuf_log (bk_wbuf (ss_backend s)) @ [oper] \<and> op_level oper = ss_level s \<and>
     op_relid oper = tm_relid m \<and> op_tabletype oper = tm_tabletype m \<and>
     op_hashslot oper = vfdw_val_slot (op_key oper) \<and>
     vfdw_ledger_rebuild_from_buffer (wbuf_log wb) = Inr led \<and>
     reachable (upd_backend (\<lambda>b. b\<lparr>bk_wbuf := wb, bk_ledger := led\<rparr>) s)"

lemma joins_logI:
  assumes s: "reachable s" "\<not> ss_failed s" "sp_nest sp = ss_level s"
    and b: "buffered sp fill (bk_wbuf (ss_backend s), bk_ledger (ss_backend s)) = Inr (wb, led)"
    and good: "\<And>oper. fill zero_op = Inr oper \<Longrightarrow> op_relid oper = tm_relid m \<and> op_tabletype oper = tm_tabletype m \<and>
      op_hashslot oper = vfdw_val_slot (op_key oper) \<and> P (op_kind oper) (op_key oper)"
  shows "\<exists>oper. joins_log s m wb led oper \<and> P (op_kind oper) (op_key oper)"
proof -
  obtain oper where f: "fill zero_op = Inr oper"
    and log: "wbuf_log wb = wbuf_log (bk_wbuf (ss_backend s)) @ [payload (oper\<lparr>op_level := ss_level s, op_cid := sp_cid sp\<rparr>)]"
    and r: "reachable (upd_backend (\<lambda>b. b\<lparr>bk_wbuf := wb, bk_ledger := led\<rparr>) s)" (is "reachable ?t")
    using buffered_step [OF s b] by metis
  have nf: "\<not> ss_failed ?t" using s(2) by (simp add: upd_backend_def)
  have led: "vfdw_ledger_rebuild_from_buffer (wbuf_log wb) = Inr led"
    using session_invD(6) [OF reachable_inv [OF r] nf] by (simp add: upd_backend_def)
  show ?thesis
    by (rule exI [of _ "payload (oper\<lparr>op_level := ss_level s, op_cid := sp_cid sp\<rparr>)"])
       (use good [OF f] log r led in \<open>simp add: joins_log_def payload_def\<close>)
qed

lemma insert_op_ok:
  "insert_op env st tup row zero_op = Inr oper \<Longrightarrow>
     op_relid oper = tm_relid (md_map st) \<and> op_tabletype oper = tm_tabletype (md_map st) \<and>
     op_hashslot oper = vfdw_val_slot (op_key oper) \<and> op_kind oper = VFDW_OP_INSERT \<and> key_in_scope (md_map st) (op_key oper)"
  by (auto simp: insert_op_def result_bind_Inr_iff stamp_slot_def vfdw_modify_op_begin_def dest!: render_row_ok)

lemma read_old_frame:
  "vfdw_modify_read_old env st planSlot oper = Inr oper' \<Longrightarrow> \<exists>k mem. oper' = oper\<lparr>op_oldkey := k, op_oldmember := mem\<rparr>"
  by (cases oper) (auto simp: vfdw_modify_read_old_def Let_def result_bind_Inr_iff split: if_splits)

lemma update_op_ok:
  "update_op env st tup row planSlot zero_op = Inr oper \<Longrightarrow>
     op_relid oper = tm_relid (md_map st) \<and> op_tabletype oper = tm_tabletype (md_map st) \<and>
     op_hashslot oper = vfdw_val_slot (op_key oper) \<and> op_kind oper = VFDW_OP_UPDATE \<and> key_in_scope (md_map st) (op_key oper)"
  by (auto simp: update_op_def result_bind_Inr_iff stamp_slot_def vfdw_modify_op_begin_def
      dest!: render_row_ok read_old_frame)

lemma delete_member_frame: "delete_member env st planSlot oper = Inr oper' \<Longrightarrow> \<exists>x. oper' = oper\<lparr>op_member := x\<rparr>"
  by (cases oper) (auto simp: delete_member_def Let_def result_bind_Inr_iff split: if_splits)

lemma delete_op_ok:
  "delete_op env st planSlot zero_op = Inr oper \<Longrightarrow>
     op_relid oper = tm_relid (md_map st) \<and> op_tabletype oper = tm_tabletype (md_map st) \<and>
     op_hashslot oper = vfdw_val_slot (op_key oper) \<and> op_kind oper = VFDW_OP_DELETE"
  by (auto simp: delete_op_def result_bind_Inr_iff stamp_slot_def vfdw_modify_op_begin_def dest!: delete_member_frame)

text \<open>C28. In any session state a transaction can be in, a write callback that succeeds adds exactly one
  operation at the end of the log, at the current nesting level, for this table and routed by the slot of
  its own key; an inserted or updated row's key is in the table's scope; and the session goes on with a
  ledger that is the fold of the new log.\<close>

theorem written_row_joins_log:
  assumes "reachable s" and "\<not> ss_failed s" and "sp_nest sp = ss_level s"
    and "vfdw_modify_insert env (Some st) sp row (bk_wbuf (ss_backend s), bk_ledger (ss_backend s)) = Inr (wb, led) \<or>
         vfdw_modify_update env (Some st) sp row planSlot (bk_wbuf (ss_backend s), bk_ledger (ss_backend s)) = Inr (wb, led) \<or>
         vfdw_modify_delete env (Some st) sp planSlot (bk_wbuf (ss_backend s), bk_ledger (ss_backend s)) = Inr (wb, led)"
  shows "\<exists>oper. joins_log s (md_map st) wb led oper \<and>
    (op_kind oper = VFDW_OP_DELETE \<or> key_in_scope (md_map st) (op_key oper))"
proof -
  consider (ins) "buffered sp (insert_op env st (sp_tuple sp) row) (bk_wbuf (ss_backend s), bk_ledger (ss_backend s)) = Inr (wb, led)"
    | (upd) "buffered sp (update_op env st (sp_tuple sp) row planSlot) (bk_wbuf (ss_backend s), bk_ledger (ss_backend s)) = Inr (wb, led)"
    | (del) "buffered sp (delete_op env st planSlot) (bk_wbuf (ss_backend s), bk_ledger (ss_backend s)) = Inr (wb, led)"
    using assms(4) unfolding vfdw_modify_insert_def vfdw_modify_update_def vfdw_modify_delete_def
    by (simp split: if_splits) blast+
  then show ?thesis
  proof cases
    case ins
    show ?thesis by (rule joins_logI [OF assms(1-3) ins]) (use insert_op_ok in blast)
  next
    case upd
    show ?thesis by (rule joins_logI [OF assms(1-3) upd]) (use update_op_ok in blast)
  next
    case del
    show ?thesis by (rule joins_logI [OF assms(1-3) del]) (use delete_op_ok in blast)
  qed
qed

text \<open>A write into the sample table: a user named Ada, aged 36, whose age expires.\<close>

definition sample_val_env :: val_env where
  "sample_val_env = \<lparr>ve_output = (\<lambda>_ d. case d of DOpaque b \<Rightarrow> Inr b | _ \<Rightarrow> Inr []), ve_input = (\<lambda>_ b _ _. Inr (DOpaque b)),
     ve_domain_check = (\<lambda>_ _. Inr ()), ve_verifymbstr = (\<lambda>_. Inr ()), ve_float4out = (\<lambda>_. ''0''), ve_base = id,
     ve_strtod = (\<lambda>s. \<lparr>sd_used = length s, sd_erange = False, sd_value = FFinite\<rparr>)\<rparr>"

definition sample_modify :: VfdwModifyState where
  "sample_modify = \<lparr>md_map = sample_map, md_vc = vfdw_val_ctx_init None sample_map, md_junk_key = 0, md_junk_member = 0,
     md_junk_wholerow = 0\<rparr>"

definition sample_row :: slot where
  "sample_row = [Some (DOpaque ''user:7''), Some (DOpaque ''36''), Some (DInterval 0 0 90000), Some (DOpaque ''Ada'')]"

definition sample_stamp :: stamp where
  "sample_stamp = \<lparr>sp_grow = 200, sp_rendered = 40, sp_nest = 1, sp_cid = 0, sp_tuple = 7\<rparr>"

definition sample_insert :: VfdwWriteOp where
  "sample_insert = zero_op\<lparr>op_kind := VFDW_OP_INSERT, op_relid := 1, op_tabletype := VFDW_TABLE_HASH, op_key := ''user:7'',
     op_fields := [\<lparr>arg_name = ''age'', arg_isnull = False, arg_data = ''36''\<rparr>, \<lparr>arg_name = ''name'', arg_isnull = False, arg_data = ''Ada''\<rparr>],
     op_ttls := [\<lparr>arg_name = ''age'', arg_isnull = False, arg_data = dec_int 90\<rparr>],
     op_hashslot := vfdw_val_slot ''user:7'', op_newtup := Some 7\<rparr>"

lemmas val_exec = vfdw_val_ctx_init_def vfdw_val_build_key_def vfdw_val_key_classify_def vfdw_val_render_scratch_def
  vfdw_val_check_arg_len_def VFDW_MAX_ARG_BYTES_def cstr_def NUL_def vfdw_val_has_prefix_def vfdw_val_is_keyset_def
  vfdw_val_from_slot_def vfdw_val_render_def vfdw_val_ttl_column_def fits64_def sdiv_1000 col_packed_def

lemmas render_exec = render_row_def vfdw_modify_render_key_def vfdw_modify_render_score_def vfdw_modify_render_member_def
  vfdw_modify_render_payload_def vfdw_modify_render_fields_def vfdw_modify_render_ttls_def render_arg_def slot_getattr_def
  vfdw_modify_op_begin_def stamp_slot_def of_kind_def

lemma sample_insert_rendered: "insert_op sample_val_env sample_modify 7 sample_row zero_op = Inr sample_insert"
  by (simp add: insert_op_def render_exec val_exec sample_map_value sample_modify_def sample_row_def sample_val_env_def
      sample_insert_def zero_op_def)

definition sample_written :: "wbuf \<times> ledger" where
  "sample_written = projr (vfdw_modify_insert sample_val_env (Some sample_modify) sample_stamp sample_row (bound_wbuf, vfdw_ledger_reset))"

lemma sample_insert_noted: "\<exists>led. vfdw_ledger_note (sample_insert\<lparr>op_level := l, op_cid := c, op_prev := p, op_next := n\<rparr>) vfdw_ledger_reset = Inr led"
proof -
  have "\<not> isl (vfdw_ledger_note (sample_insert\<lparr>op_level := l, op_cid := c, op_prev := p, op_next := n\<rparr>) vfdw_ledger_reset)"
    by (simp add: sample_insert_def zero_op_def ledger_exec vfdw_ledger_fold_hash_def vfdw_ledger_fold_fields_def
        fold_field_def vfdw_ledger_member_def member_of_def)
  then show ?thesis by (cases "vfdw_ledger_note (sample_insert\<lparr>op_level := l, op_cid := c, op_prev := p, op_next := n\<rparr>) vfdw_ledger_reset") auto
qed

lemma sample_written:
  "vfdw_modify_insert sample_val_env (Some sample_modify) sample_stamp sample_row (bound_wbuf, vfdw_ledger_reset) = Inr sample_written"
proof -
  have new: "vfdw_wbuf_op_new 200 bound_wbuf = Inr (0, bound_wbuf\<lparr>wb_brk := 1, wb_allocated := 264\<rparr>)"
    by (simp add: bound_wbuf_def wbuf_exec fun_eq_iff)
  have heap: "wb_heap (bound_wbuf\<lparr>wb_brk := 1, wb_allocated := 264\<rparr>) 0 = zero_op"
    by (simp add: bound_wbuf_def wbuf_exec)
  obtain wb where app: "vfdw_wbuf_append 0 1 0 (bound_wbuf\<lparr>wb_brk := 1,
      wb_heap := (wb_heap bound_wbuf)(0 := sample_insert), wb_allocated := 304\<rparr>) = Inr wb"
    and h: "wb_heap wb 0 = sample_insert\<lparr>op_level := 1, op_cid := 0, op_prev := None, op_next := None\<rparr>"
    by (simp add: bound_wbuf_def wbuf_exec)
  obtain led where "vfdw_ledger_note (wb_heap wb 0) vfdw_ledger_reset = Inr led"
    unfolding h using sample_insert_noted by blast
  then have "\<not> isl (vfdw_modify_insert sample_val_env (Some sample_modify) sample_stamp sample_row (bound_wbuf, vfdw_ledger_reset))"
    using new heap app by (simp add: vfdw_modify_insert_def buffered_def sample_stamp_def sample_insert_rendered)
  then show ?thesis unfolding sample_written_def
    by (cases "vfdw_modify_insert sample_val_env (Some sample_modify) sample_stamp sample_row (bound_wbuf, vfdw_ledger_reset)") simp_all
qed

theorem written_row_joins_log_witness:
  "\<exists>oper. wbuf_log (fst sample_written) = [oper] \<and> op_hashslot oper = vfdw_val_slot (op_key oper) \<and>
     (op_kind oper = VFDW_OP_DELETE \<or> key_in_scope sample_map (op_key oper))"
proof -
  let ?s = "upd_backend (\<lambda>b. b\<lparr>bk_wbuf := bound_wbuf\<rparr>) (session_init sample_flush)"
  have b: "bk_wbuf (ss_backend ?s) = bound_wbuf" "bk_ledger (ss_backend ?s) = vfdw_ledger_reset" "ss_level ?s = 1" "\<not> ss_failed ?s"
    by (simp_all add: upd_backend_def session_init_def)
  have e: "wbuf_log bound_wbuf = []" by (simp add: bound_wbuf_def wbuf_exec wbuf_log_def)
  have w: "vfdw_modify_insert sample_val_env (Some sample_modify) sample_stamp sample_row
      (bk_wbuf (ss_backend ?s), bk_ledger (ss_backend ?s)) = Inr (fst sample_written, snd sample_written)"
    using sample_written by (simp add: b)
  have "\<exists>oper. joins_log ?s (md_map sample_modify) (fst sample_written) (snd sample_written) oper \<and>
      (op_kind oper = VFDW_OP_DELETE \<or> key_in_scope (md_map sample_modify) (op_key oper))"
    by (rule written_row_joins_log [OF bound_session_reachable b(4) _ disjI1 [OF w]]) (simp add: sample_stamp_def b)
  then show ?thesis by (auto simp: joins_log_def b e sample_modify_def)
qed

end
