(* ===== verification/Keyplan.thy ===== *)
theory Keyplan
  imports Value Searchfilter
begin

text \<open>
  Choosing how a scan finds its keys: \<open>src/vfdw_plan.c\<close> and \<open>src/vfdw_plan_param.c\<close>. A restriction on the
  key column becomes a list of keys to fetch, a prefix to match, or a parameter taken from the outer
  side of a join.

  Expression trees keep what the code looks at: variables, constants, binary operators and array
  operators. The catalogue's answers (the equality operator of a type, whether a collation is
  deterministic, the text a type's output function gives) are the fields of \<open>plan_env\<close>. The plan of a vector search
  is an argument of \<open>vfdw_scan_plan\<close>; \<open>Knn\<close> makes it.
\<close>

section \<open>Expressions\<close>

datatype expr =
    KVar nat nat int Oid
  | KConst Oid "Datum option"
  | KOther nat

datatype clause =
    RestrictInfo clause
  | KOpExpr Oid Oid "expr list"
  | KArrayOp Oid bool Oid "expr list"
  | KOtherClause nat

record plan_env =
  kp_eq_opr :: "Oid \<Rightarrow> Oid"
  kp_deterministic :: "Oid \<Rightarrow> bool"
  kp_base :: "Oid \<Rightarrow> Oid"
  kp_element :: "Oid \<Rightarrow> Oid"
  kp_out :: "Oid \<Rightarrow> Datum \<Rightarrow> string"

abbreviation (input) VARCHAROID :: Oid where "VARCHAROID \<equiv> 1043"
abbreviation (input) OID_TEXT_LIKE_OP :: Oid where "OID_TEXT_LIKE_OP \<equiv> 1209"

definition VFDW_MAX_KEY_LIST :: nat where
  "VFDW_MAX_KEY_LIST = 1000"

definition vfdw_is_key_var :: "nat \<Rightarrow> VfdwTableMap \<Rightarrow> expr \<Rightarrow> bool" where
  "vfdw_is_key_var relid m nd =
     (case nd of
        KVar varno varlevelsup varattno _ \<Rightarrow>
          if varno \<noteq> relid \<or> varlevelsup \<noteq> 0 then False
          else if varattno \<le> 0 \<or> varattno > int (length (tm_cols m)) then False
          else varattno = int (tm_keyattno m)
      | _ \<Rightarrow> False)"

definition vfdw_is_equality :: "plan_env \<Rightarrow> Oid \<Rightarrow> Oid \<Rightarrow> bool" where
  "vfdw_is_equality env opno vartype \<longleftrightarrow> kp_eq_opr env vartype = opno"

definition vfdw_collation_is_deterministic :: "plan_env \<Rightarrow> Oid \<Rightarrow> bool" where
  "vfdw_collation_is_deterministic env collid \<longleftrightarrow> collid = InvalidOid \<or> kp_deterministic env collid"

definition vfdw_key_column_pushable :: "plan_env \<Rightarrow> VfdwTableMap \<Rightarrow> bool" where
  "vfdw_key_column_pushable env m =
     (if tm_keyattno m = InvalidAttrNumber \<or> tm_keyattno m > length (tm_cols m) then False
      else let basetype = kp_base env (col_typid (tm_cols m ! (tm_keyattno m - 1)))
           in basetype = TEXTOID \<or> basetype = VARCHAROID)"

definition vfdw_key_from_datum :: "plan_env \<Rightarrow> Oid \<Rightarrow> Datum \<Rightarrow> string" where
  "vfdw_key_from_datum env typid v = kp_out env typid v"

section \<open>Keys named by the query\<close>

fun var_type :: "expr \<Rightarrow> Oid" where
  "var_type (KVar _ _ _ t) = t"
| "var_type _ = InvalidOid"

fun is_var :: "expr \<Rightarrow> bool" where
  "is_var (KVar _ _ _ _) = True"
| "is_var _ = False"

fun is_const :: "expr \<Rightarrow> bool" where
  "is_const (KConst _ _) = True"
| "is_const _ = False"

text \<open>The two sides, the variable first: the swap of \<open>vfdw_keys_from_opexpr\<close>.\<close>

definition const_on_right :: "expr \<Rightarrow> expr \<Rightarrow> expr \<times> expr" where
  "const_on_right l r = (if is_var r \<and> is_const l then (r, l) else (l, r))"

definition vfdw_keys_from_opexpr :: "plan_env \<Rightarrow> nat \<Rightarrow> VfdwTableMap \<Rightarrow> Oid \<Rightarrow> Oid \<Rightarrow> expr list \<Rightarrow> string list" where
  "vfdw_keys_from_opexpr env relid m opno collid args =
     (case args of
        [l0, r0] \<Rightarrow>
          (case const_on_right l0 r0 of
             (l, KConst consttype v) \<Rightarrow>
               if \<not> vfdw_is_key_var relid m l then []
               else (case v of
                       None \<Rightarrow> []
                     | Some d \<Rightarrow>
                         if consttype \<noteq> var_type l then []
                         else if \<not> vfdw_is_equality env opno consttype then []
                         else if \<not> vfdw_collation_is_deterministic env collid then []
                         else [vfdw_key_from_datum env consttype d])
           | _ \<Rightarrow> [])
      | _ \<Rightarrow> [])"

fun array_items :: "Datum \<Rightarrow> Datum option list" where
  "array_items (DArray _ items) = items"
| "array_items _ = []"

definition vfdw_keys_from_saop :: "plan_env \<Rightarrow> nat \<Rightarrow> VfdwTableMap \<Rightarrow> Oid \<Rightarrow> bool \<Rightarrow> Oid \<Rightarrow> expr list \<Rightarrow> string list" where
  "vfdw_keys_from_saop env relid m opno useOr collid args =
     (case args of
        [l, KConst consttype v] \<Rightarrow>
          if \<not> useOr then []
          else if \<not> vfdw_is_key_var relid m l then []
          else (case v of
                  None \<Rightarrow> []
                | Some d \<Rightarrow>
                    let elemtype = kp_element env consttype in
                    if elemtype = InvalidOid \<or> elemtype \<noteq> var_type l then []
                    else if \<not> vfdw_is_equality env opno elemtype then []
                    else if \<not> vfdw_collation_is_deterministic env collid then []
                    else if length (array_items d) > VFDW_MAX_KEY_LIST then []
                    else map (\<lambda>e. vfdw_key_from_datum env elemtype (the e)) (filter (\<lambda>e. e \<noteq> None) (array_items d)))
      | _ \<Rightarrow> [])"

text \<open>Drop the keys outside the prefix and the repetitions, keeping the order.\<close>

definition vfdw_keys_refine :: "VfdwTableMap \<Rightarrow> string list \<Rightarrow> string list" where
  "vfdw_keys_refine m keys =
     foldl (\<lambda>result key.
        if (case tm_keyprefix m of None \<Rightarrow> False | Some p \<Rightarrow> length p > 0 \<and> take (length p) key \<noteq> p) then result
        else if key \<in> set result then result else result @ [key]) [] keys"

fun strip_restrict :: "clause \<Rightarrow> clause" where
  "strip_restrict (RestrictInfo c) = c"
| "strip_restrict c = c"

definition clause_keys :: "plan_env \<Rightarrow> nat \<Rightarrow> VfdwTableMap \<Rightarrow> clause \<Rightarrow> string list" where
  "clause_keys env relid m c =
     (case strip_restrict c of
        KOpExpr opno collid args \<Rightarrow> vfdw_keys_from_opexpr env relid m opno collid args
      | KArrayOp opno useOr collid args \<Rightarrow> vfdw_keys_from_saop env relid m opno useOr collid args
      | _ \<Rightarrow> [])"

fun find_keys_loop :: "plan_env \<Rightarrow> nat \<Rightarrow> VfdwTableMap \<Rightarrow> clause list \<Rightarrow> string list option" where
  "find_keys_loop env relid m [] = None"
| "find_keys_loop env relid m (c # cs) =
     (let found = clause_keys env relid m c in
      if found \<noteq> [] then Some (vfdw_keys_refine m found) else find_keys_loop env relid m cs)"

definition vfdw_plan_find_keys :: "plan_env \<Rightarrow> nat \<Rightarrow> VfdwTableMap \<Rightarrow> clause list \<Rightarrow> string list option" where
  "vfdw_plan_find_keys env relid m clauses =
     (if \<not> vfdw_key_column_pushable env m then None else find_keys_loop env relid m clauses)"

section \<open>A LIKE prefix as a pattern\<close>

definition BSL :: char where
  "BSL = CHR 0x5C"

fun like_prefix_loop :: "bytes \<Rightarrow> bytes" where
  "like_prefix_loop [] = []"
| "like_prefix_loop (c # p) =
     (if c = CHR 0x25 \<or> c = CHR ''_'' then []
      else if c = BSL then (case p of [] \<Rightarrow> [] | d # q \<Rightarrow> d # like_prefix_loop q)
      else c # like_prefix_loop p)"

definition vfdw_like_prefix :: "bytes \<Rightarrow> string option" where
  "vfdw_like_prefix patt = (let buf = like_prefix_loop patt in if buf = [] then None else Some buf)"

definition like_clause_prefix :: "plan_env \<Rightarrow> nat \<Rightarrow> VfdwTableMap \<Rightarrow> clause \<Rightarrow> string option" where
  "like_clause_prefix env relid m c =
     (case strip_restrict c of
        KOpExpr opno collid [l, KConst _ v] \<Rightarrow>
          if opno \<noteq> OID_TEXT_LIKE_OP then None
          else if \<not> vfdw_is_key_var relid m l then None
          else (case v of
                  None \<Rightarrow> None
                | Some d \<Rightarrow> if \<not> vfdw_collation_is_deterministic env collid then None else vfdw_like_prefix (vardata d))
      | _ \<Rightarrow> None)"

fun find_like_loop :: "plan_env \<Rightarrow> nat \<Rightarrow> VfdwTableMap \<Rightarrow> clause list \<Rightarrow> string option" where
  "find_like_loop env relid m [] = None"
| "find_like_loop env relid m (c # cs) =
     (case like_clause_prefix env relid m c of Some p \<Rightarrow> Some p | None \<Rightarrow> find_like_loop env relid m cs)"

definition vfdw_plan_find_like_prefix :: "plan_env \<Rightarrow> nat \<Rightarrow> VfdwTableMap \<Rightarrow> clause list \<Rightarrow> string option" where
  "vfdw_plan_find_like_prefix env relid m clauses =
     (if \<not> vfdw_key_column_pushable env m then None else find_like_loop env relid m clauses)"

definition glob_special :: "char \<Rightarrow> bool" where
  "glob_special c \<longleftrightarrow> c = CHR ''*'' \<or> c = CHR ''?'' \<or> c = CHR ''['' \<or> c = CHR '']'' \<or> c = BSL"

definition vfdw_escape_glob :: "bytes \<Rightarrow> bytes" where
  "vfdw_escape_glob s = concat (map (\<lambda>c. if glob_special c then [BSL, c] else [c]) s)"

definition vfdw_plan_scan_pattern :: "VfdwTableMap \<Rightarrow> string option \<Rightarrow> string option" where
  "vfdw_plan_scan_pattern m like_prefix =
     (if tm_keyset m \<noteq> None then None
      else let starts = (\<lambda>l. case tm_keyprefix m of None \<Rightarrow> True | Some p \<Rightarrow> take (length p) l = p);
               prefix = (case like_prefix of Some l \<Rightarrow> if starts l then Some l else tm_keyprefix m | None \<Rightarrow> tm_keyprefix m)
           in case prefix of None \<Rightarrow> None | Some p \<Rightarrow> Some (vfdw_escape_glob p @ ''*''))"

section \<open>A key from the other side of a join\<close>

text \<open>
  The implied equalities of the key column, each with the relations it mentions. The result is the
  expression to evaluate and the outer relations it needs.
\<close>

definition param_candidate :: "plan_env \<Rightarrow> nat \<Rightarrow> VfdwTableMap \<Rightarrow> clause \<times> nat set \<Rightarrow> (expr \<times> nat set) option" where
  "param_candidate env relid m c =
     (case fst c of
        KOpExpr opno collid [l0, r0] \<Rightarrow>
          let (l, r) = (if \<not> vfdw_is_key_var relid m l0 then (r0, l0) else (l0, r0)) in
          if \<not> vfdw_is_key_var relid m l then None
          else if \<not> vfdw_is_equality env opno (var_type l) then None
          else if snd c - {relid} = {} then None
          else Some (r, snd c - {relid})
      | _ \<Rightarrow> None)"

fun param_key_loop :: "plan_env \<Rightarrow> nat \<Rightarrow> VfdwTableMap \<Rightarrow> (clause \<times> nat set) list \<Rightarrow> (expr \<times> nat set) option" where
  "param_key_loop env relid m [] = None"
| "param_key_loop env relid m (c # cs) =
     (case param_candidate env relid m c of Some r \<Rightarrow> Some r | None \<Rightarrow> param_key_loop env relid m cs)"

definition vfdw_plan_param_key :: "plan_env \<Rightarrow> nat \<Rightarrow> VfdwTableMap \<Rightarrow> (clause \<times> nat set) list \<Rightarrow> (expr \<times> nat set) option" where
  "vfdw_plan_param_key env relid m implied =
     (if \<not> vfdw_key_column_pushable env m then None else param_key_loop env relid m implied)"

definition vfdw_plan_param_encode :: "plan_env \<Rightarrow> nat \<Rightarrow> VfdwTableMap \<Rightarrow> (clause \<times> nat set) list \<Rightarrow> expr option" where
  "vfdw_plan_param_encode env relid m implied = map_option fst (vfdw_plan_param_key env relid m implied)"

section \<open>The plan\<close>

datatype VfdwScanStrategy = VFDW_SCAN_KEYSPACE | VFDW_SCAN_KEYS | VFDW_SCAN_SINGLETON | VFDW_SCAN_KNN | VFDW_SCAN_KEY_PARAM

text \<open>
  \<open>fdw_private\<close>, with the field, the metric and the \<open>k\<close> of a search and its compiled filter, and \<open>fdw_exprs\<close>: of a
  parameterised scan the key, of a search the query vector and the bounds.
\<close>

record scan_private =
  pv_strategy :: VfdwScanStrategy
  pv_keys :: "string list"
  pv_pattern :: "string option"
  pv_exprs :: "expr list"
  pv_knn :: "(string \<times> string \<times> int) option"
  pv_filter :: "(string \<times> 32 word) list"
  pv_search_exprs :: "node list"

definition vfdw_plan_private ::
  "VfdwScanStrategy \<Rightarrow> string list \<Rightarrow> string option \<Rightarrow> expr list \<Rightarrow> (string \<times> string \<times> int) option \<Rightarrow> (string \<times> 32 word) list \<Rightarrow> scan_private" where
  "vfdw_plan_private strategy keys pattern exprs knn flt =
     \<lparr>pv_strategy = strategy, pv_keys = keys, pv_pattern = pattern, pv_exprs = exprs, pv_knn = knn, pv_filter = flt,
      pv_search_exprs = []\<rparr>"

definition vfdw_scan_plan ::
  "plan_env \<Rightarrow> nat \<Rightarrow> VfdwTableMap \<Rightarrow> clause list \<Rightarrow> (clause \<times> nat set) list \<Rightarrow> bool \<Rightarrow> scan_private result \<Rightarrow> scan_private result" where
  "vfdw_scan_plan env relid m clauses implied parameterised search =
     (if tm_tabletype m = VFDW_TABLE_VECTOR then search
      else case (if parameterised then vfdw_plan_param_encode env relid m implied else None) of
        Some key \<Rightarrow> Inr (vfdw_plan_private VFDW_SCAN_KEY_PARAM [] None [key] None [])
      | None \<Rightarrow>
          (case tm_singleton_key m of
             Some s \<Rightarrow> Inr (vfdw_plan_private VFDW_SCAN_SINGLETON [s] None [] None [])
           | None \<Rightarrow>
               (case vfdw_plan_find_keys env relid m clauses of
                  Some keys \<Rightarrow> Inr (vfdw_plan_private VFDW_SCAN_KEYS keys None [] None [])
                | None \<Rightarrow> Inr (vfdw_plan_private VFDW_SCAN_KEYSPACE []
                    (vfdw_plan_scan_pattern m (vfdw_plan_find_like_prefix env relid m clauses)) [] None []))))"

definition vfdw_scan_strategy_name :: "scan_private option \<Rightarrow> string" where
  "vfdw_scan_strategy_name priv =
     (case priv of
        None \<Rightarrow> ''unknown''
      | Some p \<Rightarrow>
          (case pv_strategy p of
             VFDW_SCAN_KEYS \<Rightarrow> if length (pv_keys p) = 1 then ''Key Lookup'' else ''Key List''
           | VFDW_SCAN_SINGLETON \<Rightarrow> ''Singleton Key''
           | VFDW_SCAN_KNN \<Rightarrow> ''Vector KNN''
           | VFDW_SCAN_KEY_PARAM \<Rightarrow> ''Key Lookup (parameterised)''
           | VFDW_SCAN_KEYSPACE \<Rightarrow> ''Keyspace Scan''))"

text \<open>
  The keys a parameterised scan fetches for one outer row: \<open>vfdw_scan_param_refresh\<close> of
  \<open>src/vfdw_scan_open.c\<close>, with the value the expression evaluated to.
\<close>

definition vfdw_scan_param_refresh :: "VfdwTableMap \<Rightarrow> bytes option \<Rightarrow> string list" where
  "vfdw_scan_param_refresh m v =
     (case v of
        None \<Rightarrow> []
      | Some key \<Rightarrow>
          (case tm_keyprefix m of
             None \<Rightarrow> [key]
           | Some p \<Rightarrow> if take (length p) key = p then [key] else []))"

definition vfdw_scan_asks_membership :: "VfdwTableMap \<Rightarrow> VfdwScanStrategy \<Rightarrow> bool" where
  "vfdw_scan_asks_membership m strategy \<longleftrightarrow> tm_keyset m \<noteq> None \<and> strategy = VFDW_SCAN_KEYS"

section \<open>What the operators and the server's pattern mean\<close>

text \<open>
  PostgreSQL's LIKE: a percent sign stands for any text, an underscore for one character, which is one or
  more bytes, and a backslash takes the next character literally.
\<close>

fun like_match :: "bytes \<Rightarrow> bytes \<Rightarrow> bool" where
  "like_match [] s = (s = [])"
| "like_match (c # p) s =
     (if c = CHR 0x25 then (\<exists>n \<in> {0..length s}. like_match p (drop n s))
      else if c = CHR ''_'' then (\<exists>n \<in> {1..length s}. like_match p (drop n s))
      else if c = BSL then (case p of [] \<Rightarrow> False | d # q \<Rightarrow> s \<noteq> [] \<and> hd s = d \<and> like_match q (tl s))
      else s \<noteq> [] \<and> hd s = c \<and> like_match p (tl s))"

text \<open>
  \<open>holds c k\<close>: clause \<open>c\<close> is true of a row whose key column is \<open>k\<close>. Equality of a text type under a
  deterministic collation is equality of bytes, \<open>= ANY\<close> is equality with some element, and \<open>LIKE\<close> matches.
\<close>

definition operators_documented :: "plan_env \<Rightarrow> nat \<Rightarrow> VfdwTableMap \<Rightarrow> (clause \<Rightarrow> bytes \<Rightarrow> bool) \<Rightarrow> bool" where
  "operators_documented env relid m holds \<longleftrightarrow>
     (\<forall>l collid d k. vfdw_is_key_var relid m l \<and> vfdw_collation_is_deterministic env collid \<and>
        (holds (KOpExpr (kp_eq_opr env (var_type l)) collid [l, KConst (var_type l) (Some d)]) k \<or>
         holds (KOpExpr (kp_eq_opr env (var_type l)) collid [KConst (var_type l) (Some d), l]) k) \<longrightarrow>
        k = kp_out env (var_type l) d) \<and>
     (\<forall>l collid t d k. vfdw_is_key_var relid m l \<and> vfdw_collation_is_deterministic env collid \<and> kp_element env t = var_type l \<and>
        holds (KArrayOp (kp_eq_opr env (var_type l)) True collid [l, KConst t (Some d)]) k \<longrightarrow>
        (\<exists>e. Some e \<in> set (array_items d) \<and> k = kp_out env (var_type l) e)) \<and>
     (\<forall>l collid t d k. vfdw_is_key_var relid m l \<and> vfdw_collation_is_deterministic env collid \<and>
        holds (KOpExpr OID_TEXT_LIKE_OP collid [l, KConst t (Some d)]) k \<longrightarrow> like_match (vardata d) k)"

text \<open>The server's MATCH: a star at the end, an escaped character, and a character that is not special.\<close>

definition glob_documented :: "(bytes \<Rightarrow> bytes \<Rightarrow> bool) \<Rightarrow> bool" where
  "glob_documented glob \<longleftrightarrow>
     (\<forall>s. glob ''*'' s) \<and>
     (\<forall>c p s. glob (BSL # c # p) s \<longleftrightarrow> s \<noteq> [] \<and> hd s = c \<and> glob p (tl s)) \<and>
     (\<forall>c p s. \<not> glob_special c \<longrightarrow> (glob (c # p) s \<longleftrightarrow> s \<noteq> [] \<and> hd s = c \<and> glob p (tl s)))"

lemma glob_escape:
  assumes "glob_documented glob"
  shows "glob (vfdw_escape_glob p @ ''*'') s \<longleftrightarrow> take (length p) s = p"
proof (induction p arbitrary: s)
  case Nil
  then show ?case using assms by (simp add: vfdw_escape_glob_def glob_documented_def)
next
  case (Cons c p)
  have "glob (vfdw_escape_glob (c # p) @ ''*'') s \<longleftrightarrow> s \<noteq> [] \<and> hd s = c \<and> glob (vfdw_escape_glob p @ ''*'') (tl s)"
    using assms by (simp add: vfdw_escape_glob_def glob_documented_def)
  then show ?case using Cons.IH by (cases s) auto
qed

lemma like_prefix_sound: "like_match patt s \<Longrightarrow> take (length (like_prefix_loop patt)) s = like_prefix_loop patt"
proof (induction patt arbitrary: s rule: like_prefix_loop.induct)
  case (2 c p)
  show ?case
  proof (cases "c = CHR 0x25 \<or> c = CHR ''_''")
    case lit: False
    show ?thesis
    proof (cases "c = BSL")
      case True
      then obtain d q where p: "p = d # q" and s: "s \<noteq> []" "hd s = d" "like_match q (tl s)"
        using 2(3) lit by (auto split: list.splits)
      then have "take (length (like_prefix_loop q)) (tl s) = like_prefix_loop q" using 2(1) [OF lit True p] by blast
      then show ?thesis using True p s lit by (cases s) (auto simp: BSL_def)
    next
      case False
      then have s: "s \<noteq> []" "hd s = c" "like_match p (tl s)" using 2(3) lit by auto
      then have "take (length (like_prefix_loop p)) (tl s) = like_prefix_loop p" using 2(2) [OF lit False] by blast
      then show ?thesis using False s lit by (cases s) auto
    qed
  qed auto
qed simp

section \<open>The plan fetches what the query asks for\<close>

definition in_prefix :: "VfdwTableMap \<Rightarrow> bytes \<Rightarrow> bool" where
  "in_prefix m k \<longleftrightarrow> (case tm_keyprefix m of None \<Rightarrow> True | Some p \<Rightarrow> take (length p) k = p)"

lemma refine_set: "set (vfdw_keys_refine m keys) = {k \<in> set keys. in_prefix m k}"
proof -
  let ?skip = "\<lambda>key. case tm_keyprefix m of None \<Rightarrow> False | Some p \<Rightarrow> length p > 0 \<and> take (length p) key \<noteq> p"
  let ?f = "\<lambda>result key. if ?skip key then result else if key \<in> set result then result else result @ [key]"
  have skip: "?skip key \<longleftrightarrow> \<not> in_prefix m key" for key by (auto simp: in_prefix_def split: option.splits)
  have "set (foldl ?f acc keys) = set acc \<union> {k \<in> set keys. in_prefix m k}" for acc
  proof (induction keys arbitrary: acc)
    case (Cons k ks)
    show ?case unfolding foldl_Cons Cons.IH by (auto simp: skip)
  qed simp
  then show ?thesis by (simp add: vfdw_keys_refine_def)
qed

lemma refine_distinct: "distinct (vfdw_keys_refine m keys)"
proof -
  let ?skip = "\<lambda>key. case tm_keyprefix m of None \<Rightarrow> False | Some p \<Rightarrow> length p > 0 \<and> take (length p) key \<noteq> p"
  let ?f = "\<lambda>result key. if ?skip key then result else if key \<in> set result then result else result @ [key]"
  have "distinct acc \<Longrightarrow> distinct (foldl ?f acc keys)" for acc
    by (induction keys arbitrary: acc) auto
  then show ?thesis by (simp add: vfdw_keys_refine_def)
qed

lemma operators_any:
  assumes "operators_documented env relid m holds" and "vfdw_is_key_var relid m l" and "vfdw_collation_is_deterministic env collid"
    and "kp_element env t = var_type l" and "holds (KArrayOp (kp_eq_opr env (var_type l)) True collid [l, KConst t (Some d)]) k"
  shows "\<exists>e. Some e \<in> set (array_items d) \<and> k = kp_out env (var_type l) e"
proof -
  have "\<forall>l collid t d k. vfdw_is_key_var relid m l \<and> vfdw_collation_is_deterministic env collid \<and> kp_element env t = var_type l \<and>
        holds (KArrayOp (kp_eq_opr env (var_type l)) True collid [l, KConst t (Some d)]) k \<longrightarrow>
        (\<exists>e. Some e \<in> set (array_items d) \<and> k = kp_out env (var_type l) e)"
    using assms(1) unfolding operators_documented_def by (elim conjE)
  then show ?thesis using assms(2-5) by blast
qed

lemma opexpr_keys:
  assumes ops: "operators_documented env relid m holds" and h: "holds (KOpExpr opno collid args) k"
    and ne: "vfdw_keys_from_opexpr env relid m opno collid args \<noteq> []"
  shows "k \<in> set (vfdw_keys_from_opexpr env relid m opno collid args)"
proof -
  obtain l0 r0 where args: "args = [l0, r0]"
    using ne by (auto simp: vfdw_keys_from_opexpr_def split: list.splits)
  obtain l r where lr: "const_on_right l0 r0 = (l, r)" by fastforce
  obtain t d where r: "r = KConst t (Some d)" and key: "vfdw_is_key_var relid m l" and t: "t = var_type l"
    and eq: "opno = kp_eq_opr env (var_type l)" and det: "vfdw_collation_is_deterministic env collid"
    using ne by (auto simp: vfdw_keys_from_opexpr_def args lr vfdw_is_equality_def split: expr.splits option.splits if_splits)
  have "args = [l, KConst (var_type l) (Some d)] \<or> args = [KConst (var_type l) (Some d), l]"
    using lr by (auto simp: args r t const_on_right_def split: if_splits)
  then have "k = kp_out env (var_type l) d"
    using ops h key det unfolding operators_documented_def eq by blast
  then show ?thesis using key det
    by (simp add: vfdw_keys_from_opexpr_def args lr r t eq vfdw_is_equality_def vfdw_key_from_datum_def)
qed

lemma saop_keys:
  assumes ops: "operators_documented env relid m holds" and h: "holds (KArrayOp opno useOr collid args) k"
    and ne: "vfdw_keys_from_saop env relid m opno useOr collid args \<noteq> []"
  shows "k \<in> set (vfdw_keys_from_saop env relid m opno useOr collid args)"
proof -
  obtain l t d where args: "args = [l, KConst t (Some d)]" and key: "vfdw_is_key_var relid m l" and u: "useOr"
    and t: "kp_element env t = var_type l" and eq: "opno = kp_eq_opr env (var_type l)"
    and det: "vfdw_collation_is_deterministic env collid"
    and keys: "vfdw_keys_from_saop env relid m opno useOr collid args =
      map (\<lambda>e. kp_out env (var_type l) (the e)) (filter (\<lambda>e. e \<noteq> None) (array_items d))"
    using ne by (auto simp: vfdw_keys_from_saop_def vfdw_is_equality_def vfdw_key_from_datum_def Let_def
        split: list.splits expr.splits option.splits if_splits)
  have "holds (KArrayOp (kp_eq_opr env (var_type l)) True collid [l, KConst t (Some d)]) k" using h u by (simp add: args eq)
  then obtain e where "Some e \<in> set (array_items d)" "k = kp_out env (var_type l) e"
    using operators_any [OF ops key det t] by blast
  then show ?thesis unfolding keys by force
qed

lemma clause_keys_sound:
  assumes "operators_documented env relid m holds" and "holds (strip_restrict c) k" and "clause_keys env relid m c \<noteq> []"
  shows "k \<in> set (clause_keys env relid m c)"
  using assms opexpr_keys saop_keys by (cases "strip_restrict c") (auto simp: clause_keys_def)

lemma find_keys_sound:
  "operators_documented env relid m holds \<Longrightarrow> find_keys_loop env relid m cs = Some keys \<Longrightarrow> distinct keys \<and>
     (\<forall>k. k \<in> set keys \<longrightarrow> in_prefix m k) \<and>
     (\<forall>k. in_prefix m k \<and> (\<forall>c \<in> set cs. holds (strip_restrict c) k) \<longrightarrow> k \<in> set keys)"
proof (induction cs)
  case (Cons c cs)
  show ?case
  proof (cases "clause_keys env relid m c = []")
    case True
    then show ?thesis using Cons by (auto simp: Let_def)
  next
    case False
    then have "keys = vfdw_keys_refine m (clause_keys env relid m c)" using Cons.prems by (simp add: Let_def)
    then show ?thesis using clause_keys_sound [OF Cons.prems(1) _ False] by (auto simp: refine_set refine_distinct)
  qed
qed simp

lemma find_like_sound:
  "operators_documented env relid m holds \<Longrightarrow> find_like_loop env relid m cs = Some p \<Longrightarrow>
     \<forall>c \<in> set cs. holds (strip_restrict c) k \<Longrightarrow> take (length p) k = p"
proof (induction cs)
  case (Cons c cs)
  show ?case
  proof (cases "like_clause_prefix env relid m c")
    case None
    then show ?thesis using Cons by simp
  next
    case (Some q)
    then have "q = p" using Cons.prems(2) by simp
    obtain collid l t d where c: "strip_restrict c = KOpExpr OID_TEXT_LIKE_OP collid [l, KConst t (Some d)]"
      and key: "vfdw_is_key_var relid m l" and det: "vfdw_collation_is_deterministic env collid"
      and q: "vfdw_like_prefix (vardata d) = Some q"
      using Some unfolding like_clause_prefix_def by (auto split: clause.splits list.splits expr.splits option.splits if_splits)
    have "holds (strip_restrict c) k" using Cons.prems(3) by simp
    then have "like_match (vardata d) k" using Cons.prems(1) key det unfolding operators_documented_def c by blast
    then show ?thesis using like_prefix_sound q \<open>q = p\<close> by (auto simp: vfdw_like_prefix_def Let_def split: if_splits)
  qed
qed simp

lemma pattern_sound:
  assumes g: "glob_documented glob" and like: "\<And>p. lp = Some p \<Longrightarrow> P \<Longrightarrow> take (length p) k = p"
    and scope: "tm_keyprefix m = None \<or> tm_keyset m = None"
  shows "(case vfdw_plan_scan_pattern m lp of None \<Rightarrow> True | Some g \<Rightarrow> glob g k) \<longrightarrow> in_prefix m k"
    and "in_prefix m k \<and> P \<longrightarrow> (case vfdw_plan_scan_pattern m lp of None \<Rightarrow> True | Some g \<Rightarrow> glob g k)"
proof -
  have shorter: "take (length p) k = p" if "take (length l) k = l" "take (length p) l = p" for p l :: bytes
    using that by (metis length_take min.absorb_iff1 min.cobounded2 take_take min.commute)
  show "(case vfdw_plan_scan_pattern m lp of None \<Rightarrow> True | Some g \<Rightarrow> glob g k) \<longrightarrow> in_prefix m k"
    using scope shorter by (auto simp: vfdw_plan_scan_pattern_def in_prefix_def glob_escape [OF g] split: option.splits if_splits)
  show "in_prefix m k \<and> P \<longrightarrow> (case vfdw_plan_scan_pattern m lp of None \<Rightarrow> True | Some g \<Rightarrow> glob g k)"
    using like by (auto simp: vfdw_plan_scan_pattern_def in_prefix_def glob_escape [OF g] split: option.splits if_splits)
qed

definition fetched :: "(bytes \<Rightarrow> bytes \<Rightarrow> bool) \<Rightarrow> scan_private \<Rightarrow> bytes \<Rightarrow> bool" where
  "fetched glob pv k \<longleftrightarrow>
     (if pv_strategy pv = VFDW_SCAN_KEYSPACE then (case pv_pattern pv of None \<Rightarrow> True | Some g \<Rightarrow> glob g k)
      else k \<in> set (pv_keys pv))"

definition table_key :: "VfdwTableMap \<Rightarrow> bytes \<Rightarrow> bool" where
  "table_key m k \<longleftrightarrow> (case tm_singleton_key m of Some s \<Rightarrow> k = s | None \<Rightarrow> in_prefix m k)"


text \<open>A query on the sample table: \<open>id IN ('user:7', 'admin', 'user:7') AND id LIKE 'user:%'\<close>.\<close>

definition sample_plan_env :: plan_env where
  "sample_plan_env = \<lparr>kp_eq_opr = (\<lambda>_. 98), kp_deterministic = (\<lambda>_. True), kp_base = id, kp_element = (\<lambda>_. 25), kp_out = (\<lambda>_ d. vardata d)\<rparr>"

definition sample_clauses :: "clause list" where
  "sample_clauses =
     [RestrictInfo (KArrayOp 98 True 100 [KVar 1 0 1 25, KConst 1009 (Some (DArray 1 [Some (DOpaque ''user:7''),
        Some (DOpaque ''admin''), Some (DOpaque ''user:7'')]))]),
      KOpExpr 1209 100 [KVar 1 0 1 25, KConst 25 (Some (DOpaque (''user:'' @ [CHR 0x25])))]]"

text \<open>An evaluator of the three operators on the key column, and a matcher for the patterns the code sends.\<close>

fun clause_true :: "clause \<Rightarrow> bytes \<Rightarrow> bool" where
  "clause_true (KOpExpr opno _ [KVar _ _ _ _, KConst _ (Some d)]) k =
     (if opno = 98 then k = vardata d else if opno = 1209 then like_match (vardata d) k else False)"
| "clause_true (KOpExpr opno _ [KConst _ (Some d), KVar _ _ _ _]) k = (opno = 98 \<and> k = vardata d)"
| "clause_true (KArrayOp opno useOr _ [KVar _ _ _ _, KConst _ (Some d)]) k =
     (opno = 98 \<and> useOr \<and> Some k \<in> set (map (map_option vardata) (array_items d)))"
| "clause_true _ _ = False"

fun glob_match :: "bytes \<Rightarrow> bytes \<Rightarrow> bool" where
  "glob_match [] s = (s = [])"
| "glob_match (c # p) s =
     (if c = CHR ''*'' \<and> p = [] then True
      else if c = BSL then (case p of [] \<Rightarrow> False | d # q \<Rightarrow> s \<noteq> [] \<and> hd s = d \<and> glob_match q (tl s))
      else s \<noteq> [] \<and> hd s = c \<and> glob_match p (tl s))"

lemma glob_match_documented: "glob_documented glob_match"
  by (auto simp: glob_documented_def glob_special_def BSL_def)

lemma clause_true_documented: "operators_documented sample_plan_env 1 sample_map clause_true"
  unfolding operators_documented_def
proof (intro conjI allI impI; elim conjE disjE)
  fix l collid d k
  assume "vfdw_is_key_var 1 sample_map l"
  then obtain a b c t where l: "l = KVar a b c t" by (cases l) (auto simp: vfdw_is_key_var_def)
  show "k = kp_out sample_plan_env (var_type l) d"
    if "clause_true (KOpExpr (kp_eq_opr sample_plan_env (var_type l)) collid [l, KConst (var_type l) (Some d)]) k"
    using that by (simp add: l sample_plan_env_def)
  show "k = kp_out sample_plan_env (var_type l) d"
    if "clause_true (KOpExpr (kp_eq_opr sample_plan_env (var_type l)) collid [KConst (var_type l) (Some d), l]) k"
    using that by (simp add: l sample_plan_env_def)
  show "like_match (vardata d) k" if "clause_true (KOpExpr OID_TEXT_LIKE_OP collid [l, KConst x (Some d)]) k" for x
    using that by (simp add: l)
  show "\<exists>e. Some e \<in> set (array_items d) \<and> k = kp_out sample_plan_env (var_type l) e"
    if "clause_true (KArrayOp (kp_eq_opr sample_plan_env (var_type l)) True collid [l, KConst x (Some d)]) k" for x
    using that by (auto simp: l sample_plan_env_def dest!: sym [of "Some k"])
qed


text \<open>
  A parameterised scan goes round three of these guards. The key of a singleton table is displaced by the
  join's key although the comment above the test says no qual may displace it; a key of a keyset table is
  fetched without asking whether the set holds it; and an equality under a non-deterministic collation,
  which the constant path refuses, is used.
\<close>

lemma parameter_displaces_singleton:
  assumes "tm_tabletype m = VFDW_TABLE_HASH" and "vfdw_plan_param_key env relid m implied = Some (key, outer)"
  shows "vfdw_scan_plan env relid m clauses implied True search = Inr (vfdw_plan_private VFDW_SCAN_KEY_PARAM [] None [key] None [])"
    and "tm_singleton_key m = Some s \<Longrightarrow> tm_keyprefix m = None \<Longrightarrow> k \<noteq> s \<Longrightarrow>
         set (vfdw_scan_param_refresh m (Some k)) = {k} \<and> \<not> table_key m k"
    and "\<not> vfdw_scan_asks_membership m VFDW_SCAN_KEY_PARAM"
  using assms by (simp_all add: vfdw_scan_plan_def vfdw_plan_param_encode_def vfdw_scan_param_refresh_def table_key_def
      vfdw_scan_asks_membership_def)

lemma parameter_ignores_collation:
  assumes "vfdw_key_column_pushable env m" and "vfdw_is_key_var relid m l" and "outer - {relid} \<noteq> {}"
  shows "vfdw_plan_param_key env relid m [(KOpExpr (kp_eq_opr env (var_type l)) collid [l, r], outer)] = Some (r, outer - {relid})"
  using assms by (simp add: vfdw_plan_param_key_def param_candidate_def vfdw_is_equality_def)

end
