(* ===== verification/Scan.thy ===== *)
theory Scan
  imports Row Keyplan Cluster Overlay
begin

text \<open>
  The scan: building its commands (\<open>src/vfdw_scan_cmd.c\<close>), paging through the keyspace and turning
  replies into rows (\<open>src/vfdw_scan.c\<close>), opening, rescanning and closing (\<open>src/vfdw_scan_open.c\<close>).

  The state is the record of \<open>src/vfdw_scan_internal.h\<close>, its cluster half being the \<open>cluster_scan\<close> of
  \<open>Cluster\<close> and its overlay half the \<open>scan_overlay\<close> of \<open>Overlay\<close>. Attaching to a cluster node begins a new
  batch on that node's connection. The server can answer empty pages for ever, so the loops that wait
  for a key carry fuel and return \<open>None\<close> when it runs out. The vector search is a parameter.
\<close>

section \<open>State\<close>

text \<open>
  A search in progress (\<open>src/vfdw_search.h\<close>). The compiled query vector, bounds and restrictions are expression states of
  the executor: \<open>Search\<close> takes what they evaluate to as an argument.
\<close>

record VfdwKnnScan =
  kn_index :: string
  kn_field :: string
  kn_metric :: string
  kn_k :: int
  kn_terms :: "VfdwFilterTerm list"
  kn_empty :: bool
  kn_reply :: "valkeyReply option"
  kn_row :: nat
  kn_ran :: bool
  kn_emitted :: nat
  kn_fetched_k :: int
  kn_returned :: int
  kn_pass_survivors :: nat
  kn_exact :: bool

definition zero_knn :: VfdwKnnScan where
  "zero_knn = \<lparr>kn_index = [], kn_field = [], kn_metric = [], kn_k = 0, kn_terms = [], kn_empty = False, kn_reply = None, kn_row = 0,
     kn_ran = False, kn_emitted = 0, kn_fetched_k = 0, kn_returned = 0, kn_pass_survivors = 0, kn_exact = False\<rparr>"

definition vfdw_search_reset :: "VfdwKnnScan \<Rightarrow> VfdwKnnScan" where
  "vfdw_search_reset knn = knn\<lparr>kn_reply := None, kn_row := 0, kn_ran := False, kn_empty := False, kn_emitted := 0, kn_fetched_k := 0,
     kn_returned := 0, kn_pass_survivors := 0\<rparr>"

record VfdwScanState =
  sc_map :: VfdwTableMap
  sc_strategy :: VfdwScanStrategy
  sc_batch :: VfdwBatch
  sc_rowctx :: VfdwRowCtx
  sc_cur_hlen :: int
  sc_cur_member :: int
  sc_pattern :: "string option"
  sc_cluster :: cluster_scan
  sc_cur_reply :: "valkeyReply option"
  sc_cur_elem :: nat
  sc_cur_key :: bytes
  sc_skipped :: int
  sc_pages :: int
  sc_overlay :: scan_overlay
  sc_knn :: VfdwKnnScan

text \<open>
  Outside the scan: the type functions, what \<open>valkeyAppendCommandArgv\<close> gives for a command, the leases
  and connections of the cluster, its slot map, the server options, the buffered tuples as rows.
\<close>

record scan_env =
  se_val :: val_env
  se_append :: "bytes list \<Rightarrow> unit result"
  se_connect :: "VfdwClusterNode \<Rightarrow> unit result"
  se_wire :: "VfdwClusterNode \<Rightarrow> wire"
  se_slot_map :: "VfdwSlotMap result"
  se_server :: "Oid \<times> Oid"
  se_scan_count :: int
  se_pipeline :: int
  se_tuple :: "HeapTuple \<Rightarrow> slot"

section \<open>Commands\<close>

definition vfdw_scan_hash_command :: "VfdwTableMap \<Rightarrow> bytes \<Rightarrow> VfdwCmd \<Rightarrow> VfdwCmd" where
  "vfdw_scan_hash_command m key cmd =
     (if \<not> tm_hmget m then vfdw_cmd_add_bytes key (vfdw_cmd_add_cstr ''HGETALL'' cmd)
      else foldl (\<lambda>c col. vfdw_cmd_add_bytes (the (col_field col)) c)
             (vfdw_cmd_add_bytes key (vfdw_cmd_add_cstr ''HMGET'' cmd))
             (filter (\<lambda>col. col_kind col = VFDW_COL_FIELD \<or> col_kind col = VFDW_COL_TTL) (tm_cols m)))"

definition vfdw_scan_value_command :: "VfdwTableMap \<Rightarrow> bytes \<Rightarrow> VfdwCmd \<Rightarrow> VfdwCmd" where
  "vfdw_scan_value_command m key cmd0 =
     (let cmd = vfdw_cmd_reset cmd0;
          range = (\<lambda>verb. vfdw_cmd_add_cstr ''-1'' (vfdw_cmd_add_cstr ''0''
                            (vfdw_cmd_add_bytes key (vfdw_cmd_add_cstr verb cmd))))
      in case tm_tabletype m of
           VFDW_TABLE_HASH \<Rightarrow> vfdw_scan_hash_command m key cmd
         | VFDW_TABLE_LIST \<Rightarrow> range ''LRANGE''
         | VFDW_TABLE_SET \<Rightarrow> vfdw_cmd_add_bytes key (vfdw_cmd_add_cstr ''SMEMBERS'' cmd)
         | VFDW_TABLE_ZSET \<Rightarrow>
             if \<not> tm_legacy_value m then vfdw_cmd_add_cstr ''WITHSCORES'' (range ''ZRANGE'') else range ''ZRANGE''
         | _ \<Rightarrow> vfdw_cmd_add_bytes key (vfdw_cmd_add_cstr ''GET'' cmd))"

text \<open>The commands of one key, in the order the page queues them; \<open>cmd\<close> is the buffer the loop reuses.\<close>

definition sismember_command :: "VfdwTableMap \<Rightarrow> bytes \<Rightarrow> VfdwCmd \<Rightarrow> VfdwCmd" where
  "sismember_command m key cmd =
     vfdw_cmd_add_bytes key (vfdw_cmd_add_bytes (the (tm_keyset m)) (vfdw_cmd_add_cstr ''SISMEMBER'' (vfdw_cmd_reset cmd)))"

definition hlen_command :: "bytes \<Rightarrow> VfdwCmd \<Rightarrow> VfdwCmd" where
  "hlen_command key cmd = vfdw_cmd_add_bytes key (vfdw_cmd_add_cstr ''HLEN'' (vfdw_cmd_reset cmd))"

definition queue_command :: "scan_env \<Rightarrow> bool \<Rightarrow> (VfdwCmd \<Rightarrow> VfdwCmd) \<Rightarrow> VfdwCmd \<times> VfdwBatch \<Rightarrow> (VfdwCmd \<times> VfdwBatch) result" where
  "queue_command env wanted build = (\<lambda>(cmd, batch).
     if \<not> wanted then Inr (cmd, batch)
     else let c = build cmd
          in result_bind (vfdw_batch_add (se_append env (cmd_argv c)) batch) (\<lambda>b. Inr (c, b)))"

definition queue_key :: "scan_env \<Rightarrow> VfdwTableMap \<Rightarrow> VfdwScanStrategy \<Rightarrow> bytes \<Rightarrow> VfdwCmd \<times> VfdwBatch \<Rightarrow> (VfdwCmd \<times> VfdwBatch) result" where
  "queue_key env m strategy key s =
     result_bind (queue_command env (vfdw_scan_asks_membership m strategy) (sismember_command m key) s) (\<lambda>s1.
     result_bind (queue_command env (tm_hmget m) (hlen_command key) s1) (\<lambda>s2.
     result_bind (queue_command env (tm_nttl m > 0) (vfdw_ttl_command m key) s2) (\<lambda>s3.
     queue_command env True (vfdw_scan_value_command m key) s3)))"

definition vfdw_scan_queue_page :: "scan_env \<Rightarrow> VfdwScanState \<Rightarrow> VfdwScanState result" where
  "vfdw_scan_queue_page env st =
     result_bind (result_fold (queue_key env (sc_map st) (sc_strategy st)) (cs_keys (sc_cluster st)) (vfdw_cmd_init 4, sc_batch st))
       (\<lambda>(_, batch). Inr (st\<lparr>sc_batch := batch\<rparr>))"

section \<open>Replies\<close>

text \<open>\<open>vfdw_batch_next\<close> on the scan's batch.\<close>

definition scan_batch_next :: "VfdwScanState \<Rightarrow> (valkeyReply option \<times> VfdwScanState) result" where
  "scan_batch_next st = result_bind (vfdw_batch_next (sc_batch st)) (\<lambda>(r, b). Inr (r, st\<lparr>sc_batch := b\<rparr>))"

definition take_member :: "VfdwScanState \<Rightarrow> VfdwScanState result" where
  "take_member st0 =
     (let st = st0\<lparr>sc_cur_member := - 1\<rparr> in
      if vfdw_scan_asks_membership (sc_map st) (sc_strategy st) then
        result_bind (scan_batch_next st) (\<lambda>(r, st1).
          Inr (case r of
                 Some reply \<Rightarrow> if rp_type reply = VALKEY_REPLY_INTEGER
                               then st1\<lparr>sc_cur_member := (if rp_integer reply \<noteq> 0 then 1 else 0)\<rparr> else st1
               | None \<Rightarrow> st1))
      else Inr st)"

definition take_hlen :: "VfdwScanState \<Rightarrow> VfdwScanState result" where
  "take_hlen st0 =
     (let st = st0\<lparr>sc_cur_hlen := - 1\<rparr> in
      if tm_hmget (sc_map st) then
        result_bind (scan_batch_next st) (\<lambda>(r, st1).
          Inr (case r of
                 Some reply \<Rightarrow> if rp_type reply = VALKEY_REPLY_INTEGER then st1\<lparr>sc_cur_hlen := rp_integer reply\<rparr> else st1
               | None \<Rightarrow> st1))
      else Inr st)"

text \<open>\<open>vfdw_ttl_take\<close> dereferences its reply: after a queued command there is one.\<close>

definition take_ttl :: "VfdwScanState \<Rightarrow> VfdwScanState result" where
  "take_ttl st =
     (if tm_nttl (sc_map st) > 0 then
        result_bind (scan_batch_next st) (\<lambda>(r, st1).
          Inr (st1\<lparr>sc_rowctx := (sc_rowctx st1)\<lparr>rc_ttl_ms := Some (vfdw_ttl_take (sc_map st) (the r))\<rparr>\<rparr>))
      else Inr st)"

definition vfdw_scan_take_replies :: "VfdwScanState \<Rightarrow> (valkeyReply option \<times> VfdwScanState) result" where
  "vfdw_scan_take_replies st =
     result_bind (take_member st) (\<lambda>st1. result_bind (take_hlen st1) (\<lambda>st2. result_bind (take_ttl st2) scan_batch_next))"

section \<open>Pages of keys\<close>

definition vfdw_scan_type_filter :: "VfdwTableType \<Rightarrow> string" where
  "vfdw_scan_type_filter type =
     (case type of VFDW_TABLE_HASH \<Rightarrow> ''hash'' | VFDW_TABLE_LIST \<Rightarrow> ''list'' | VFDW_TABLE_SET \<Rightarrow> ''set''
      | VFDW_TABLE_ZSET \<Rightarrow> ''zset'' | _ \<Rightarrow> ''string'')"

definition vfdw_scan_build_scan :: "scan_env \<Rightarrow> VfdwScanState \<Rightarrow> VfdwCmd" where
  "vfdw_scan_build_scan env st =
     (let cmd = vfdw_cmd_init 8; cl = sc_cluster st; m = sc_map st;
          cursor = (if cs_started cl then (case cs_cursor cl of Some c \<Rightarrow> c | None \<Rightarrow> []) else ''0'');
          count = (\<lambda>c. vfdw_cmd_add_int (se_scan_count env) (vfdw_cmd_add_cstr ''COUNT'' c))
      in case tm_keyset m of
           Some keyset \<Rightarrow> count (vfdw_cmd_add_cstr cursor (vfdw_cmd_add_cstr keyset (vfdw_cmd_add_cstr ''SSCAN'' cmd)))
         | None \<Rightarrow>
             let c1 = vfdw_cmd_add_cstr cursor (vfdw_cmd_add_cstr ''SCAN'' cmd);
                 c2 = (case sc_pattern st of
                         Some p \<Rightarrow> vfdw_cmd_add_cstr p (vfdw_cmd_add_cstr ''MATCH'' c1) | None \<Rightarrow> c1)
             in vfdw_cmd_add_cstr (vfdw_scan_type_filter (tm_tabletype m)) (vfdw_cmd_add_cstr ''TYPE'' (count c2)))"

definition vfdw_scan_expect_string :: "valkeyReply \<Rightarrow> string \<Rightarrow> unit result" where
  "vfdw_scan_expect_string elem what =
     (if rp_type elem = VALKEY_REPLY_STRING then Inr () else raise ERRCODE_FDW_INVALID_DATA_TYPE what)"

definition take_key :: "valkeyReply \<Rightarrow> nat \<Rightarrow> bytes list \<Rightarrow> bytes list result" where
  "take_key keys i acc =
     result_bind (vfdw_reply_child keys i) (\<lambda>k.
     result_bind (vfdw_scan_expect_string k ''SCAN returned a key that is not a string'') (\<lambda>_.
     Inr (acc @ [case rp_str k of Some b \<Rightarrow> b | None \<Rightarrow> []])))"

definition vfdw_scan_take_keys :: "valkeyReply \<Rightarrow> VfdwScanState \<Rightarrow> VfdwScanState result" where
  "vfdw_scan_take_keys keys st =
     result_bind (result_fold (take_key keys) [0..<length (rp_element keys)] []) (\<lambda>ks.
     Inr (st\<lparr>sc_cluster := (sc_cluster st)\<lparr>cs_keys := ks\<rparr>\<rparr>))"

definition vfdw_scan_take_page :: "valkeyReply \<Rightarrow> VfdwScanState \<Rightarrow> VfdwScanState result" where
  "vfdw_scan_take_page reply st =
     (if length (rp_element reply) \<noteq> 2
      then raise ERRCODE_FDW_INVALID_DATA_TYPE (''SCAN returned '' @ dec_nat (length (rp_element reply)) @ '' elements, expected 2'')
      else result_bind (vfdw_reply_child reply 0) (\<lambda>cur.
        result_bind (vfdw_scan_expect_string cur ''SCAN returned a cursor that is not a string'') (\<lambda>_.
        let cursor = (if rp_str cur = Some ''0'' then None else map_option cstr (rp_str cur));
            st1 = st\<lparr>sc_cluster := (sc_cluster st)\<lparr>cs_started := True, cs_cursor := cursor\<rparr>\<rparr>
        in result_bind (vfdw_reply_child reply 1) (\<lambda>keys.
           if rp_type keys \<noteq> VALKEY_REPLY_ARRAY
           then raise ERRCODE_FDW_INVALID_DATA_TYPE ''SCAN did not return a list of keys''
           else vfdw_scan_take_keys keys st1))))"

text \<open>The batch after the cluster half of the state has moved from \<open>cl\<close> to \<open>cl1\<close> by attaching to its current node.\<close>

definition attached :: "scan_env \<Rightarrow> bool \<Rightarrow> cluster_scan \<Rightarrow> VfdwScanState \<Rightarrow> VfdwScanState" where
  "attached env new cl1 st =
     (if new then st\<lparr>sc_cluster := cl1,
         sc_batch := vfdw_batch_begin (se_pipeline env) (se_wire env (cs_nodes cl1 ! cs_cur_node cl1))\<rparr>
      else st\<lparr>sc_cluster := cl1\<rparr>)"

definition vfdw_scan_next_page :: "scan_env \<Rightarrow> VfdwScanState \<Rightarrow> (bool \<times> VfdwScanState) result" where
  "vfdw_scan_next_page env st =
     (let cl = sc_cluster st;
          done = cs_started cl \<and> cs_cursor cl = None
      in result_bind (if done then vfdw_scan_cluster_advance (se_connect env) cl else Inr (True, cl)) (\<lambda>(go, cl1).
         if \<not> go then Inr (False, st)
         else let st1 = attached env done cl1 st;
                  st2 = st1\<lparr>sc_cluster := (sc_cluster st1)\<lparr>cs_keys := [], cs_next_key := 0\<rparr>\<rparr>
              in result_bind (vfdw_batch_add (se_append env (cmd_argv (vfdw_scan_build_scan env st2))) (sc_batch st2)) (\<lambda>b.
                 result_bind (scan_batch_next (st2\<lparr>sc_batch := b, sc_pages := sc_pages st2 + 1\<rparr>)) (\<lambda>(reply, st3).
                 result_bind (vfdw_reply_expect reply [VALKEY_REPLY_ARRAY] ''SCAN failed'') (\<lambda>_.
                 result_bind (vfdw_scan_take_page (the reply) st3) (\<lambda>st4. Inr (True, st4)))))))"

text \<open>\<open>vfdw_scan_keys_page\<close> and \<open>vfdw_scan_retry_pass\<close> on the scan's state.\<close>

definition scan_keys_page :: "scan_env \<Rightarrow> VfdwScanState \<Rightarrow> (bool \<times> VfdwScanState) result option" where
  "scan_keys_page env st =
     (case vfdw_scan_keys_page (se_connect env) (sc_cluster st) of
        None \<Rightarrow> None
      | Some (Inl e) \<Rightarrow> Some (Inl e)
      | Some (Inr (got, cl1)) \<Rightarrow>
          let st1 = attached env (cs_cur_node cl1 \<noteq> cs_cur_node (sc_cluster st)) cl1 st
          in Some (if got then result_bind (vfdw_scan_queue_page env st1) (\<lambda>st2. Inr (True, st2)) else Inr (False, st1)))"

definition scan_retry_pass :: "scan_env \<Rightarrow> VfdwScanState \<Rightarrow> (bool \<times> VfdwScanState) result" where
  "scan_retry_pass env st =
     result_bind (vfdw_scan_retry_pass (se_connect env) (se_slot_map env) (sc_cluster st)) (\<lambda>(again, cl1).
       Inr (again, attached env (again \<and> cs_fanout cl1) cl1 st))"

definition retry_then_page :: "scan_env \<Rightarrow> VfdwScanState \<Rightarrow> (bool \<times> VfdwScanState) result option" where
  "retry_then_page env st =
     (case scan_retry_pass env st of
        Inl e \<Rightarrow> Some (Inl e)
      | Inr (False, st1) \<Rightarrow> Some (Inr (False, st1))
      | Inr (True, st1) \<Rightarrow> scan_keys_page env st1)"

text \<open>The \<open>for\<close> loop of \<open>vfdw_scan_refill\<close>; the fuel is the number of pages it may read.\<close>

fun refill_loop :: "nat \<Rightarrow> scan_env \<Rightarrow> VfdwScanState \<Rightarrow> (bool \<times> VfdwScanState) result option" where
  "refill_loop 0 env st = None"
| "refill_loop (Suc n) env st =
     (case vfdw_scan_next_page env st of
        Inl e \<Rightarrow> Some (Inl e)
      | Inr (False, st1) \<Rightarrow> retry_then_page env st1
      | Inr (True, st1) \<Rightarrow>
          if cs_keys (sc_cluster st1) \<noteq> [] then Some (result_bind (vfdw_scan_queue_page env st1) (\<lambda>st2. Inr (True, st2)))
          else refill_loop n env st1)"

definition vfdw_scan_refill :: "nat \<Rightarrow> scan_env \<Rightarrow> VfdwScanState \<Rightarrow> (bool \<times> VfdwScanState) result option" where
  "vfdw_scan_refill fuel env st =
     (if cs_retry_pass (sc_cluster st) \<or> sc_strategy st \<noteq> VFDW_SCAN_KEYSPACE then
        (case scan_keys_page env st of
           None \<Rightarrow> None
         | Some (Inl e) \<Rightarrow> Some (Inl e)
         | Some (Inr (True, st1)) \<Rightarrow> Some (Inr (True, st1))
         | Some (Inr (False, st1)) \<Rightarrow> retry_then_page env st1)
      else refill_loop fuel env st)"

section \<open>From a reply to rows\<close>

definition vfdw_scan_note_redirect :: "scan_env \<Rightarrow> valkeyReply \<Rightarrow> bytes \<Rightarrow> VfdwScanState \<times> cluster_maps \<Rightarrow> VfdwScanState \<times> cluster_maps" where
  "vfdw_scan_note_redirect env reply key = (\<lambda>(st, maps).
     if vfdw_cluster_is_redirect (Some reply)
     then case vfdw_scan_redirected (fst (se_server env)) (snd (se_server env)) (Some reply) key (sc_cluster st) maps of
            (cl, maps1) \<Rightarrow> (st\<lparr>sc_cluster := cl\<rparr>, maps1)
     else (st, maps))"

definition vfdw_scan_reply_is_skippable :: "valkeyReply \<Rightarrow> bool" where
  "vfdw_scan_reply_is_skippable reply \<longleftrightarrow>
     rp_type reply = VALKEY_REPLY_NIL \<or> vfdw_cluster_is_redirect (Some reply) \<or> vfdw_reply_has_prefix (Some reply) ''WRONGTYPE''"

definition vfdw_scan_expect_value :: "VfdwTableMap \<Rightarrow> valkeyReply \<Rightarrow> unit result" where
  "vfdw_scan_expect_value m reply =
     vfdw_reply_expect (Some reply)
       (if tm_tabletype m = VFDW_TABLE_STRING then [VALKEY_REPLY_STRING]
        else [VALKEY_REPLY_ARRAY, VALKEY_REPLY_MAP, VALKEY_REPLY_SET]) ''could not read a value from Valkey''"

definition vfdw_scan_reply_is_absent :: "VfdwTableMap \<Rightarrow> int \<Rightarrow> valkeyReply \<Rightarrow> bool" where
  "vfdw_scan_reply_is_absent m hlen reply =
     (if tm_tabletype m = VFDW_TABLE_STRING then False
      else if rp_type reply \<noteq> VALKEY_REPLY_ARRAY \<and> rp_type reply \<noteq> VALKEY_REPLY_MAP \<and> rp_type reply \<noteq> VALKEY_REPLY_SET then False
      else if tm_hmget m then hlen = 0 else rp_element reply = [])"

definition vfdw_scan_produces_nothing :: "VfdwScanState \<Rightarrow> valkeyReply \<Rightarrow> bool" where
  "vfdw_scan_produces_nothing st reply \<longleftrightarrow>
     sc_cur_member st = 0 \<or> vfdw_scan_reply_is_skippable reply \<or> vfdw_scan_reply_is_absent (sc_map st) (sc_cur_hlen st) reply"

text \<open>\<open>Some row\<close> when a row was emitted, \<open>None\<close> when the collection is used up.\<close>

definition vfdw_scan_emit_member :: "val_env \<Rightarrow> VfdwScanState \<Rightarrow> (slot option \<times> VfdwScanState) result" where
  "vfdw_scan_emit_member env st =
     (let reply = the (sc_cur_reply st) in
      if sc_cur_elem st \<ge> length (rp_element reply) then Inr (None, st\<lparr>sc_cur_reply := None\<rparr>)
      else result_bind (vfdw_scan_member_stride (tm_tabletype (sc_map st)) reply) (\<lambda>stride.
        let ctx = (sc_rowctx st)\<lparr>rc_cur_elem := sc_cur_elem st\<rparr>
        in result_bind (vfdw_scan_fill env ctx (sc_cur_key st) reply) (\<lambda>row.
           Inr (Some row, st\<lparr>sc_rowctx := ctx, sc_cur_elem := sc_cur_elem st + stride\<rparr>))))"

definition vfdw_scan_take_collection :: "bytes \<Rightarrow> valkeyReply \<Rightarrow> VfdwScanState \<Rightarrow> VfdwScanState" where
  "vfdw_scan_take_collection key reply st =
     st\<lparr>sc_cur_reply := Some reply, sc_cur_elem := 0, sc_cur_key := key\<rparr>"

text \<open>What the scan shares with the rest of the backend: the write buffer, the overlay and the slot maps.\<close>

record shared =
  sh_wbuf :: wbuf
  sh_overlay :: overlay
  sh_maps :: cluster_maps

definition vfdw_scan_one_key ::
  "scan_env \<Rightarrow> bytes \<Rightarrow> valkeyReply \<Rightarrow> VfdwScanState \<times> shared \<Rightarrow> (slot option \<times> VfdwScanState \<times> shared) result" where
  "vfdw_scan_one_key env key reply = (\<lambda>(st, sh).
     let ((verdict, tup), so, ov) = vfdw_scan_apply_overlay (sh_wbuf sh) key (sc_overlay st) (sh_overlay sh);
         st1 = st\<lparr>sc_overlay := so\<rparr>; sh1 = sh\<lparr>sh_overlay := ov\<rparr>
     in case verdict of
          VFDW_OVL_REPLACE \<Rightarrow> Inr (map_option (se_tuple env) tup, st1, sh1)
        | VFDW_OVL_HIDE \<Rightarrow> Inr (None, st1, sh1)
        | VFDW_OVL_PASS \<Rightarrow>
            let (st2, maps) = vfdw_scan_note_redirect env reply key (st1, sh_maps sh1);
                sh2 = sh1\<lparr>sh_maps := maps\<rparr>
            in if vfdw_scan_produces_nothing st2 reply then Inr (None, st2\<lparr>sc_skipped := sc_skipped st2 + 1\<rparr>, sh2)
               else result_bind (vfdw_scan_expect_value (sc_map st2) reply) (\<lambda>_.
                 if vfdw_scan_is_multirow (sc_map st2) then Inr (None, vfdw_scan_take_collection key reply st2, sh2)
                 else result_bind (vfdw_scan_fill (se_val env) (sc_rowctx st2) key reply) (\<lambda>row. Inr (Some row, st2, sh2))))"

text \<open>
  One turn of the loop of \<open>vfdw_scan_fetch\<close>: \<open>Inl\<close> is \<open>continue\<close>, \<open>Inr\<close> the slot it returns, empty at the end.
\<close>

type_synonym turn = "(unit + slot option) \<times> VfdwScanState \<times> shared"

definition fetch_key :: "scan_env \<Rightarrow> VfdwScanState \<times> shared \<Rightarrow> turn result" where
  "fetch_key env = (\<lambda>(st, sh).
     let cl = sc_cluster st; key = cs_keys cl ! cs_next_key cl;
         st1 = st\<lparr>sc_cluster := cl\<lparr>cs_next_key := cs_next_key cl + 1\<rparr>\<rparr>
     in result_bind (vfdw_scan_take_replies st1) (\<lambda>(reply, st2).
        case reply of
          None \<Rightarrow> Inr (Inr None, st2, sh)
        | Some r \<Rightarrow>
            result_bind (vfdw_scan_one_key env key r (st2, sh)) (\<lambda>(row, st3, sh1).
            Inr (case row of None \<Rightarrow> Inl () | Some s \<Rightarrow> Inr (Some s), st3, sh1))))"

definition fetch_turn :: "nat \<Rightarrow> scan_env \<Rightarrow> VfdwScanState \<times> shared \<Rightarrow> turn result option" where
  "fetch_turn fuel env = (\<lambda>(st0, sh).
     case (if sc_cur_reply st0 \<noteq> None then vfdw_scan_emit_member (se_val env) st0 else Inr (None, st0)) of
       Inl e \<Rightarrow> Some (Inl e)
     | Inr (Some row, st) \<Rightarrow> Some (Inr (Inr (Some row), st, sh))
     | Inr (None, st) \<Rightarrow>
         if cs_next_key (sc_cluster st) \<ge> length (cs_keys (sc_cluster st)) then
           (case vfdw_scan_refill fuel env st of
              None \<Rightarrow> None
            | Some (Inl e) \<Rightarrow> Some (Inl e)
            | Some (Inr (True, st1)) \<Rightarrow> Some (Inr (Inl (), st1, sh))
            | Some (Inr (False, st1)) \<Rightarrow>
                (case vfdw_scan_drain_tail (sh_wbuf sh) (sc_overlay st1) (sh_overlay sh) of
                   (r, so, ov) \<Rightarrow> Some (Inr (Inr (map_option (se_tuple env \<circ> fst) r), st1\<lparr>sc_overlay := so\<rparr>, sh\<lparr>sh_overlay := ov\<rparr>))))
         else Some (fetch_key env (st, sh)))"

fun fetch_loop :: "nat \<Rightarrow> scan_env \<Rightarrow> VfdwScanState \<times> shared \<Rightarrow> (slot option \<times> VfdwScanState \<times> shared) result option" where
  "fetch_loop 0 env s = None"
| "fetch_loop (Suc n) env s =
     (case fetch_turn n env s of
        None \<Rightarrow> None
      | Some (Inl e) \<Rightarrow> Some (Inl e)
      | Some (Inr (Inl _, st1, sh1)) \<Rightarrow> fetch_loop n env (st1, sh1)
      | Some (Inr (Inr row, st1, sh1)) \<Rightarrow> Some (Inr (row, st1, sh1)))"

text \<open>\<open>search_next\<close> is \<open>vfdw_search_next\<close> of \<open>Search\<close>.\<close>

definition vfdw_scan_fetch ::
  "(VfdwScanState \<times> shared \<Rightarrow> (slot option \<times> VfdwScanState \<times> shared) result option) \<Rightarrow> nat \<Rightarrow> scan_env \<Rightarrow> VfdwScanState \<times> shared \<Rightarrow>
   (slot option \<times> VfdwScanState \<times> shared) result option" where
  "vfdw_scan_fetch search_next fuel env s =
     (if sc_strategy (fst s) = VFDW_SCAN_KNN then search_next s else fetch_loop fuel env s)"

section \<open>Opening, rescanning, closing\<close>

definition vfdw_scan_set_keys :: "string list \<Rightarrow> VfdwScanState \<Rightarrow> VfdwScanState" where
  "vfdw_scan_set_keys keys st = st\<lparr>sc_cluster := (sc_cluster st)\<lparr>cs_plan_keys := keys\<rparr>\<rparr>"

definition vfdw_search_adopt :: "scan_private \<Rightarrow> VfdwScanState \<Rightarrow> VfdwScanState" where
  "vfdw_search_adopt pv st =
     (let (field, metric, k) = the (pv_knn pv); terms = vfdw_filter_decode (pv_filter pv)
      in st\<lparr>sc_knn := (sc_knn st)\<lparr>kn_index := the (tm_search_index (sc_map st)), kn_field := field, kn_metric := metric, kn_k := k,
           kn_terms := terms, kn_exact := vfdw_filter_is_exact terms\<rparr>\<rparr>)"

definition vfdw_scan_adopt_plan :: "scan_private \<Rightarrow> VfdwScanState \<Rightarrow> VfdwScanState" where
  "vfdw_scan_adopt_plan pv st0 =
     (let st = st0\<lparr>sc_strategy := pv_strategy pv\<rparr> in
      if pv_strategy pv = VFDW_SCAN_KNN then vfdw_search_adopt pv st
      else if pv_strategy pv = VFDW_SCAN_KEY_PARAM then st
      else (if pv_strategy pv \<noteq> VFDW_SCAN_KEYSPACE then vfdw_scan_set_keys (pv_keys pv) st else st)\<lparr>sc_pattern := pv_pattern pv\<rparr>)"

definition zero_cluster_scan :: cluster_scan where
  "zero_cluster_scan = \<lparr>cs_fanout = False, cs_cur_node = 0, cs_nodes = [], cs_pass_map = None, cs_redirect_passes = 0,
     cs_plan_keys = [], cs_keys = [], cs_next_key = 0, cs_redirected = [], cs_retry_pass = False, cs_started = False, cs_cursor = None\<rparr>"

text \<open>
  \<open>vfdw_scan_state_create\<close> after the connection has been leased, its database selected and its expiry
  commands asked for (\<open>Conn\<close>, \<open>vfdw_ttl_require\<close>): \<open>w\<close> is its stream, \<open>is_cluster\<close> whether it speaks to a cluster.
\<close>

definition vfdw_scan_state_create :: "scan_env \<Rightarrow> VfdwTableMap \<Rightarrow> wire \<Rightarrow> bool \<Rightarrow> scan_overlay \<Rightarrow> VfdwScanState result" where
  "vfdw_scan_state_create env m w is_cluster so =
     result_bind (vfdw_scan_cluster_setup (se_connect env) is_cluster (se_slot_map env) zero_cluster_scan) (\<lambda>(fan, cl).
       let st = attached env fan cl
                  \<lparr>sc_map = m, sc_strategy = VFDW_SCAN_KEYSPACE, sc_batch = vfdw_batch_begin (se_pipeline env) w,
                   sc_rowctx = vfdw_row_ctx_init m, sc_cur_hlen = - 1, sc_cur_member = - 1,
                   sc_pattern = vfdw_plan_scan_pattern m None, sc_cluster = cl, sc_cur_reply = None, sc_cur_elem = 0,
                   sc_cur_key = [], sc_skipped = 0, sc_pages = 0, sc_overlay = so, sc_knn = zero_knn\<rparr>
       in Inr (case tm_singleton_key m of
                 None \<Rightarrow> st
               | Some s \<Rightarrow> vfdw_scan_set_keys [s] (st\<lparr>sc_strategy := VFDW_SCAN_SINGLETON\<rparr>)))"

definition vfdw_scan_begin :: "scan_env \<Rightarrow> VfdwTableMap \<Rightarrow> wire \<Rightarrow> bool \<Rightarrow> scan_overlay \<Rightarrow> scan_private \<Rightarrow> CommandId \<Rightarrow> VfdwScanState result" where
  "vfdw_scan_begin env m w is_cluster so pv curcid =
     result_bind (vfdw_scan_state_create env m w is_cluster so) (\<lambda>st.
       Inr (let st1 = vfdw_scan_adopt_plan pv st in st1\<lparr>sc_overlay := (sc_overlay st1)\<lparr>so_cid := curcid\<rparr>\<rparr>))"

text \<open>
  \<open>vfdw_scan_rescan\<close>: the open batch is drained and a new one begun on the same connection; \<open>param\<close> is the
  value of the join's key for the next outer row.
\<close>

definition vfdw_scan_rescan :: "scan_env \<Rightarrow> bytes option \<Rightarrow> VfdwScanState \<Rightarrow> VfdwScanState result" where
  "vfdw_scan_rescan env param st =
     result_bind (vfdw_batch_end (sc_batch st)) (\<lambda>w.
       let cl = (sc_cluster st)\<lparr>cs_cursor := None, cs_started := False, cs_keys := [], cs_next_key := 0\<rparr>;
           st1 = st\<lparr>sc_cluster := cl, sc_overlay := (vfdw_scan_seen_reset (sc_overlay st))\<lparr>so_tail := False\<rparr>,
                    sc_cur_reply := None, sc_cur_elem := 0, sc_skipped := 0, sc_pages := 0,
                    sc_batch := vfdw_batch_begin (se_pipeline env) w, sc_knn := vfdw_search_reset (sc_knn st)\<rparr>
       in Inr (if sc_strategy st1 = VFDW_SCAN_KEY_PARAM
               then vfdw_scan_set_keys (vfdw_scan_param_refresh (sc_map st1) param) st1 else st1))"

definition vfdw_scan_end :: "VfdwScanState \<Rightarrow> wire result" where
  "vfdw_scan_end st = vfdw_batch_end (sc_batch st)"

section \<open>The commands of a key\<close>

definition value_argv :: "VfdwTableMap \<Rightarrow> bytes \<Rightarrow> bytes list" where
  "value_argv m key =
     (case tm_tabletype m of
        VFDW_TABLE_HASH \<Rightarrow> if tm_hmget m then [''HMGET'', key] @ request_fields (tm_cols m) else [''HGETALL'', key]
      | VFDW_TABLE_LIST \<Rightarrow> [''LRANGE'', key, ''0'', ''-1'']
      | VFDW_TABLE_SET \<Rightarrow> [''SMEMBERS'', key]
      | VFDW_TABLE_ZSET \<Rightarrow> [''ZRANGE'', key, ''0'', ''-1''] @ (if tm_legacy_value m then [] else [''WITHSCORES''])
      | _ \<Rightarrow> [''GET'', key])"

definition ttl_argv :: "VfdwTableMap \<Rightarrow> bytes \<Rightarrow> bytes list" where
  "ttl_argv m key = [''HPTTL'', key, ''FIELDS'', dec_int (int (tm_nttl m))] @ map (the \<circ> col_field) (of_kind VFDW_COL_TTL (tm_cols m))"

definition member_argv :: "VfdwTableMap \<Rightarrow> bytes \<Rightarrow> bytes list" where
  "member_argv m key = [''SISMEMBER'', the (tm_keyset m), key]"

definition key_commands :: "VfdwTableMap \<Rightarrow> VfdwScanStrategy \<Rightarrow> bytes \<Rightarrow> bytes list list" where
  "key_commands m strategy key =
     (if vfdw_scan_asks_membership m strategy then [member_argv m key] else []) @
     (if tm_hmget m then [[''HLEN'', key]] else []) @
     (if tm_nttl m > 0 then [ttl_argv m key] else []) @ [value_argv m key]"

lemma cmd_argv_add [simp]: "cmd_argv (vfdw_cmd_add_bytes v c) = cmd_argv c @ [v]"
  by (simp add: vfdw_cmd_add_bytes_def vfdw_cmd_ensure_def Let_def)

lemma cmd_argv_cstr [simp]: "NUL \<notin> set v \<Longrightarrow> cmd_argv (vfdw_cmd_add_cstr v c) = cmd_argv c @ [v]"
  by (auto simp: vfdw_cmd_add_cstr_def cstr_def takeWhile_eq_all_conv)

lemma cmd_argv_int [simp]: "cmd_argv (vfdw_cmd_add_int i c) = cmd_argv c @ [dec_int i]"
  by (simp add: vfdw_cmd_add_int_def)

lemma cmd_argv_reset [simp]: "cmd_argv (vfdw_cmd_reset c) = []"
  by (simp add: vfdw_cmd_reset_def)

lemma cmd_argv_fields [simp]:
  "cmd_argv (foldl (\<lambda>c col. vfdw_cmd_add_bytes (f col) c) c cols) = cmd_argv c @ map f cols"
  by (induction cols arbitrary: c) simp_all

lemma commands_argv:
  "cmd_argv (sismember_command m key c) = member_argv m key"
  "cmd_argv (hlen_command key c) = [''HLEN'', key]"
  "cmd_argv (vfdw_ttl_command m key c) = ttl_argv m key"
  "cmd_argv (vfdw_scan_value_command m key c) = value_argv m key"
  by (simp_all add: sismember_command_def hlen_command_def vfdw_ttl_command_def vfdw_scan_value_command_def
      vfdw_scan_hash_command_def member_argv_def ttl_argv_def value_argv_def request_fields_def NUL_def Let_def comp_def
      split: VfdwTableType.split)

section \<open>Replies arrive in step with the keys\<close>

lemma queue_command_ready:
  assumes "\<And>c. se_append env c = Inr ()" and "ready b n rs"
  shows "\<exists>c' b'. queue_command env wanted build (c, b) = Inr (c', b') \<and> ready b' (n + of_bool wanted) rs"
  using assms(2) br.enq_ready [OF assms(2)] by (auto simp: queue_command_def assms(1) Let_def)

lemma queue_key_ready:
  assumes a: "\<And>c. se_append env c = Inr ()" and "ready b n rs"
  shows "\<exists>c' b'. queue_key env m strategy key (c, b) = Inr (c', b') \<and> ready b' (n + length (key_commands m strategy key)) rs"
proof -
  obtain c1 b1 where 1: "queue_command env (vfdw_scan_asks_membership m strategy) (sismember_command m key) (c, b) = Inr (c1, b1)"
    and r1: "ready b1 (n + of_bool (vfdw_scan_asks_membership m strategy)) rs" using queue_command_ready [OF a assms(2)] by blast
  obtain c2 b2 where 2: "queue_command env (tm_hmget m) (hlen_command key) (c1, b1) = Inr (c2, b2)"
    and r2: "ready b2 (n + of_bool (vfdw_scan_asks_membership m strategy) + of_bool (tm_hmget m)) rs"
    using queue_command_ready [OF a r1] by blast
  obtain c3 b3 where 3: "queue_command env (tm_nttl m > 0) (vfdw_ttl_command m key) (c2, b2) = Inr (c3, b3)"
    and r3: "ready b3 (n + of_bool (vfdw_scan_asks_membership m strategy) + of_bool (tm_hmget m) + of_bool (tm_nttl m > 0)) rs"
    using queue_command_ready [OF a r2] by blast
  obtain c4 b4 where 4: "queue_command env True (vfdw_scan_value_command m key) (c3, b3) = Inr (c4, b4)"
    and r4: "ready b4 (n + of_bool (vfdw_scan_asks_membership m strategy) + of_bool (tm_hmget m) + of_bool (tm_nttl m > 0) + of_bool True) rs"
    using queue_command_ready [OF a r3] by blast
  have len: "n + of_bool (vfdw_scan_asks_membership m strategy) + of_bool (tm_hmget m) + of_bool (tm_nttl m > 0) + of_bool True =
      n + length (key_commands m strategy key)" by (simp add: key_commands_def)
  have "ready b4 (n + length (key_commands m strategy key)) rs" using r4 unfolding len .
  then show ?thesis using 1 2 3 4 by (simp add: queue_key_def)
qed

lemma queue_keys_ready:
  assumes a: "\<And>c. se_append env c = Inr ()"
  shows "ready b n rs \<Longrightarrow> \<exists>c' b'. result_fold (queue_key env m strategy) keys (c, b) = Inr (c', b') \<and>
    ready b' (n + length (concat (map (key_commands m strategy) keys))) rs"
proof (induction keys arbitrary: b n c)
  case (Cons k ks)
  obtain c1 b1 where q: "queue_key env m strategy k (c, b) = Inr (c1, b1)"
    and r: "ready b1 (n + length (key_commands m strategy k)) rs" using queue_key_ready [OF a Cons.prems] by blast
  obtain c2 b2 where "result_fold (queue_key env m strategy) ks (c1, b1) = Inr (c2, b2)"
    and "ready b2 (n + length (key_commands m strategy k) + length (concat (map (key_commands m strategy) ks))) rs"
    using Cons.IH [OF r] by blast
  then show ?case using q by (simp add: add.assoc)
qed simp

text \<open>What the replies to a key's own commands say.\<close>

definition key_member :: "(bytes list \<Rightarrow> valkeyReply) \<Rightarrow> VfdwTableMap \<Rightarrow> VfdwScanStrategy \<Rightarrow> bytes \<Rightarrow> int" where
  "key_member answer m strategy key =
     (let r = answer (member_argv m key) in
      if vfdw_scan_asks_membership m strategy \<and> rp_type r = VALKEY_REPLY_INTEGER
      then (if rp_integer r \<noteq> 0 then 1 else 0) else - 1)"

definition key_hlen :: "(bytes list \<Rightarrow> valkeyReply) \<Rightarrow> VfdwTableMap \<Rightarrow> bytes \<Rightarrow> int" where
  "key_hlen answer m key =
     (let r = answer [''HLEN'', key] in if tm_hmget m \<and> rp_type r = VALKEY_REPLY_INTEGER then rp_integer r else - 1)"

definition key_ctx :: "(bytes list \<Rightarrow> valkeyReply) \<Rightarrow> VfdwTableMap \<Rightarrow> bytes \<Rightarrow> VfdwRowCtx \<Rightarrow> VfdwRowCtx" where
  "key_ctx answer m key ctx =
     (if tm_nttl m > 0 then ctx\<lparr>rc_ttl_ms := Some (vfdw_ttl_take m (answer (ttl_argv m key)))\<rparr> else ctx)"

definition at_key :: "(bytes list \<Rightarrow> valkeyReply) \<Rightarrow> bytes \<Rightarrow> VfdwBatch \<Rightarrow> VfdwScanState \<Rightarrow> VfdwScanState" where
  "at_key answer key b st =
     st\<lparr>sc_batch := b, sc_cur_member := key_member answer (sc_map st) (sc_strategy st) key,
        sc_cur_hlen := key_hlen answer (sc_map st) key, sc_rowctx := key_ctx answer (sc_map st) key (sc_rowctx st)\<rparr>"

lemma take_replies_at_key:
  assumes r: "ready (sc_batch st) (length (key_commands (sc_map st) (sc_strategy st) key) + n)
      (map answer (key_commands (sc_map st) (sc_strategy st) key @ ds))"
  shows "\<exists>b. vfdw_scan_take_replies st = Inr (Some (answer (value_argv (sc_map st) key)), at_key answer key b st) \<and>
    ready b n (map answer ds)"
proof -
  let ?m = "sc_map st" and ?s = "sc_strategy st"
  let ?ask = "vfdw_scan_asks_membership ?m ?s"
  let ?c3 = "[value_argv ?m key]"
  let ?c2 = "(if tm_nttl ?m > 0 then [ttl_argv ?m key] else []) @ ?c3"
  let ?c1 = "(if tm_hmget ?m then [[''HLEN'', key]] else []) @ ?c2"
  have kc: "key_commands ?m ?s key = (if ?ask then [member_argv ?m key] else []) @ ?c1" by (simp add: key_commands_def)
  obtain b1 where 1: "take_member st = Inr (st\<lparr>sc_batch := b1, sc_cur_member := key_member answer ?m ?s key\<rparr>)"
    and r1: "ready b1 (length ?c1 + n) (map answer (?c1 @ ds))"
  proof (cases ?ask)
    case True
    obtain b1 where "vfdw_batch_next (sc_batch st) = Inr (Some (answer (member_argv ?m key)), b1)"
      "ready b1 (length ?c1 + n) (map answer (?c1 @ ds))"
      by (rule br.next_answer [OF r, of "member_argv ?m key" ?c1]) (use True in \<open>simp_all add: kc\<close>)
    moreover from this(1) have "take_member st = Inr (st\<lparr>sc_batch := b1, sc_cur_member := key_member answer ?m ?s key\<rparr>)"
      using True by (cases st) (simp add: take_member_def scan_batch_next_def key_member_def Let_def)
    ultimately show ?thesis using that by blast
  next
    case False
    then have "take_member st = Inr (st\<lparr>sc_batch := sc_batch st, sc_cur_member := key_member answer ?m ?s key\<rparr>)"
      by (simp add: take_member_def key_member_def)
    then show ?thesis by (rule that) (use r False in \<open>simp add: kc\<close>)
  qed
  let ?st1 = "st\<lparr>sc_batch := b1, sc_cur_member := key_member answer ?m ?s key\<rparr>"
  obtain b2 where 2: "take_hlen ?st1 = Inr (?st1\<lparr>sc_batch := b2, sc_cur_hlen := key_hlen answer ?m key\<rparr>)"
    and r2: "ready b2 (length ?c2 + n) (map answer (?c2 @ ds))"
  proof (cases "tm_hmget ?m")
    case True
    obtain b2 where "vfdw_batch_next b1 = Inr (Some (answer [''HLEN'', key]), b2)" "ready b2 (length ?c2 + n) (map answer (?c2 @ ds))"
      by (rule br.next_answer [OF r1, of "[''HLEN'', key]" ?c2]) (use True in simp_all)
    moreover from this(1) have "take_hlen ?st1 = Inr (?st1\<lparr>sc_batch := b2, sc_cur_hlen := key_hlen answer ?m key\<rparr>)"
      using True by (cases st) (simp add: take_hlen_def scan_batch_next_def key_hlen_def Let_def)
    ultimately show ?thesis using that by blast
  next
    case False
    then have "take_hlen ?st1 = Inr (?st1\<lparr>sc_batch := b1, sc_cur_hlen := key_hlen answer ?m key\<rparr>)"
      by (simp add: take_hlen_def key_hlen_def)
    then show ?thesis by (rule that) (use r1 False in simp)
  qed
  let ?st2 = "?st1\<lparr>sc_batch := b2, sc_cur_hlen := key_hlen answer ?m key\<rparr>"
  obtain b3 where 3: "take_ttl ?st2 = Inr (at_key answer key b3 st)" and r3: "ready b3 (length ?c3 + n) (map answer (?c3 @ ds))"
  proof (cases "tm_nttl ?m > 0")
    case True
    obtain b3 where "vfdw_batch_next b2 = Inr (Some (answer (ttl_argv ?m key)), b3)" "ready b3 (length ?c3 + n) (map answer (?c3 @ ds))"
      by (rule br.next_answer [OF r2, of "ttl_argv ?m key" ?c3]) (use True in simp_all)
    moreover from this(1) have "take_ttl ?st2 = Inr (at_key answer key b3 st)"
      using True by (cases st) (simp add: take_ttl_def scan_batch_next_def at_key_def key_ctx_def)
    ultimately show ?thesis using that by blast
  next
    case False
    then have "take_ttl ?st2 = Inr (at_key answer key b2 st)" by (cases st) (simp add: take_ttl_def at_key_def key_ctx_def)
    then show ?thesis by (rule that) (use r2 False in simp)
  qed
  obtain b4 where "vfdw_batch_next b3 = Inr (Some (answer (value_argv ?m key)), b4)" "ready b4 n (map answer ds)"
    by (rule br.next_answer [OF r3, of "value_argv ?m key" "[]"]) simp_all
  then show ?thesis using 1 2 3
    by (intro exI [of _ b4]) (simp add: vfdw_scan_take_replies_def scan_batch_next_def at_key_def)
qed

section \<open>The rows of a page\<close>

text \<open>What a key contributes, by itself: the specification the loop is compared with.\<close>

fun member_rows :: "nat \<Rightarrow> val_env \<Rightarrow> VfdwTableMap \<Rightarrow> VfdwRowCtx \<Rightarrow> bytes \<Rightarrow> valkeyReply \<Rightarrow> nat \<Rightarrow> slot list result" where
  "member_rows 0 env m ctx key reply i = Inr []"
| "member_rows (Suc n) env m ctx key reply i =
     (if i \<ge> length (rp_element reply) then Inr []
      else result_bind (vfdw_scan_member_stride (tm_tabletype m) reply) (\<lambda>stride.
           result_bind (vfdw_scan_fill env (ctx\<lparr>rc_cur_elem := i\<rparr>) key reply) (\<lambda>row.
           result_bind (member_rows n env m ctx key reply (i + stride)) (\<lambda>rows. Inr (row # rows)))))"

definition key_rows ::
  "val_env \<Rightarrow> VfdwTableMap \<Rightarrow> VfdwScanStrategy \<Rightarrow> VfdwRowCtx \<Rightarrow> (bytes list \<Rightarrow> valkeyReply) \<Rightarrow> bytes \<Rightarrow> slot list result" where
  "key_rows env m strategy ctx answer key =
     (let reply = answer (value_argv m key); ctx1 = key_ctx answer m key ctx in
      if key_member answer m strategy key = 0 \<or> vfdw_scan_reply_is_skippable reply \<or>
         vfdw_scan_reply_is_absent m (key_hlen answer m key) reply then Inr []
      else result_bind (vfdw_scan_expect_value m reply) (\<lambda>_.
        if vfdw_scan_is_multirow m then member_rows (length (rp_element reply)) env m ctx1 key reply 0
        else result_bind (vfdw_scan_fill env ctx1 key reply) (\<lambda>row. Inr [row])))"

definition used_up :: "VfdwScanState \<Rightarrow> bool" where
  "used_up st \<longleftrightarrow> (case sc_cur_reply st of None \<Rightarrow> True | Some reply \<Rightarrow> sc_cur_elem st \<ge> length (rp_element reply))"

definition page_done :: "VfdwScanState \<Rightarrow> bool" where
  "page_done st \<longleftrightarrow> used_up st \<and> cs_next_key (sc_cluster st) \<ge> length (cs_keys (sc_cluster st))"

text \<open>Turns of the fetch loop inside a page, and the rows they return.\<close>

inductive emits :: "scan_env \<Rightarrow> VfdwScanState \<times> shared \<Rightarrow> slot list \<Rightarrow> VfdwScanState \<times> shared \<Rightarrow> bool" for env where
  nothing: "emits env s [] s"
| emit: "\<not> page_done st \<Longrightarrow> fetch_turn n env (st, sh) = Some (Inr (Inr (Some row), s1)) \<Longrightarrow> emits env s1 rows s2 \<Longrightarrow>
    emits env (st, sh) (row # rows) s2"
| skip: "\<not> page_done st \<Longrightarrow> fetch_turn n env (st, sh) = Some (Inr (Inl (), s1)) \<Longrightarrow> emits env s1 rows s2 \<Longrightarrow>
    emits env (st, sh) rows s2"

lemma emits_append: "emits env s xs t \<Longrightarrow> emits env t ys u \<Longrightarrow> emits env s (xs @ ys) u"
  by (induction rule: emits.induct) (auto intro: emits.intros)

lemma stride_pos: "vfdw_scan_member_stride ty reply = Inr k \<Longrightarrow> 0 < k"
  by (auto simp: vfdw_scan_member_stride_def result_bind_Inr_iff split: if_splits)

lemma member_loop:
  "member_rows n (se_val env) (sc_map st) ctx (sc_cur_key st) reply (sc_cur_elem st) = Inr rows \<Longrightarrow>
   sc_cur_reply st = Some reply \<Longrightarrow> length (rp_element reply) \<le> n + sc_cur_elem st \<Longrightarrow>
   \<forall>i. (sc_rowctx st)\<lparr>rc_cur_elem := i\<rparr> = ctx\<lparr>rc_cur_elem := i\<rparr> \<Longrightarrow>
   \<exists>e c. emits env (st, sh) rows (st\<lparr>sc_rowctx := (sc_rowctx st)\<lparr>rc_cur_elem := c\<rparr>, sc_cur_elem := e\<rparr>, sh) \<and>
     length (rp_element reply) \<le> e"
proof (induction n arbitrary: st rows)
  case 0
  have "st\<lparr>sc_rowctx := (sc_rowctx st)\<lparr>rc_cur_elem := rc_cur_elem (sc_rowctx st)\<rparr>, sc_cur_elem := sc_cur_elem st\<rparr> = st" by simp
  then show ?case using 0 emits.nothing by (metis add_0 member_rows.simps(1) sum.inject(2))
next
  case (Suc n)
  show ?case
  proof (cases "sc_cur_elem st \<ge> length (rp_element reply)")
    case True
    have "st\<lparr>sc_rowctx := (sc_rowctx st)\<lparr>rc_cur_elem := rc_cur_elem (sc_rowctx st)\<rparr>, sc_cur_elem := sc_cur_elem st\<rparr> = st" by simp
    moreover have "rows = []" using Suc.prems(1) True by simp
    ultimately show ?thesis using True emits.nothing by metis
  next
    case False
    obtain k row rows' where k: "vfdw_scan_member_stride (tm_tabletype (sc_map st)) reply = Inr k"
      and row: "vfdw_scan_fill (se_val env) (ctx\<lparr>rc_cur_elem := sc_cur_elem st\<rparr>) (sc_cur_key st) reply = Inr row"
      and rest: "member_rows n (se_val env) (sc_map st) ctx (sc_cur_key st) reply (sc_cur_elem st + k) = Inr rows'"
      and rows: "rows = row # rows'" using Suc.prems(1) False by (auto simp: result_bind_Inr_iff)
    let ?st1 = "st\<lparr>sc_rowctx := (sc_rowctx st)\<lparr>rc_cur_elem := sc_cur_elem st\<rparr>, sc_cur_elem := sc_cur_elem st + k\<rparr>"
    have kpos: "0 < k" by (rule stride_pos [OF k])
    have em: "vfdw_scan_emit_member (se_val env) st = Inr (Some row, ?st1)"
      using False Suc.prems(2,4) k row by (simp add: vfdw_scan_emit_member_def)
    have turn: "fetch_turn 0 env (st, sh) = Some (Inr (Inr (Some row), ?st1, sh))"
      using em Suc.prems(2) by (simp add: fetch_turn_def)
    have nd: "\<not> page_done st" using False Suc.prems(2) by (simp add: page_done_def used_up_def)
    have "\<exists>e c. emits env (?st1, sh) rows' (?st1\<lparr>sc_rowctx := (sc_rowctx ?st1)\<lparr>rc_cur_elem := c\<rparr>, sc_cur_elem := e\<rparr>, sh) \<and>
        length (rp_element reply) \<le> e"
      by (rule Suc.IH) (use rest Suc.prems kpos in simp_all)
    then obtain e c where run: "emits env (?st1, sh) rows' (st\<lparr>sc_rowctx := (sc_rowctx st)\<lparr>rc_cur_elem := c\<rparr>, sc_cur_elem := e\<rparr>, sh)"
      and le: "length (rp_element reply) \<le> e" by auto
    show ?thesis unfolding rows using emits.emit [OF nd turn run] le by blast
  qed
qed

definition ctx_like :: "VfdwTableMap \<Rightarrow> VfdwRowCtx \<Rightarrow> VfdwRowCtx \<Rightarrow> bool" where
  "ctx_like m ctx ctx0 \<longleftrightarrow> rc_map ctx = rc_map ctx0 \<and> rc_infuncs ctx = rc_infuncs ctx0 \<and>
     (tm_nttl m = 0 \<longrightarrow> rc_ttl_ms ctx = rc_ttl_ms ctx0) \<and> (\<not> vfdw_scan_is_multirow m \<longrightarrow> rc_cur_elem ctx = rc_cur_elem ctx0)"

lemma ctx_like_key:
  assumes "ctx_like m ctx ctx0"
  shows "(key_ctx answer m key ctx)\<lparr>rc_cur_elem := i\<rparr> = (key_ctx answer m key ctx0)\<lparr>rc_cur_elem := i\<rparr>"
    and "\<not> vfdw_scan_is_multirow m \<Longrightarrow> key_ctx answer m key ctx = key_ctx answer m key ctx0"
    and "ctx_like m (key_ctx answer m key ctx) ctx0"
    and "vfdw_scan_is_multirow m \<Longrightarrow> ctx_like m ((key_ctx answer m key ctx)\<lparr>rc_cur_elem := c\<rparr>) ctx0"
  using assms by (cases ctx; cases ctx0; auto simp: ctx_like_def key_ctx_def)+

text \<open>Where the loop stands between two keys.\<close>

definition before_key ::
  "VfdwTableMap \<Rightarrow> VfdwScanStrategy \<Rightarrow> VfdwRowCtx \<Rightarrow> (bytes list \<Rightarrow> valkeyReply) \<Rightarrow> bytes list \<Rightarrow> nat \<Rightarrow> VfdwScanState \<times> shared \<Rightarrow> bool" where
  "before_key m strategy ctx0 answer keys j = (\<lambda>(st, sh).
     sc_map st = m \<and> sc_strategy st = strategy \<and> cs_keys (sc_cluster st) = keys \<and> cs_next_key (sc_cluster st) = j \<and> used_up st \<and>
     ctx_like m (sc_rowctx st) ctx0 \<and> \<not> vfdw_overlay_active (sh_wbuf sh) \<and>
     ready (sc_batch st) (length (concat (map (key_commands m strategy) (drop j keys))))
       (map answer (concat (map (key_commands m strategy) (drop j keys)))))"

lemma fetch_key_turn:
  assumes "used_up st" and "cs_next_key (sc_cluster st) < length (cs_keys (sc_cluster st))"
  shows "fetch_turn n env (st, sh) = Some (fetch_key env (st\<lparr>sc_cur_reply := None\<rparr>, sh))"
proof (cases "sc_cur_reply st")
  case None
  then have same: "st\<lparr>sc_cur_reply := None\<rparr> = st" by (cases st) simp
  show ?thesis unfolding same using None assms(2) by (simp add: fetch_turn_def)
next
  case (Some reply)
  then have "vfdw_scan_emit_member (se_val env) st = Inr (None, st\<lparr>sc_cur_reply := None\<rparr>)"
    using assms(1) by (simp add: used_up_def vfdw_scan_emit_member_def)
  then show ?thesis using Some assms(2) by (simp add: fetch_turn_def)
qed

lemma one_key_passes:
  assumes "\<not> vfdw_overlay_active (sh_wbuf sh)"
  shows "\<exists>cl maps. vfdw_scan_one_key env key reply (st, sh) =
      (let st2 = st\<lparr>sc_cluster := cl\<rparr>; sh2 = sh\<lparr>sh_maps := maps\<rparr> in
       if vfdw_scan_produces_nothing st reply then Inr (None, st2\<lparr>sc_skipped := sc_skipped st + 1\<rparr>, sh2)
       else result_bind (vfdw_scan_expect_value (sc_map st) reply) (\<lambda>_.
         if vfdw_scan_is_multirow (sc_map st) then Inr (None, vfdw_scan_take_collection key reply st2, sh2)
         else result_bind (vfdw_scan_fill (se_val env) (sc_rowctx st) key reply) (\<lambda>row. Inr (Some row, st2, sh2)))) \<and>
      cs_keys cl = cs_keys (sc_cluster st) \<and> cs_next_key cl = cs_next_key (sc_cluster st)"
proof -
  have ov: "vfdw_scan_apply_overlay (sh_wbuf sh) key (sc_overlay st) (sh_overlay sh) = ((VFDW_OVL_PASS, None), sc_overlay st, sh_overlay sh)"
    using assms by (simp add: vfdw_scan_apply_overlay_def)
  obtain cl maps where nr: "vfdw_scan_note_redirect env reply key (st, sh_maps sh) = (st\<lparr>sc_cluster := cl\<rparr>, maps)"
    and cl: "cs_keys cl = cs_keys (sc_cluster st)" "cs_next_key cl = cs_next_key (sc_cluster st)"
  proof (cases "vfdw_cluster_is_redirect (Some reply)")
    case True
    then show ?thesis using that by (simp add: vfdw_scan_note_redirect_def vfdw_scan_redirected_def)
  next
    case False
    then have "vfdw_scan_note_redirect env reply key (st, sh_maps sh) = (st\<lparr>sc_cluster := sc_cluster st\<rparr>, sh_maps sh)"
      by (simp add: vfdw_scan_note_redirect_def)
    then show ?thesis by (rule that) simp_all
  qed
  have same: "st\<lparr>sc_overlay := sc_overlay st\<rparr> = st" "sh\<lparr>sh_overlay := sh_overlay sh\<rparr> = sh" by simp_all
  show ?thesis
    by (rule exI [of _ cl], rule exI [of _ maps])
       (simp add: vfdw_scan_one_key_def ov same nr cl vfdw_scan_produces_nothing_def Let_def)
qed

lemma used_up_none: "used_up (st\<lparr>sc_cur_reply := None\<rparr>)"
  by (simp add: used_up_def)

lemma key_run:
  assumes at: "before_key m strategy ctx0 answer keys j (st, sh)" and j: "j < length keys"
    and rows: "key_rows (se_val env) m strategy ctx0 answer (keys ! j) = Inr rows"
  shows "\<exists>s'. emits env (st, sh) rows s' \<and> before_key m strategy ctx0 answer keys (Suc j) s'"
proof -
  let ?key = "keys ! j" and ?reply = "answer (value_argv m (keys ! j))"
  let ?rest = "concat (map (key_commands m strategy) (drop (Suc j) keys))"
  from at have st: "sc_map st = m" "sc_strategy st = strategy" "cs_keys (sc_cluster st) = keys" "cs_next_key (sc_cluster st) = j" "used_up st"
    and like: "ctx_like m (sc_rowctx st) ctx0" and off: "\<not> vfdw_overlay_active (sh_wbuf sh)"
    and rd: "ready (sc_batch st) (length (key_commands m strategy ?key) + length ?rest) (map answer (key_commands m strategy ?key @ ?rest))"
    by (simp_all add: before_key_def Cons_nth_drop_Suc [OF j, symmetric])
  let ?st0 = "st\<lparr>sc_cur_reply := None, sc_cluster := (sc_cluster st)\<lparr>cs_next_key := Suc j\<rparr>\<rparr>"
  obtain b where tr: "vfdw_scan_take_replies ?st0 = Inr (Some ?reply, at_key answer ?key b ?st0)" and rb: "ready b (length ?rest) (map answer ?rest)"
    using take_replies_at_key [of ?st0 ?key "length ?rest" answer ?rest] rd st by auto
  let ?st1 = "at_key answer ?key b ?st0"
  have st1: "sc_map ?st1 = m" "sc_strategy ?st1 = strategy" "sc_rowctx ?st1 = key_ctx answer m ?key (sc_rowctx st)" "sc_batch ?st1 = b"
    "sc_cur_member ?st1 = key_member answer m strategy ?key" "sc_cur_hlen ?st1 = key_hlen answer m ?key" "sc_cur_reply ?st1 = None"
    "cs_keys (sc_cluster ?st1) = keys" "cs_next_key (sc_cluster ?st1) = Suc j" using st by (simp_all add: at_key_def)
  obtain cl maps where ok: "vfdw_scan_one_key env ?key ?reply (?st1, sh) =
      (let st2 = ?st1\<lparr>sc_cluster := cl\<rparr>; sh2 = sh\<lparr>sh_maps := maps\<rparr> in
       if vfdw_scan_produces_nothing ?st1 ?reply then Inr (None, st2\<lparr>sc_skipped := sc_skipped ?st1 + 1\<rparr>, sh2)
       else result_bind (vfdw_scan_expect_value (sc_map ?st1) ?reply) (\<lambda>_.
         if vfdw_scan_is_multirow (sc_map ?st1) then Inr (None, vfdw_scan_take_collection ?key ?reply st2, sh2)
         else result_bind (vfdw_scan_fill (se_val env) (sc_rowctx ?st1) ?key ?reply) (\<lambda>row. Inr (Some row, st2, sh2))))"
    and cl: "cs_keys cl = keys" "cs_next_key cl = Suc j"
    using one_key_passes [OF off] st1(8,9) by metis
  let ?st2 = "?st1\<lparr>sc_cluster := cl\<rparr>" and ?sh2 = "sh\<lparr>sh_maps := maps\<rparr>"
  have nd: "\<not> page_done st" using j st by (simp add: page_done_def)
  have turn: "fetch_turn 0 env (st, sh) = Some (result_bind (vfdw_scan_one_key env ?key ?reply (?st1, sh)) (\<lambda>(row, st3, sh1).
      Inr (case row of None \<Rightarrow> Inl () | Some s \<Rightarrow> Inr (Some s), st3, sh1)))"
    using fetch_key_turn [of st] j st tr by (simp add: fetch_key_def)
  have next2: "before_key m strategy ctx0 answer keys (Suc j) (?st2\<lparr>sc_skipped := x\<rparr>, ?sh2)" for x
    using rb off ctx_like_key(3) [OF like] by (simp add: before_key_def st1 cl used_up_def)
  show ?thesis
  proof (cases "vfdw_scan_produces_nothing ?st1 ?reply")
    case True
    then have "rows = []" using rows by (simp add: key_rows_def vfdw_scan_produces_nothing_def st1)
    moreover have "emits env (st, sh) [] (?st2\<lparr>sc_skipped := sc_skipped ?st1 + 1\<rparr>, ?sh2)"
      by (rule emits.skip [OF nd _ emits.nothing]) (use turn ok True in simp)
    ultimately show ?thesis using next2 by blast
  next
    case np: False
    have ev: "vfdw_scan_expect_value m ?reply = Inr ()"
      and rw: "(if vfdw_scan_is_multirow m then member_rows (length (rp_element ?reply)) (se_val env) m (key_ctx answer m ?key ctx0) ?key ?reply 0
        else result_bind (vfdw_scan_fill (se_val env) (key_ctx answer m ?key ctx0) ?key ?reply) (\<lambda>row. Inr [row])) = Inr rows"
      using rows np by (auto simp: key_rows_def vfdw_scan_produces_nothing_def st1 result_bind_Inr_iff Let_def)
    show ?thesis
    proof (cases "vfdw_scan_is_multirow m")
      case multi: True
      let ?st3 = "vfdw_scan_take_collection ?key ?reply ?st2"
      have "fetch_turn 0 env (st, sh) = Some (Inr (Inl (), ?st3, ?sh2))" using turn ok np ev multi by (simp add: st1)
      note step = emits.skip [OF nd this]
      obtain e c where run: "emits env (?st3, ?sh2) rows (?st3\<lparr>sc_rowctx := (sc_rowctx ?st3)\<lparr>rc_cur_elem := c\<rparr>, sc_cur_elem := e\<rparr>, ?sh2)"
        and e: "length (rp_element ?reply) \<le> e"
        using member_loop [of "length (rp_element ?reply)" env ?st3 "key_ctx answer m ?key ctx0" ?reply rows ?sh2]
          rw multi ctx_like_key(1) [OF like] by (auto simp: vfdw_scan_take_collection_def st1)
      have "before_key m strategy ctx0 answer keys (Suc j)
          (?st3\<lparr>sc_rowctx := (sc_rowctx ?st3)\<lparr>rc_cur_elem := c\<rparr>, sc_cur_elem := e\<rparr>, ?sh2)"
        using rb off e ctx_like_key(4) [OF like multi] by (simp add: before_key_def vfdw_scan_take_collection_def st1 cl used_up_def)
      then show ?thesis using step [OF run] by blast
    next
      case single: False
      obtain row where fill: "vfdw_scan_fill (se_val env) (key_ctx answer m ?key (sc_rowctx st)) ?key ?reply = Inr row" and r: "rows = [row]"
        using rw single ctx_like_key(2) [OF like single] by (auto simp: result_bind_Inr_iff)
      have "fetch_turn 0 env (st, sh) = Some (Inr (Inr (Some row), ?st2, ?sh2))" using turn ok np ev single fill by (simp add: st1)
      then have "emits env (st, sh) rows (?st2, ?sh2)" unfolding r by (rule emits.emit [OF nd _ emits.nothing])
      moreover have "?st2 = ?st2\<lparr>sc_skipped := sc_skipped ?st2\<rparr>" by simp
      ultimately show ?thesis using next2 by metis
    qed
  qed
qed

lemma keys_run:
  assumes "before_key m strategy ctx0 answer keys j s" and "j \<le> length keys"
    and "\<forall>k \<in> set keys. key_rows (se_val env) m strategy ctx0 answer k = Inr (rows k)"
  shows "\<exists>s'. emits env s (concat (map rows (drop j keys))) s' \<and> before_key m strategy ctx0 answer keys (length keys) s'"
  using assms
proof (induction "length keys - j" arbitrary: j s)
  case 0
  then have "drop j keys = []" "j = length keys" by simp_all
  moreover have "emits env s [] s" by (rule emits.nothing)
  ultimately show ?case using 0(2) by (intro exI [of _ s]) simp
next
  case (Suc n)
  then have j: "j < length keys" by simp
  obtain st sh where s: "s = (st, sh)" by (cases s)
  have "key_rows (se_val env) m strategy ctx0 answer (keys ! j) = Inr (rows (keys ! j))" using Suc.prems(3) j by simp
  then obtain s1 where run: "emits env s (rows (keys ! j)) s1" and b1: "before_key m strategy ctx0 answer keys (Suc j) s1"
    using key_run [OF Suc.prems(1) [unfolded s] j] unfolding s by blast
  have n: "n = length keys - Suc j" using Suc.hyps(2) by simp
  have "Suc j \<le> length keys" using j by simp
  from Suc.hyps(1) [OF n b1 this Suc.prems(3)] obtain s2 where tail: "emits env s1 (concat (map rows (drop (Suc j) keys))) s2"
    and b2: "before_key m strategy ctx0 answer keys (length keys) s2" by blast
  have "concat (map rows (drop j keys)) = rows (keys ! j) @ concat (map rows (drop (Suc j) keys))"
    by (simp add: Cons_nth_drop_Suc [OF j, symmetric])
  then have "emits env s (concat (map rows (drop j keys))) s2" using emits_append [OF run tail] by simp
  then show ?case using b2 by (intro exI conjI)
qed

section \<open>Fetching a page\<close>

lemma turn_fuel: "\<not> page_done st \<Longrightarrow> fetch_turn n env (st, sh) = fetch_turn k env (st, sh)"
proof (cases "used_up st")
  case True
  assume "\<not> page_done st"
  then have "cs_next_key (sc_cluster st) < length (cs_keys (sc_cluster st))" using True by (simp add: page_done_def)
  then show ?thesis by (simp add: fetch_key_turn [OF True])
next
  case False
  then obtain reply where r: "sc_cur_reply st = Some reply" "sc_cur_elem st < length (rp_element reply)"
    by (auto simp: used_up_def split: option.splits)
  then show ?thesis
    by (cases "vfdw_scan_emit_member (se_val env) st")
       (auto simp: fetch_turn_def vfdw_scan_emit_member_def result_bind_Inr_iff Let_def split: option.splits)
qed

text \<open>Successive runs of the loop of \<open>vfdw_scan_fetch\<close>, each returning a row.\<close>

inductive fetches :: "scan_env \<Rightarrow> VfdwScanState \<times> shared \<Rightarrow> slot list \<Rightarrow> VfdwScanState \<times> shared \<Rightarrow> bool" for env where
  none: "fetches env s [] s"
| one: "fetch_loop n env s = Some (Inr (Some row, s1)) \<Longrightarrow> fetches env s1 rows s2 \<Longrightarrow> fetches env s (row # rows) s2"

lemma fetch_loop_emits:
  "emits env s rows s' \<Longrightarrow> rows = row # rest \<Longrightarrow>
     \<exists>n s1. fetch_loop n env s = Some (Inr (Some row, s1)) \<and> emits env s1 rest s'"
proof (induction arbitrary: rest rule: emits.induct)
  case (emit st n sh r s1 rows s2)
  then have "fetch_loop (Suc n) env (st, sh) = Some (Inr (Some row, s1))" by (cases s1) simp
  then show ?case using emit by blast
next
  case (skip st n sh s1 rows s2)
  then obtain k s3 where "fetch_loop k env s1 = Some (Inr (Some row, s3))" and e: "emits env s3 rest s2" by blast
  moreover have "fetch_turn k env (st, sh) = Some (Inr (Inl (), s1))" using skip.hyps turn_fuel by metis
  ultimately have "fetch_loop (Suc k) env (st, sh) = Some (Inr (Some row, s3))" by (cases s1) simp
  then show ?case using e by blast
qed simp

lemma emits_fetches: "emits env s rows s' \<Longrightarrow> \<exists>s1. fetches env s rows s1 \<and> emits env s1 [] s'"
proof (induction rows arbitrary: s)
  case Nil
  then show ?case using fetches.none by blast
next
  case (Cons row rows)
  obtain n s1 where "fetch_loop n env s = Some (Inr (Some row, s1))" "emits env s1 rows s'"
    using fetch_loop_emits [OF Cons.prems refl] by blast
  then show ?case using Cons.IH fetches.one by blast
qed


text \<open>A string table with two keys, of which the server has only the first.\<close>

definition text_column :: "nat \<Rightarrow> VfdwColKind \<Rightarrow> VfdwColumn" where
  "text_column attnum kind = zero_column\<lparr>col_attnum := attnum, col_kind := kind, col_typid := 25, col_typinput := 25, col_typoutput := 25\<rparr>"

definition string_map :: VfdwTableMap where
  "string_map = (zero_map 2)\<lparr>tm_cols := [text_column 1 VFDW_COL_KEY, text_column 2 VFDW_COL_VALUE], tm_keyattno := 1, tm_valueattno := 2\<rparr>"

definition string_answer :: "bytes list \<Rightarrow> valkeyReply" where
  "string_answer argv =
     (if argv = [''GET'', ''a''] then Reply VALKEY_REPLY_STRING (Some ''1'') 0 [] else Reply VALKEY_REPLY_NIL None 0 [])"

definition string_scan :: VfdwScanState where
  "string_scan = \<lparr>sc_map = string_map, sc_strategy = VFDW_SCAN_KEYS,
     sc_batch = vfdw_batch_begin 2 (quiet_wire\<lparr>wire_read := (\<lambda>n. Inr (string_answer ([[''GET'', ''a''], [''GET'', ''b'']] ! n)))\<rparr>),
     sc_rowctx = vfdw_row_ctx_init string_map, sc_cur_hlen = - 1, sc_cur_member = - 1, sc_pattern = None,
     sc_cluster = zero_cluster_scan\<lparr>cs_plan_keys := [''a'', ''b''], cs_keys := [''a'', ''b''], cs_started := True\<rparr>,
     sc_cur_reply = None, sc_cur_elem = 0, sc_cur_key = [], sc_skipped = 0, sc_pages = 0,
     sc_overlay = \<lparr>so_relid = 2, so_cid = 0, so_seen = {}, so_tail = False, so_iter = \<lparr>it_relid = 2, it_curcid = 0, it_generation = 0, it_next = None\<rparr>\<rparr>,
     sc_knn = zero_knn\<rparr>"

definition text_env :: val_env where
  "text_env = \<lparr>ve_output = (\<lambda>_ d. Inr (vardata d)), ve_input = (\<lambda>_ b _ _. Inr (DOpaque b)), ve_domain_check = (\<lambda>_ _. Inr ()),
     ve_verifymbstr = (\<lambda>_. Inr ()), ve_float4out = (\<lambda>_. ''0''), ve_base = id,
     ve_strtod = (\<lambda>s. \<lparr>sd_used = length s, sd_erange = False, sd_value = FFinite\<rparr>)\<rparr>"

definition string_env :: scan_env where
  "string_env = \<lparr>se_val = text_env, se_append = (\<lambda>_. Inr ()), se_connect = (\<lambda>_. Inr ()), se_wire = (\<lambda>_. quiet_wire),
     se_slot_map = raise ERRCODE_INTERNAL_ERROR [], se_server = (1, 1), se_scan_count = 10, se_pipeline = 2, se_tuple = (\<lambda>_. [])\<rparr>"

definition string_shared :: shared where
  "string_shared = \<lparr>sh_wbuf = wbuf_init, sh_overlay = overlay_init, sh_maps = Map.empty\<rparr>"

lemma string_keys:
  "key_rows text_env string_map VFDW_SCAN_KEYS (vfdw_row_ctx_init string_map) string_answer ''a'' = Inr [[Some (DOpaque ''a''), Some (DOpaque ''1'')]]"
  "key_rows text_env string_map VFDW_SCAN_KEYS (vfdw_row_ctx_init string_map) string_answer ''b'' = Inr []"
  by code_simp+

lemma string_commands:
  "key_commands string_map VFDW_SCAN_KEYS k = [[''GET'', k]]"
  by (simp add: key_commands_def string_map_def zero_map_def vfdw_scan_asks_membership_def value_argv_def)


text \<open>
  A rescan does not start from the beginning. It clears the cursor and the page but keeps the node the scan
  stands on, the keys of a retry pass and the redirects already spent: a keyspace scan over a cluster that
  has been read to its last node is on that node again after the rescan, so the second pass asks it alone.
\<close>

lemma rescan_keeps_node:
  assumes "vfdw_scan_rescan env param st = Inr st1" and "sc_strategy st \<noteq> VFDW_SCAN_KEY_PARAM"
  shows "cs_cur_node (sc_cluster st1) = cs_cur_node (sc_cluster st)" "cs_retry_pass (sc_cluster st1) = cs_retry_pass (sc_cluster st)"
    "cs_plan_keys (sc_cluster st1) = cs_plan_keys (sc_cluster st)" "cs_redirect_passes (sc_cluster st1) = cs_redirect_passes (sc_cluster st)"
    "cs_cur_node (sc_cluster st) + 1 \<ge> length (cs_nodes (sc_cluster st)) \<Longrightarrow>
       vfdw_scan_cluster_advance connect (sc_cluster st1) = Inr (False, sc_cluster st1)"
proof -
  have "sc_cluster st1 = (sc_cluster st)\<lparr>cs_cursor := None, cs_started := False, cs_keys := [], cs_next_key := 0\<rparr>"
    using assms by (auto simp: vfdw_scan_rescan_def Let_def result_bind_Inr_iff)
  then show "cs_cur_node (sc_cluster st1) = cs_cur_node (sc_cluster st)" "cs_retry_pass (sc_cluster st1) = cs_retry_pass (sc_cluster st)"
    "cs_plan_keys (sc_cluster st1) = cs_plan_keys (sc_cluster st)" "cs_redirect_passes (sc_cluster st1) = cs_redirect_passes (sc_cluster st)"
    "cs_cur_node (sc_cluster st) + 1 \<ge> length (cs_nodes (sc_cluster st)) \<Longrightarrow>
       vfdw_scan_cluster_advance connect (sc_cluster st1) = Inr (False, sc_cluster st1)"
    by (simp_all add: vfdw_scan_cluster_advance_def)
qed

end
