(* ===== verification/Roundtrip.thy ===== *)
theory Roundtrip
  imports Modify Scan
begin

text \<open>
  From a written row to the row read back: rendering (\<open>src/vfdw_render.c\<close>), the ledger's hash fold
  (\<open>src/vfdw_ledger_fold.c\<close>), the read command (\<open>src/vfdw_scan_cmd.c\<close>) and filling the slot
  (\<open>src/vfdw_row.c\<close>) composed. The server in between is a parameter: \<open>exec\<close> performs an action of a
  plan, \<open>get\<close> looks a hash field up, and \<open>hash_documented\<close> says what the Valkey documentation says of the
  commands the plan of a hash row contains.
\<close>

section \<open>The server\<close>

definition hash_documented ::
  "(bytes \<Rightarrow> action_step \<Rightarrow> 's \<Rightarrow> 's) \<Rightarrow> ('s \<Rightarrow> bytes \<Rightarrow> bytes \<Rightarrow> bytes option) \<Rightarrow> bool" where
  "hash_documented exec get \<longleftrightarrow>
     (\<forall>k f v s. get (exec k (vfdw_ledger_step VFDW_ACT_HSET [f, v]) s) k = (get s k)(f := Some v)) \<and>
     (\<forall>k f s. get (exec k (vfdw_ledger_step VFDW_ACT_HDEL [f]) s) k = (get s k)(f := None)) \<and>
     (\<forall>k f v s. get (exec k (vfdw_ledger_step VFDW_ACT_HPEXPIRE [f, v]) s) k = get s k) \<and>
     (\<forall>k f s. get (exec k (vfdw_ledger_step VFDW_ACT_HPERSIST [f]) s) k = get s k) \<and>
     (\<forall>k ks mem s. ks \<noteq> k \<longrightarrow> get (exec k (vfdw_ledger_step VFDW_ACT_KSET_ADD [ks, mem]) s) k = get s k)"

lemma hash_documentedD:
  assumes "hash_documented exec get"
  shows "get (exec k (vfdw_ledger_step VFDW_ACT_HSET [f, v]) s) k = (get s k)(f := Some v)"
    "get (exec k (vfdw_ledger_step VFDW_ACT_HDEL [f]) s) k = (get s k)(f := None)"
    "get (exec k (vfdw_ledger_step VFDW_ACT_HPEXPIRE [f, v]) s) k = get s k"
    "get (exec k (vfdw_ledger_step VFDW_ACT_HPERSIST [f]) s) k = get s k"
    "ks \<noteq> k \<Longrightarrow> get (exec k (vfdw_ledger_step VFDW_ACT_KSET_ADD [ks, mem]) s) k = get s k"
  using assms unfolding hash_documented_def by blast+

text \<open>The reply to \<open>HMGET\<close>: one element per field asked for, in order, nil where the field is absent.\<close>

definition field_reply :: "bytes option \<Rightarrow> valkeyReply" where
  "field_reply v = (case v of None \<Rightarrow> Reply VALKEY_REPLY_NIL None 0 [] | Some b \<Rightarrow> Reply VALKEY_REPLY_STRING (Some b) 0 [])"

definition hmget_reply :: "(bytes \<Rightarrow> bytes option) \<Rightarrow> bytes list \<Rightarrow> valkeyReply" where
  "hmget_reply h fs = Reply VALKEY_REPLY_ARRAY None 0 (map (Some \<circ> field_reply \<circ> h) fs)"

lemma field_reply_str [simp]: "rp_str (field_reply v) = v"
  by (cases v) (simp_all add: field_reply_def)

section \<open>What the plan of a hash row leaves behind\<close>

lemma act_actions [simp]:
  "plan_actions (vfdw_ledger_act1 a x p) = plan_actions p @ [vfdw_ledger_step a [x]]"
  "plan_actions (vfdw_ledger_act2 a x y p) = plan_actions p @ [vfdw_ledger_step a [x, y]]"
  "plan_actions (vfdw_ledger_chk1 c x p) = plan_actions p"
  by (simp_all add: vfdw_ledger_act1_def vfdw_ledger_act2_def vfdw_ledger_chk1_def vfdw_ledger_add_action_def
      vfdw_ledger_add_check_def)

text \<open>A row's arguments as an update of the hash.\<close>

definition arg_value :: "VfdwWriteArg \<Rightarrow> bytes option" where
  "arg_value a = (if arg_isnull a then None else Some (arg_data a))"

definition put_args :: "VfdwWriteArg list \<Rightarrow> (bytes \<Rightarrow> bytes option) \<Rightarrow> bytes \<Rightarrow> bytes option" where
  "put_args args = fold (\<lambda>a h. h(arg_name a := arg_value a)) args"

lemma put_args_Cons: "put_args (a # args) h = put_args args (h(arg_name a := arg_value a))"
  by (simp add: put_args_def)

lemma put_args_other: "f \<notin> arg_name ` set args \<Longrightarrow> put_args args h f = h f"
  by (induction args arbitrary: h) (simp_all add: put_args_def)

lemma put_args_name: "distinct (map arg_name args) \<Longrightarrow> a \<in> set args \<Longrightarrow> put_args args h (arg_name a) = arg_value a"
proof (induction args arbitrary: h)
  case (Cons b args)
  show ?case
  proof (cases "a = b")
    case True
    then have "arg_name a \<notin> arg_name ` set args" using Cons.prems by simp
    then have "put_args args (h(arg_name b := arg_value b)) (arg_name a) = (h(arg_name b := arg_value b)) (arg_name a)"
      by (rule put_args_other)
    then show ?thesis using True by (simp add: put_args_def)
  next
    case False
    then show ?thesis using Cons by (simp add: put_args_def)
  qed
qed simp

lemma field_get:
  assumes "hash_documented exec get" and "fold_field oper f (p, ms) = Inr (q, ms')"
  shows "get (fold (exec k) (plan_actions q) s) k = (get (fold (exec k) (plan_actions p) s) k)(arg_name f := arg_value f)"
  using assms(2) hash_documentedD(1,2) [OF assms(1)]
  by (auto simp: fold_field_def Let_def arg_value_def split: if_splits prod.splits)

lemma fields_get:
  assumes "hash_documented exec get" and "result_fold (fold_field oper) args (p, ms) = Inr (q, ms')"
  shows "get (fold (exec k) (plan_actions q) s) k = put_args args (get (fold (exec k) (plan_actions p) s) k)"
  using assms(2)
proof (induction args arbitrary: p ms)
  case (Cons a args)
  from Cons.prems obtain p1 ms1 where st: "fold_field oper a (p, ms) = Inr (p1, ms1)"
    and r: "result_fold (fold_field oper) args (p1, ms1) = Inr (q, ms')"
    by (auto simp: result_bind_Inr_iff)
  show ?case unfolding put_args_Cons Cons.IH [OF r] field_get [OF assms(1) st] ..
qed (simp add: put_args_def)

lemma ttls_get:
  assumes "hash_documented exec get"
  shows "get (fold (exec k) (plan_actions (vfdw_ledger_fold_ttls ts p)) s) k = get (fold (exec k) (plan_actions p) s) k"
  using hash_documentedD(3,4) [OF assms] by (induction ts arbitrary: p) (simp_all)

lemma keyset_get:
  assumes "hash_documented exec get" and "op_keyset oper \<noteq> Some k"
  shows "get (fold (exec k) (plan_actions (vfdw_ledger_keyset oper key True p)) s) k = get (fold (exec k) (plan_actions p) s) k"
  using assms hash_documentedD(5) [OF assms(1)] by (auto simp: vfdw_ledger_keyset_def split: option.splits)

lemma hash_op_get:
  assumes h: "hash_documented exec get" and f: "fold_op oper (p, ms) = Inr (q, ms')"
    and op: "op_kind oper = VFDW_OP_INSERT" "\<not> op_packed_shape oper" "op_tabletype oper = VFDW_TABLE_HASH"
      "op_keyset oper \<noteq> Some (op_key oper)"
  shows "get (fold (exec (op_key oper)) (plan_actions q) s) (op_key oper) =
    put_args (op_fields oper) (get (fold (exec (op_key oper)) (plan_actions p) s) (op_key oper))"
proof -
  obtain p1 ms1 where r: "result_fold (fold_field oper) (op_fields oper) (p, ms) = Inr (p1, ms1)"
    and q: "q = revive (vfdw_ledger_keyset oper (op_key oper) True (vfdw_ledger_fold_ttls (op_ttls oper) p1))"
    using f op by (auto simp: fold_op_def vfdw_ledger_fold_key_delete_def fold_by_type_def vfdw_ledger_fold_hash_def
        vfdw_ledger_fold_fields_def result_bind_Inr_iff split: option.splits)
  have "plan_actions (revive x) = plan_actions x" for x by (simp add: revive_def)
  then show ?thesis unfolding q using keyset_get [OF h op(4)] ttls_get [OF h] fields_get [OF h r] by simp
qed

section \<open>Rendering\<close>

text \<open>What a column renders to, where it renders.\<close>

definition rendered :: "val_env \<Rightarrow> VfdwModifyState \<Rightarrow> slot \<Rightarrow> VfdwColumn \<Rightarrow> bytes option" where
  "rendered env st row col =
     (case vfdw_val_from_slot env (md_vc st) (md_map st) col (slot_getattr row (col_attnum col)) of Inr v \<Rightarrow> v | Inl _ \<Rightarrow> None)"

definition arg_of :: "val_env \<Rightarrow> VfdwModifyState \<Rightarrow> slot \<Rightarrow> VfdwColumn \<Rightarrow> VfdwWriteArg" where
  "arg_of env st row col =
     (let v = rendered env st row col in
      \<lparr>arg_name = the (col_field col), arg_isnull = (v = None), arg_data = (case v of Some b \<Rightarrow> b | None \<Rightarrow> [])\<rparr>)"

lemma arg_of_value [simp]: "arg_value (arg_of env st row col) = rendered env st row col"
  by (cases "rendered env st row col") (simp_all add: arg_of_def arg_value_def)

lemma arg_of_name [simp]: "arg_name (arg_of env st row col) = the (col_field col)"
  by (simp add: arg_of_def Let_def)

lemma render_arg_ok:
  assumes "render_arg env st row col acc = Inr args"
  shows "vfdw_val_from_slot env (md_vc st) (md_map st) col (slot_getattr row (col_attnum col)) = Inr (rendered env st row col)"
    "args = acc @ [arg_of env st row col]"
  using assms by (auto simp: render_arg_def rendered_def arg_of_def Let_def result_bind_Inr_iff)

lemma render_args:
  "result_fold (render_arg env st row) cols acc = Inr args \<Longrightarrow>
     args = acc @ map (arg_of env st row) cols \<and>
     (\<forall>col \<in> set cols. vfdw_val_from_slot env (md_vc st) (md_map st) col (slot_getattr row (col_attnum col)) = Inr (rendered env st row col))"
proof (induction cols arbitrary: acc)
  case (Cons col cols)
  from Cons.prems obtain acc1 where a: "render_arg env st row col acc = Inr acc1"
    and r: "result_fold (render_arg env st row) cols acc1 = Inr args"
    by (auto simp: result_bind_Inr_iff)
  show ?case using Cons.IH [OF r] render_arg_ok [OF a] by simp
qed simp

lemma insert_fields:
  assumes ins: "insert_op env st tup row zero_op = Inr oper" and hash: "tm_tabletype (md_map st) = VFDW_TABLE_HASH"
    and nl: "\<not> tm_legacy_value (md_map st)" and nf: "tm_nfields (md_map st) \<noteq> 0"
  shows "op_fields oper = map (arg_of env st row) (of_kind VFDW_COL_FIELD (tm_cols (md_map st)))"
    and "col \<in> set (of_kind VFDW_COL_FIELD (tm_cols (md_map st))) \<Longrightarrow>
      vfdw_val_render env (md_vc st) col (slot_getattr row (col_attnum col)) = Inr (rendered env st row col)"
proof -
  let ?cols = "of_kind VFDW_COL_FIELD (tm_cols (md_map st))" and ?o0 = "vfdw_modify_op_begin st VFDW_OP_INSERT zero_op"
  obtain o1 o2 o3 o4 o5 where k: "vfdw_modify_render_key env st row ?o0 = Inr o1"
    and sc: "vfdw_modify_render_score env st row o1 = Inr o2" and mb: "vfdw_modify_render_member env st row o2 = Inr o3"
    and f: "vfdw_modify_render_fields env st row o3 = Inr o4" and t: "vfdw_modify_render_ttls env st row o4 = Inr o5"
    and o: "oper = (stamp_slot o5)\<lparr>op_newtup := Some tup\<rparr>"
    using ins hash nl by (auto simp: insert_op_def render_row_def vfdw_modify_render_payload_def Let_def result_bind_Inr_iff)
  obtain args where r: "result_fold (render_arg env st row) ?cols [] = Inr args" and o4: "o4 = o3\<lparr>op_fields := args\<rparr>"
    using f nf by (auto simp: vfdw_modify_render_fields_def vfdw_val_error_all_fields_null_def result_bind_Inr_iff split: if_splits)
  obtain z where o5: "o5 = o4\<lparr>op_ttls := z\<rparr>"
    using t by (cases o4) (auto simp: vfdw_modify_render_ttls_def result_bind_Inr_iff split: if_splits)
  have a: "args = map (arg_of env st row) ?cols" using render_args [OF r] by simp
  show "op_fields oper = map (arg_of env st row) ?cols" by (simp add: o stamp_slot_def o5 o4 a)
  show "vfdw_val_render env (md_vc st) col (slot_getattr row (col_attnum col)) = Inr (rendered env st row col)"
    if "col \<in> set ?cols"
    using render_args [OF r] that by (auto simp: vfdw_val_from_slot_def of_kind_def)
qed

lemma insert_shape:
  assumes "insert_op env st tup row zero_op = Inr oper"
  shows "op_packed_shape oper = tm_legacy_value (md_map st)" "op_keyset oper = tm_keyset (md_map st)"
proof -
  let ?o0 = "vfdw_modify_op_begin st VFDW_OP_INSERT zero_op"
  obtain o1 o2 o3 o4 where k: "vfdw_modify_render_key env st row ?o0 = Inr o1"
    and sc: "vfdw_modify_render_score env st row o1 = Inr o2" and mb: "vfdw_modify_render_member env st row o2 = Inr o3"
    and pl: "vfdw_modify_render_payload env st row o3 = Inr o4" and o: "oper = (stamp_slot o4)\<lparr>op_newtup := Some tup\<rparr>"
    using assms by (auto simp: insert_op_def render_row_def result_bind_Inr_iff)
  have o1: "o1 = ?o0\<lparr>op_key := op_key o1\<rparr>" by (rule render_key_ok(2) [OF k])
  obtain x where o2: "o2 = o1\<lparr>op_score := x\<rparr>" using render_frame(1) [OF sc] by blast
  obtain y where o3: "o3 = o2\<lparr>op_member := y\<rparr>" using render_frame(2) [OF mb] by blast
  obtain u v w z where o4: "o4 = o3\<lparr>op_value := u, op_fields := v, op_ttls := w, op_packed := z\<rparr>"
    using render_frame(3) [OF pl] by blast
  have "op_packed_shape o1 = tm_legacy_value (md_map st)" "op_keyset o1 = tm_keyset (md_map st)"
    by (subst o1, simp add: vfdw_modify_op_begin_def)+
  then show "op_packed_shape oper = tm_legacy_value (md_map st)" "op_keyset oper = tm_keyset (md_map st)"
    by (simp_all add: o stamp_slot_def o4 o3 o2)
qed

section \<open>Filling\<close>

text \<open>When every column either stores its value in its own attribute or leaves the slot alone, the row is the list of the values.\<close>

lemma fill_values:
  assumes "attnums_ok (length pre) cols"
    and "\<And>col sl. col \<in> set cols \<Longrightarrow> step col sl = Inr (put_attr col (w col) sl) \<or> step col sl = Inr sl \<and> w col = None"
    and "\<And>col sl. col \<in> set cols \<Longrightarrow> col_kind col = VFDW_COL_DROPPED \<Longrightarrow> step col sl = Inr sl \<and> w col = None"
  shows "result_fold step cols (pre @ replicate (length cols) None) = Inr (pre @ map w cols)"
  using assms
proof (induction cols arbitrary: pre)
  case (Cons col cols)
  have "step col (pre @ None # replicate (length cols) None) = Inr ((pre @ [w col]) @ replicate (length cols) None)"
  proof (cases "col_kind col = VFDW_COL_DROPPED")
    case True
    then show ?thesis using Cons.prems(3) [of col] by simp
  next
    case False
    then have "col_attnum col = length pre + 1" using Cons.prems(1) by simp
    then show ?thesis using Cons.prems(2) [of col "pre @ None # replicate (length cols) None"]
      by (auto simp: put_attr_def list_update_append)
  qed
  moreover have "result_fold step cols ((pre @ [w col]) @ replicate (length cols) None) = Inr ((pre @ [w col]) @ map w cols)"
    using Cons.prems by (intro Cons.IH) simp_all
  ultimately show ?case by simp
qed simp

lemma attnum_index:
  assumes "attnums_ok 0 cols" and "col \<in> set cols" and "col_kind col \<noteq> VFDW_COL_DROPPED"
  shows "col_attnum col - 1 < length cols" "cols ! (col_attnum col - 1) = col"
  using assms by (auto simp: attnums_ok_def in_set_conv_nth)

section \<open>One value\<close>

text \<open>
  What a datum needs to survive: its type's output and input functions are inverse on it and its text is
  valid in the server encoding, or it is a byte string its domain accepts.
\<close>

definition io_ok :: "val_env \<Rightarrow> VfdwColumn \<Rightarrow> Datum \<Rightarrow> bool" where
  "io_ok env col d \<longleftrightarrow>
     (if col_is_binary col then (\<exists>b. d = DBytea b) \<and> (col_is_domain col \<longrightarrow> ve_domain_check env (col_typid col) d = Inr ())
      else \<forall>b. ve_output env (col_typoutput col) d = Inr b \<longrightarrow>
        ve_verifymbstr env (cstr b) = Inr () \<and> ve_input env (col_typinput col) (cstr b) (col_typioparam col) (col_typmod col) = Inr d)"

lemma cstr_idem [simp]: "cstr (cstr b) = cstr b"
  by (simp add: cstr_def)

lemma read_back:
  assumes "vfdw_val_render_scratch env vc col d = Inr b" and "io_ok env col d"
    and "vc_outfuncs vc ! (col_attnum col - 1) = col_typoutput col"
    and "rc_infuncs ctx ! (col_attnum col - 1) = col_typinput col"
    and "col_is_binary col \<or> col_index_type col \<noteq> VFDW_INDEX_VECTOR"
  shows "vfdw_row_datum_from_bytes env ctx col b = Inr d"
proof (cases "col_is_binary col")
  case True
  then obtain x where "d = DBytea x" "b = x" using assms(1,2)
    by (auto simp: io_ok_def vfdw_val_render_scratch_def result_bind_Inr_iff)
  then show ?thesis using True assms(2)
    by (auto simp: io_ok_def vfdw_row_datum_from_bytes_def vfdw_row_bytea_datum_def Let_def)
next
  case False
  then obtain o0 where "ve_output env (col_typoutput col) d = Inr o0" "b = cstr o0" using assms(1,3)
    by (cases "ve_output env (col_typoutput col) d") (auto simp: vfdw_val_render_scratch_def result_bind_Inr_iff)
  then show ?thesis using False assms(2,4,5) by (simp add: io_ok_def vfdw_row_datum_from_bytes_def)
qed

lemma ctx_functions:
  assumes "attnums_ok 0 (tm_cols m)" and "col \<in> set (tm_cols m)" and "col_kind col \<in> {VFDW_COL_KEY, VFDW_COL_FIELD}"
  shows "vc_outfuncs (vfdw_val_ctx_init rel m) ! (col_attnum col - 1) = col_typoutput col"
    "rc_infuncs (vfdw_row_ctx_init m) ! (col_attnum col - 1) = col_typinput col"
proof -
  have nd: "col_kind col \<noteq> VFDW_COL_DROPPED" using assms(3) by auto
  note i = attnum_index [OF assms(1,2) nd]
  have "col_attnum col \<noteq> InvalidAttrNumber" using assms(1,2) nd by (auto simp: attnums_ok_def in_set_conv_nth)
  moreover have "col_packed m col = None" using assms(3) by (auto simp: col_packed_def)
  ultimately show "vc_outfuncs (vfdw_val_ctx_init rel m) ! (col_attnum col - 1) = col_typoutput col"
    "rc_infuncs (vfdw_row_ctx_init m) ! (col_attnum col - 1) = col_typinput col"
    using i by (simp_all add: vfdw_val_ctx_init_def vfdw_row_ctx_init_def)
qed

lemma insert_key:
  assumes "insert_op env st tup row zero_op = Inr oper" and "map_wf (md_map st)"
    and "col \<in> set (tm_cols (md_map st))" and "col_kind col = VFDW_COL_KEY"
    and "slot_getattr row (col_attnum col) = Some d"
  shows "vfdw_val_render_scratch env (md_vc st) col d = Inr (op_key oper)"
proof -
  let ?m = "md_map st"
  have at: "attnums_ok 0 (tm_cols ?m)" and role: "role_ok VFDW_COL_KEY (tm_keyattno ?m) (tm_cols ?m)"
    using assms(2) by (simp_all add: map_wf_def)
  have "col \<in> set (of_kind VFDW_COL_KEY (tm_cols ?m))" using assms(3,4) by (simp add: of_kind_def)
  then have "col_attnum col \<in> set (map col_attnum (of_kind VFDW_COL_KEY (tm_cols ?m)))" by auto
  then have "col_attnum col \<in> set (if tm_keyattno ?m = InvalidAttrNumber then [] else [tm_keyattno ?m])"
    using role by (simp only: role_ok_def)
  then have k: "tm_keyattno ?m \<noteq> InvalidAttrNumber" "col_attnum col = tm_keyattno ?m" by (simp_all split: if_splits)
  then have c: "map_col ?m (tm_keyattno ?m) = col" using attnum_index(2) [OF at assms(3)] assms(4) by simp
  obtain o1 where r: "vfdw_modify_render_key env st row (vfdw_modify_op_begin st VFDW_OP_INSERT zero_op) = Inr o1"
    and "op_key oper = op_key o1"
    using assms(1) by (auto simp: insert_op_def render_row_def result_bind_Inr_iff stamp_slot_def dest!: render_frame)
  then have "vfdw_val_build_key env (md_vc st) ?m (Some col) (Some d) = Inr (op_key oper)"
    using assms(5) k c by (auto simp: vfdw_modify_render_key_def Let_def result_bind_Inr_iff)
  then show ?thesis by (simp add: build_key_iff)
qed

section \<open>Reading the row\<close>

text \<open>The value a hash table's column is given: its own for a key or a field, the expiry reported for a time to live.\<close>

definition expected :: "slot \<Rightarrow> int list \<Rightarrow> VfdwColumn \<Rightarrow> Datum option" where
  "expected row ttls col =
     (case col_kind col of
        VFDW_COL_KEY \<Rightarrow> slot_getattr row (col_attnum col)
      | VFDW_COL_FIELD \<Rightarrow> slot_getattr row (col_attnum col)
      | VFDW_COL_TTL \<Rightarrow> projr (vfdw_ttl_datum (ttls ! col_ttl_slot col))
      | _ \<Rightarrow> None)"

lemma ttl_datum_total: "t \<le> PG_INT64_MAX div 1000 \<Longrightarrow> vfdw_ttl_datum t = Inr (projr (vfdw_ttl_datum t))"
  by (simp add: vfdw_ttl_datum_def PG_INT64_MAX_def sdiv_1000)

lemma ttl_slot_bound:
  assumes "map_wf m" and "col \<in> set (tm_cols m)" and "col_kind col = VFDW_COL_TTL"
  shows "col_ttl_slot col < tm_nttl m"
proof -
  have "col_ttl_slot col \<in> set (map col_ttl_slot (of_kind VFDW_COL_TTL (tm_cols m)))" using assms(2,3) by (simp add: of_kind_def)
  moreover have "map col_ttl_slot (of_kind VFDW_COL_TTL (tm_cols m)) = [0..<tm_nttl m]" using assms(1) by (simp add: map_wf_def)
  ultimately have "col_ttl_slot col \<in> set [0..<tm_nttl m]" by simp
  then show ?thesis by simp
qed

lemma hash_fill:
  fixes m row ttls
  defines "ctx \<equiv> (vfdw_row_ctx_init m)\<lparr>rc_ttl_ms := Some ttls\<rparr>"
  assumes wf: "map_wf m" and hm: "tm_hmget m"
    and ttl: "length ttls = tm_nttl m" "\<forall>t \<in> set ttls. t \<le> PG_INT64_MAX div 1000"
    and key: "\<And>col sl. col \<in> set (tm_cols m) \<Longrightarrow> col_kind col = VFDW_COL_KEY \<Longrightarrow>
      vfdw_scan_store env ctx col (Some k) sl = Inr (put_attr col (slot_getattr row (col_attnum col)) sl)"
    and field: "\<And>col sl. col \<in> set (tm_cols m) \<Longrightarrow> col_kind col = VFDW_COL_FIELD \<Longrightarrow>
      vfdw_scan_store env ctx col (h (the (col_field col))) sl = Inr (put_attr col (slot_getattr row (col_attnum col)) sl) \<and>
      (h (the (col_field col)) = None \<longrightarrow> slot_getattr row (col_attnum col) = None)"
  shows "vfdw_scan_fill env ctx k (hmget_reply h (request_fields (tm_cols m))) = Inr (map (expected row ttls) (tm_cols m))"
proof -
  let ?r = "hmget_reply h (request_fields (tm_cols m))" and ?w = "expected row ttls"
  have c: "rc_map ctx = m" "rc_ttl_ms ctx = Some ttls" by (simp_all add: ctx_def vfdw_row_ctx_init_def)
  have kinds: "list_all (kind_allowed m) (tm_cols m)" and hash: "tm_tabletype m = VFDW_TABLE_HASH" "\<not> tm_legacy_value m"
    and slots: "list_all (\<lambda>col. col_field_slot col < length (request_fields (tm_cols m)) \<and>
      request_fields (tm_cols m) ! col_field_slot col = the (col_field col)) (of_kind VFDW_COL_FIELD (tm_cols m))"
    using wf hm by (auto simp: map_wf_def)
  have step: "vfdw_row_fill_column env ctx k ?r col sl = Inr (put_attr col (?w col) sl) \<or>
      vfdw_row_fill_column env ctx k ?r col sl = Inr sl \<and> ?w col = None" if col: "col \<in> set (tm_cols m)" for col sl
  proof (cases "col_kind col")
    case VFDW_COL_KEY
    then show ?thesis using key [OF col] by (simp add: vfdw_row_fill_column_def expected_def)
  next
    case VFDW_COL_FIELD
    have s: "col_field_slot col < length (request_fields (tm_cols m))" "request_fields (tm_cols m) ! col_field_slot col = the (col_field col)"
      using slots col VFDW_COL_FIELD by (simp_all add: list_all_iff of_kind_def)
    have "vfdw_row_fill_column env ctx k ?r col sl =
        (if h (the (col_field col)) = None then Inr sl else vfdw_scan_store env ctx col (h (the (col_field col))) sl)"
      using s VFDW_COL_FIELD hm
      by (simp add: vfdw_row_fill_column_def vfdw_row_store_field_def hmget_reply_def vfdw_reply_child_def c)
    then show ?thesis using field [OF col VFDW_COL_FIELD] VFDW_COL_FIELD by (auto simp: expected_def)
  next
    case VFDW_COL_TTL
    then have "ttls ! col_ttl_slot col \<in> set ttls" using ttl_slot_bound [OF wf col] ttl(1) by simp
    then have t: "vfdw_ttl_datum (ttls ! col_ttl_slot col) = Inr (?w col)"
      using ttl(2) ttl_datum_total VFDW_COL_TTL by (simp add: expected_def)
    then show ?thesis using VFDW_COL_TTL
      by (cases "?w col") (simp_all add: vfdw_row_fill_column_def vfdw_row_store_ttl_def c)
  qed (use kinds col hash in \<open>auto simp: list_all_iff kind_allowed_def vfdw_row_fill_column_def expected_def\<close>)
  have "result_fold (vfdw_row_fill_column env ctx k ?r) (tm_cols m) ([] @ replicate (length (tm_cols m)) None) =
      Inr ([] @ map ?w (tm_cols m))"
    by (rule fill_values) (use wf step in \<open>auto simp: map_wf_def vfdw_row_fill_column_def expected_def\<close>)
  then show ?thesis by (simp add: vfdw_scan_fill_def c)
qed

section \<open>The plan of the inserted row\<close>

lemma note_plan:
  assumes ok: "ledger_ok led" and n: "vfdw_ledger_note oper led = Inr led'" and k: "op_kind oper = VFDW_OP_INSERT"
  obtains p ms plan ms' where "fold_op oper (p, ms) = Inr (plan, ms')" "plan \<in> set (led_plans led')" "plan_key plan = op_key oper"
proof (rule note_elim [OF n])
  fix led1 i first led3 plan ms
  assume pf: "vfdw_ledger_plan_for (op_key oper) (op_tabletype oper) led = (led1, i, first)"
    and l3: "led3 = upd_plan i (vfdw_ledger_precondition first (op_kind oper) (vfdw_ledger_is_rename oper))
              (upd_plan i (vfdw_ledger_add_relid (op_relid oper)) led1)"
    and f: "fold_op oper (led_plans (vfdw_ledger_fold_rename i oper led3) ! i,
                   led_members (vfdw_ledger_fold_rename i oper led3)) = Inr (plan, ms)"
    and l': "led' = upd_plan i (\<lambda>_. plan) ((vfdw_ledger_fold_rename i oper led3)\<lparr>led_members := ms\<rparr>)"
  have nr: "vfdw_ledger_fold_rename i oper led3 = led3" using k by (simp add: vfdw_ledger_fold_rename_def vfdw_ledger_is_rename_def)
  have i: "i < length (led_plans led3)" by (rule touch_plan(2) [OF ok pf l3])
  have "plan_key (led_plans led3 ! i) = op_key oper" by (rule touch_plan(3) [OF ok pf l3])
  then have "plan_key plan = op_key oper" using grows_fold_op [OF f] by (simp add: nr plan_grows_def)
  moreover have "plan \<in> set (led_plans led')"
    using i by (simp add: l' nr upd_plan_def set_update_memI)
  ultimately show ?thesis using that f by blast
qed

text \<open>A value of the row that the table can give back.\<close>

definition survives :: "val_env \<Rightarrow> slot \<Rightarrow> VfdwColumn \<Rightarrow> bool" where
  "survives env row col \<longleftrightarrow>
     (col_is_binary col \<or> col_index_type col \<noteq> VFDW_INDEX_VECTOR) \<and>
     (case slot_getattr row (col_attnum col) of None \<Rightarrow> col_kind col \<noteq> VFDW_COL_KEY | Some d \<Rightarrow> io_ok env col d)"

lemma stored_value:
  assumes "survives env row col" and "slot_getattr row (col_attnum col) = Some d"
    and "vfdw_val_render_scratch env (vfdw_val_ctx_init rel m) col d = Inr b"
    and "attnums_ok 0 (tm_cols m)" and "col \<in> set (tm_cols m)" and "col_kind col \<in> {VFDW_COL_KEY, VFDW_COL_FIELD}"
  shows "vfdw_scan_store env ((vfdw_row_ctx_init m)\<lparr>rc_ttl_ms := t\<rparr>) col (Some b) sl =
    Inr (put_attr col (slot_getattr row (col_attnum col)) sl)"
proof -
  have "io_ok env col d" "col_is_binary col \<or> col_index_type col \<noteq> VFDW_INDEX_VECTOR"
    using assms(1,2) by (simp_all add: survives_def)
  then have "vfdw_row_datum_from_bytes env ((vfdw_row_ctx_init m)\<lparr>rc_ttl_ms := t\<rparr>) col b = Inr d"
    using ctx_functions [OF assms(4-6)] by (intro read_back [OF assms(3)]) simp_all
  then show ?thesis using assms(2) by (simp add: vfdw_scan_store_def)
qed

section \<open>The round trip\<close>

lemma row_read_back:
  fixes st :: VfdwModifyState
  defines "m \<equiv> md_map st"
  assumes ins: "insert_op env st tup row zero_op = Inr oper"
    and st: "map_wf m" "tm_hmget m" "md_vc st = vfdw_val_ctx_init rel m"
    and names: "distinct (map col_field (of_kind VFDW_COL_FIELD (tm_cols m)))"
    and io: "\<forall>col \<in> set (tm_cols m). col_kind col \<in> {VFDW_COL_KEY, VFDW_COL_FIELD} \<longrightarrow> survives env row col"
    and ttl: "length ttls = tm_nttl m" "\<forall>t \<in> set ttls. t \<le> PG_INT64_MAX div 1000"
    and h: "h = put_args (op_fields oper) h0"
  shows "vfdw_scan_fill env ((vfdw_row_ctx_init m)\<lparr>rc_ttl_ms := Some ttls\<rparr>) (op_key oper) (hmget_reply h (request_fields (tm_cols m))) =
    Inr (map (expected row ttls) (tm_cols m))"
proof (rule hash_fill [OF st(1,2) ttl])
  have at: "attnums_ok 0 (tm_cols m)" and hash: "tm_tabletype m = VFDW_TABLE_HASH" "\<not> tm_legacy_value m"
    and nf: "tm_nfields m = length (of_kind VFDW_COL_FIELD (tm_cols m))" and al: "list_all (kind_allowed m) (tm_cols m)"
    using st(1,2) by (auto simp: map_wf_def)
  fix col sl
  assume col: "col \<in> set (tm_cols m)"
  show "vfdw_scan_store env ((vfdw_row_ctx_init m)\<lparr>rc_ttl_ms := Some ttls\<rparr>) col (Some (op_key oper)) sl =
      Inr (put_attr col (slot_getattr row (col_attnum col)) sl)" if k: "col_kind col = VFDW_COL_KEY"
  proof -
    have sv: "survives env row col" using io col k by simp
    then obtain d where d: "slot_getattr row (col_attnum col) = Some d" using k by (auto simp: survives_def split: option.splits)
    have "vfdw_val_render_scratch env (vfdw_val_ctx_init rel m) col d = Inr (op_key oper)"
      using insert_key [OF ins, of col d] st(1,3) col k d by (simp add: m_def)
    then show ?thesis using stored_value [OF sv d _ at col] k by simp
  qed
  show "vfdw_scan_store env ((vfdw_row_ctx_init m)\<lparr>rc_ttl_ms := Some ttls\<rparr>) col (h (the (col_field col))) sl =
      Inr (put_attr col (slot_getattr row (col_attnum col)) sl) \<and>
      (h (the (col_field col)) = None \<longrightarrow> slot_getattr row (col_attnum col) = None)" if f: "col_kind col = VFDW_COL_FIELD"
  proof -
    let ?cols = "of_kind VFDW_COL_FIELD (tm_cols m)"
    have fc: "col \<in> set ?cols" using col f by (simp add: of_kind_def)
    then have "tm_nfields m \<noteq> 0" using nf by auto
    note i = insert_fields [OF ins, folded m_def, OF hash this]
    have "\<forall>c \<in> set ?cols. col_field c \<noteq> None" using al by (auto simp: of_kind_def list_all_iff kind_allowed_def)
    then have "inj_on (\<lambda>c. the (col_field c)) (set ?cols)" using names unfolding distinct_map inj_on_def
      by (metis option.expand)
    then have "distinct (map (\<lambda>c. the (col_field c)) ?cols)" using names by (simp add: distinct_map)
    then have dn: "distinct (map arg_name (op_fields oper))" by (simp add: i(1) comp_def)
    have "arg_of env st row col \<in> set (op_fields oper)" using fc by (simp add: i(1))
    from put_args_name [OF dn this] have hv: "h (the (col_field col)) = rendered env st row col" by (simp add: h)
    have r: "vfdw_val_render env (vfdw_val_ctx_init rel m) col (slot_getattr row (col_attnum col)) = Inr (rendered env st row col)"
      using i(2) [OF fc] by (simp add: st(3))
    show ?thesis
    proof (cases "slot_getattr row (col_attnum col)")
      case None
      then show ?thesis using r hv by (simp add: vfdw_val_render_def vfdw_scan_store_def)
    next
      case (Some d)
      then obtain b where "vfdw_val_render_scratch env (vfdw_val_ctx_init rel m) col d = Inr b" "rendered env st row col = Some b"
        using r by (cases "vfdw_val_render_scratch env (vfdw_val_ctx_init rel m) col d") (auto simp: vfdw_val_render_def)
      moreover have "survives env row col" using io col f by simp
      ultimately show ?thesis using stored_value [OF _ Some _ at col] f hv by simp
    qed
  qed
qed


text \<open>A keyspace of hashes as a function, and the sample row of \<open>Modify\<close> in it.\<close>

definition sample_exec :: "bytes \<Rightarrow> action_step \<Rightarrow> (bytes \<Rightarrow> bytes \<Rightarrow> bytes option) \<Rightarrow> bytes \<Rightarrow> bytes \<Rightarrow> bytes option" where
  "sample_exec k a db =
     (if step_op a = VFDW_ACT_HSET then db(k := (db k)(step_args a ! 0 := Some (step_args a ! 1)))
      else if step_op a = VFDW_ACT_HDEL then db(k := (db k)(step_args a ! 0 := None))
      else db)"

lemma sample_exec_documented: "hash_documented sample_exec (\<lambda>db. db)"
  by (simp add: hash_documented_def sample_exec_def vfdw_ledger_step_def)


text \<open>
  The round trip needs its hypothesis on \<open>index_type\<close>: the option is documented as one of vector tables only, but
  reading consults it on every table. A text field of a hash table declared \<open>index_type 'vector'\<close> is written as
  its literal and then read as float32 elements, which fails whenever its length is not a multiple of four.
\<close>

lemma vector_field_not_read_back:
  assumes "\<not> col_is_binary col" and "col_kind col = VFDW_COL_FIELD" and "col_index_type col = VFDW_INDEX_VECTOR"
    and "vfdw_val_from_slot env vc m col (Some d) = Inr (Some b)" and "length b mod 4 \<noteq> 0"
  shows "\<exists>lit. ve_output env (vc_outfuncs vc ! (col_attnum col - 1)) d = Inr lit \<and> b = cstr lit"
    and "\<exists>msg. vfdw_row_datum_from_bytes env ctx col b = raise ERRCODE_DATA_EXCEPTION msg"
proof -
  have "vfdw_val_render_scratch env vc col d = Inr b" using assms(2,4)
    by (cases "vfdw_val_render_scratch env vc col d") (simp_all add: vfdw_val_from_slot_def vfdw_val_render_def)
  then show "\<exists>lit. ve_output env (vc_outfuncs vc ! (col_attnum col - 1)) d = Inr lit \<and> b = cstr lit"
    using assms(1) by (cases "ve_output env (vc_outfuncs vc ! (col_attnum col - 1)) d")
      (auto simp: vfdw_val_render_scratch_def result_bind_Inr_iff)
  show "\<exists>msg. vfdw_row_datum_from_bytes env ctx col b = raise ERRCODE_DATA_EXCEPTION msg"
    using assms(1,3,5) by (cases b) (simp_all add: vfdw_row_datum_from_bytes_def vfdw_vec_to_text_def)
qed

end
