(* ===== verification/Knn.thy ===== *)
theory Knn
  imports Keyplan
begin

text \<open>
  Recognising the one query a vector table answers: \<open>src/vfdw_knn.c\<close>, the plan of the search in
  \<open>src/vfdw_plan.c\<close>, and the path keys of \<open>src/valkey_fdw.c\<close>.

  Of the planner's structures the model keeps what the code reads: the query's path keys with the members of their
  equivalence classes, the flags of the query, the base relations, the tuple limit (a double that holds a whole number,
  negative when there is none), and of the relation its index, its restrictions and whether it is joined.
\<close>

section \<open>What the planner knows\<close>

record PathKey =
  pk_asc :: bool
  pk_nulls_first :: bool
  pk_members :: "node list"

record planner_info =
  pi_types :: type_env
  pi_planner :: planner
  pi_pathkeys :: "PathKey list"
  pi_select :: bool
  pi_group :: bool
  pi_grouping_sets :: bool
  pi_distinct :: bool
  pi_having :: bool
  pi_window :: bool
  pi_aggs :: bool
  pi_setops :: bool
  pi_rels :: "bool option list"
  pi_limit_tuples :: int

record rel_info =
  ri_relid :: nat
  ri_joined :: bool
  ri_clauses :: "node list"

record VfdwKnnPlan =
  kp_field :: string
  kp_metric :: string
  kp_qvec :: node
  kp_k :: int
  kp_filter :: "VfdwFilterTerm list"

section \<open>The order\<close>

definition vfdw_knn_operators :: "(string \<times> string) list" where
  "vfdw_knn_operators = [(''<->'', ''L2''), (''<=>'', ''COSINE''), (''<#>'', ''IP'')]"

definition vfdw_knn_metric_for :: "planner \<Rightarrow> Oid \<Rightarrow> string option" where
  "vfdw_knn_metric_for pl opno = (case pl_opname pl opno of None \<Rightarrow> None | Some name \<Rightarrow> map_of vfdw_knn_operators name)"

definition vfdw_knn_vector_field :: "planner \<Rightarrow> nat \<Rightarrow> VfdwTableMap \<Rightarrow> node \<Rightarrow> string option" where
  "vfdw_knn_vector_field pl relid m nd =
     (case column_of pl relid m nd of
        None \<Rightarrow> None
      | Some col \<Rightarrow> if col_kind col \<noteq> VFDW_COL_FIELD \<or> col_index_type col \<noteq> VFDW_INDEX_VECTOR then None else col_field col)"

text \<open>The field, the metric and the query vector, when the operator call has the shape.\<close>

definition vfdw_knn_match_opexpr :: "planner \<Rightarrow> nat \<Rightarrow> VfdwTableMap \<Rightarrow> node \<Rightarrow> (string \<times> string \<times> node) option" where
  "vfdw_knn_match_opexpr pl relid m nd =
     (case nd of
        OpExpr opno restype [l, r] \<Rightarrow>
          if restype \<noteq> FLOAT8OID then None
          else (case vfdw_knn_metric_for pl opno of
                  None \<Rightarrow> None
                | Some metric \<Rightarrow>
                    (case pick_side (vfdw_knn_vector_field pl relid m) l r of
                       None \<Rightarrow> None
                     | Some (field, other, _) \<Rightarrow> if relid \<in> pl_varnos pl other then None else Some (field, metric, other)))
      | _ \<Rightarrow> None)"

fun match_member :: "planner \<Rightarrow> nat \<Rightarrow> VfdwTableMap \<Rightarrow> node list \<Rightarrow> (string \<times> string \<times> node) option" where
  "match_member pl relid m [] = None"
| "match_member pl relid m (e # es) =
     (case (case pl_strip pl e of None \<Rightarrow> None | Some nd \<Rightarrow> vfdw_knn_match_opexpr pl relid m nd) of
        Some found \<Rightarrow> Some found
      | None \<Rightarrow> match_member pl relid m es)"

definition vfdw_knn_match_order :: "planner_info \<Rightarrow> rel_info \<Rightarrow> VfdwTableMap \<Rightarrow> (string \<times> string \<times> node) option" where
  "vfdw_knn_match_order root rel m =
     (case pi_pathkeys root of
        [pk] \<Rightarrow> if \<not> pk_asc pk \<or> pk_nulls_first pk then None
                else match_member (pi_planner root) (ri_relid rel) m (pk_members pk)
      | _ \<Rightarrow> None)"

section \<open>The limit\<close>

definition INT_MAX :: int where
  "INT_MAX = 2147483647"

definition vfdw_knn_scan_owns_limit :: "planner_info \<Rightarrow> rel_info \<Rightarrow> bool" where
  "vfdw_knn_scan_owns_limit root rel =
     (if \<not> pi_select root then False
      else if pi_group root \<or> pi_grouping_sets root \<or> pi_distinct root \<or> pi_having root \<or> pi_window root \<or> pi_aggs root \<or> pi_setops root
      then False
      else if ri_joined rel then False
      else if length (filter (\<lambda>r. r = Some True) (pi_rels root)) \<noteq> 1 then False
      else pi_limit_tuples root \<ge> 1 \<and> pi_limit_tuples root \<le> INT_MAX)"

section \<open>The match and the refusal\<close>

definition vfdw_knn_match :: "planner_info \<Rightarrow> rel_info \<Rightarrow> VfdwTableMap \<Rightarrow> VfdwKnnPlan option" where
  "vfdw_knn_match root rel m =
     (if tm_tabletype m \<noteq> VFDW_TABLE_VECTOR then None
      else if \<not> vfdw_knn_scan_owns_limit root rel then None
      else case vfdw_knn_match_order root rel m of
        None \<Rightarrow> None
      | Some (field, metric, qvec) \<Rightarrow>
          (case vfdw_filter_compile (pi_types root) (pi_planner root) (ri_relid rel) m (ri_clauses rel) of
             None \<Rightarrow> None
           | Some flt \<Rightarrow> Some \<lparr>kp_field = field, kp_metric = metric, kp_qvec = qvec, kp_k = pi_limit_tuples root, kp_filter = flt\<rparr>))"

text \<open>The reason in the refusal's detail, one constructor per message of \<open>vfdw_knn_missing\<close>.\<close>

datatype knn_missing = No_order_by | Order_not_by_distance | Joined | Clause_not_pushable | Not_select | No_constant_limit | Limit_not_ours

definition vfdw_knn_missing :: "planner_info \<Rightarrow> rel_info \<Rightarrow> VfdwTableMap \<Rightarrow> knn_missing" where
  "vfdw_knn_missing root rel m =
     (if pi_pathkeys root = [] then No_order_by
      else if vfdw_knn_match_order root rel m = None then Order_not_by_distance
      else if ri_joined rel then Joined
      else if vfdw_filter_compile (pi_types root) (pi_planner root) (ri_relid rel) m (ri_clauses rel) = None then Clause_not_pushable
      else if \<not> pi_select root then Not_select
      else if pi_limit_tuples root < 1 then No_constant_limit
      else Limit_not_ours)"

definition vfdw_knn_refuse :: "'a result" where
  "vfdw_knn_refuse = raise ERRCODE_FEATURE_NOT_SUPPORTED ''this query cannot be answered by a vector search''"

definition vfdw_knn_require_standalone :: "bool \<Rightarrow> unit result" where
  "vfdw_knn_require_standalone cluster =
     (if \<not> cluster then Inr () else raise ERRCODE_FEATURE_NOT_SUPPORTED ''cannot search a Valkey Cluster'')"

section \<open>Paths and plan\<close>

text \<open>The row estimate and the order the path promises, when the table is a vector table.\<close>

definition vfdwKnnPathkeys :: "bool \<Rightarrow> planner_info \<Rightarrow> rel_info \<Rightarrow> VfdwTableMap \<Rightarrow> (int \<times> PathKey list) option result" where
  "vfdwKnnPathkeys cluster root rel m =
     (if tm_tabletype m \<noteq> VFDW_TABLE_VECTOR then Inr None
      else result_bind (vfdw_knn_require_standalone cluster) (\<lambda>_.
        case vfdw_knn_match root rel m of
          None \<Rightarrow> vfdw_knn_refuse
        | Some knn \<Rightarrow> Inr (Some (kp_k knn, pi_pathkeys root))))"

definition vfdw_plan_search :: "planner_info \<Rightarrow> rel_info \<Rightarrow> VfdwTableMap \<Rightarrow> scan_private result" where
  "vfdw_plan_search root rel m =
     (case vfdw_knn_match root rel m of
        None \<Rightarrow> vfdw_knn_refuse
      | Some knn \<Rightarrow>
          (case vfdw_filter_encode (kp_filter knn) [kp_qvec knn] of
             (flt, exprs) \<Rightarrow> Inr ((vfdw_plan_private VFDW_SCAN_KNN [] None [] (Some (kp_field knn, kp_metric knn, kp_k knn)) flt)
               \<lparr>pv_search_exprs := exprs\<rparr>)))"

section \<open>Only the nearest-neighbour query is planned\<close>

text \<open>
  The query the table answers, declaratively: a SELECT over this relation alone whose only order is ascending
  distance, nulls last, between a vector column of the table and an expression that does not mention it, whose limit is
  a constant that fits an \<open>int\<close>, and whose every restriction can be pushed into the search.
\<close>

definition distance_of :: "planner \<Rightarrow> nat \<Rightarrow> VfdwTableMap \<Rightarrow> node \<Rightarrow> string \<Rightarrow> string \<Rightarrow> node \<Rightarrow> bool" where
  "distance_of pl relid m e field metric q \<longleftrightarrow>
     (\<exists>opno name col a. pl_strip pl e = Some (OpExpr opno FLOAT8OID a) \<and> pl_opname pl opno = Some name \<and>
        (name, metric) \<in> {(''<->'', ''L2''), (''<=>'', ''COSINE''), (''<#>'', ''IP'')} \<and>
        col \<in> set (tm_cols m) \<and> col_kind col = VFDW_COL_FIELD \<and> col_index_type col = VFDW_INDEX_VECTOR \<and> col_field col = Some field \<and>
        (\<exists>v. column_of pl relid m v = Some col \<and> (a = [v, q] \<or> a = [q, v] \<and> vfdw_knn_vector_field pl relid m q = None)) \<and>
        relid \<notin> pl_varnos pl q)"

definition nearest_query :: "planner_info \<Rightarrow> rel_info \<Rightarrow> VfdwTableMap \<Rightarrow> VfdwKnnPlan \<Rightarrow> bool" where
  "nearest_query root rel m knn \<longleftrightarrow>
     (\<exists>pk es e rest. pi_pathkeys root = [pk] \<and> pk_asc pk \<and> \<not> pk_nulls_first pk \<and> pk_members pk = es @ e # rest \<and>
        distance_of (pi_planner root) (ri_relid rel) m e (kp_field knn) (kp_metric knn) (kp_qvec knn) \<and>
        (\<forall>e' \<in> set es. \<nexists>f mt q. distance_of (pi_planner root) (ri_relid rel) m e' f mt q)) \<and>
     pi_select root \<and> \<not> pi_group root \<and> \<not> pi_grouping_sets root \<and> \<not> pi_distinct root \<and> \<not> pi_having root \<and>
     \<not> pi_window root \<and> \<not> pi_aggs root \<and> \<not> pi_setops root \<and>
     \<not> ri_joined rel \<and> length (filter (\<lambda>r. r = Some True) (pi_rels root)) = 1 \<and>
     1 \<le> pi_limit_tuples root \<and> pi_limit_tuples root \<le> INT_MAX \<and> kp_k knn = pi_limit_tuples root \<and>
     map Some (kp_filter knn) = map (vfdw_filter_one (pi_types root) (pi_planner root) (ri_relid rel) m) (ri_clauses rel)"

lemma column_of_in: "column_of pl relid m v = Some col \<Longrightarrow> col \<in> set (tm_cols m)"
  by (auto simp: column_of_def split: option.splits node.splits if_splits)

lemma metric_for:
  "vfdw_knn_metric_for pl opno = Some metric \<longleftrightarrow>
     (\<exists>name. pl_opname pl opno = Some name \<and> (name, metric) \<in> {(''<->'', ''L2''), (''<=>'', ''COSINE''), (''<#>'', ''IP'')})"
  by (auto simp: vfdw_knn_metric_for_def vfdw_knn_operators_def split: option.splits)

lemma vector_field:
  "vfdw_knn_vector_field pl relid m v = Some field \<longleftrightarrow>
     (\<exists>col. column_of pl relid m v = Some col \<and> col_kind col = VFDW_COL_FIELD \<and> col_index_type col = VFDW_INDEX_VECTOR \<and> col_field col = Some field)"
  by (auto simp: vfdw_knn_vector_field_def split: option.splits)

lemma match_opexpr:
  "vfdw_knn_match_opexpr pl relid m (OpExpr opno restype args) = Some (field, metric, q) \<longleftrightarrow>
     restype = FLOAT8OID \<and> vfdw_knn_metric_for pl opno = Some metric \<and> relid \<notin> pl_varnos pl q \<and>
     (\<exists>v. vfdw_knn_vector_field pl relid m v = Some field \<and>
        (args = [v, q] \<or> args = [q, v] \<and> vfdw_knn_vector_field pl relid m q = None))"
  by (auto simp: vfdw_knn_match_opexpr_def pick_side_def split: option.splits list.splits)

lemma match_distance:
  "(case pl_strip pl e of None \<Rightarrow> None | Some nd \<Rightarrow> vfdw_knn_match_opexpr pl relid m nd) = Some (field, metric, q) \<longleftrightarrow>
     distance_of pl relid m e field metric q" (is "?l = Some _ \<longleftrightarrow> _")
proof
  assume a: "?l = Some (field, metric, q)"
  then obtain opno restype args where "pl_strip pl e = Some (OpExpr opno restype args)"
    and "vfdw_knn_match_opexpr pl relid m (OpExpr opno restype args) = Some (field, metric, q)"
    by (auto simp: vfdw_knn_match_opexpr_def split: option.splits node.splits)
  then show "distance_of pl relid m e field metric q"
    unfolding distance_of_def match_opexpr metric_for vector_field using column_of_in by blast
next
  assume "distance_of pl relid m e field metric q"
  then obtain opno a where "pl_strip pl e = Some (OpExpr opno FLOAT8OID a)"
    "vfdw_knn_match_opexpr pl relid m (OpExpr opno FLOAT8OID a) = Some (field, metric, q)"
    unfolding distance_of_def match_opexpr metric_for vector_field by blast
  then show "?l = Some (field, metric, q)" by simp
qed

lemma first_Cons:
  "(\<exists>es e rest. x # xs = es @ e # rest \<and> Q e \<and> (\<forall>e' \<in> set es. \<not> R e')) \<longleftrightarrow>
     Q x \<or> \<not> R x \<and> (\<exists>es e rest. xs = es @ e # rest \<and> Q e \<and> (\<forall>e' \<in> set es. \<not> R e'))" (is "?l \<longleftrightarrow> ?r")
proof
  assume ?l
  then obtain es e rest where s: "x # xs = es @ e # rest" "Q e" "\<forall>e' \<in> set es. \<not> R e'" by blast
  then show ?r by (cases es) auto
next
  assume ?r
  then show ?l
  proof
    assume "Q x"
    then show ?l by (intro exI [of _ "[]"] exI [of _ x] exI [of _ xs]) simp
  next
    assume "\<not> R x \<and> (\<exists>es e rest. xs = es @ e # rest \<and> Q e \<and> (\<forall>e' \<in> set es. \<not> R e'))"
    then obtain es e rest where "\<not> R x" "xs = es @ e # rest" "Q e" "\<forall>e' \<in> set es. \<not> R e'" by blast
    then show ?l by (intro exI [of _ "x # es"] exI [of _ e] exI [of _ rest]) simp
  qed
qed

lemma match_member_iff:
  "match_member pl relid m members = Some (field, metric, q) \<longleftrightarrow>
     (\<exists>es e rest. members = es @ e # rest \<and> distance_of pl relid m e field metric q \<and>
        (\<forall>e' \<in> set es. \<nexists>f mt x. distance_of pl relid m e' f mt x))"
proof (induction members)
  case (Cons e members)
  have md: "(case pl_strip pl e of None \<Rightarrow> None | Some nd \<Rightarrow> vfdw_knn_match_opexpr pl relid m nd) = Some (f, mt, x) \<longleftrightarrow>
      distance_of pl relid m e f mt x" for f mt x by (rule match_distance)
  show ?case
  proof (cases "case pl_strip pl e of None \<Rightarrow> None | Some nd \<Rightarrow> vfdw_knn_match_opexpr pl relid m nd")
    case None
    then have n: "\<nexists>f mt x. distance_of pl relid m e f mt x" using md by simp
    have "match_member pl relid m (e # members) = match_member pl relid m members" using None by simp
    moreover have "\<not> distance_of pl relid m e field metric q" using n by blast
    ultimately show ?thesis unfolding first_Cons using Cons.IH n by simp
  next
    case (Some found)
    obtain f mt x where f: "found = (f, mt, x)" by (cases found)
    have mm: "match_member pl relid m (e # members) = Some (f, mt, x)" using Some f by simp
    have "distance_of pl relid m e f' mt' x' \<longleftrightarrow> (f', mt', x') = (f, mt, x)" for f' mt' x'
      using md [of f' mt' x'] Some f by auto
    then show ?thesis unfolding first_Cons mm by auto
  qed
qed simp

lemma compile_iff:
  "vfdw_filter_compile env pl relid m clauses = Some terms \<longleftrightarrow>
     map Some terms = map (vfdw_filter_one env pl relid m) clauses"
proof (induction clauses arbitrary: terms)
  case (Cons c cs)
  show ?case using Cons by (cases terms; cases "vfdw_filter_one env pl relid m c") auto
qed auto

lemma match_order_iff:
  "vfdw_knn_match_order root rel m = Some (field, metric, q) \<longleftrightarrow>
     (\<exists>pk es e rest. pi_pathkeys root = [pk] \<and> pk_asc pk \<and> \<not> pk_nulls_first pk \<and> pk_members pk = es @ e # rest \<and>
        distance_of (pi_planner root) (ri_relid rel) m e field metric q \<and>
        (\<forall>e' \<in> set es. \<nexists>f mt x. distance_of (pi_planner root) (ri_relid rel) m e' f mt x))"
proof (cases "\<exists>pk. pi_pathkeys root = [pk]")
  case True
  then obtain pk where pk: "pi_pathkeys root = [pk]" by blast
  then show ?thesis
    using match_member_iff [of "pi_planner root" "ri_relid rel" m "pk_members pk" field metric q]
    by (auto simp: vfdw_knn_match_order_def)
next
  case False
  then have "vfdw_knn_match_order root rel m = None" by (auto simp: vfdw_knn_match_order_def split: list.splits)
  then show ?thesis using False by auto
qed

lemma match_iff:
  assumes "tm_tabletype m = VFDW_TABLE_VECTOR"
  shows "vfdw_knn_match root rel m = Some knn \<longleftrightarrow> nearest_query root rel m knn"
proof -
  have own: "vfdw_knn_scan_owns_limit root rel \<longleftrightarrow> pi_select root \<and> \<not> pi_group root \<and> \<not> pi_grouping_sets root \<and> \<not> pi_distinct root \<and>
      \<not> pi_having root \<and> \<not> pi_window root \<and> \<not> pi_aggs root \<and> \<not> pi_setops root \<and> \<not> ri_joined rel \<and>
      length (filter (\<lambda>r. r = Some True) (pi_rels root)) = 1 \<and> 1 \<le> pi_limit_tuples root \<and> pi_limit_tuples root \<le> INT_MAX"
    unfolding vfdw_knn_scan_owns_limit_def by (simp split: if_split)
  have "vfdw_knn_match root rel m = Some knn \<longleftrightarrow>
      vfdw_knn_scan_owns_limit root rel \<and> vfdw_knn_match_order root rel m = Some (kp_field knn, kp_metric knn, kp_qvec knn) \<and>
      vfdw_filter_compile (pi_types root) (pi_planner root) (ri_relid rel) m (ri_clauses rel) = Some (kp_filter knn) \<and>
      kp_k knn = pi_limit_tuples root"
    using assms by (cases knn) (auto simp: vfdw_knn_match_def split: option.splits)
  then show ?thesis unfolding own match_order_iff compile_iff nearest_query_def by blast
qed


definition knn_planner :: planner where
  "knn_planner = sample_planner\<lparr>pl_opname := (\<lambda>opno. if opno = 96 then Some ''<->'' else if opno = 97 then Some ''<'' else None)\<rparr>"

definition knn_map :: VfdwTableMap where
  "knn_map = (zero_map 2)\<lparr>tm_tabletype := VFDW_TABLE_VECTOR, tm_search_index := Some ''idx'', tm_cols :=
     [zero_column\<lparr>col_attnum := 1, col_kind := VFDW_COL_FIELD, col_index_type := VFDW_INDEX_NUMERIC, col_field := Some ''price'', col_typid := 23\<rparr>,
      zero_column\<lparr>col_attnum := 2, col_kind := VFDW_COL_FIELD, col_index_type := VFDW_INDEX_VECTOR, col_field := Some ''emb'', col_typid := 25\<rparr>]\<rparr>"

text \<open>\<open>SELECT ... FROM t WHERE price < ? ORDER BY emb <-> ? LIMIT 5\<close>.\<close>

definition knn_root :: planner_info where
  "knn_root = \<lparr>pi_types = sample_type_env, pi_planner = knn_planner,
     pi_pathkeys = [\<lparr>pk_asc = True, pk_nulls_first = False, pk_members = [OpExpr 96 701 [OtherNode 7, Var 3 0 2]]\<rparr>],
     pi_select = True, pi_group = False, pi_grouping_sets = False, pi_distinct = False, pi_having = False, pi_window = False,
     pi_aggs = False, pi_setops = False, pi_rels = [None, None, Some True], pi_limit_tuples = 5\<rparr>"

definition knn_rel :: rel_info where
  "knn_rel = \<lparr>ri_relid = 3, ri_joined = False, ri_clauses = [OpExpr 97 16 [Var 3 0 1, OtherNode 8]]\<rparr>"

lemma knn_plan_made: "\<exists>pv. vfdw_plan_search knn_root knn_rel knn_map = Inr pv"
proof -
  have "\<not> isl (vfdw_plan_search knn_root knn_rel knn_map)" by code_simp
  then show ?thesis by (cases "vfdw_plan_search knn_root knn_rel knn_map") simp_all
qed


end
