(* ===== verification/Search.thy ===== *)
theory Search
  imports Scan Knn
begin

text \<open>
  Running a vector search: \<open>src/vfdw_search.c\<close> and \<open>src/vfdw_search_info.c\<close>. The index is asked what it holds
  (\<open>FT.INFO\<close>) and then for its nearest documents (\<open>FT.SEARCH\<close>); when the pushed filter is weaker than the query's own
  restrictions the scan tests each row itself and asks again for twice as many while too few survive.

  What the executor evaluates is an argument: the text of the query vector, the bounds of the filter, the query's
  restrictions on a row.
\<close>

record search_env =
  sr_val :: val_env
  sr_types :: type_env
  sr_append :: "bytes list \<Rightarrow> unit result"
  sr_float4in :: "string \<Rightarrow> 32 word result"
  sr_qvec :: "string option"
  sr_bounds :: "bound_value option list"
  sr_qual :: "(slot \<Rightarrow> bool result) option"

definition VFDW_SEARCH_MAX_K :: int where
  "VFDW_SEARCH_MAX_K = 65536"

section \<open>What the index says of itself\<close>

definition is_aggregate :: "valkeyReply option \<Rightarrow> bool" where
  "is_aggregate r = (case r of None \<Rightarrow> False | Some reply \<Rightarrow> rp_type reply = VALKEY_REPLY_ARRAY \<or> rp_type reply = VALKEY_REPLY_MAP)"

abbreviation missing_element :: "'a result" where
  "missing_element \<equiv> raise ERRCODE_FDW_ERROR ''a Valkey aggregate reply is missing an element it declared''"

fun info_loop :: "valkeyReply option list \<Rightarrow> string \<Rightarrow> valkeyReply option result" where
  "info_loop (None # v # rest) name = missing_element"
| "info_loop (Some k # v # rest) name =
     (if rp_str k = Some name then (case v of None \<Rightarrow> missing_element | Some r \<Rightarrow> Inr (Some r)) else info_loop rest name)"
| "info_loop _ name = Inr None"

definition vfdw_info_sub :: "valkeyReply option \<Rightarrow> string \<Rightarrow> valkeyReply option result" where
  "vfdw_info_sub reply name = (if \<not> is_aggregate reply then Inr None else info_loop (rp_element (the reply)) name)"

definition vfdw_info_str :: "valkeyReply option \<Rightarrow> string \<Rightarrow> string option result" where
  "vfdw_info_str reply name =
     (if \<not> is_aggregate reply then Inr None
      else result_bind (vfdw_scan_hash_lookup (the reply) name) (\<lambda>r.
        Inr (case r of Some (Some data) \<Rightarrow> Some (cstr data) | _ \<Rightarrow> None)))"

definition vfdw_info_int :: "valkeyReply option \<Rightarrow> string \<Rightarrow> int result" where
  "vfdw_info_int reply name =
     result_bind (vfdw_info_sub reply name) (\<lambda>v.
       Inr (case v of Some r \<Rightarrow> if rp_type r = VALKEY_REPLY_INTEGER then rp_integer r else - 1 | None \<Rightarrow> - 1))"

fun attribute_loop :: "valkeyReply option list \<Rightarrow> string \<Rightarrow> valkeyReply option result" where
  "attribute_loop [] field = Inr None"
| "attribute_loop (None # rest) field = missing_element"
| "attribute_loop (Some attr # rest) field =
     result_bind (vfdw_info_str (Some attr) ''identifier'') (\<lambda>ident.
       if ident = Some field then Inr (Some attr) else attribute_loop rest field)"

definition vfdw_info_attribute :: "valkeyReply option \<Rightarrow> string \<Rightarrow> valkeyReply option result" where
  "vfdw_info_attribute info field =
     result_bind (vfdw_info_sub info ''attributes'') (\<lambda>attrs.
       case attrs of
         None \<Rightarrow> Inr None
       | Some a \<Rightarrow> if rp_type a \<noteq> VALKEY_REPLY_ARRAY then Inr None else attribute_loop (rp_element a) field)"

definition vfdw_search_vector_attr :: "VfdwKnnScan \<Rightarrow> valkeyReply option \<Rightarrow> valkeyReply option result" where
  "vfdw_search_vector_attr knn info =
     result_bind (vfdw_info_attribute info (kn_field knn)) (\<lambda>attr.
       if attr = None
       then raise ERRCODE_UNDEFINED_COLUMN (''index '' @ quoted (kn_index knn) @ '' has no field '' @ quoted (kn_field knn))
       else result_bind (vfdw_info_str attr ''type'') (\<lambda>type.
         if type \<noteq> Some ''VECTOR''
         then raise ERRCODE_DATATYPE_MISMATCH (''field '' @ quoted (kn_field knn) @ '' of index '' @ quoted (kn_index knn) @ '' is not a vector'')
         else vfdw_info_sub attr ''index''))"

text \<open>The product of the dimensions is a \<open>size_t\<close>.\<close>

definition vfdw_search_check_layout :: "VfdwKnnScan \<Rightarrow> valkeyReply option \<Rightarrow> nat \<Rightarrow> unit result" where
  "vfdw_search_check_layout knn idx qbytes =
     result_bind (vfdw_info_str idx ''data_type'') (\<lambda>dtype.
       if dtype \<noteq> Some ''FLOAT32''
       then raise ERRCODE_FEATURE_NOT_SUPPORTED (''index '' @ quoted (kn_index knn) @ '' stores '' @
              (case dtype of Some t \<Rightarrow> t | None \<Rightarrow> ''unreadable'') @ '' vectors, which this wrapper does not encode'')
       else result_bind (vfdw_info_int idx ''dimensions'') (\<lambda>dims.
         if dims > 0 \<and> int qbytes \<noteq> dims * 4 mod 2 ^ 64
         then raise ERRCODE_DATATYPE_MISMATCH (''the query vector has '' @ dec_nat (qbytes div 4) @ '' dimensions and index '' @
                quoted (kn_index knn) @ '' has '' @ dec_int dims)
         else Inr ()))"

definition vfdw_search_verify :: "VfdwKnnScan \<Rightarrow> valkeyReply option \<Rightarrow> nat \<Rightarrow> unit result" where
  "vfdw_search_verify knn info qbytes =
     result_bind (if vfdw_reply_is_error info then vfdw_reply_expect info [VALKEY_REPLY_ARRAY, VALKEY_REPLY_MAP] ''FT.INFO'' else Inr ()) (\<lambda>_.
     result_bind (vfdw_search_vector_attr knn info) (\<lambda>idx.
     result_bind (vfdw_info_str idx ''distance_metric'') (\<lambda>metric.
       if metric \<noteq> Some (kn_metric knn)
       then raise ERRCODE_DATATYPE_MISMATCH (''the ORDER BY operator measures '' @ kn_metric knn @ '' and index '' @ quoted (kn_index knn) @
              '' measures '' @ (case metric of Some t \<Rightarrow> t | None \<Rightarrow> ''something this wrapper could not read''))
       else vfdw_search_check_layout knn idx qbytes)))"

section \<open>Asking\<close>

definition vfdw_search_qvec :: "search_env \<Rightarrow> bytes result" where
  "vfdw_search_qvec env =
     (case sr_qvec env of
        None \<Rightarrow> raise ERRCODE_NULL_VALUE_NOT_ALLOWED ''the query vector is NULL''
      | Some text \<Rightarrow> vfdw_vec_from_text (sr_float4in env) ''the query vector'' text)"

text \<open>\<open>None\<close> when a bound is NULL and no row can match.\<close>

definition vfdw_search_add_query :: "search_env \<Rightarrow> VfdwKnnScan \<Rightarrow> bytes \<Rightarrow> VfdwCmd \<Rightarrow> VfdwCmd option result" where
  "vfdw_search_add_query env knn qvec cmd =
     result_bind (vfdw_filter_render (sr_types env) (zip (kn_terms knn) (sr_bounds env)) []) (\<lambda>r.
       case r of
         None \<Rightarrow> Inr None
       | Some f \<Rightarrow>
           let q = (if f = [] then ''*'' else f) @ ''=>[KNN '' @ dec_int (kn_fetched_k knn) @ '' @'' @ kn_field knn @ '' $q AS '' @
                     VFDW_SEARCH_DIST_ALIAS @ '']''
           in Inr (Some (vfdw_cmd_add_cstr ''2'' (vfdw_cmd_add_cstr ''DIALECT'' (vfdw_cmd_add_bytes qvec
                (vfdw_cmd_add_cstr ''q'' (vfdw_cmd_add_cstr ''2'' (vfdw_cmd_add_cstr ''PARAMS'' (vfdw_cmd_add_cstr q
                (vfdw_cmd_add_cstr (kn_index knn) (vfdw_cmd_add_cstr ''FT.SEARCH'' cmd)))))))))))"

abbreviation upd_knn :: "(VfdwKnnScan \<Rightarrow> VfdwKnnScan) \<Rightarrow> VfdwScanState \<Rightarrow> VfdwScanState" where
  "upd_knn f st \<equiv> st\<lparr>sc_knn := f (sc_knn st)\<rparr>"

definition vfdw_search_unsatisfiable :: "nat \<Rightarrow> VfdwScanState \<Rightarrow> VfdwScanState result" where
  "vfdw_search_unsatisfiable qlen st =
     result_bind (scan_batch_next st) (\<lambda>(info, st1).
     result_bind (vfdw_search_verify (sc_knn st1) info qlen) (\<lambda>_.
     Inr (upd_knn (\<lambda>knn. knn\<lparr>kn_empty := True, kn_ran := True\<rparr>) st1)))"

text \<open>The length of the query vector when the search was sent, \<open>None\<close> when nothing was asked.\<close>

definition vfdw_search_send :: "search_env \<Rightarrow> VfdwScanState \<Rightarrow> (nat option \<times> VfdwScanState) result" where
  "vfdw_search_send env st =
     result_bind (vfdw_search_qvec env) (\<lambda>qvec.
       let cmd = vfdw_cmd_add_cstr (kn_index (sc_knn st)) (vfdw_cmd_add_cstr ''FT.INFO'' (vfdw_cmd_init 10)) in
       result_bind (vfdw_batch_add (sr_append env (cmd_argv cmd)) (sc_batch st)) (\<lambda>b.
       let st1 = st\<lparr>sc_batch := b\<rparr> in
       result_bind (vfdw_search_add_query env (sc_knn st1) qvec (vfdw_cmd_reset cmd)) (\<lambda>q.
         case q of
           None \<Rightarrow> result_bind (vfdw_search_unsatisfiable (length qvec) st1) (\<lambda>st2. Inr (None, st2))
         | Some c \<Rightarrow>
             result_bind (vfdw_batch_add (sr_append env (cmd_argv c)) (sc_batch st1)) (\<lambda>b2.
             Inr (Some (length qvec), st1\<lparr>sc_batch := b2\<rparr>)))))"

text \<open>\<open>(int) ((elements - 1) / 2)\<close> on an unsigned count: an empty reply wraps around to \<open>-1\<close>.\<close>

definition returned_rows :: "valkeyReply \<Rightarrow> int" where
  "returned_rows reply = (if rp_element reply = [] then - 1 else (int (length (rp_element reply)) - 1) div 2)"

definition vfdw_search_run :: "search_env \<Rightarrow> VfdwScanState \<Rightarrow> VfdwScanState result" where
  "vfdw_search_run env st0 =
     (if kn_ran (sc_knn st0) then Inr st0
      else let st = (if kn_fetched_k (sc_knn st0) = 0 then upd_knn (\<lambda>knn. knn\<lparr>kn_fetched_k := kn_k knn\<rparr>) st0 else st0) in
        result_bind (vfdw_search_send env st) (\<lambda>(sent, st1).
          case sent of
            None \<Rightarrow> Inr st1
          | Some qlen \<Rightarrow>
              result_bind (scan_batch_next st1) (\<lambda>(info, st2).
              result_bind (vfdw_search_verify (sc_knn st2) info qlen) (\<lambda>_.
              result_bind (scan_batch_next st2) (\<lambda>(reply, st3).
              result_bind (vfdw_reply_expect reply [VALKEY_REPLY_ARRAY, VALKEY_REPLY_MAP] ''FT.SEARCH'') (\<lambda>_.
              Inr (upd_knn (\<lambda>knn. knn\<lparr>kn_reply := reply, kn_row := 0, kn_ran := True, kn_returned := returned_rows (the reply)\<rparr>) st3)))))))"

section \<open>Rows\<close>

definition vfdw_search_row_wanted :: "search_env \<Rightarrow> slot \<Rightarrow> bool result" where
  "vfdw_search_row_wanted env row = (case sr_qual env of None \<Rightarrow> Inr True | Some qual \<Rightarrow> qual row)"

definition grown_k :: "int \<Rightarrow> int" where
  "grown_k n = (if n < VFDW_SEARCH_MAX_K div 2 then n * 2 else VFDW_SEARCH_MAX_K)"

definition vfdw_search_grow :: "search_env \<Rightarrow> VfdwScanState \<Rightarrow> (bool \<times> VfdwScanState) result" where
  "vfdw_search_grow env st =
     (let knn = sc_knn st in
      if kn_exact knn \<or> int (kn_emitted knn) \<ge> kn_k knn then Inr (False, st)
      else if kn_returned knn < kn_fetched_k knn then Inr (False, st)
      else if kn_fetched_k knn \<ge> VFDW_SEARCH_MAX_K
      then raise ERRCODE_PROGRAM_LIMIT_EXCEEDED (''gave up over-fetching a vector search after '' @ dec_int (kn_fetched_k knn) @ '' rows'')
      else result_bind (vfdw_search_run env (upd_knn (\<lambda>knn. knn\<lparr>kn_fetched_k := grown_k (kn_fetched_k knn), kn_ran := False, kn_row := 0,
             kn_pass_survivors := 0\<rparr>) st)) (\<lambda>st1. Inr (True, st1)))"

datatype VfdwRowFate = VFDW_ROW_SKIP | VFDW_ROW_EMIT | VFDW_ROW_DONE

definition vfdw_search_take_row ::
  "search_env \<Rightarrow> valkeyReply \<Rightarrow> valkeyReply \<Rightarrow> VfdwScanState \<Rightarrow> (VfdwRowFate \<times> slot option \<times> VfdwScanState) result" where
  "vfdw_search_take_row env key flds st =
     (if rp_str key = None \<or> rp_type flds \<noteq> VALKEY_REPLY_ARRAY then Inr (VFDW_ROW_SKIP, None, st)
      else result_bind (vfdw_scan_fill (sr_val env) (sc_rowctx st) (the (rp_str key)) flds) (\<lambda>row.
           result_bind (vfdw_search_row_wanted env row) (\<lambda>wanted.
             if \<not> wanted then Inr (VFDW_ROW_SKIP, None, st)
             else let st1 = upd_knn (\<lambda>knn. knn\<lparr>kn_pass_survivors := kn_pass_survivors knn + 1\<rparr>) st; knn = sc_knn st1 in
               if kn_pass_survivors knn \<le> kn_emitted knn then Inr (VFDW_ROW_SKIP, None, st1)
               else if int (kn_emitted knn) \<ge> kn_k knn then Inr (VFDW_ROW_DONE, None, st1)
               else Inr (VFDW_ROW_EMIT, Some row, upd_knn (\<lambda>knn. knn\<lparr>kn_emitted := kn_emitted knn + 1\<rparr>) st1))))"

text \<open>One turn of the loop of \<open>vfdw_search_next\<close>: \<open>Inl\<close> is \<open>continue\<close>, \<open>Inr\<close> the slot it returns.\<close>

definition search_turn :: "search_env \<Rightarrow> VfdwScanState \<Rightarrow> ((unit + slot option) \<times> VfdwScanState) result" where
  "search_turn env st =
     (let reply = the (kn_reply (sc_knn st)); keyat = kn_row (sc_knn st) * 2 + 1 in
      if keyat + 1 \<ge> length (rp_element reply) then
        result_bind (vfdw_search_grow env st) (\<lambda>(grown, st1). Inr (if grown then Inl () else Inr None, st1))
      else result_bind (vfdw_reply_child reply keyat) (\<lambda>key.
           result_bind (vfdw_reply_child reply (keyat + 1)) (\<lambda>flds.
           result_bind (vfdw_search_take_row env key flds (upd_knn (\<lambda>knn. knn\<lparr>kn_row := kn_row knn + 1\<rparr>) st)) (\<lambda>(fate, row, st1).
           Inr (case fate of VFDW_ROW_SKIP \<Rightarrow> Inl () | _ \<Rightarrow> Inr row, st1)))))"

fun search_loop :: "nat \<Rightarrow> search_env \<Rightarrow> VfdwScanState \<Rightarrow> (slot option \<times> VfdwScanState) result option" where
  "search_loop 0 env st = None"
| "search_loop (Suc n) env st =
     (case search_turn env st of
        Inl e \<Rightarrow> Some (Inl e)
      | Inr (Inl _, st1) \<Rightarrow> search_loop n env st1
      | Inr (Inr row, st1) \<Rightarrow> Some (Inr (row, st1)))"

definition vfdw_search_next :: "nat \<Rightarrow> search_env \<Rightarrow> VfdwScanState \<Rightarrow> (slot option \<times> VfdwScanState) result option" where
  "vfdw_search_next fuel env st0 =
     (case vfdw_search_run env st0 of
        Inl e \<Rightarrow> Some (Inl e)
      | Inr st \<Rightarrow> if kn_empty (sc_knn st) then Some (Inr (None, st)) else search_loop fuel env st)"

text \<open>The fetch of a scan, the search included.\<close>

definition scan_next :: "nat \<Rightarrow> search_env \<Rightarrow> scan_env \<Rightarrow> VfdwScanState \<times> shared \<Rightarrow> (slot option \<times> VfdwScanState \<times> shared) result option" where
  "scan_next fuel senv env =
     vfdw_scan_fetch (\<lambda>(st, sh). map_option (map_sum id (\<lambda>(row, st1). (row, st1, sh))) (vfdw_search_next fuel senv st)) fuel env"

section \<open>The nearest rows\<close>

text \<open>
  What FT.SEARCH is documented to answer: the count, then the key and the fields of each of the \<open>k\<close> nearest documents of
  its ranking \<open>docs\<close>, all of them when there are fewer.
\<close>

definition knn_reply :: "(bytes \<times> valkeyReply) list \<Rightarrow> valkeyReply" where
  "knn_reply docs = Reply VALKEY_REPLY_ARRAY None 0 (Some (Reply VALKEY_REPLY_INTEGER None (int (length docs)) []) #
     concat (map (\<lambda>(key, flds). [Some (Reply VALKEY_REPLY_STRING (Some key) 0 []), Some flds]) docs))"

lemma knn_elements: "length (rp_element (knn_reply docs)) = 2 * length docs + 1"
proof -
  have "length (concat (map (\<lambda>(key, flds). [Some (Reply VALKEY_REPLY_STRING (Some key) 0 []), Some flds]) docs)) = 2 * length docs"
    by (induction docs) auto
  then show ?thesis by (simp add: knn_reply_def)
qed

lemma pair_nth:
  "i < length docs \<Longrightarrow> concat (map (\<lambda>d. [f d, g d]) docs) ! (2 * i) = f (docs ! i) \<and> concat (map (\<lambda>d. [f d, g d]) docs) ! Suc (2 * i) = g (docs ! i)"
proof (induction docs arbitrary: i)
  case (Cons d docs)
  then show ?case by (cases i) auto
qed simp

lemma knn_children:
  assumes "r < length docs"
  shows "vfdw_reply_child (knn_reply docs) (r * 2 + 1) = Inr (Reply VALKEY_REPLY_STRING (Some (fst (docs ! r))) 0 [])"
    "vfdw_reply_child (knn_reply docs) (r * 2 + 1 + 1) = Inr (snd (docs ! r))"
proof -
  let ?f = "\<lambda>d. Some (Reply VALKEY_REPLY_STRING (Some (fst d)) 0 [])" and ?g = "\<lambda>d. Some (snd d)"
  have e: "rp_element (knn_reply docs) = Some (Reply VALKEY_REPLY_INTEGER None (int (length docs)) []) # concat (map (\<lambda>d. [?f d, ?g d]) docs)"
    by (simp add: knn_reply_def case_prod_unfold)
  have n: "rp_element (knn_reply docs) ! (r * 2 + 1) = ?f (docs ! r)" "rp_element (knn_reply docs) ! (r * 2 + 1 + 1) = ?g (docs ! r)"
    using pair_nth [OF assms, of ?f ?g] unfolding e by (simp_all add: mult.commute)
  have l: "r * 2 + 1 < length (rp_element (knn_reply docs))" "r * 2 + 1 + 1 < length (rp_element (knn_reply docs))"
    using assms by (simp_all add: knn_elements)
  show "vfdw_reply_child (knn_reply docs) (r * 2 + 1) = Inr (Reply VALKEY_REPLY_STRING (Some (fst (docs ! r))) 0 [])"
    using n(1) l(1) by (simp add: vfdw_reply_child_def)
  show "vfdw_reply_child (knn_reply docs) (r * 2 + 1 + 1) = Inr (snd (docs ! r))"
    using n(2) l(2) by (simp add: vfdw_reply_child_def)
qed

lemma knn_returned: "returned_rows (knn_reply docs) = int (length docs)"
proof -
  have "rp_element (knn_reply docs) \<noteq> []" by (simp add: knn_reply_def)
  then show ?thesis by (simp add: returned_rows_def knn_elements)
qed

text \<open>How many documents pass \<open>i\<close> asks for.\<close>

definition pass_k :: "int \<Rightarrow> nat \<Rightarrow> int" where
  "pass_k k i = (grown_k ^^ i) k"

lemma pass_k_0 [simp]: "pass_k k 0 = k"
  by (simp add: pass_k_def)

lemma pass_k_Suc: "pass_k k (Suc i) = grown_k (pass_k k i)"
  by (simp add: pass_k_def)

lemma pass_k_ge: "1 \<le> k \<Longrightarrow> min (2 ^ i) VFDW_SEARCH_MAX_K \<le> pass_k k i"
proof (induction i)
  case (Suc i)
  show ?case
  proof (cases "pass_k k i < VFDW_SEARCH_MAX_K div 2")
    case True
    then have "2 ^ i \<le> pass_k k i" using Suc by (simp add: VFDW_SEARCH_MAX_K_def min_def split: if_splits)
    then show ?thesis using True by (simp add: pass_k_Suc grown_k_def)
  qed (simp add: pass_k_Suc grown_k_def)
qed (simp add: VFDW_SEARCH_MAX_K_def)

lemma pass_k_pos: "1 \<le> k \<Longrightarrow> 1 \<le> pass_k k i"
proof -
  assume "1 \<le> k"
  moreover have "(1::int) \<le> 2 ^ i" by simp
  then have "1 \<le> min (2 ^ i) VFDW_SEARCH_MAX_K" by (simp add: VFDW_SEARCH_MAX_K_def)
  ultimately show ?thesis using pass_k_ge [of k i] by linarith
qed

lemma passes_bounded: "1 \<le> k \<Longrightarrow> pass_k k i < VFDW_SEARCH_MAX_K \<Longrightarrow> i < 16"
proof (rule ccontr)
  assume k: "1 \<le> k" and lt: "pass_k k i < VFDW_SEARCH_MAX_K" and "\<not> i < 16"
  then have "(2::int) ^ 16 \<le> 2 ^ i" by (intro power_increasing) simp_all
  then show False using pass_k_ge [OF k, of i] lt by (simp add: VFDW_SEARCH_MAX_K_def)
qed

text \<open>The check of the index looks at three names only.\<close>

lemma verify_cong:
  assumes "kn_index a = kn_index b" "kn_field a = kn_field b" "kn_metric a = kn_metric b"
  shows "vfdw_search_verify a info n = vfdw_search_verify b info n"
proof -
  have v: "vfdw_search_vector_attr a info = vfdw_search_vector_attr b info"
    unfolding vfdw_search_vector_attr_def assms ..
  have l: "vfdw_search_check_layout a = vfdw_search_check_layout b"
    unfolding vfdw_search_check_layout_def assms ..
  show ?thesis unfolding vfdw_search_verify_def assms v l ..
qed

text \<open>
  A server that holds the index: commands go out, the index fits the query vector, every bound has a value, and each
  document gives a row. Pass \<open>i\<close> is answered with the description of the index and its nearest documents.
\<close>

definition serves ::
  "search_env \<Rightarrow> VfdwKnnScan \<Rightarrow> VfdwRowCtx \<Rightarrow> valkeyReply \<Rightarrow> (bytes \<times> valkeyReply) list \<Rightarrow>
   (bytes \<times> valkeyReply \<Rightarrow> slot) \<Rightarrow> (bytes \<times> valkeyReply \<Rightarrow> bool) \<Rightarrow> bool" where
  "serves env knn rc info docs row w \<longleftrightarrow>
     (\<forall>argv. sr_append env argv = Inr ()) \<and>
     (\<exists>q. vfdw_search_qvec env = Inr q \<and> vfdw_search_verify knn (Some info) (length q) = Inr ()) \<and>
     (\<exists>f. vfdw_filter_render (sr_types env) (zip (kn_terms knn) (sr_bounds env)) [] = Inr (Some f)) \<and>
     (\<forall>d \<in> set docs. rp_type (snd d) = VALKEY_REPLY_ARRAY \<and>
        vfdw_scan_fill (sr_val env) rc (fst d) (snd d) = Inr (row d) \<and> vfdw_search_row_wanted env (row d) = Inr (w d))"

definition pass_docs :: "int \<Rightarrow> 'a list \<Rightarrow> nat \<Rightarrow> 'a list" where
  "pass_docs k docs i = take (nat (pass_k k i)) docs"

definition nearest_answers :: "int \<Rightarrow> valkeyReply \<Rightarrow> (bytes \<times> valkeyReply) list \<Rightarrow> nat \<Rightarrow> valkeyReply list" where
  "nearest_answers k info docs i = concat (map (\<lambda>j. [info, knn_reply (pass_docs k docs j)]) [i..<18])"

lemma nearest_answers_Cons:
  "i < 18 \<Longrightarrow> nearest_answers k info docs i = info # knn_reply (pass_docs k docs i) # nearest_answers k info docs (Suc i)"
  by (simp add: nearest_answers_def upt_conv_Cons)

text \<open>The scan while it reads row \<open>r\<close> of pass \<open>i\<close>, \<open>e\<close> rows given so far.\<close>

definition in_pass ::
  "VfdwKnnScan \<Rightarrow> VfdwRowCtx \<Rightarrow> valkeyReply \<Rightarrow> (bytes \<times> valkeyReply) list \<Rightarrow> (bytes \<times> valkeyReply \<Rightarrow> bool) \<Rightarrow>
   nat \<Rightarrow> nat \<Rightarrow> nat \<Rightarrow> VfdwScanState \<Rightarrow> bool" where
  "in_pass knn rc info docs w i r e st \<longleftrightarrow>
     (let ds = pass_docs (kn_k knn) docs i in
      sc_rowctx st = rc \<and> r \<le> length ds \<and> i < 18 \<and> (kn_exact knn \<longrightarrow> i = 0) \<and>
      length (filter w (take r ds)) \<le> e \<and> int e \<le> kn_k knn \<and> e \<le> length (filter w docs) \<and>
      ready (sc_batch st) 0 (nearest_answers (kn_k knn) info docs (Suc i)) \<and>
      sc_knn st = knn\<lparr>kn_reply := Some (knn_reply ds), kn_row := r, kn_ran := True, kn_emitted := e, kn_fetched_k := pass_k (kn_k knn) i,
        kn_returned := int (length ds), kn_pass_survivors := length (filter w (take r ds))\<rparr>)"

lemma batch_next_ready:
  assumes "ready (sc_batch st) (Suc n) (r # rs)"
  obtains b where "scan_batch_next st = Inr (Some r, st\<lparr>sc_batch := b\<rparr>)" "ready b n rs"
  using br.deq_ready [OF assms] by (auto simp: scan_batch_next_def)

lemma send_ready:
  assumes s: "serves env knn rc info docs row w" and n: "ready (sc_batch st) 0 rs" and "kn_terms (sc_knn st) = kn_terms knn"
  obtains b qlen where "vfdw_search_send env st = Inr (Some qlen, st\<lparr>sc_batch := b\<rparr>)" "ready b 2 rs"
    "vfdw_search_verify knn (Some info) qlen = Inr ()"
proof -
  have a: "sr_append env argv = Inr ()" for argv using s by (simp add: serves_def)
  from s obtain q f where q: "vfdw_search_qvec env = Inr q" "vfdw_search_verify knn (Some info) (length q) = Inr ()"
    and f: "vfdw_filter_render (sr_types env) (zip (kn_terms knn) (sr_bounds env)) [] = Inr (Some f)"
    unfolding serves_def by blast
  obtain b1 where b1: "vfdw_batch_add (Inr ()) (sc_batch st) = Inr b1" "ready b1 1 rs" using br.enq_ready [OF n] by auto
  obtain b2 where b2: "vfdw_batch_add (Inr ()) b1 = Inr b2" "ready b2 2 rs" using br.enq_ready [OF b1(2)] by (auto simp: numeral_2_eq_2)
  have "vfdw_search_send env st = Inr (Some (length q), st\<lparr>sc_batch := b2\<rparr>)"
    by (simp add: vfdw_search_send_def vfdw_search_add_query_def q f a b1 b2 assms Let_def)
  then show thesis using that b2(2) q(2) by blast
qed

lemma run_pass:
  assumes s: "serves env knn rc info docs row w" and rdy: "ready (sc_batch st) 0 (nearest_answers (kn_k knn) info docs i)"
    and i: "i < 18" "kn_exact knn \<longrightarrow> i = 0" and e: "int e \<le> kn_k knn" "e \<le> length (filter w docs)" and k: "1 \<le> kn_k knn"
    and rc: "sc_rowctx st = rc" and f: "f = pass_k (kn_k knn) i \<or> f = 0 \<and> i = 0"
    and st: "sc_knn st = knn\<lparr>kn_reply := rep, kn_row := 0, kn_ran := False, kn_emitted := e, kn_fetched_k := f, kn_returned := ret, kn_pass_survivors := 0\<rparr>"
  obtains st' where "vfdw_search_run env st = Inr st'" "in_pass knn rc info docs w i 0 e st'"
proof -
  let ?k = "pass_k (kn_k knn) i" and ?ds = "pass_docs (kn_k knn) docs i"
  let ?st = "if kn_fetched_k (sc_knn st) = 0 then upd_knn (\<lambda>knn. knn\<lparr>kn_fetched_k := kn_k knn\<rparr>) st else st"
  have kn: "sc_knn ?st = knn\<lparr>kn_reply := rep, kn_row := 0, kn_ran := False, kn_emitted := e, kn_fetched_k := ?k, kn_returned := ret, kn_pass_survivors := 0\<rparr>"
    using f pass_k_pos [OF k, of i] by (auto simp: st)
  have r0: "ready (sc_batch ?st) 0 (info # knn_reply ?ds # nearest_answers (kn_k knn) info docs (Suc i))"
    using rdy by (simp add: nearest_answers_Cons [OF i(1)])
  obtain b qlen where b: "vfdw_search_send env ?st = Inr (Some qlen, ?st\<lparr>sc_batch := b\<rparr>)"
      "ready b 2 (info # knn_reply ?ds # nearest_answers (kn_k knn) info docs (Suc i))"
    and v: "vfdw_search_verify knn (Some info) qlen = Inr ()"
    by (rule send_ready [OF s r0]) (simp add: kn)
  obtain b1 where b1: "scan_batch_next (?st\<lparr>sc_batch := b\<rparr>) = Inr (Some info, ?st\<lparr>sc_batch := b1\<rparr>)"
      "ready b1 1 (knn_reply ?ds # nearest_answers (kn_k knn) info docs (Suc i))"
    using b(2) by - (rule batch_next_ready [of "?st\<lparr>sc_batch := b\<rparr>" 1], simp_all add: numeral_2_eq_2)
  obtain b2 where b2: "scan_batch_next (?st\<lparr>sc_batch := b1\<rparr>) = Inr (Some (knn_reply ?ds), ?st\<lparr>sc_batch := b2\<rparr>)"
      "ready b2 0 (nearest_answers (kn_k knn) info docs (Suc i))"
    using b1(2) by - (rule batch_next_ready [of "?st\<lparr>sc_batch := b1\<rparr>" 0], simp_all)
  have v': "vfdw_search_verify (sc_knn (?st\<lparr>sc_batch := c\<rparr>)) (Some info) qlen = Inr ()" for c
    using v verify_cong [of "sc_knn (?st\<lparr>sc_batch := c\<rparr>)" knn] kn by simp
  have x: "vfdw_reply_expect (Some (knn_reply ?ds)) [VALKEY_REPLY_ARRAY, VALKEY_REPLY_MAP] what = Inr ()" for what
    by (simp add: vfdw_reply_expect_def vfdw_reply_is_error_def knn_reply_def)
  define st' where "st' = upd_knn (\<lambda>knn. knn\<lparr>kn_reply := Some (knn_reply ?ds), kn_row := 0, kn_ran := True,
    kn_returned := returned_rows (knn_reply ?ds)\<rparr>) (?st\<lparr>sc_batch := b2\<rparr>)"
  have nr: "\<not> kn_ran (sc_knn st)" by (simp add: st)
  have "vfdw_search_run env st = Inr st'"
    unfolding vfdw_search_run_def Let_def if_not_P [OF nr] b(1)
    by (simp only: result_bind.simps prod.case option.case b1(1) b2(1) x v' st'_def option.sel)
  moreover have "in_pass knn rc info docs w i 0 e st'"
    using i e b2(2) rc by (simp add: in_pass_def st'_def Let_def kn knn_returned)
  ultimately show thesis using that by blast
qed

lemma survivor_nth:
  assumes "r < length ds" "ds = take n docs" "w (docs ! r)"
  shows "filter w docs ! length (filter w (take r ds)) = docs ! r" "length (filter w (take r ds)) < length (filter w docs)"
proof -
  have d: "docs = take r docs @ docs ! r # drop (Suc r) docs"
    by (rule id_take_nth_drop) (use assms in simp)
  have t: "take r ds = take r docs" using assms by simp
  have f: "filter w docs = filter w (take r docs) @ docs ! r # filter w (drop (Suc r) docs)"
    using arg_cong [OF d, of "filter w"] assms(3) by simp
  show "filter w docs ! length (filter w (take r ds)) = docs ! r" "length (filter w (take r ds)) < length (filter w docs)"
    unfolding t by (subst f, simp)+
qed

text \<open>A turn on a document: it is skipped, it is the next row, or the limit is reached.\<close>

lemma row_turn:
  assumes s: "serves env knn rc info docs row w" and p: "in_pass knn rc info docs w i r e st"
    and r: "r < length (pass_docs (kn_k knn) docs i)"
  shows "(\<exists>st'. search_turn env st = Inr (Inl (), st') \<and> in_pass knn rc info docs w i (Suc r) e st') \<or>
    (e < length (filter w docs) \<and> int e < kn_k knn \<and> (\<exists>st'. search_turn env st = Inr (Inr (Some (row (filter w docs ! e))), st') \<and>
       in_pass knn rc info docs w i (Suc r) (Suc e) st')) \<or>
    (int e = kn_k knn \<and> (\<exists>st'. search_turn env st = Inr (Inr None, st')))"
proof -
  let ?ds = "pass_docs (kn_k knn) docs i" let ?d = "?ds ! r" let ?n = "length (filter w (take r ?ds))"
  let ?st1 = "upd_knn (\<lambda>knn. knn\<lparr>kn_row := kn_row knn + 1\<rparr>) st"
  let ?key = "Reply VALKEY_REPLY_STRING (Some (fst ?d)) 0 []"
  have kn: "sc_knn st = knn\<lparr>kn_reply := Some (knn_reply ?ds), kn_row := r, kn_ran := True, kn_emitted := e, kn_fetched_k := pass_k (kn_k knn) i,
        kn_returned := int (length ?ds), kn_pass_survivors := ?n\<rparr>"
    and rc: "sc_rowctx st = rc" and n: "?n \<le> e" and e: "int e \<le> kn_k knn" "e \<le> length (filter w docs)"
    using p by (simp_all add: in_pass_def Let_def)
  have d: "?d = docs ! r" and D: "?d \<in> set docs" using r by (simp_all add: pass_docs_def)
  have doc: "rp_type (snd ?d) = VALKEY_REPLY_ARRAY" "vfdw_scan_fill (sr_val env) rc (fst ?d) (snd ?d) = Inr (row ?d)"
    "vfdw_search_row_wanted env (row ?d) = Inr (w ?d)"
    using s D by (simp_all add: serves_def)
  have t: "filter w (take (Suc r) ?ds) = filter w (take r ?ds) @ (if w ?d then [?d] else [])"
    using r by (simp add: take_Suc_conv_app_nth)
  have turn: "search_turn env st = result_bind (vfdw_search_take_row env ?key (snd ?d) ?st1) (\<lambda>(fate, row, st1).
      Inr (case fate of VFDW_ROW_SKIP \<Rightarrow> Inl () | _ \<Rightarrow> Inr row, st1))"
    using r knn_children [OF r] by (simp add: search_turn_def Let_def kn knn_elements)
  have take: "vfdw_search_take_row env ?key (snd ?d) ?st1 =
      (if \<not> w ?d then Inr (VFDW_ROW_SKIP, None, ?st1)
       else let st1 = upd_knn (\<lambda>knn. knn\<lparr>kn_pass_survivors := ?n + 1\<rparr>) ?st1 in
         if ?n < e then Inr (VFDW_ROW_SKIP, None, st1)
         else if int e \<ge> kn_k knn then Inr (VFDW_ROW_DONE, None, st1)
         else Inr (VFDW_ROW_EMIT, Some (row ?d), upd_knn (\<lambda>knn. knn\<lparr>kn_emitted := e + 1\<rparr>) st1))"
    by (simp add: vfdw_search_take_row_def doc rc kn Let_def)
  consider "\<not> w ?d" | "w ?d" "?n < e" | "w ?d" "?n = e" "kn_k knn \<le> int e" | "w ?d" "?n = e" "int e < kn_k knn"
    using n by linarith
  then show ?thesis
  proof cases
    case 1
    then have "in_pass knn rc info docs w i (Suc r) e ?st1" using p r t by (simp add: in_pass_def Let_def)
    then show ?thesis using 1 turn take by auto
  next
    case 2
    let ?st2 = "upd_knn (\<lambda>knn. knn\<lparr>kn_pass_survivors := ?n + 1\<rparr>) ?st1"
    have "in_pass knn rc info docs w i (Suc r) e ?st2" using p r t 2 by (simp add: in_pass_def Let_def)
    then show ?thesis using 2 turn take by (auto simp: Let_def)
  next
    case 3
    then show ?thesis using turn take e by (auto simp: Let_def)
  next
    case 4
    let ?st2 = "upd_knn (\<lambda>knn. knn\<lparr>kn_emitted := e + 1\<rparr>) (upd_knn (\<lambda>knn. knn\<lparr>kn_pass_survivors := ?n + 1\<rparr>) ?st1)"
    have nth: "filter w docs ! e = ?d" "e < length (filter w docs)"
      using survivor_nth [OF r pass_docs_def, of w] 4 by (simp_all add: d)
    have "in_pass knn rc info docs w i (Suc r) (Suc e) ?st2" using p r t 4 nth by (simp add: in_pass_def Let_def)
    then show ?thesis using 4 turn take nth by (auto simp: Let_def)
  qed
qed

text \<open>A turn at the end of the reply: there is no more to find, or the next pass begins.\<close>

lemma grow_turn:
  assumes s: "serves env knn rc info docs row w" and p: "in_pass knn rc info docs w i r e st" and k: "1 \<le> kn_k knn"
    and r: "r = length (pass_docs (kn_k knn) docs i)"
    and x: "kn_exact knn \<longrightarrow> (\<forall>d \<in> set docs. w d)"
    and enough: "kn_exact knn \<or> length docs < 65536 \<or> kn_k knn \<le> int (length (filter w (take 65536 docs)))"
  shows "(int e = min (kn_k knn) (int (length (filter w docs))) \<and> search_turn env st = Inr (Inr None, st)) \<or>
    (\<exists>st'. search_turn env st = Inr (Inl (), st') \<and> in_pass knn rc info docs w (Suc i) 0 e st')"
proof -
  let ?ds = "pass_docs (kn_k knn) docs i"
  have kn: "sc_knn st = knn\<lparr>kn_reply := Some (knn_reply ?ds), kn_row := r, kn_ran := True, kn_emitted := e, kn_fetched_k := pass_k (kn_k knn) i,
        kn_returned := int (length ?ds), kn_pass_survivors := length (filter w ?ds)\<rparr>"
    and rc: "sc_rowctx st = rc" and n: "length (filter w ?ds) \<le> e" and e: "int e \<le> kn_k knn" "e \<le> length (filter w docs)"
    and rdy: "ready (sc_batch st) 0 (nearest_answers (kn_k knn) info docs (Suc i))" and i: "kn_exact knn \<longrightarrow> i = 0"
    using p r by (simp_all add: in_pass_def Let_def)
  have turn: "search_turn env st = result_bind (vfdw_search_grow env st) (\<lambda>(grown, st1). Inr (if grown then Inl () else Inr None, st1))"
    by (simp add: search_turn_def Let_def kn knn_elements r)
  consider (exact) "kn_exact knn" | (full) "int e \<ge> kn_k knn" | (short) "\<not> kn_exact knn" "length ?ds < nat (pass_k (kn_k knn) i)"
    | (more) "\<not> kn_exact knn" "int e < kn_k knn" "nat (pass_k (kn_k knn) i) \<le> length ?ds" by linarith
  then show ?thesis
  proof cases
    case exact
    then have f: "filter w ?ds = ?ds" "filter w docs = docs"
      using x by (auto simp: pass_docs_def filter_id_conv dest: in_set_takeD)
    have "length ?ds = min (nat (kn_k knn)) (length docs)" using exact i by (simp add: pass_docs_def)
    then have "length (filter w ?ds) = min (nat (kn_k knn)) (length docs)" "length (filter w docs) = length docs" unfolding f by simp_all
    then show ?thesis using exact n e k turn by (auto simp: vfdw_search_grow_def Let_def kn)
  next
    case full
    then show ?thesis using e turn by (auto simp: vfdw_search_grow_def Let_def kn)
  next
    case short
    then have "?ds = docs" by (simp add: pass_docs_def min_def split: if_splits)
    moreover have "int (length ?ds) < pass_k (kn_k knn) i" using short by linarith
    ultimately show ?thesis using n e turn by (auto simp: vfdw_search_grow_def Let_def kn)
  next
    case more
    have m: "pass_k (kn_k knn) i < VFDW_SEARCH_MAX_K"
    proof (rule ccontr)
      assume "\<not> ?thesis"
      then have "65536 \<le> nat (pass_k (kn_k knn) i)" by (simp add: VFDW_SEARCH_MAX_K_def)
      then have "take 65536 docs = take 65536 ?ds" "65536 \<le> length docs" using more by (simp_all add: pass_docs_def min_def split: if_splits)
      then have "length (filter w (take 65536 docs)) \<le> length (filter w ?ds)"
        by (metis append_take_drop_id filter_append length_append le_add1)
      then show False using enough more n \<open>65536 \<le> length docs\<close> by linarith
    qed
    let ?st1 = "upd_knn (\<lambda>knn. knn\<lparr>kn_fetched_k := grown_k (kn_fetched_k knn), kn_ran := False, kn_row := 0, kn_pass_survivors := 0\<rparr>) st"
    have f: "\<not> int (length ?ds) < pass_k (kn_k knn) i" using more by linarith
    obtain st' where st': "vfdw_search_run env ?st1 = Inr st'" "in_pass knn rc info docs w (Suc i) 0 e st'"
      by (rule run_pass [OF s, where st = ?st1 and i = "Suc i" and e = e and f = "pass_k (kn_k knn) (Suc i)" and
          rep = "Some (knn_reply ?ds)" and ret = "int (length ?ds)"])
        (use passes_bounded [OF k m] more e k rc rdy kn in \<open>simp_all add: pass_k_Suc\<close>)
    have "vfdw_search_grow env st = Inr (True, st')"
      using more(1,2) f m st'(1) by (simp add: vfdw_search_grow_def Let_def kn)
    then show ?thesis using turn st'(2) by auto
  qed
qed

text \<open>The executor's use of the scan: rows until there are none, at most \<open>n\<close> calls.\<close>

fun search_all :: "nat \<Rightarrow> nat \<Rightarrow> search_env \<Rightarrow> VfdwScanState \<Rightarrow> slot list result option" where
  "search_all 0 fuel env st = None"
| "search_all (Suc n) fuel env st =
     (case vfdw_search_next fuel env st of
        None \<Rightarrow> None
      | Some (Inl e) \<Rightarrow> Some (Inl e)
      | Some (Inr (None, st1)) \<Rightarrow> Some (Inr [])
      | Some (Inr (Some row, st1)) \<Rightarrow> map_option (map_sum id ((#) row)) (search_all n fuel env st1))"

text \<open>What the loop comes back with after \<open>e\<close> rows: the next one, or none when the limit or the last is reached.\<close>

definition next_is ::
  "VfdwKnnScan \<Rightarrow> VfdwRowCtx \<Rightarrow> valkeyReply \<Rightarrow> (bytes \<times> valkeyReply) list \<Rightarrow> (bytes \<times> valkeyReply \<Rightarrow> slot) \<Rightarrow>
   (bytes \<times> valkeyReply \<Rightarrow> bool) \<Rightarrow> nat \<Rightarrow> (slot option \<times> VfdwScanState) result option \<Rightarrow> bool" where
  "next_is knn rc info docs row w e res \<longleftrightarrow>
     (if int e < min (kn_k knn) (int (length (filter w docs)))
      then \<exists>st i r. res = Some (Inr (Some (row (filter w docs ! e)), st)) \<and> in_pass knn rc info docs w i r (Suc e) st
      else int e = min (kn_k knn) (int (length (filter w docs))) \<and> (\<exists>st. res = Some (Inr (None, st))))"

text \<open>A turn that only continues comes nearer to the last row of the last pass.\<close>

lemma loop_result:
  assumes s: "serves env knn rc info docs row w" and p: "in_pass knn rc info docs w i r e st" and k: "1 \<le> kn_k knn"
    and x: "kn_exact knn \<longrightarrow> (\<forall>d \<in> set docs. w d)"
    and enough: "kn_exact knn \<or> length docs < 65536 \<or> kn_k knn \<le> int (length (filter w (take 65536 docs)))"
    and fuel: "(18 - i) * Suc (length docs) - r < fuel"
  shows "next_is knn rc info docs row w e (search_loop fuel env st)"
  using p fuel
proof (induction fuel arbitrary: i r st)
  case 0
  then show ?case by simp
next
  case (Suc fuel)
  let ?ds = "pass_docs (kn_k knn) docs i"
  have b: "r \<le> length ?ds" "length ?ds \<le> length docs" "i < 18" "e \<le> length (filter w docs)"
    using Suc.prems(1) by (simp_all add: in_pass_def Let_def pass_docs_def)
  have big: "(18 - i) * Suc (length docs) = (18 - Suc i) * Suc (length docs) + Suc (length docs)"
    using b(3) Suc_diff_Suc [OF b(3)] by (metis add.commute mult_Suc)
  show ?case
  proof (cases "r < length ?ds")
    case True
    have f: "(18 - i) * Suc (length docs) - Suc r < fuel" using Suc.prems(2) True b big by linarith
    consider (skip) st' where "search_turn env st = Inr (Inl (), st')" "in_pass knn rc info docs w i (Suc r) e st'"
      | (emit) st' where "e < length (filter w docs)" "int e < kn_k knn" "in_pass knn rc info docs w i (Suc r) (Suc e) st'"
          "search_turn env st = Inr (Inr (Some (row (filter w docs ! e))), st')"
      | (limit) st' where "int e = kn_k knn" "search_turn env st = Inr (Inr None, st')"
      using row_turn [OF s Suc.prems(1) True] by blast
    then show ?thesis
    proof cases
      case skip
      then show ?thesis using Suc.IH [OF skip(2) f] by simp
    qed (use b(4) in \<open>auto simp: next_is_def\<close>)
  next
    case False
    then have r: "r = length ?ds" using b by simp
    have f: "(18 - Suc i) * Suc (length docs) - 0 < fuel" using Suc.prems(2) b big by linarith
    consider (last) "int e = min (kn_k knn) (int (length (filter w docs)))" "search_turn env st = Inr (Inr None, st)"
      | (pass) st' where "search_turn env st = Inr (Inl (), st')" "in_pass knn rc info docs w (Suc i) 0 e st'"
      using grow_turn [OF s Suc.prems(1) k r x enough] by blast
    then show ?thesis
    proof cases
      case pass
      then show ?thesis using Suc.IH [OF pass(2) f] by simp
    qed (auto simp: next_is_def)
  qed
qed

lemma next_in_pass: "in_pass knn rc info docs w i r e st \<Longrightarrow> \<not> kn_empty knn \<Longrightarrow> vfdw_search_next fuel env st = search_loop fuel env st"
  by (simp add: in_pass_def vfdw_search_next_def vfdw_search_run_def Let_def)

lemma all_in_pass:
  assumes s: "serves env knn rc info docs row w" and k: "1 \<le> kn_k knn" and ne: "\<not> kn_empty knn"
    and x: "kn_exact knn \<longrightarrow> (\<forall>d \<in> set docs. w d)"
    and enough: "kn_exact knn \<or> length docs < 65536 \<or> kn_k knn \<le> int (length (filter w (take 65536 docs)))"
    and p: "in_pass knn rc info docs w i r e st" and n: "min (nat (kn_k knn)) (length (filter w docs)) - e < n"
    and fuel: "18 * Suc (length docs) < fuel"
  shows "search_all n fuel env st = Some (Inr (drop e (take (nat (kn_k knn)) (map row (filter w docs)))))"
  using p n
proof (induction n arbitrary: i r e st)
  case (Suc n)
  have "(18 - i) * Suc (length docs) \<le> 18 * Suc (length docs)" by (rule mult_le_mono1) simp
  then have f: "(18 - i) * Suc (length docs) - r < fuel" using fuel by linarith
  note r = loop_result [OF s Suc.prems(1) k x enough f] next_in_pass [OF Suc.prems(1) ne, of fuel env]
  show ?case
  proof (cases "int e < min (kn_k knn) (int (length (filter w docs)))")
    case True
    then obtain st' i' r' where st': "vfdw_search_next fuel env st = Some (Inr (Some (row (filter w docs ! e)), st'))"
        "in_pass knn rc info docs w i' r' (Suc e) st'" using r by (auto simp: next_is_def)
    have e: "e < length (take (nat (kn_k knn)) (map row (filter w docs)))" using True by auto
    have "search_all n fuel env st' = Some (Inr (drop (Suc e) (take (nat (kn_k knn)) (map row (filter w docs)))))"
      by (rule Suc.IH [OF st'(2)]) (use Suc.prems(2) e in \<open>simp add: min_def split: if_splits\<close>)
    then show ?thesis using e by (simp add: st'(1) Cons_nth_drop_Suc [OF e, symmetric])
  next
    case False
    then obtain st' where "vfdw_search_next fuel env st = Some (Inr (None, st'))"
        and "int e = min (kn_k knn) (int (length (filter w docs)))" using r by (auto simp: next_is_def)
    then show ?thesis by auto
  qed
qed simp

lemma reset_fresh:
  assumes "vfdw_search_reset knn = knn"
  shows "kn_emitted knn = 0" "kn_fetched_k knn = 0" "kn_row knn = 0" "kn_pass_survivors knn = 0" "\<not> kn_ran knn" "\<not> kn_empty knn"
  by (subst assms [symmetric], simp add: vfdw_search_reset_def)+


text \<open>Two documents, a limit of one, and a restriction that only the second passes: the first pass finds nothing, the second does.\<close>

definition text_reply :: "string \<Rightarrow> valkeyReply" where
  "text_reply s = Reply VALKEY_REPLY_STRING (Some s) 0 []"

definition pairs_reply :: "valkeyReply list \<Rightarrow> valkeyReply" where
  "pairs_reply rs = Reply VALKEY_REPLY_ARRAY None 0 (map Some rs)"

definition index_info :: valkeyReply where
  "index_info = pairs_reply [text_reply ''attributes'', pairs_reply [pairs_reply
     [text_reply ''identifier'', text_reply ''v'', text_reply ''type'', text_reply ''VECTOR'', text_reply ''index'',
      pairs_reply [text_reply ''distance_metric'', text_reply ''L2'', text_reply ''data_type'', text_reply ''FLOAT32'',
        text_reply ''dimensions'', Reply VALKEY_REPLY_INTEGER None 1 []]]]]"

definition two_docs :: "(bytes \<times> valkeyReply) list" where
  "two_docs = [(''a'', pairs_reply []), (''b'', pairs_reply [])]"

definition key_map :: VfdwTableMap where
  "key_map = (zero_map 2)\<lparr>tm_cols := [text_column 1 VFDW_COL_KEY], tm_keyattno := 1\<rparr>"

definition near_scan :: VfdwScanState where
  "near_scan = string_scan\<lparr>sc_map := key_map, sc_rowctx := vfdw_row_ctx_init key_map,
     sc_batch := vfdw_batch_begin 2 (quiet_wire\<lparr>wire_read := (\<lambda>n. Inr (nearest_answers 1 index_info two_docs 0 ! n))\<rparr>),
     sc_knn := zero_knn\<lparr>kn_index := ''idx'', kn_field := ''v'', kn_metric := ''L2'', kn_k := 1\<rparr>\<rparr>"

definition near_env :: search_env where
  "near_env = \<lparr>sr_val = text_env, sr_types = sample_type_env, sr_append = (\<lambda>_. Inr ()),
     sr_float4in = bits_in, sr_qvec = Some ''[1]'', sr_bounds = [], sr_qual = Some (\<lambda>row. Inr (row = [Some (DOpaque ''b'')]))\<rparr>"


end
