(* ===== verification/Io.thy ===== *)
theory Io
  imports Wire "HOL-Library.Signed_Division" "HOL-Library.Word"
begin

text \<open>
  Interruptible I/O: \<open>src/vfdw_io.c\<close>. The allocator wrappers that bound what the library may allocate, at the width of
  \<open>size_t\<close>; the waits against an absolute deadline; the loops that drain the output and read a reply; the opening of a connection,
  with its ownership of the socket.

  The clock, the latch, the socket and libvalkey are outside. Each is a function of how often it was asked, so that a run
  is a function of what they answer.
\<close>

datatype valkey_err = VALKEY_ERR_IO | VALKEY_ERR_EOF | VALKEY_ERR_PROTOCOL | VALKEY_ERR_TIMEOUT | VALKEY_ERR_OOM | VALKEY_ERR_OTHER

definition vfdw_errcode_for_context :: "valkey_err option \<Rightarrow> sqlstate" where
  "vfdw_errcode_for_context err =
     (case err of
        Some VALKEY_ERR_IO \<Rightarrow> ERRCODE_CONNECTION_FAILURE
      | Some VALKEY_ERR_EOF \<Rightarrow> ERRCODE_CONNECTION_FAILURE
      | Some VALKEY_ERR_PROTOCOL \<Rightarrow> ERRCODE_PROTOCOL_VIOLATION
      | Some VALKEY_ERR_TIMEOUT \<Rightarrow> ERRCODE_CONNECTION_FAILURE
      | Some VALKEY_ERR_OOM \<Rightarrow> ERRCODE_OUT_OF_MEMORY
      | _ \<Rightarrow> ERRCODE_FDW_ERROR)"

definition vfdw_error_from_context :: "valkey_err option \<Rightarrow> string \<Rightarrow> 'a result" where
  "vfdw_error_from_context err what = raise (vfdw_errcode_for_context err) what"

section \<open>The ceiling on allocations\<close>

text \<open>The allocators of the C library are arguments: \<open>None\<close> is a null pointer.\<close>

definition VFDW_MAX_REPLY_BYTES :: "64 word" where
  "VFDW_MAX_REPLY_BYTES = 268435456"

definition vfdw_alloc_refused :: "64 word \<Rightarrow> 64 word \<Rightarrow> bool" where
  "vfdw_alloc_refused ceiling sz \<longleftrightarrow> sz > ceiling"

definition vfdw_alloc_malloc :: "64 word \<Rightarrow> (64 word \<Rightarrow> 'p option) \<Rightarrow> 64 word \<Rightarrow> 'p option" where
  "vfdw_alloc_malloc ceiling malloc sz = (if vfdw_alloc_refused ceiling sz then None else malloc sz)"

definition vfdw_alloc_calloc :: "64 word \<Rightarrow> (64 word \<Rightarrow> 64 word \<Rightarrow> 'p option) \<Rightarrow> 64 word \<Rightarrow> 64 word \<Rightarrow> 'p option" where
  "vfdw_alloc_calloc ceiling calloc nmemb sz =
     (if sz \<noteq> 0 \<and> nmemb > (- 1) div sz then None
      else if vfdw_alloc_refused ceiling (nmemb * sz) then None
      else calloc nmemb sz)"

definition vfdw_alloc_realloc :: "64 word \<Rightarrow> ('p \<Rightarrow> 64 word \<Rightarrow> 'p option) \<Rightarrow> 'p \<Rightarrow> 64 word \<Rightarrow> 'p option" where
  "vfdw_alloc_realloc ceiling realloc ptr sz = (if vfdw_alloc_refused ceiling sz then None else realloc ptr sz)"

text \<open>The copy, as the block and the bytes written to it.\<close>

definition vfdw_alloc_strdup :: "64 word \<Rightarrow> (64 word \<Rightarrow> 'p option) \<Rightarrow> bytes \<Rightarrow> ('p \<times> bytes) option" where
  "vfdw_alloc_strdup ceiling malloc str =
     map_option (\<lambda>copy. (copy, str @ [CHR 0x00])) (vfdw_alloc_malloc ceiling malloc (of_nat (length str) + 1))"

text \<open>The static variables: the ceiling, and whether the wrappers are installed.\<close>

record alloc_state =
  vfdw_alloc_ceiling :: "64 word"
  alloc_installed :: bool

definition alloc_init :: alloc_state where
  "alloc_init = \<lparr>vfdw_alloc_ceiling = VFDW_MAX_REPLY_BYTES, alloc_installed = False\<rparr>"

definition vfdw_io_install_alloc_ceiling :: "alloc_state \<Rightarrow> alloc_state" where
  "vfdw_io_install_alloc_ceiling s = (if alloc_installed s then s else s\<lparr>alloc_installed := True\<rparr>)"

definition vfdw_io_set_alloc_ceiling_for_test :: "int \<Rightarrow> alloc_state \<Rightarrow> alloc_state" where
  "vfdw_io_set_alloc_ceiling_for_test bytes s =
     (vfdw_io_install_alloc_ceiling s)\<lparr>vfdw_alloc_ceiling := if bytes > 0 then word_of_int bytes else VFDW_MAX_REPLY_BYTES\<rparr>"

section \<open>Waiting\<close>

datatype socket_event = WL_SOCKET_READABLE | WL_SOCKET_WRITEABLE

text \<open>
  What the outside answers: the pending interrupt, the clock in microseconds, whether a wait ends by its timeout (\<open>-1\<close> is none),
  whether the output is drained, the next reply of the reader, a read of the socket.
\<close>

record io_env =
  io_interrupt :: "nat \<Rightarrow> pg_error option"
  io_clock :: "nat \<Rightarrow> int"
  io_timed_out :: "nat \<Rightarrow> socket_event \<Rightarrow> int \<Rightarrow> bool"
  io_write :: "nat \<Rightarrow> valkey_err option + bool"
  io_parse :: "nat \<Rightarrow> valkey_err option + valkeyReply option"
  io_read :: "nat \<Rightarrow> valkey_err option + unit"

record io_state =
  io_checks :: nat
  io_ticks :: nat
  io_waits :: nat
  io_writes :: nat
  io_parses :: nat
  io_reads :: nat

definition vfdw_io_deadline :: "io_env \<Rightarrow> int \<Rightarrow> io_state \<Rightarrow> int \<times> io_state" where
  "vfdw_io_deadline env timeout_ms s =
     (if timeout_ms \<le> 0 then (0, s) else (io_clock env (io_ticks s) + timeout_ms * 1000, s\<lparr>io_ticks := io_ticks s + 1\<rparr>))"

definition check_interrupts :: "io_env \<Rightarrow> io_state \<Rightarrow> io_state result" where
  "check_interrupts env s =
     (case io_interrupt env (io_checks s) of Some e \<Rightarrow> Inl e | None \<Rightarrow> Inr (s\<lparr>io_checks := io_checks s + 1\<rparr>))"

abbreviation timed_out_error :: "'a result" where
  "timed_out_error \<equiv> raise ERRCODE_CONNECTION_FAILURE ''timed out communicating with Valkey''"

definition vfdw_io_wait :: "io_env \<Rightarrow> socket_event \<Rightarrow> int \<Rightarrow> io_state \<Rightarrow> io_state result" where
  "vfdw_io_wait env event deadline s0 =
     result_bind (check_interrupts env s0) (\<lambda>s1.
     result_bind (if deadline \<noteq> 0
                  then let remaining = (deadline - io_clock env (io_ticks s1)) sdiv 1000; s2 = s1\<lparr>io_ticks := io_ticks s1 + 1\<rparr> in
                       if remaining \<le> 0 then timed_out_error else Inr (remaining, s2)
                  else Inr (- 1, s1)) (\<lambda>(timeout_ms, s2).
     let rc = io_timed_out env (io_waits s2) event timeout_ms; s3 = s2\<lparr>io_waits := io_waits s2 + 1\<rparr> in
     result_bind (check_interrupts env s3) (\<lambda>s4.
     if rc then timed_out_error else Inr s4)))"

fun vfdw_io_flush :: "nat \<Rightarrow> io_env \<Rightarrow> int \<Rightarrow> io_state \<Rightarrow> io_state result option" where
  "vfdw_io_flush 0 env deadline s = None"
| "vfdw_io_flush (Suc n) env deadline s =
     (case io_write env (io_writes s) of
        Inl err \<Rightarrow> Some (vfdw_error_from_context err ''could not send command to Valkey'')
      | Inr sent \<Rightarrow>
          let s1 = s\<lparr>io_writes := io_writes s + 1\<rparr> in
          if sent then Some (Inr s1)
          else case vfdw_io_wait env WL_SOCKET_WRITEABLE deadline s1 of
            Inl e \<Rightarrow> Some (Inl e)
          | Inr s2 \<Rightarrow> vfdw_io_flush n env deadline s2)"

fun vfdw_io_get_reply :: "nat \<Rightarrow> io_env \<Rightarrow> int \<Rightarrow> io_state \<Rightarrow> (valkeyReply \<times> io_state) result option" where
  "vfdw_io_get_reply 0 env deadline s = None"
| "vfdw_io_get_reply (Suc n) env deadline s =
     (case io_parse env (io_parses s) of
        Inl err \<Rightarrow> Some (vfdw_error_from_context err ''could not parse reply from Valkey'')
      | Inr (Some reply) \<Rightarrow> Some (Inr (reply, s\<lparr>io_parses := io_parses s + 1\<rparr>))
      | Inr None \<Rightarrow>
          (case vfdw_io_wait env WL_SOCKET_READABLE deadline (s\<lparr>io_parses := io_parses s + 1\<rparr>) of
             Inl e \<Rightarrow> Some (Inl e)
           | Inr s2 \<Rightarrow>
               (case io_read env (io_reads s2) of
                  Inl err \<Rightarrow> Some (vfdw_error_from_context err ''could not read reply from Valkey'')
                | Inr _ \<Rightarrow> vfdw_io_get_reply n env deadline (s2\<lparr>io_reads := io_reads s2 + 1\<rparr>))))"

section \<open>Connecting\<close>

record valkeyContext =
  cx_err :: "valkey_err option"
  cx_fd :: "int option"
  cx_limits :: "(64 word \<times> int) option"

record valkeyOptions =
  vo_tcp :: "bytes \<times> int"
  vo_unix :: "bytes option"
  vo_nonblock :: bool
  vo_timeout :: "int \<times> int"

text \<open>A result, and how often the context was given back to \<open>valkeyFree\<close>.\<close>

type_synonym 'a owned = "'a result \<times> nat"

definition vfdw_io_fail_and_close :: "valkeyContext \<Rightarrow> string \<Rightarrow> 'a owned" where
  "vfdw_io_fail_and_close conn what = (raise (vfdw_errcode_for_context (cx_err conn)) what, 1)"

text \<open>\<open>sockopt\<close> is what \<open>getsockopt\<close> finds: \<open>None\<close> when it fails, else the error of the socket.\<close>

definition vfdw_io_complete_connect :: "io_env \<Rightarrow> int option \<Rightarrow> valkeyContext \<Rightarrow> int \<Rightarrow> io_state \<Rightarrow> (valkeyContext \<times> io_state) owned" where
  "vfdw_io_complete_connect env sockopt conn deadline s =
     (case vfdw_io_wait env WL_SOCKET_WRITEABLE deadline s of
        Inl e \<Rightarrow> (Inl e, 1)
      | Inr s1 \<Rightarrow>
          (case sockopt of
             None \<Rightarrow> vfdw_io_fail_and_close conn ''could not read connection status''
           | Some soerr \<Rightarrow>
               if soerr \<noteq> 0 then (raise ERRCODE_CONNECTION_FAILURE ''could not connect to Valkey'', 1)
               else (Inr (conn\<lparr>cx_err := None\<rparr>, s1), 0)))"

definition vfdw_io_connect ::
  "io_env \<Rightarrow> (valkeyOptions \<Rightarrow> valkeyContext option) \<Rightarrow> int option \<Rightarrow> bytes \<Rightarrow> int \<Rightarrow> bytes option \<Rightarrow> int \<Rightarrow> alloc_state \<times> io_state \<Rightarrow>
   (valkeyContext \<times> io_state) owned \<times> alloc_state" where
  "vfdw_io_connect env connect sockopt host port unix_path connect_timeout_ms st =
     (case st of (al, s) \<Rightarrow>
      let al1 = vfdw_io_install_alloc_ceiling al;
          opts = \<lparr>vo_tcp = (if unix_path = None then (host, port) else ([], 0)), vo_unix = unix_path, vo_nonblock = True,
                  vo_timeout = (connect_timeout_ms sdiv 1000, connect_timeout_ms smod 1000 * 1000)\<rparr> in
      (case connect opts of
         None \<Rightarrow> (raise ERRCODE_OUT_OF_MEMORY ''out of memory allocating a Valkey connection'', 0)
       | Some conn \<Rightarrow>
           if cx_err conn \<noteq> None \<and> cx_fd conn = None then vfdw_io_fail_and_close conn ''could not connect to Valkey''
           else (case vfdw_io_deadline env connect_timeout_ms s of (deadline, s1) \<Rightarrow>
             vfdw_io_complete_connect env sockopt conn deadline s1), al1))"

text \<open>A context without a reader has no limits to set.\<close>

definition vfdw_io_set_limits :: "64 word \<Rightarrow> int \<Rightarrow> valkeyContext \<Rightarrow> valkeyContext" where
  "vfdw_io_set_limits maxbuf maxelements conn =
     (if cx_limits conn = None then conn else conn\<lparr>cx_limits := Some (maxbuf, maxelements)\<rparr>)"

section \<open>What the wrappers grant\<close>

lemma div_max_word:
  fixes n k :: "64 word"
  assumes "k \<noteq> 0"
  shows "n > (- 1) div k \<longleftrightarrow> 2 ^ 64 \<le> unat n * unat k"
proof -
  have k: "0 < unat k" using assms by (simp add: unat_gt_0)
  have "unat ((- 1) div k) = (2 ^ 64 - 1) div unat k" by (simp add: unat_div_distrib unsigned_minus_1_eq_mask mask_eq_exp_minus_1)
  then have "n > (- 1) div k \<longleftrightarrow> (2 ^ 64 - 1) div unat k < unat n" by (simp add: word_less_nat_alt)
  also have "\<dots> \<longleftrightarrow> 2 ^ 64 - 1 < unat n * unat k" using k by (simp add: div_less_iff_less_mult)
  also have "\<dots> \<longleftrightarrow> 2 ^ 64 \<le> unat n * unat k" by (simp add: less_eq_Suc_le)
  finally show ?thesis .
qed

text \<open>C25. The array allocator is bounded by the true product. The wrapper of \<open>calloc\<close> computes with wrapping 64-bit sizes, and it
  still grants a request exactly when the mathematical product of count and size is within the ceiling: no product that wraps
  around to a small number gets through, and nothing within the ceiling is refused.\<close>

theorem calloc_ceiling_exact:
  "vfdw_alloc_calloc ceiling calloc n k = (if unat n * unat k \<le> unat ceiling then calloc n k else None)"
proof (cases "k \<noteq> 0 \<and> n > (- 1) div k")
  case True
  then have "2 ^ 64 \<le> unat n * unat k" using div_max_word [of k n] by blast
  moreover have "unat ceiling < 2 ^ LENGTH(64)" by (rule unsigned_less)
  then have "unat ceiling < 2 ^ 64" by simp
  ultimately show ?thesis using True by (simp add: vfdw_alloc_calloc_def)
next
  case False
  then have "unat n * unat k < 2 ^ 64" using div_max_word [of k n] by (cases "k = 0") auto
  then have "unat (n * k) = unat n * unat k" by (simp add: unat_mult_lem [symmetric])
  then show ?thesis using False by (auto simp: vfdw_alloc_calloc_def vfdw_alloc_refused_def word_less_nat_alt)
qed

section \<open>Loops against a deadline\<close>

lemma check_interrupts_Inr: "check_interrupts env s = Inr s' \<Longrightarrow> s' = s\<lparr>io_checks := io_checks s + 1\<rparr>"
  by (simp add: check_interrupts_def split: option.splits)

lemma sdiv_pos: "0 < (x::int) sdiv 1000 \<Longrightarrow> 0 < x"
proof (rule ccontr)
  assume pos: "0 < x sdiv 1000" and "\<not> 0 < x"
  then show False by (simp add: signed_divide_int_def sgn_if split: if_splits)
qed

text \<open>A wait that returns read the clock before the deadline, once.\<close>

lemma wait_before_deadline:
  assumes "vfdw_io_wait env event deadline s = Inr s'" and "deadline \<noteq> 0"
  shows "io_clock env (io_ticks s) < deadline" "io_ticks s' = Suc (io_ticks s)" "io_parses s' = io_parses s"
  using assms sdiv_pos [of "deadline - io_clock env (io_ticks s)"]
  by (auto simp: vfdw_io_wait_def result_bind_Inr_iff Let_def dest!: check_interrupts_Inr split: if_splits)

text \<open>\<open>reply\<close> is the first complete reply of the reader, the \<open>k\<close>-th after \<open>n\<close> questions.\<close>

definition first_reply :: "io_env \<Rightarrow> nat \<Rightarrow> nat \<Rightarrow> valkeyReply \<Rightarrow> bool" where
  "first_reply env n k reply \<longleftrightarrow> io_parse env (n + k) = Inr (Some reply) \<and> (\<forall>j < k. io_parse env (n + j) = Inr None)"

lemma first_reply_0: "io_parse env n = Inr (Some reply) \<Longrightarrow> first_reply env n 0 reply"
  by (simp add: first_reply_def)

lemma first_reply_Suc: "io_parse env n = Inr None \<Longrightarrow> first_reply env (Suc n) k reply \<Longrightarrow> first_reply env n (Suc k) reply"
  by (auto simp: first_reply_def less_Suc_eq_0_disj)

lemma flush_ends:
  assumes clock: "\<And>n. io_clock env n < io_clock env (Suc n)" and d: "deadline \<noteq> 0"
  shows "nat (deadline - io_clock env (io_ticks s)) < fuel \<Longrightarrow> \<exists>r. vfdw_io_flush fuel env deadline s = Some r"
proof (induction fuel arbitrary: s)
  case (Suc fuel)
  let ?s1 = "s\<lparr>io_writes := Suc (io_writes s)\<rparr>"
  show ?case
  proof (cases "vfdw_io_wait env WL_SOCKET_WRITEABLE deadline ?s1")
    case (Inr s2)
    note w = wait_before_deadline [OF Inr d]
    have "nat (deadline - io_clock env (io_ticks s2)) < fuel" using w Suc.prems clock [of "io_ticks s"] by simp
    then show ?thesis using Suc.IH by (auto simp: Inr Let_def split: sum.split)
  qed (auto simp: Let_def split: sum.split)
qed simp

lemma get_reply_ends:
  assumes clock: "\<And>n. io_clock env n < io_clock env (Suc n)" and d: "deadline \<noteq> 0"
  shows "nat (deadline - io_clock env (io_ticks s)) < fuel \<Longrightarrow>
    (\<exists>e. vfdw_io_get_reply fuel env deadline s = Some (Inl e)) \<or>
    (\<exists>reply s' k. vfdw_io_get_reply fuel env deadline s = Some (Inr (reply, s')) \<and> first_reply env (io_parses s) k reply \<and> io_parses s' = io_parses s + k + 1)"
proof (induction fuel arbitrary: s)
  case (Suc fuel)
  let ?s1 = "s\<lparr>io_parses := Suc (io_parses s)\<rparr>"
  show ?case
  proof (cases "io_parse env (io_parses s)")
    case (Inr r)
    show ?thesis
    proof (cases r)
      case None
      show ?thesis
      proof (cases "vfdw_io_wait env WL_SOCKET_READABLE deadline ?s1")
        case w: (Inr s2)
        note b = wait_before_deadline [OF w d]
        let ?s3 = "s2\<lparr>io_reads := Suc (io_reads s2)\<rparr>"
        have "nat (deadline - io_clock env (io_ticks ?s3)) < fuel" using b Suc.prems clock [of "io_ticks s"] by simp
        note ih = Suc.IH [OF this]
        show ?thesis
        proof (cases "io_read env (io_reads s2)")
          case (Inl err)
          then show ?thesis by (simp add: Inr None w vfdw_error_from_context_def)
        next
          case rd: (Inr u)
          from ih show ?thesis
          proof
            assume "\<exists>reply s' k. vfdw_io_get_reply fuel env deadline ?s3 = Some (Inr (reply, s')) \<and>
                first_reply env (io_parses ?s3) k reply \<and> io_parses s' = io_parses ?s3 + k + 1"
            then obtain reply s' k where g: "vfdw_io_get_reply fuel env deadline ?s3 = Some (Inr (reply, s'))"
              "first_reply env (io_parses ?s3) k reply" "io_parses s' = io_parses ?s3 + k + 1" by blast
            have "first_reply env (io_parses s) (Suc k) reply"
              by (rule first_reply_Suc) (use Inr None g(2) b(3) in simp_all)
            then show ?thesis using g b(3) by (auto simp: Inr None w rd)
          qed (simp add: Inr None w rd)
        qed
      qed (simp add: Inr None)
    next
      case (Some reply)
      then show ?thesis using first_reply_0 [of env "io_parses s" reply] Inr by auto
    qed
  qed (simp add: vfdw_error_from_context_def)
qed simp

text \<open>C24. With a deadline neither loop waits forever, and a reply that is read is the first one. When the clock advances, sending a command
  and reading a reply both end, in an error or a result, after no more turns than there were microseconds left, however often the
  latch wakes them early; and the reply that comes back is the first complete one the reader holds: a reply that was
  read earlier is given out before anything is waited for, and none is skipped.\<close>

theorem io_ends_by_deadline:
  assumes "\<forall>n. io_clock env n < io_clock env (Suc n)" and "deadline \<noteq> 0" and "nat (deadline - io_clock env (io_ticks s)) < fuel"
  shows "(\<exists>r. vfdw_io_flush fuel env deadline s = Some r) \<and>
    ((\<exists>e. vfdw_io_get_reply fuel env deadline s = Some (Inl e)) \<or>
     (\<exists>reply s' k. vfdw_io_get_reply fuel env deadline s = Some (Inr (reply, s')) \<and> first_reply env (io_parses s) k reply \<and> io_parses s' = io_parses s + k + 1))"
  using flush_ends [OF _ assms(2,3)] get_reply_ends [OF _ assms(2,3)] assms(1) by blast

text \<open>A reader that has a reply after two reads, a socket that takes the command at once, a minute to spare.\<close>

definition sample_io :: io_env where
  "sample_io = \<lparr>io_interrupt = (\<lambda>_. None), io_clock = (\<lambda>n. int n), io_timed_out = (\<lambda>_ _ _. False), io_write = (\<lambda>_. Inr True),
     io_parse = (\<lambda>n. Inr (if n < 2 then None else Some (Reply VALKEY_REPLY_STATUS (Some ''OK'') 0 []))), io_read = (\<lambda>_. Inr ())\<rparr>"

definition io_start :: io_state where
  "io_start = \<lparr>io_checks = 0, io_ticks = 0, io_waits = 0, io_writes = 0, io_parses = 0, io_reads = 0\<rparr>"

theorem io_ends_by_deadline_witness:
  "(\<exists>r. vfdw_io_flush 5001 sample_io 5000 io_start = Some r) \<and>
    ((\<exists>e. vfdw_io_get_reply 5001 sample_io 5000 io_start = Some (Inl e)) \<or>
     (\<exists>reply s' k. vfdw_io_get_reply 5001 sample_io 5000 io_start = Some (Inr (reply, s')) \<and> first_reply sample_io (io_parses io_start) k reply \<and>
        io_parses s' = io_parses io_start + k + 1))"
  by (rule io_ends_by_deadline) (simp_all add: sample_io_def io_start_def)

section \<open>Who owns the socket\<close>

text \<open>A failed connect gives the context back once, when there is one; a connect that succeeds does not.\<close>

lemma connect_frees_once:
  assumes "vfdw_io_connect env connect sockopt host port unix_path ms (al, s) = ((r, freed), al')"
  shows "freed = (case r of Inr _ \<Rightarrow> 0 | Inl _ \<Rightarrow>
      if connect \<lparr>vo_tcp = (if unix_path = None then (host, port) else ([], 0)), vo_unix = unix_path, vo_nonblock = True,
           vo_timeout = (ms sdiv 1000, ms smod 1000 * 1000)\<rparr> = None then 0 else 1)"
    and "alloc_installed al'"
  using assms
  by (auto simp: vfdw_io_connect_def vfdw_io_complete_connect_def vfdw_io_fail_and_close_def vfdw_io_install_alloc_ceiling_def Let_def
      split: option.splits sum.splits if_splits prod.splits)

end
