(* ===== verification/Tls.thy ===== *)
theory Tls
  imports Conn
begin

text \<open>
  The TLS session of a connection: \<open>src/vfdw_tls.c\<close>. OpenSSL and libvalkey are outside: what a call answers is an argument,
  and the model is the sequence of calls, with the static variables of the file. The reports carry their SQLSTATE and
  message; the detail, which OpenSSL words, is left out.
\<close>

datatype x509_error =
    X509_V_OK | X509_V_ERR_HOSTNAME_MISMATCH | X509_V_ERR_IP_ADDRESS_MISMATCH | X509_V_ERR_CERT_HAS_EXPIRED
  | X509_V_ERR_CERT_NOT_YET_VALID | X509_V_ERR_DEPTH_ZERO_SELF_SIGNED_CERT | X509_V_ERR_SELF_SIGNED_CERT_IN_CHAIN
  | X509_V_ERR_UNABLE_TO_GET_ISSUER_CERT | X509_V_ERR_UNABLE_TO_GET_ISSUER_CERT_LOCALLY
  | X509_V_ERR_UNABLE_TO_VERIFY_LEAF_SIGNATURE | X509_V_ERR_other nat

datatype tls_version = TLS1_VERSION | TLS1_1_VERSION | TLS1_2_VERSION | TLS1_3_VERSION

datatype verify_mode = SSL_VERIFY_NONE | SSL_VERIFY_PEER

datatype ssl_call =
    valkeyInitOpenSSL | SSL_CTX_new | SSL_CTX_set_min_proto_version tls_version | SSL_CTX_load_verify_locations bytes
  | SSL_CTX_set_default_verify_paths | SSL_CTX_use_certificate_chain_file bytes | SSL_CTX_use_PrivateKey_file bytes
  | SSL_CTX_check_private_key | SSL_CTX_set_verify verify_mode | SSL_new | SSL_set_tlsext_host_name bytes
  | X509_VERIFY_PARAM_set_no_partial_wildcards | X509_VERIFY_PARAM_set1_ip_asc bytes | X509_VERIFY_PARAM_set1_host bytes
  | SSL_CTX_free | SSL_free | valkeyInitiateTLS

text \<open>What the libraries answer: whether a call succeeds, whether a text is an address, the newest error of the queue.\<close>

record tls_env =
  tv_ok :: "ssl_call \<Rightarrow> bool"
  tv_ipv4 :: "bytes \<Rightarrow> bool"
  tv_ipv6 :: "bytes \<Rightarrow> bool"

record tls_state =
  vfdw_openssl_ready :: bool
  vfdw_tls_verify_error :: x509_error
  ssl_queue :: "string list"
  ssl_calls :: "ssl_call list"

definition VFDW_TLS_VERIFY_FULL :: nat where "VFDW_TLS_VERIFY_FULL = 0"
definition VFDW_TLS_VERIFY_CA :: nat where "VFDW_TLS_VERIFY_CA = 1"
definition VFDW_TLS_VERIFY_NONE :: nat where "VFDW_TLS_VERIFY_NONE = 2"

section \<open>Why a certificate was refused\<close>

definition vfdw_tls_verify_cb :: "bool \<Rightarrow> x509_error \<Rightarrow> tls_state \<Rightarrow> bool \<times> tls_state" where
  "vfdw_tls_verify_cb preverify_ok err s =
     (preverify_ok, if \<not> preverify_ok \<and> vfdw_tls_verify_error s = X509_V_OK then s\<lparr>vfdw_tls_verify_error := err\<rparr> else s)"

definition vfdw_tls_verify_hint :: "x509_error \<Rightarrow> string" where
  "vfdw_tls_verify_hint err =
     (if err \<in> {X509_V_ERR_HOSTNAME_MISMATCH, X509_V_ERR_IP_ADDRESS_MISMATCH}
      then ''The chain is trusted; it is the name that does not match. Check the host option, or set tls_sni to a name the certificate carries.''
      else if err \<in> {X509_V_ERR_CERT_HAS_EXPIRED, X509_V_ERR_CERT_NOT_YET_VALID}
      then ''The certificate is trusted and correctly named, but not valid now. Check its validity window and the clock at both ends.''
      else if err \<in> {X509_V_ERR_DEPTH_ZERO_SELF_SIGNED_CERT, X509_V_ERR_SELF_SIGNED_CERT_IN_CHAIN, X509_V_ERR_UNABLE_TO_GET_ISSUER_CERT,
                   X509_V_ERR_UNABLE_TO_GET_ISSUER_CERT_LOCALLY, X509_V_ERR_UNABLE_TO_VERIFY_LEAF_SIGNATURE}
      then ''Nothing anchors this chain to a CA we trust. Check that tls_ca_file names the CA which signed the server certificate.''
      else ''Check tls_ca_file, and that the server certificate names the host in the server options.'')"

text \<open>The reason is taken, not read. The text of an error is \<open>X509_verify_cert_error_string\<close> of it: the error stands for it.\<close>

definition vfdw_tls_verify_reason :: "tls_state \<Rightarrow> (x509_error option \<times> string) \<times> tls_state" where
  "vfdw_tls_verify_reason s =
     (let err = vfdw_tls_verify_error s in
      ((if err = X509_V_OK then None else Some err, vfdw_tls_verify_hint err), s\<lparr>vfdw_tls_verify_error := X509_V_OK\<rparr>))"

text \<open>The error of the queue as text, and the queue emptied.\<close>

definition vfdw_tls_take_error :: "tls_state \<Rightarrow> string option \<times> tls_state" where
  "vfdw_tls_take_error s =
     (case ssl_queue s of [] \<Rightarrow> (None, s) | code # _ \<Rightarrow> (Some (take 255 code), s\<lparr>ssl_queue := []\<rparr>))"

definition vfdw_tls_last_error :: "tls_state \<Rightarrow> string \<times> tls_state" where
  "vfdw_tls_last_error s =
     (case vfdw_tls_take_error s of (reason, s1) \<Rightarrow>
       (case reason of Some r \<Rightarrow> r | None \<Rightarrow> ''no OpenSSL error was recorded'', s1))"

text \<open>The first check that refused is the one reported, once.\<close>

lemma verify_reason_first:
  assumes "vfdw_tls_verify_error s = X509_V_OK"
  shows "fst (fst (vfdw_tls_verify_reason (fold (\<lambda>(ok, err) s. snd (vfdw_tls_verify_cb ok err s)) checks s))) =
      find (\<lambda>err. err \<noteq> X509_V_OK) (map snd (filter (\<lambda>(ok, err). \<not> ok) checks))"
    and "fst (fst (vfdw_tls_verify_reason (snd (vfdw_tls_verify_reason s')))) = None"
proof -
  have kept: "vfdw_tls_verify_error (fold (\<lambda>(ok, err) s. snd (vfdw_tls_verify_cb ok err s)) cs s) = vfdw_tls_verify_error s"
    if "vfdw_tls_verify_error s \<noteq> X509_V_OK" for cs s
    using that by (induction cs arbitrary: s) (auto simp: vfdw_tls_verify_cb_def)
  show "fst (fst (vfdw_tls_verify_reason (fold (\<lambda>(ok, err) s. snd (vfdw_tls_verify_cb ok err s)) checks s))) =
      find (\<lambda>err. err \<noteq> X509_V_OK) (map snd (filter (\<lambda>(ok, err). \<not> ok) checks))"
    using assms
  proof (induction checks arbitrary: s)
    case (Cons c checks)
    obtain ok err where c: "c = (ok, err)" by fastforce
    show ?case
    proof (cases "ok \<or> err = X509_V_OK")
      case True
      then show ?thesis using Cons by (auto simp: c vfdw_tls_verify_cb_def)
    next
      case False
      then show ?thesis using Cons.prems kept [of "s\<lparr>vfdw_tls_verify_error := err\<rparr>" checks]
        by (simp add: c vfdw_tls_verify_cb_def vfdw_tls_verify_reason_def Let_def)
    qed
  qed (simp add: vfdw_tls_verify_reason_def Let_def)
  show "fst (fst (vfdw_tls_verify_reason (snd (vfdw_tls_verify_reason s')))) = None"
    by (simp add: vfdw_tls_verify_reason_def Let_def)
qed

section \<open>Building the session\<close>

type_synonym 'a tls = "tls_state \<Rightarrow> 'a result \<times> tls_state"

definition tls_then :: "unit tls \<Rightarrow> unit tls \<Rightarrow> unit tls" where
  "tls_then f g s = (case f s of (Inl e, s1) \<Rightarrow> (Inl e, s1) | (Inr _, s1) \<Rightarrow> g s1)"

abbreviation ssl_log :: "ssl_call list \<Rightarrow> tls_state \<Rightarrow> tls_state" where
  "ssl_log cs s \<equiv> s\<lparr>ssl_calls := ssl_calls s @ cs\<rparr>"

definition ssl_do :: "ssl_call list \<Rightarrow> unit tls" where
  "ssl_do cs s = (Inr (), ssl_log cs s)"

definition vfdw_tls_fail :: "bool \<Rightarrow> bool \<Rightarrow> string \<Rightarrow> unit tls" where
  "vfdw_tls_fail ssl ctx what s =
     (case vfdw_tls_last_error s of (_, s1) \<Rightarrow>
       (raise ERRCODE_CONNECTION_FAILURE what,
        ssl_log ((if ssl then [SSL_free] else []) @ (if ctx then [SSL_CTX_free] else [])) s1))"

text \<open>The recurring form \<open>if (!call(...)) vfdw_tls_fail(ssl, ctx, what)\<close>.\<close>

definition ssl_check :: "tls_env \<Rightarrow> ssl_call \<Rightarrow> bool \<Rightarrow> bool \<Rightarrow> string \<Rightarrow> unit tls" where
  "ssl_check env c ssl ctx what s =
     (if tv_ok env c then (Inr (), ssl_log [c] s) else vfdw_tls_fail ssl ctx what (ssl_log [c] s))"

definition vfdw_is_ip_literal :: "tls_env \<Rightarrow> bytes \<Rightarrow> bool" where
  "vfdw_is_ip_literal env host \<longleftrightarrow> tv_ipv4 env host \<or> tv_ipv6 env host"

definition tls_trust :: "tls_env \<Rightarrow> VfdwServerOptions \<Rightarrow> unit tls" where
  "tls_trust env opts =
     (case so_tls_ca_file opts of
        Some f \<Rightarrow> ssl_check env (SSL_CTX_load_verify_locations f) False True ''could not load the CA certificate file''
      | None \<Rightarrow> if so_tls_verify opts \<noteq> VFDW_TLS_VERIFY_NONE
                then ssl_check env SSL_CTX_set_default_verify_paths False True ''could not load the system CA store''
                else ssl_do [])"

definition tls_client :: "tls_env \<Rightarrow> VfdwServerOptions \<Rightarrow> unit tls" where
  "tls_client env opts =
     (case so_tls_cert_file opts of
        None \<Rightarrow> ssl_do []
      | Some f \<Rightarrow>
          tls_then (ssl_check env (SSL_CTX_use_certificate_chain_file f) False True ''could not load the client certificate'')
          (case so_tls_key_file opts of
             None \<Rightarrow> (\<lambda>s. (raise ERRCODE_INVALID_PARAMETER_VALUE ''tls_cert_file requires tls_key_file'', ssl_log [SSL_CTX_free] s))
           | Some k \<Rightarrow>
               tls_then (ssl_check env (SSL_CTX_use_PrivateKey_file k) False True ''could not load the client private key'')
               (ssl_check env SSL_CTX_check_private_key False True ''the client private key does not match the certificate'')))"

definition vfdw_tls_make_context :: "tls_env \<Rightarrow> VfdwServerOptions \<Rightarrow> unit tls" where
  "vfdw_tls_make_context env opts =
     tls_then (ssl_check env SSL_CTX_new False False ''could not create a TLS context'')
     (tls_then (ssl_check env (SSL_CTX_set_min_proto_version TLS1_2_VERSION) False True ''could not set the minimum TLS version'')
     (tls_then (tls_trust env opts)
     (tls_then (tls_client env opts)
     (ssl_do [SSL_CTX_set_verify (if so_tls_verify opts = VFDW_TLS_VERIFY_NONE then SSL_VERIFY_NONE else SSL_VERIFY_PEER)]))))"

definition peer_name :: "VfdwServerOptions \<Rightarrow> bytes" where
  "peer_name opts = (case so_tls_sni opts of Some sni \<Rightarrow> sni | None \<Rightarrow> so_host opts)"

definition vfdw_tls_set_identity :: "tls_env \<Rightarrow> bool \<Rightarrow> VfdwServerOptions \<Rightarrow> unit tls" where
  "vfdw_tls_set_identity env ctx opts =
     (let peer = peer_name opts in
      tls_then (if \<not> vfdw_is_ip_literal env peer
                then ssl_check env (SSL_set_tlsext_host_name peer) True ctx ''could not set the TLS server name'' else ssl_do [])
      (if so_tls_verify opts \<noteq> VFDW_TLS_VERIFY_FULL then ssl_do []
       else tls_then (ssl_do [X509_VERIFY_PARAM_set_no_partial_wildcards])
         (ssl_check env (if vfdw_is_ip_literal env peer then X509_VERIFY_PARAM_set1_ip_asc peer else X509_VERIFY_PARAM_set1_host peer) True ctx
            ''could not enable TLS hostname verification'')))"

definition tls_init :: "tls_env \<Rightarrow> unit tls" where
  "tls_init env s =
     (if vfdw_openssl_ready s then (Inr (), s)
      else if \<not> tv_ok env valkeyInitOpenSSL then (raise ERRCODE_CONNECTION_FAILURE ''could not initialise OpenSSL'', ssl_log [valkeyInitOpenSSL] s)
      else (Inr (), (ssl_log [valkeyInitOpenSSL] s)\<lparr>vfdw_openssl_ready := True\<rparr>))"

definition vfdw_tls_attach :: "tls_env \<Rightarrow> VfdwServerOptions \<Rightarrow> unit tls" where
  "vfdw_tls_attach env opts =
     tls_then (tls_init env)
     (tls_then (\<lambda>s. (Inr (), s\<lparr>ssl_queue := [], vfdw_tls_verify_error := X509_V_OK\<rparr>))
     (tls_then (vfdw_tls_make_context env opts)
     (tls_then (ssl_check env SSL_new False True ''could not create a TLS session'')
     (tls_then (ssl_do [SSL_CTX_free])
     (tls_then (vfdw_tls_set_identity env False opts)
     (\<lambda>s. if tv_ok env valkeyInitiateTLS then (Inr (), ssl_log [valkeyInitiateTLS] s)
          else (raise ERRCODE_CONNECTION_FAILURE ''TLS handshake with Valkey failed'', ssl_log [valkeyInitiateTLS, SSL_free] s)))))))"

section \<open>What the session is bound to\<close>

text \<open>
  The references held after a sequence of calls, on the context and on the session, as OpenSSL documents them: a session holds one
  on its context and gives it back when it is freed. \<open>None\<close> is a reference given back that was not held.
\<close>

definition ssl_ref :: "tls_env \<Rightarrow> ssl_call \<Rightarrow> nat \<times> nat \<Rightarrow> (nat \<times> nat) option" where
  "ssl_ref env c r =
     (case r of (ctx, ssl) \<Rightarrow>
        if c = SSL_CTX_new \<and> tv_ok env c then Some (ctx + 1, ssl)
        else if c = SSL_new \<and> tv_ok env c then Some (ctx + 1, ssl + 1)
        else if c = SSL_CTX_free then (if ctx = 0 then None else Some (ctx - 1, ssl))
        else if c = SSL_free then (if ctx = 0 \<or> ssl = 0 then None else Some (ctx - 1, ssl - 1))
        else Some (ctx, ssl))"

fun ssl_refs :: "tls_env \<Rightarrow> ssl_call list \<Rightarrow> nat \<times> nat \<Rightarrow> (nat \<times> nat) option" where
  "ssl_refs env [] r = Some r"
| "ssl_refs env (c # cs) r = Option.bind (ssl_ref env c r) (ssl_refs env cs)"

lemma ssl_refs_append: "ssl_refs env (xs @ ys) r = Option.bind (ssl_refs env xs r) (ssl_refs env ys)"
proof (induction xs arbitrary: r)
  case (Cons c xs)
  then show ?case by (cases "ssl_ref env c r") simp_all
qed simp

text \<open>
  A step makes the calls \<open>cs\<close>, which take the references from \<open>r\<close> to \<open>r'\<close>, or it fails and holds none.
\<close>

definition tls_step :: "tls_env \<Rightarrow> unit tls \<Rightarrow> nat \<times> nat \<Rightarrow> ssl_call list \<Rightarrow> nat \<times> nat \<Rightarrow> bool" where
  "tls_step env f r cs r' \<longleftrightarrow>
     (\<forall>s. case f s of
            (Inr _, s1) \<Rightarrow> ssl_calls s1 = ssl_calls s @ cs \<and> ssl_refs env cs r = Some r'
          | (Inl _, s1) \<Rightarrow> \<exists>ds. ssl_calls s1 = ssl_calls s @ ds \<and> ssl_refs env ds r = Some (0, 0))"

lemma tls_step_then:
  assumes f: "tls_step env f r cs r'" and g: "tls_step env g r' ds r''"
  shows "tls_step env (tls_then f g) r (cs @ ds) r''"
  unfolding tls_step_def
proof
  fix s
  obtain a s1 where fs: "f s = (a, s1)" by fastforce
  obtain b s2 where gs: "g s1 = (b, s2)" by fastforce
  have F: "case (a, s1) of (Inr _, s1) \<Rightarrow> ssl_calls s1 = ssl_calls s @ cs \<and> ssl_refs env cs r = Some r'
      | (Inl _, s1) \<Rightarrow> \<exists>ds. ssl_calls s1 = ssl_calls s @ ds \<and> ssl_refs env ds r = Some (0, 0)"
    using f [unfolded tls_step_def, rule_format, of s] unfolding fs .
  have G: "case (b, s2) of (Inr _, s2) \<Rightarrow> ssl_calls s2 = ssl_calls s1 @ ds \<and> ssl_refs env ds r' = Some r''
      | (Inl _, s2) \<Rightarrow> \<exists>ds. ssl_calls s2 = ssl_calls s1 @ ds \<and> ssl_refs env ds r' = Some (0, 0)"
    using g [unfolded tls_step_def, rule_format, of s1] unfolding gs .
  show "case tls_then f g s of
      (Inr _, s1) \<Rightarrow> ssl_calls s1 = ssl_calls s @ cs @ ds \<and> ssl_refs env (cs @ ds) r = Some r''
    | (Inl _, s1) \<Rightarrow> \<exists>ds. ssl_calls s1 = ssl_calls s @ ds \<and> ssl_refs env ds r = Some (0, 0)"
    using F G by (cases a; cases b) (auto simp: tls_then_def fs gs ssl_refs_append)
qed

lemma tls_take_error_calls: "ssl_calls (snd (vfdw_tls_last_error s)) = ssl_calls s"
  by (simp add: vfdw_tls_last_error_def vfdw_tls_take_error_def split: list.split)

lemma tls_fail_eq:
  obtains s1 where "vfdw_tls_fail ssl ctx what s = (raise ERRCODE_CONNECTION_FAILURE what, s1)"
    "ssl_calls s1 = ssl_calls s @ (if ssl then [SSL_free] else []) @ (if ctx then [SSL_CTX_free] else [])"
  using tls_take_error_calls [of s] by (cases "vfdw_tls_last_error s") (auto simp: vfdw_tls_fail_def)

lemma tls_step_check:
  assumes "tv_ok env c \<Longrightarrow> ssl_refs env [c] r = Some r'"
    and "\<not> tv_ok env c \<Longrightarrow> ssl_refs env (c # (if ssl then [SSL_free] else []) @ (if ctx then [SSL_CTX_free] else [])) r = Some (0, 0)"
  shows "tls_step env (ssl_check env c ssl ctx what) r [c] r'"
  unfolding tls_step_def
proof
  fix s
  show "case ssl_check env c ssl ctx what s of (Inr _, s1) \<Rightarrow> ssl_calls s1 = ssl_calls s @ [c] \<and> ssl_refs env [c] r = Some r'
      | (Inl _, s1) \<Rightarrow> \<exists>ds. ssl_calls s1 = ssl_calls s @ ds \<and> ssl_refs env ds r = Some (0, 0)"
  proof (cases "tv_ok env c")
    case False
    obtain s1 where "vfdw_tls_fail ssl ctx what (ssl_log [c] s) = (raise ERRCODE_CONNECTION_FAILURE what, s1)"
      "ssl_calls s1 = ssl_calls (ssl_log [c] s) @ (if ssl then [SSL_free] else []) @ (if ctx then [SSL_CTX_free] else [])"
      by (rule tls_fail_eq)
    then show ?thesis using assms(2) [OF False] False by (auto simp: ssl_check_def simp del: ssl_refs.simps)
  qed (use assms(1) in \<open>simp add: ssl_check_def\<close>)
qed

text \<open>A call that creates and frees nothing, while the context is held.\<close>

lemma tls_step_config:
  assumes "c \<noteq> SSL_CTX_new" "c \<noteq> SSL_new" "c \<noteq> SSL_CTX_free" "c \<noteq> SSL_free"
  shows "tls_step env (ssl_check env c False True what) (1, 0) [c] (1, 0)"
  by (rule tls_step_check) (use assms in \<open>simp_all add: ssl_ref_def\<close>)

lemma tls_step_do: "ssl_refs env cs r = Some r' \<Longrightarrow> tls_step env (ssl_do cs) r cs r'"
  by (simp add: tls_step_def ssl_do_def)

text \<open>The calls of a session that is built.\<close>

definition trust_calls :: "VfdwServerOptions \<Rightarrow> ssl_call list" where
  "trust_calls opts =
     (case so_tls_ca_file opts of Some f \<Rightarrow> [SSL_CTX_load_verify_locations f]
      | None \<Rightarrow> if so_tls_verify opts = VFDW_TLS_VERIFY_NONE then [] else [SSL_CTX_set_default_verify_paths])"

definition client_calls :: "VfdwServerOptions \<Rightarrow> ssl_call list" where
  "client_calls opts =
     (case so_tls_cert_file opts of None \<Rightarrow> []
      | Some f \<Rightarrow> [SSL_CTX_use_certificate_chain_file f, SSL_CTX_use_PrivateKey_file (the (so_tls_key_file opts)), SSL_CTX_check_private_key])"

definition pin_calls :: "tls_env \<Rightarrow> VfdwServerOptions \<Rightarrow> ssl_call list" where
  "pin_calls env opts =
     (if so_tls_verify opts \<noteq> VFDW_TLS_VERIFY_FULL then []
      else [X509_VERIFY_PARAM_set_no_partial_wildcards,
        if vfdw_is_ip_literal env (peer_name opts) then X509_VERIFY_PARAM_set1_ip_asc (peer_name opts) else X509_VERIFY_PARAM_set1_host (peer_name opts)])"

definition sni_calls :: "tls_env \<Rightarrow> VfdwServerOptions \<Rightarrow> ssl_call list" where
  "sni_calls env opts = (if vfdw_is_ip_literal env (peer_name opts) then [] else [SSL_set_tlsext_host_name (peer_name opts)])"

abbreviation verify_mode_of :: "VfdwServerOptions \<Rightarrow> verify_mode" where
  "verify_mode_of opts \<equiv> (if so_tls_verify opts = VFDW_TLS_VERIFY_NONE then SSL_VERIFY_NONE else SSL_VERIFY_PEER)"

lemma trust_step: "tls_step env (tls_trust env opts) (1, 0) (trust_calls opts) (1, 0)"
  by (auto simp: tls_trust_def trust_calls_def ssl_ref_def split: option.split intro!: tls_step_check tls_step_do)

lemma client_step: "tls_step env (tls_client env opts) (1, 0) (client_calls opts) (1, 0)"
proof (cases "so_tls_cert_file opts")
  case None
  then show ?thesis by (simp add: tls_client_def client_calls_def tls_step_do)
next
  case (Some f)
  have cert: "tls_step env (ssl_check env (SSL_CTX_use_certificate_chain_file f) False True what) (1, 0) [SSL_CTX_use_certificate_chain_file f] (1, 0)" for what
    by (rule tls_step_config) simp_all
  have key: "tls_step env (case so_tls_key_file opts of
       None \<Rightarrow> (\<lambda>s. (raise ERRCODE_INVALID_PARAMETER_VALUE ''tls_cert_file requires tls_key_file'', ssl_log [SSL_CTX_free] s))
     | Some k \<Rightarrow>
         tls_then (ssl_check env (SSL_CTX_use_PrivateKey_file k) False True ''could not load the client private key'')
         (ssl_check env SSL_CTX_check_private_key False True ''the client private key does not match the certificate'')) (1, 0)
     ([SSL_CTX_use_PrivateKey_file (the (so_tls_key_file opts))] @ [SSL_CTX_check_private_key]) (1, 0)"
  proof (cases "so_tls_key_file opts")
    case None
    then show ?thesis by (auto simp: tls_step_def ssl_ref_def)
  next
    case (Some k)
    show ?thesis unfolding Some option.case option.sel by (rule tls_step_then; rule tls_step_config; simp)
  qed
  show ?thesis using tls_step_then [OF cert key] by (simp add: tls_client_def client_calls_def Some)
qed

lemma identity_step: "tls_step env (vfdw_tls_set_identity env False opts) (1, 1) (sni_calls env opts @ pin_calls env opts) (1, 1)"
proof -
  have sni: "tls_step env (if \<not> vfdw_is_ip_literal env (peer_name opts)
      then ssl_check env (SSL_set_tlsext_host_name (peer_name opts)) True False ''could not set the TLS server name'' else ssl_do [])
      (1, 1) (sni_calls env opts) (1, 1)"
    by (auto simp: sni_calls_def ssl_ref_def intro!: tls_step_check tls_step_do)
  have pin: "tls_step env (tls_then (ssl_do [X509_VERIFY_PARAM_set_no_partial_wildcards]) (ssl_check env c True False what)) (1, 1)
      ([X509_VERIFY_PARAM_set_no_partial_wildcards] @ [c]) (1, 1)"
    if "c \<in> {X509_VERIFY_PARAM_set1_ip_asc (peer_name opts), X509_VERIFY_PARAM_set1_host (peer_name opts)}" for c what
    by (rule tls_step_then; (rule tls_step_check tls_step_do)) (use that in \<open>auto simp: ssl_ref_def\<close>)
  show ?thesis unfolding vfdw_tls_set_identity_def Let_def
    by (rule tls_step_then [OF sni]) (use pin in \<open>auto simp: pin_calls_def intro!: tls_step_do\<close>)
qed

lemma context_step:
  "tls_step env (vfdw_tls_make_context env opts) (0, 0)
     ([SSL_CTX_new] @ [SSL_CTX_set_min_proto_version TLS1_2_VERSION] @ trust_calls opts @ client_calls opts @ [SSL_CTX_set_verify (verify_mode_of opts)]) (1, 0)"
proof -
  have new: "tls_step env (ssl_check env SSL_CTX_new False False what) (0, 0) [SSL_CTX_new] (1, 0)" for what
    by (rule tls_step_check) (simp_all add: ssl_ref_def)
  have floor: "tls_step env (ssl_check env (SSL_CTX_set_min_proto_version TLS1_2_VERSION) False True what) (1, 0)
      [SSL_CTX_set_min_proto_version TLS1_2_VERSION] (1, 0)" for what
    by (rule tls_step_config) simp_all
  have verify: "tls_step env (ssl_do [SSL_CTX_set_verify m]) (1, 0) [SSL_CTX_set_verify m] (1, 0)" for m
    by (rule tls_step_do) (simp add: ssl_ref_def)
  show ?thesis unfolding vfdw_tls_make_context_def
    by (rule tls_step_then [OF new tls_step_then [OF floor tls_step_then [OF trust_step tls_step_then [OF client_step verify]]]])
qed

text \<open>The calls that build a session, after the library is initialised.\<close>

definition session_calls :: "tls_env \<Rightarrow> VfdwServerOptions \<Rightarrow> ssl_call list" where
  "session_calls env opts =
     [SSL_CTX_new, SSL_CTX_set_min_proto_version TLS1_2_VERSION] @ trust_calls opts @ client_calls opts @
     [SSL_CTX_set_verify (verify_mode_of opts), SSL_new, SSL_CTX_free] @ sni_calls env opts @ pin_calls env opts @ [valkeyInitiateTLS]"

lemma session_step:
  "tls_step env
     (tls_then (\<lambda>s. (Inr (), s\<lparr>ssl_queue := [], vfdw_tls_verify_error := X509_V_OK\<rparr>))
     (tls_then (vfdw_tls_make_context env opts)
     (tls_then (ssl_check env SSL_new False True ''could not create a TLS session'')
     (tls_then (ssl_do [SSL_CTX_free])
     (tls_then (vfdw_tls_set_identity env False opts)
     (\<lambda>s. if tv_ok env valkeyInitiateTLS then (Inr (), ssl_log [valkeyInitiateTLS] s)
          else (raise ERRCODE_CONNECTION_FAILURE ''TLS handshake with Valkey failed'', ssl_log [valkeyInitiateTLS, SSL_free] s)))))))
     (0, 0) (session_calls env opts) (1, 1)" (is "tls_step env (tls_then ?reset (tls_then _ (tls_then _ (tls_then _ (tls_then _ ?last))))) _ _ _")
proof -
  have reset: "tls_step env ?reset (0, 0) [] (0, 0)" by (simp add: tls_step_def)
  have new: "tls_step env (ssl_check env SSL_new False True ''could not create a TLS session'') (1, 0) [SSL_new] (2, 1)"
    by (rule tls_step_check) (simp_all add: ssl_ref_def)
  have free: "tls_step env (ssl_do [SSL_CTX_free]) (2, 1) [SSL_CTX_free] (1, 1)" by (rule tls_step_do) (simp add: ssl_ref_def)
  have last: "tls_step env ?last (1, 1) [valkeyInitiateTLS] (1, 1)" by (auto simp: tls_step_def ssl_ref_def)
  show ?thesis
    using tls_step_then [OF reset tls_step_then [OF context_step tls_step_then [OF new tls_step_then [OF free tls_step_then [OF identity_step last]]]]]
    by (simp add: session_calls_def)
qed


end
