(* ===== verification/Estimate.thy ===== *)
theory Estimate
  imports Search Complex_Main
begin

text \<open>
  What the planner is told of a table: \<open>src/vfdw_estimate.c\<close>, which asks the server for a count where one command can
  answer, \<open>src/vfdw_analyze.c\<close>, which draws the sample of ANALYZE, and \<open>vfdwGetForeignRelSize\<close> and \<open>vfdwAnalyzeForeignTable\<close>
  of \<open>src/valkey_fdw.c\<close>. A row count is a whole number here, where the code has a double; a random draw of PostgreSQL's sampler is a
  function of the number of draws before it.
\<close>

section \<open>Counting by asking\<close>

text \<open>The connection environment, the stream of a leased connection, what appending a command gives, and who asks whom.\<close>

record est_env =
  ee_conn :: conn_env
  ee_wire :: "VfdwConnKey \<Rightarrow> wire"
  ee_append :: "bytes list \<Rightarrow> unit result"
  ee_server :: Oid
  ee_user :: Oid
  ee_mapping :: Oid

primrec vfdw_estimate_count_verb :: "VfdwTableType \<Rightarrow> string option" where
  "vfdw_estimate_count_verb VFDW_TABLE_HASH = Some ''HLEN''"
| "vfdw_estimate_count_verb VFDW_TABLE_LIST = Some ''LLEN''"
| "vfdw_estimate_count_verb VFDW_TABLE_SET = Some ''SCARD''"
| "vfdw_estimate_count_verb VFDW_TABLE_ZSET = Some ''ZCARD''"
| "vfdw_estimate_count_verb VFDW_TABLE_STRING = None"
| "vfdw_estimate_count_verb VFDW_TABLE_VECTOR = None"

definition integer_reply :: "valkeyReply option \<Rightarrow> int" where
  "integer_reply reply = (case reply of Some r \<Rightarrow> if rp_type r = VALKEY_REPLY_INTEGER then rp_integer r else - 1 | None \<Rightarrow> - 1)"

text \<open>The conversation with the server inside the \<open>PG_TRY\<close>, on the stream of the leased connection.\<close>

definition estimate_talk :: "est_env \<Rightarrow> string \<Rightarrow> bytes \<Rightarrow> VfdwConnKey \<Rightarrow> int result" where
  "estimate_talk env verb arg key =
     (let b0 = vfdw_batch_begin (so_pipeline_batch (ce_server_options (ee_conn env) (ee_server env))) (ee_wire env key);
          cmd = vfdw_cmd_add_bytes arg (vfdw_cmd_add_cstr verb (vfdw_cmd_init 3)) in
      result_bind (vfdw_batch_add (ee_append env (cmd_argv cmd)) b0) (\<lambda>b1.
      result_bind (vfdw_batch_next b1) (\<lambda>(reply, b2).
      result_bind (vfdw_batch_end b2) (\<lambda>_. Inr (integer_reply reply)))))"

text \<open>
  Every error ends as \<open>-1\<close>. After an error in the conversation the connection stays leased and in conversation, for the end of the
  transaction to close.
\<close>

definition vfdw_estimate_ask :: "est_env \<Rightarrow> string \<Rightarrow> bytes \<Rightarrow> conn_pool \<Rightarrow> int \<times> conn_pool" where
  "vfdw_estimate_ask env verb arg pool =
     (case vfdw_get_connection_cluster (ee_conn env) (ee_server env) (ee_user env) (ee_mapping env) pool of
        (Inl e, pool1, _) \<Rightarrow> (- 1, pool1)
      | (Inr key, pool1, _) \<Rightarrow>
          (case estimate_talk env verb arg key of
             Inl e \<Rightarrow> (- 1, AList.update key ((the (map_of pool1 key))\<lparr>vc_in_conversation := True\<rparr>) pool1)
           | Inr n \<Rightarrow> (n, vfdw_release_connection (Some key) pool1)))"

definition counted :: "int \<times> conn_pool \<Rightarrow> int \<times> conn_pool" where
  "counted = (\<lambda>(n, pool). (if n \<ge> 0 then n else - 1, pool))"

definition vfdw_estimate_rows :: "est_env \<Rightarrow> VfdwTableMap \<Rightarrow> conn_pool \<Rightarrow> int \<times> conn_pool" where
  "vfdw_estimate_rows env m pool =
     (case tm_singleton_key m of
        Some key \<Rightarrow>
          if \<not> vfdw_scan_is_multirow m then (1, pool)
          else (case vfdw_estimate_count_verb (tm_tabletype m) of
                  None \<Rightarrow> (1, pool)
                | Some verb \<Rightarrow> counted (vfdw_estimate_ask env verb key pool))
      | None \<Rightarrow>
          (case tm_keyset m of
             Some ks \<Rightarrow> if \<not> vfdw_scan_is_multirow m then counted (vfdw_estimate_ask env ''SCARD'' ks pool) else (- 1, pool)
           | None \<Rightarrow> (- 1, pool)))"

definition VFDW_DEFAULT_TUPLES :: int where
  "VFDW_DEFAULT_TUPLES = 1000"

text \<open>\<open>tuples\<close> is the planner's figure for the relation, negative before the first ANALYZE.\<close>

definition vfdwGetForeignRelSize :: "est_env \<Rightarrow> VfdwTableMap \<Rightarrow> int \<Rightarrow> conn_pool \<Rightarrow> int \<times> conn_pool" where
  "vfdwGetForeignRelSize env m tuples pool =
     (if tuples < 0
      then case vfdw_estimate_rows env m pool of (rows, pool1) \<Rightarrow> (if rows \<ge> 0 then rows else VFDW_DEFAULT_TUPLES, pool1)
      else (tuples, pool))"

section \<open>The sample of ANALYZE\<close>

record reservoir =
  rs_next_S :: "nat \<Rightarrow> int \<Rightarrow> int \<Rightarrow> int"
  rs_fract :: "nat \<Rightarrow> rat"

record sample_state =
  sp_rows :: "slot list"
  sp_samplerows :: int
  sp_rowstoskip :: int
  sp_draws :: nat

definition vfdw_scan_sample_replace :: "reservoir \<Rightarrow> nat \<Rightarrow> slot \<Rightarrow> sample_state \<Rightarrow> sample_state" where
  "vfdw_scan_sample_replace rs targrows slot s0 =
     (let s1 = (if sp_rowstoskip s0 < 0
                then s0\<lparr>sp_rowstoskip := rs_next_S rs (sp_draws s0) (sp_samplerows s0) (int targrows), sp_draws := sp_draws s0 + 1\<rparr> else s0);
          s2 = (if sp_rowstoskip s1 \<le> 0
                then s1\<lparr>sp_rows := (sp_rows s1)[nat \<lfloor>of_nat targrows * rs_fract rs (sp_draws s1)\<rfloor> := slot], sp_draws := sp_draws s1 + 1\<rparr> else s1)
      in s2\<lparr>sp_rowstoskip := sp_rowstoskip s2 - 1\<rparr>)"

definition sample_row :: "reservoir \<Rightarrow> nat \<Rightarrow> slot \<Rightarrow> sample_state \<Rightarrow> sample_state" where
  "sample_row rs targrows slot s =
     (let s1 = (if length (sp_rows s) < targrows then s\<lparr>sp_rows := sp_rows s @ [slot]\<rparr> else vfdw_scan_sample_replace rs targrows slot s)
      in s1\<lparr>sp_samplerows := sp_samplerows s1 + 1\<rparr>)"

definition sample_init :: sample_state where
  "sample_init = \<lparr>sp_rows = [], sp_samplerows = 0, sp_rowstoskip = - 1, sp_draws = 0\<rparr>"

text \<open>The loop over the scan: at most \<open>n\<close> rows, with fuel for each fetch.\<close>

fun sample_loop ::
  "nat \<Rightarrow> nat \<Rightarrow> reservoir \<Rightarrow> search_env \<Rightarrow> scan_env \<Rightarrow> nat \<Rightarrow> VfdwScanState \<times> shared \<Rightarrow> sample_state \<Rightarrow>
   (sample_state \<times> VfdwScanState \<times> shared) result option" where
  "sample_loop 0 fuel rs senv env targrows s acc = None"
| "sample_loop (Suc n) fuel rs senv env targrows s acc =
     (case scan_next fuel senv env s of
        None \<Rightarrow> None
      | Some (Inl e) \<Rightarrow> Some (Inl e)
      | Some (Inr (None, s1)) \<Rightarrow> Some (Inr (acc, s1))
      | Some (Inr (Some slot, s1)) \<Rightarrow> sample_loop n fuel rs senv env targrows s1 (sample_row rs targrows slot acc))"

text \<open>The sample and the number of rows of the table.\<close>

definition vfdw_scan_acquire_sample_rows ::
  "nat \<Rightarrow> nat \<Rightarrow> reservoir \<Rightarrow> search_env \<Rightarrow> scan_env \<Rightarrow> VfdwTableMap \<Rightarrow> wire \<Rightarrow> bool \<Rightarrow> scan_overlay \<Rightarrow> nat \<Rightarrow> shared \<Rightarrow>
   (slot list \<times> int) result option" where
  "vfdw_scan_acquire_sample_rows n fuel rs senv env m w is_cluster so targrows sh =
     (case vfdw_scan_state_create env m w is_cluster so of
        Inl e \<Rightarrow> Some (Inl e)
      | Inr st \<Rightarrow>
          (case sample_loop n fuel rs senv env targrows (st, sh) sample_init of
             None \<Rightarrow> None
           | Some (Inl e) \<Rightarrow> Some (Inl e)
           | Some (Inr (acc, st1, sh1)) \<Rightarrow> Some (result_bind (vfdw_scan_end st1) (\<lambda>_. Inr (sp_rows acc, sp_samplerows acc)))))"

text \<open>What ANALYZE may sample: the table type of the map that was built.\<close>

definition vfdwAnalyzeForeignTable :: "VfdwTableMap result \<Rightarrow> unit result" where
  "vfdwAnalyzeForeignTable built =
     result_bind built (\<lambda>m.
       if tm_tabletype m = VFDW_TABLE_VECTOR
       then raise ERRCODE_FEATURE_NOT_SUPPORTED (''cannot ANALYZE a Valkey '' @ quoted ''vector'' @ '' table'')
       else Inr ())"

section \<open>What the sample is\<close>

text \<open>The rows a scan gives, until it has none.\<close>

fun scan_rows :: "nat \<Rightarrow> nat \<Rightarrow> search_env \<Rightarrow> scan_env \<Rightarrow> VfdwScanState \<times> shared \<Rightarrow> (slot list \<times> VfdwScanState \<times> shared) result option" where
  "scan_rows 0 fuel senv env s = None"
| "scan_rows (Suc n) fuel senv env s =
     (case scan_next fuel senv env s of
        None \<Rightarrow> None
      | Some (Inl e) \<Rightarrow> Some (Inl e)
      | Some (Inr (None, s1)) \<Rightarrow> Some (Inr ([], s1))
      | Some (Inr (Some slot, s1)) \<Rightarrow> map_option (map_sum id (\<lambda>(rows, s2). (slot # rows, s2))) (scan_rows n fuel senv env s1))"

definition sample_of :: "reservoir \<Rightarrow> nat \<Rightarrow> slot list \<Rightarrow> sample_state" where
  "sample_of rs targrows rows = fold (sample_row rs targrows) rows sample_init"

text \<open>ANALYZE samples exactly the rows a scan of the table gives.\<close>

lemma analyze_samples_scan:
  "sample_loop n fuel rs senv env targrows s acc =
     map_option (map_sum id (\<lambda>(rows, s1). (fold (sample_row rs targrows) rows acc, s1))) (scan_rows n fuel senv env s)"
proof (induction n arbitrary: s acc)
  case (Suc n)
  have c: "map_option (map_sum id (\<lambda>(rows, s1). (fold (sample_row rs targrows) rows acc, s1)))
      (map_option (map_sum id (\<lambda>(rows, s2). (slot # rows, s2))) r) =
    map_option (map_sum id (\<lambda>(rows, s1). (fold (sample_row rs targrows) rows (sample_row rs targrows slot acc), s1))) r" for slot r
    by (auto simp: option.map_comp sum.map_comp comp_def case_prod_unfold id_def)
  show ?case by (auto simp: Suc c [unfolded id_def] id_def split: option.split sum.split)
qed simp

lemma fract_in_range:
  assumes "0 \<le> f" "f < (1 :: rat)" "0 < t"
  shows "nat \<lfloor>of_nat t * f\<rfloor> < t"
proof -
  have "of_nat t * f < of_nat t" using assms by simp
  then have "\<lfloor>of_nat t * f\<rfloor> < int t" by (simp add: floor_less_iff)
  then show ?thesis using assms by linarith
qed

text \<open>One row: appended, put in the place of another, or passed over.\<close>

lemma sample_row_cases:
  assumes f: "\<forall>d. 0 \<le> rs_fract rs d \<and> rs_fract rs d < 1" and t: "0 < t"
  shows "sp_samplerows (sample_row rs t x s) = sp_samplerows s + 1"
    and "if length (sp_rows s) < t then sp_rows (sample_row rs t x s) = sp_rows s @ [x]
         else sp_rows (sample_row rs t x s) = sp_rows s \<or> (\<exists>k < t. sp_rows (sample_row rs t x s) = (sp_rows s)[k := x])"
  using fract_in_range [of "rs_fract rs d" t for d] f t
  by (auto simp: sample_row_def vfdw_scan_sample_replace_def Let_def)

lemma sample_indices:
  assumes f: "\<forall>d. 0 \<le> rs_fract rs d \<and> rs_fract rs d < 1" and t: "0 < t"
  shows "sp_samplerows (sample_of rs t rows) = int (length rows) \<and>
    (\<exists>idx. distinct idx \<and> set idx \<subseteq> {..<length rows} \<and> length idx = min t (length rows) \<and> sp_rows (sample_of rs t rows) = map ((!) rows) idx)"
proof (induction rows rule: rev_induct)
  case Nil
  then show ?case by (simp add: sample_of_def sample_init_def)
next
  case (snoc x rows)
  let ?s = "sample_of rs t rows" and ?n = "length rows"
  from snoc obtain idx where i: "distinct idx" "set idx \<subseteq> {..<?n}" "length idx = min t ?n" "sp_rows ?s = map ((!) rows) idx" by blast
  have step: "sample_of rs t (rows @ [x]) = sample_row rs t x ?s" by (simp add: sample_of_def)
  have old: "map ((!) (rows @ [x])) idx = map ((!) rows) idx" using i(2) by (auto simp: nth_append)
  note c = sample_row_cases [OF f t, where x = x and s = ?s]
  have "\<exists>idx. distinct idx \<and> set idx \<subseteq> {..<Suc ?n} \<and> length idx = min t (Suc ?n) \<and> sp_rows (sample_row rs t x ?s) = map ((!) (rows @ [x])) idx"
  proof (cases "length (sp_rows ?s) < t")
    case True
    have "distinct (idx @ [?n])" "set (idx @ [?n]) \<subseteq> {..<Suc ?n}" using i(1,2) by auto
    moreover have "length (idx @ [?n]) = min t (Suc ?n)" using True i(3,4) by auto
    moreover have "sp_rows (sample_row rs t x ?s) = map ((!) (rows @ [x])) (idx @ [?n])" using c(2) True i(4) old by simp
    ultimately show ?thesis by blast
  next
    case False
    then have t': "length idx = t" "min t (Suc ?n) = t" using i(3,4) by auto
    consider "sp_rows (sample_row rs t x ?s) = sp_rows ?s" | k where "k < t" "sp_rows (sample_row rs t x ?s) = (sp_rows ?s)[k := x]"
      using c(2) False by auto
    then show ?thesis
    proof cases
      case 1
      have "set idx \<subseteq> {..<Suc ?n}" using i(2) by auto
      then show ?thesis using 1 i(1,4) t' old by (intro exI [of _ idx]) simp
    next
      case 2
      have "distinct (idx[k := ?n])" using i(1,2) by (intro distinct_list_update) auto
      moreover have "set (idx[k := ?n]) \<subseteq> {..<Suc ?n}" using i(2) set_update_subset_insert [of idx k ?n] by auto
      moreover have "sp_rows (sample_row rs t x ?s) = map ((!) (rows @ [x])) (idx[k := ?n])" 
        unfolding 2(2) i(4) old [symmetric] by (simp add: map_update)
      ultimately show ?thesis using t' by (intro exI [of _ "idx[k := ?n]"]) simp
    qed
  qed
  then show ?case using c(1) snoc by (simp add: step)
qed

text \<open>C27. The sample of ANALYZE is drawn from the table without repetition. For a sampler whose fraction is at least 0 and below 1, the
  total that is reported is the number of rows the scan gave, the sample has the size asked for, or every row when there are
  fewer, and its entries are the rows of different positions: no row of the scan is in it twice and none is made up.\<close>

theorem sample_is_faithful:
  assumes "\<forall>d. 0 \<le> rs_fract rs d \<and> rs_fract rs d < 1" and "0 < t"
  shows "sp_samplerows (sample_of rs t rows) = int (length rows) \<and>
    (\<exists>idx. distinct idx \<and> set idx \<subseteq> {..<length rows} \<and> length idx = min t (length rows) \<and> sp_rows (sample_of rs t rows) = map ((!) rows) idx)"
  using assms by (rule sample_indices)

definition first_half :: reservoir where
  "first_half = \<lparr>rs_next_S = (\<lambda>_ _ _. 1), rs_fract = (\<lambda>_. 1 / 2)\<rparr>"

theorem sample_is_faithful_witness:
  "sp_samplerows (sample_of first_half 2 [[None], [Some (DOpaque ''a'')], [Some (DOpaque ''b'')], [Some (DOpaque ''c'')]]) = 4 \<and>
   sp_rows (sample_of first_half 2 [[None], [Some (DOpaque ''a'')], [Some (DOpaque ''b'')], [Some (DOpaque ''c'')]]) = [[None], [Some (DOpaque ''c'')]] \<and>
   length (sp_rows (sample_of first_half 2 [[None], [Some (DOpaque ''a'')], [Some (DOpaque ''b'')], [Some (DOpaque ''c'')]])) = 2"
proof -
  let ?rows = "[[None], [Some (DOpaque ''a'')], [Some (DOpaque ''b'')], [Some (DOpaque ''c'')]] :: slot list"
  have "sp_samplerows (sample_of first_half 2 ?rows) = int (length ?rows) \<and>
    (\<exists>idx. distinct idx \<and> set idx \<subseteq> {..<length ?rows} \<and> length idx = min 2 (length ?rows) \<and> sp_rows (sample_of first_half 2 ?rows) = map ((!) ?rows) idx)"
    by (rule sample_is_faithful) (simp_all add: first_half_def)
  then have "sp_samplerows (sample_of first_half 2 ?rows) = 4" "length (sp_rows (sample_of first_half 2 ?rows)) = 2"
    by auto
  moreover have "sp_rows (sample_of first_half 2 ?rows) = [[None], [Some (DOpaque ''c'')]]"
    by (simp add: sample_of_def sample_init_def sample_row_def vfdw_scan_sample_replace_def first_half_def Let_def)
  ultimately show ?thesis by simp
qed

section \<open>What a count means\<close>

lemma member_rows_length:
  assumes "vfdw_scan_member_stride (tm_tabletype m) reply = Inr stride" and "0 < stride"
  shows "member_rows n env m ctx key reply i = Inr rows \<Longrightarrow> length (rp_element reply) = i + c * stride \<Longrightarrow> c \<le> n \<Longrightarrow> length rows = c"
proof (induction n arbitrary: i c rows)
  case (Suc n)
  show ?case
  proof (cases c)
    case 0
    then show ?thesis using Suc.prems by simp
  next
    case (Suc c')
    have lt: "\<not> i \<ge> length (rp_element reply)" using Suc.prems(2) assms(2) by (simp add: Suc)
    with Suc.prems(1) assms(1) obtain row rows' where r: "member_rows n env m ctx key reply (i + stride) = Inr rows'" "rows = row # rows'"
      by (auto simp: result_bind_Inr_iff)
    have "length rows' = c'" by (rule Suc.IH [OF r(1)]) (use Suc.prems(2,3) Suc in simp_all)
    then show ?thesis by (simp add: r(2) Suc)
  qed
qed simp

text \<open>The rows of a collection, when its reply lists \<open>c\<close> members.\<close>

lemma collection_rows:
  assumes rows: "key_rows venv m VFDW_SCAN_SINGLETON ctx answer key = Inr rows" and multi: "vfdw_scan_is_multirow m"
    and type: "rp_type (answer (value_argv m key)) \<in> {VALKEY_REPLY_ARRAY, VALKEY_REPLY_SET}" and hm: "\<not> tm_hmget m"
    and stride: "vfdw_scan_member_stride (tm_tabletype m) (answer (value_argv m key)) = Inr stride"
    and len: "length (rp_element (answer (value_argv m key))) = c * stride"
  shows "length rows = c"
proof -
  let ?reply = "answer (value_argv m key)"
  have s: "0 < stride" using stride_pos [OF stride] .
  have k: "key_member answer m VFDW_SCAN_SINGLETON key \<noteq> 0" by (simp add: key_member_def vfdw_scan_asks_membership_def)
  have sk: "\<not> vfdw_scan_reply_is_skippable ?reply"
    using type by (auto simp: vfdw_scan_reply_is_skippable_def vfdw_cluster_is_redirect_def vfdw_reply_has_prefix_def vfdw_reply_is_error_def)
  show ?thesis
  proof (cases "vfdw_scan_reply_is_absent m (key_hlen answer m key) ?reply")
    case True
    then have "rp_element ?reply = []" using hm type by (auto simp: vfdw_scan_reply_is_absent_def split: if_splits)
    then show ?thesis using rows True len s by (simp add: key_rows_def Let_def)
  next
    case False
    have "c \<le> length (rp_element ?reply)" using len s by simp
    then show ?thesis using rows k sk False multi len member_rows_length [OF stride s, of _ venv _ key 0 rows c]
      by (auto simp: key_rows_def Let_def result_bind_Inr_iff)
  qed
qed

lemma talk_ready:
  assumes "\<forall>argv. ee_append env argv = Inr ()"
    and "ready (vfdw_batch_begin (so_pipeline_batch (ce_server_options (ee_conn env) (ee_server env))) (ee_wire env k)) 0 [r]"
  shows "estimate_talk env verb arg k = Inr (integer_reply (Some r))"
proof -
  obtain b1 where b1: "vfdw_batch_add (Inr ()) (vfdw_batch_begin (so_pipeline_batch (ce_server_options (ee_conn env) (ee_server env))) (ee_wire env k)) = Inr b1"
    "ready b1 (Suc 0) [r]" using br.enq_ready [OF assms(2)] by auto
  obtain b2 where b2: "vfdw_batch_next b1 = Inr (Some r, b2)" "ready b2 0 []" using br.deq_ready [OF b1(2)] by blast
  have "vfdw_batch_pending b2 = 0" using b2(2) by (simp add: ready_def)
  then show ?thesis using assms(1) by (simp add: estimate_talk_def Let_def b1(1) b2(1) vfdw_batch_end_def)
qed


text \<open>A list of two members under one key, on a fresh pool.\<close>

definition list_map :: VfdwTableMap where
  "list_map = (zero_map 2)\<lparr>tm_tabletype := VFDW_TABLE_LIST, tm_singleton_key := Some ''l'',
     tm_cols := [text_column 1 VFDW_COL_MEMBER], tm_memberattno := 1\<rparr>"

definition list_answer :: "bytes list \<Rightarrow> valkeyReply" where
  "list_answer argv = (if argv = [''LLEN'', ''l''] then Reply VALKEY_REPLY_INTEGER None (int 2) [] else pairs_reply [text_reply ''x'', text_reply ''y''])"

definition list_env :: est_env where
  "list_env = \<lparr>ee_conn = sample_conn_env True, ee_wire = (\<lambda>_. quiet_wire\<lparr>wire_read := (\<lambda>_. Inr (list_answer [''LLEN'', ''l'']))\<rparr>),
     ee_append = (\<lambda>_. Inr ()), ee_server = 10, ee_user = 20, ee_mapping = 30\<rparr>"

lemma list_key_rows:
  "key_rows text_env list_map VFDW_SCAN_SINGLETON (vfdw_row_ctx_init list_map) list_answer ''l'' =
     Inr [[Some (DOpaque ''x'')], [Some (DOpaque ''y'')]]"
  by code_simp

lemma list_connection:
  obtains pool1 opened where "vfdw_get_connection_cluster (sample_conn_env True) 10 20 30 [] = (Inr (slot_key 10 20 0), pool1, opened)"
proof -
  have u: "[0..<VFDW_MAX_CONN_SLOTS] = 0 # [1..<VFDW_MAX_CONN_SLOTS]" by (simp add: upt_conv_Cons)
  have "fst (vfdw_get_connection_cluster (sample_conn_env True) 10 20 30 []) = Inr (slot_key 10 20 0)"
    unfolding vfdw_get_connection_cluster_def vfdw_get_connection_internal_def vfdw_conn_take_free_slot_def u
    by (simp add: conn_exec)
  then show thesis using that by (cases "vfdw_get_connection_cluster (sample_conn_env True) 10 20 30 []") auto
qed


text \<open>The estimate does not look at the database of the table, which the scan selects first.\<close>

lemma estimate_ignores_database: "vfdw_estimate_rows env (m\<lparr>tm_database := d\<rparr>) pool = vfdw_estimate_rows env m pool"
  by (simp add: vfdw_estimate_rows_def vfdw_scan_is_multirow_def split: option.split)

text \<open>A cancelled query goes on planning: the error is dropped like every other and the placeholder taken.\<close>

lemma estimate_swallows_cancel:
  assumes "vfdw_get_connection_cluster (ee_conn env) (ee_server env) (ee_user env) (ee_mapping env) pool = (Inr k, pool1, opened)"
    and "estimate_talk env ''LLEN'' key k = Inl (PgError ERRCODE_QUERY_CANCELED msg)"
    and "tm_singleton_key m = Some key" "tm_tabletype m = VFDW_TABLE_LIST" "\<not> tm_legacy_value m"
  shows "fst (vfdwGetForeignRelSize env m (- 1) pool) = VFDW_DEFAULT_TUPLES"
  using assms by (simp add: vfdwGetForeignRelSize_def vfdw_estimate_rows_def vfdw_estimate_ask_def counted_def vfdw_scan_is_multirow_def)

end
