(* ===== verification/Handler.thy ===== *)
theory Handler
  imports Estimate Modify
begin

text \<open>
  The planner and EXPLAIN callbacks of \<open>src/valkey_fdw.c\<close>, and the listing of the option table. The planner's own functions are
  outside: the costs it charges per tuple, the rows of a parameterised path, the target list. Costs are rational numbers, where
  the code has doubles.
\<close>

section \<open>The options as a table\<close>

definition vfdw_option_hint :: "opt_context \<Rightarrow> string" where
  "vfdw_option_hint context =
     (let buf = fold (\<lambda>def buf. if od_context def \<noteq> context then buf else buf @ (if buf \<noteq> [] then '', '' else []) @ od_name def) vfdw_options []
      in if buf \<noteq> [] then buf else ''<none>'')"

primrec vfdw_option_kind_label :: "VfdwOptKind \<Rightarrow> string" where
  "vfdw_option_kind_label VFDW_OPT_STRING = ''string''"
| "vfdw_option_kind_label VFDW_OPT_INT = ''integer''"
| "vfdw_option_kind_label VFDW_OPT_BOOL = ''boolean''"
| "vfdw_option_kind_label VFDW_OPT_ENUM = ''enum''"
| "vfdw_option_kind_label VFDW_OPT_PATH = ''path''"

definition option_context_label :: "opt_context \<Rightarrow> string" where
  "option_context_label ctx =
     (if ctx = ForeignServerRelationId then ''server'' else if ctx = UserMappingRelationId then ''user_mapping''
      else if ctx = ForeignTableRelationId then ''table'' else if ctx = AttributeRelationId then ''column'' else ''unknown'')"

text \<open>Name, context, kind, default, sensitive, restricted.\<close>

definition valkey_fdw_options :: "(string \<times> string \<times> string \<times> string option \<times> bool \<times> bool) list" where
  "valkey_fdw_options =
     map (\<lambda>def. (od_name def, option_context_label (od_context def), vfdw_option_kind_label (od_kind def), od_defval def, od_sensitive def,
                 od_priv def \<noteq> VFDW_OPTPRIV_NONE)) vfdw_options"

section \<open>Paths\<close>

record ForeignPath =
  fp_rows :: rat
  fp_startup_cost :: rat
  fp_total_cost :: rat
  fp_pathkeys :: "PathKey list"
  fp_required_outer :: "nat set"

text \<open>\<open>ppi\<close> is \<open>get_baserel_parampathinfo\<close>: the rows per outer row, when the planner has an estimate.\<close>

definition vfdw_plan_param_path ::
  "plan_env \<Rightarrow> rat \<Rightarrow> (nat set \<Rightarrow> rat option) \<Rightarrow> nat \<Rightarrow> VfdwTableMap \<Rightarrow> (clause \<times> nat set) list \<Rightarrow> ForeignPath list" where
  "vfdw_plan_param_path env cpu_tuple_cost ppi relid m implied =
     (case vfdw_plan_param_key env relid m implied of
        None \<Rightarrow> []
      | Some (_, outer) \<Rightarrow>
          [\<lparr>fp_rows = (case ppi outer of Some rows \<Rightarrow> rows | None \<Rightarrow> 1), fp_startup_cost = 1, fp_total_cost = 1 + cpu_tuple_cost,
            fp_pathkeys = [], fp_required_outer = outer\<rparr>])"

definition vfdwGetForeignPaths ::
  "plan_env \<Rightarrow> rat \<Rightarrow> (nat set \<Rightarrow> rat option) \<Rightarrow> bool \<Rightarrow> planner_info \<Rightarrow> rel_info \<Rightarrow> nat \<Rightarrow> rat \<Rightarrow> VfdwTableMap \<Rightarrow> (clause \<times> nat set) list \<Rightarrow>
   ForeignPath list result" where
  "vfdwGetForeignPaths env cpu_tuple_cost ppi cluster planner_root rel relid baserows m implied =
     result_bind (vfdwKnnPathkeys cluster planner_root rel m) (\<lambda>knn.
       let (rows, pathkeys) = (case knn of None \<Rightarrow> (baserows, []) | Some (k, pk) \<Rightarrow> (of_int k, pk)) in
       Inr (\<lparr>fp_rows = rows, fp_startup_cost = 10, fp_total_cost = 10 + rows * cpu_tuple_cost, fp_pathkeys = pathkeys, fp_required_outer = {}\<rparr>
            # vfdw_plan_param_path env cpu_tuple_cost ppi relid m implied))"

section \<open>The plan\<close>

text \<open>The scan node: the clauses the executor checks again, and what the scan was told.\<close>

record ForeignScan =
  fs_qual :: "clause list"
  fs_private :: scan_private

text \<open>\<open>extract_actual_clauses\<close> strips the wrapper of each clause (the pseudoconstant ones are not among \<open>scan_clauses\<close> here); a path with parameters is one with required outer relations.\<close>

definition vfdwGetForeignPlan ::
  "plan_env \<Rightarrow> planner_info \<Rightarrow> rel_info \<Rightarrow> nat \<Rightarrow> VfdwTableMap \<Rightarrow> ForeignPath \<Rightarrow> clause list \<Rightarrow> (clause \<times> nat set) list \<Rightarrow> ForeignScan result" where
  "vfdwGetForeignPlan env planner_root rel relid m best_path scan_clauses implied =
     (let clauses = map strip_restrict scan_clauses in
      result_bind (vfdw_scan_plan env relid m clauses implied (fp_required_outer best_path \<noteq> {}) (vfdw_plan_search planner_root rel m)) (\<lambda>pv.
      Inr \<lparr>fs_qual = clauses, fs_private = pv\<rparr>))"

section \<open>EXPLAIN\<close>

datatype explain_property = ExplainPropertyText string string | ExplainPropertyInteger string int

definition vfdwExplainKnn :: "scan_private \<Rightarrow> explain_property list" where
  "vfdwExplainKnn pv =
     (let (field, metric, k) = the (pv_knn pv) in
      [ExplainPropertyText ''Valkey Search Field'' field, ExplainPropertyText ''Valkey Search Metric'' metric,
       ExplainPropertyInteger ''Valkey Search K'' k] @
      (if pv_filter pv \<noteq> [] then [ExplainPropertyText ''Valkey Search Filter'' (vfdw_filter_describe (vfdw_filter_decode (pv_filter pv)))] else []))"

definition vfdwExplainForeignScan :: "scan_private \<Rightarrow> bool \<Rightarrow> VfdwScanState \<Rightarrow> explain_property list" where
  "vfdwExplainForeignScan pv analyze st =
     [ExplainPropertyText ''Valkey Strategy'' (vfdw_scan_strategy_name (Some pv))] @
     (case pv_strategy pv of
        VFDW_SCAN_KEYSPACE \<Rightarrow> (case pv_pattern pv of Some p \<Rightarrow> [ExplainPropertyText ''Valkey Match'' p] | None \<Rightarrow> [])
      | VFDW_SCAN_KEYS \<Rightarrow> [ExplainPropertyInteger ''Valkey Keys'' (int (length (pv_keys pv)))]
      | VFDW_SCAN_KNN \<Rightarrow> vfdwExplainKnn pv
      | _ \<Rightarrow> []) @
     (if analyze
      then [ExplainPropertyInteger ''Valkey Keys Skipped'' (sc_skipped st)] @
           (if pv_strategy pv = VFDW_SCAN_KEYSPACE then [ExplainPropertyInteger ''Valkey Scan Round Trips'' (sc_pages st)] else [])
      else [])"

text \<open>No plan, no lines: the private list of a modification that was not planned by the wrapper is empty.\<close>

definition vfdw_modify_explain :: "modify_plan option \<Rightarrow> bool \<Rightarrow> explain_property list" where
  "vfdw_modify_explain plan verbose =
     (case plan of
        None \<Rightarrow> []
      | Some pl \<Rightarrow>
          [ExplainPropertyText ''Valkey Write'' ''deferred, one atomic unit, flushed at commit'',
           ExplainPropertyText ''Valkey Table Type'' (vfdw_tabletype_name (mp_tabletype pl)),
           ExplainPropertyText ''Valkey Key Source'' (mp_keysource pl)] @
          (if \<not> verbose then []
           else case mp_junk_names pl of (keyname, membername) \<Rightarrow>
             (if keyname \<noteq> [] then [ExplainPropertyText ''Valkey Row Identity'' keyname] else []) @
             (if membername \<noteq> [] then [ExplainPropertyText ''Valkey Row Identity Member'' membername] else [])))"

section \<open>Which writes a table takes\<close>

text \<open>The mask \<open>information_schema\<close> shows, as the set of operations whose bit is on.\<close>

definition vfdwIsForeignRelUpdatable :: "opt_env \<Rightarrow> options list \<Rightarrow> options \<Rightarrow> CmdType set" where
  "vfdwIsForeignRelUpdatable env attopts options = vfdw_map_writability env attopts options"

section \<open>What holds between them\<close>

text \<open>
  Every path the planner is offered can be planned: a table that got paths gets a scan from each of them, its clauses are all
  checked again by the executor, and the scan is the one the path was costed for: a search of \<open>k\<close> rows in the order of the query, or a lookup of
  one key per outer row.
\<close>

lemma offered_paths_plan:
  assumes paths: "vfdwGetForeignPaths env cost ppi cluster planner_root rel relid baserows m implied = Inr ps" and p: "p \<in> set ps"
  obtains fs where "vfdwGetForeignPlan env planner_root rel relid m p clauses implied = Inr fs" "fs_qual fs = map strip_restrict clauses"
    "tm_tabletype m = VFDW_TABLE_VECTOR \<longrightarrow> pv_strategy (fs_private fs) = VFDW_SCAN_KNN"
    "tm_tabletype m \<noteq> VFDW_TABLE_VECTOR \<longrightarrow> fp_required_outer p \<noteq> {} \<longrightarrow> pv_strategy (fs_private fs) = VFDW_SCAN_KEY_PARAM"
proof (cases "tm_tabletype m = VFDW_TABLE_VECTOR")
  case True
  then obtain knn where "vfdw_knn_match planner_root rel m = Some knn"
    using paths by (auto simp: vfdwGetForeignPaths_def vfdwKnnPathkeys_def vfdw_knn_refuse_def result_bind_Inr_iff split: option.splits)
  then show thesis using True that
    by (simp add: vfdwGetForeignPlan_def vfdw_scan_plan_def vfdw_plan_search_def vfdw_filter_encode_def vfdw_plan_private_def Let_def)
next
  case False
  have "\<exists>pv. vfdw_scan_plan env relid m (map strip_restrict clauses) implied (fp_required_outer p \<noteq> {}) (vfdw_plan_search planner_root rel m) = Inr pv"
    using False by (simp add: vfdw_scan_plan_def split: option.split)
  then obtain pv where pv: "vfdw_scan_plan env relid m (map strip_restrict clauses) implied (fp_required_outer p \<noteq> {}) (vfdw_plan_search planner_root rel m) = Inr pv" ..
  have "pv_strategy pv = VFDW_SCAN_KEY_PARAM" if "fp_required_outer p \<noteq> {}"
  proof -
    have "vfdw_plan_param_key env relid m implied \<noteq> None"
      using paths p that by (auto simp: vfdwGetForeignPaths_def result_bind_Inr_iff vfdw_plan_param_path_def Let_def split: option.splits prod.splits)
    then show ?thesis using pv False that by (auto simp: vfdw_scan_plan_def vfdw_plan_param_encode_def vfdw_plan_private_def split: option.splits)
  qed
  then show thesis using that [of "\<lparr>fs_qual = map strip_restrict clauses, fs_private = pv\<rparr>"] pv False
    by (simp add: vfdwGetForeignPlan_def Let_def)
qed

text \<open>The listing has each option of each context once.\<close>

lemma options_listed_once: "distinct (map (\<lambda>(name, ctx, _). (name, ctx)) valkey_fdw_options)"
  by code_simp

text \<open>
  A write is planned only for an operation the mask shows, and an operation the mask shows is never refused as unwritable unless
  the map was built read-only.
\<close>

lemma planned_write_is_updatable:
  "vfdw_modify_plan env attopts options m updated atts operation on_conflict = Inr mp \<Longrightarrow>
   operation \<in> vfdwIsForeignRelUpdatable env attopts options"
  "vfdw_rowid_add_update_targets env attopts options m operation = Inr junk \<Longrightarrow>
   operation \<in> vfdwIsForeignRelUpdatable env attopts options"
  "operation \<in> vfdwIsForeignRelUpdatable env attopts options \<Longrightarrow> \<not> tm_readonly m \<Longrightarrow>
   vfdw_refuse_unwritable env attopts options m operation = Inr ()"
  by (auto simp: vfdw_modify_plan_def vfdw_rowid_add_update_targets_def vfdw_refuse_unwritable_def vfdwIsForeignRelUpdatable_def
      result_bind_Inr_iff split: if_splits)

end
