(* ===== verification/Hashtab.thy ===== *)
theory Hashtab
  imports Ledger Overlay Script
begin

text \<open>
  The hash tables of the ledger, the overlay, the scan and the encoder. Their keys are a pointer and a length, so each brings
  its own hash and match function to PostgreSQL's dynahash: \<open>vfdw_ledger_hash\<close>, \<open>vfdw_overlay_hash\<close>, \<open>vfdw_seen_hash\<close>,
  \<open>vfdw_keyidx_hash\<close> and the match functions beside them. The other theories model these tables as maps from keys;
  the locale \<open>hash_key\<close> is what dynahash asks of the two functions, and shows that a table that chains entries by hash is such a
  map. PostgreSQL's \<open>hash_bytes\<close>, \<open>hash_uint32\<close> and \<open>hash_combine\<close> are arguments.
\<close>

section \<open>A chained table\<close>

type_synonym ('k, 'v) buckets = "32 word \<Rightarrow> ('k \<times> 'v) list"

definition bucket_find :: "('k \<Rightarrow> 32 word) \<Rightarrow> ('k \<Rightarrow> 'k \<Rightarrow> int) \<Rightarrow> ('k, 'v) buckets \<Rightarrow> 'k \<Rightarrow> 'v option" where
  "bucket_find hash match t k = map_option snd (find (\<lambda>(k', _). match k' k = 0) (t (hash k)))"

definition bucket_enter :: "('k \<Rightarrow> 32 word) \<Rightarrow> ('k \<Rightarrow> 'k \<Rightarrow> int) \<Rightarrow> 'k \<Rightarrow> 'v \<Rightarrow> ('k, 'v) buckets \<Rightarrow> ('k, 'v) buckets" where
  "bucket_enter hash match k v t =
     t(hash k := if bucket_find hash match t k = None then (k, v) # t (hash k)
                 else map (\<lambda>(k', v'). if match k' k = 0 then (k', v) else (k', v')) (t (hash k)))"

locale hash_key =
  fixes hash :: "'k \<Rightarrow> 32 word"
    and match :: "'k \<Rightarrow> 'k \<Rightarrow> int"
  assumes match_equal: "match x y = 0 \<longleftrightarrow> x = y"
begin

lemma find_absent: "bucket_find hash match (\<lambda>_. []) k = None"
  by (simp add: bucket_find_def)

lemma find_chain: "bucket_find hash match t k = map_of (t (hash k)) k"
proof -
  have "map_option snd (find (\<lambda>(k', _). match k' k = 0) xs) = map_of xs k" for xs
    by (induction xs) (auto simp: match_equal)
  then show ?thesis by (simp add: bucket_find_def)
qed

lemma replace_chain:
  "map_of (map (\<lambda>(k', v'). if match k' k = 0 then (k', v) else (k', v')) xs) k' =
     (if k' = k then map_option (\<lambda>_. v) (map_of xs k) else map_of xs k')"
proof (induction xs)
  case (Cons kv xs)
  obtain a b where "kv = (a, b)" by fastforce
  then show ?case using Cons by (auto simp: match_equal)
qed simp

text \<open>Entering a key is updating a map, whatever else hashes to the same chain.\<close>

lemma find_enter: "bucket_find hash match (bucket_enter hash match k v t) = (bucket_find hash match t)(k \<mapsto> v)"
proof
  fix k'
  show "bucket_find hash match (bucket_enter hash match k v t) k' = ((bucket_find hash match t)(k \<mapsto> v)) k'"
  proof (cases "map_of (t (hash k)) k = None")
    case True
    then show ?thesis by (auto simp: find_chain bucket_enter_def)
  next
    case False
    then show ?thesis by (auto simp: find_chain bucket_enter_def replace_chain)
  qed
qed

text \<open>A table filled in any order is the map of its entries.\<close>

lemma find_filled: "bucket_find hash match (fold (\<lambda>(k, v). bucket_enter hash match k v) kvs (\<lambda>_. [])) = map_of (rev kvs)"
proof (induction kvs rule: rev_induct)
  case Nil
  show ?case by (simp add: fun_eq_iff find_absent)
next
  case (snoc kv kvs)
  then show ?case by (cases kv) (simp add: find_enter fun_eq_iff)
qed

end

section \<open>The keys of the four tables\<close>

definition vfdw_ledger_hash :: "(bytes \<Rightarrow> 32 word) \<Rightarrow> VfdwLedgerKey \<Rightarrow> 32 word" where
  "vfdw_ledger_hash hash_bytes k =
     (let h = hash_bytes (lk_key k) in case lk_sub k of Some sub \<Rightarrow> xor h (hash_bytes sub) | None \<Rightarrow> h)"

definition vfdw_overlay_hash :: "(32 word \<Rightarrow> 32 word \<Rightarrow> 32 word) \<Rightarrow> (32 word \<Rightarrow> 32 word) \<Rightarrow> (bytes \<Rightarrow> 32 word) \<Rightarrow> VfdwOverlayKey \<Rightarrow> 32 word" where
  "vfdw_overlay_hash hash_combine hash_uint32 hash_bytes k = hash_combine (hash_uint32 (of_nat (ok_relid k))) (hash_bytes (ok_key k))"

definition vfdw_seen_hash :: "(bytes \<Rightarrow> 32 word) \<Rightarrow> bytes \<Rightarrow> 32 word" where
  "vfdw_seen_hash hash_bytes k = hash_bytes k"

definition vfdw_seen_match :: "bytes \<Rightarrow> bytes \<Rightarrow> int" where
  "vfdw_seen_match x y = (if length x \<noteq> length y then 1 else if length x = 0 then 0 else if x \<noteq> y then 1 else 0)"

definition vfdw_keyidx_hash :: "(bytes \<Rightarrow> 32 word) \<Rightarrow> bytes \<Rightarrow> 32 word" where
  "vfdw_keyidx_hash hash_bytes k = hash_bytes k"

definition vfdw_keyidx_match :: "bytes \<Rightarrow> bytes \<Rightarrow> int" where
  "vfdw_keyidx_match x y = (if length x \<noteq> length y then 1 else if length x = 0 then 0 else if x \<noteq> y then 1 else 0)"

interpretation ledger_keys: hash_key "vfdw_ledger_hash hash_bytes" vfdw_ledger_match for hash_bytes
  by unfold_locales (rule match_is_equality)

interpretation overlay_keys: hash_key "vfdw_overlay_hash hash_combine hash_uint32 hash_bytes" vfdw_overlay_match for hash_combine hash_uint32 hash_bytes
  by unfold_locales (rule overlay_match_is_equality)

interpretation seen_keys: hash_key "vfdw_seen_hash hash_bytes" vfdw_seen_match for hash_bytes
  by unfold_locales (auto simp: vfdw_seen_match_def)

interpretation keyidx_keys: hash_key "vfdw_keyidx_hash hash_bytes" vfdw_keyidx_match for hash_bytes
  by unfold_locales (auto simp: vfdw_keyidx_match_def)

text \<open>The four tables are the maps the model has in their place.\<close>

lemma tables_are_maps:
  "bucket_find (vfdw_ledger_hash hb) vfdw_ledger_match (fold (\<lambda>(k, v). bucket_enter (vfdw_ledger_hash hb) vfdw_ledger_match k v) kvs (\<lambda>_. [])) = map_of (rev kvs)"
  "bucket_find (vfdw_overlay_hash hc hu hb) vfdw_overlay_match (fold (\<lambda>(k, v). bucket_enter (vfdw_overlay_hash hc hu hb) vfdw_overlay_match k v) ovs (\<lambda>_. [])) = map_of (rev ovs)"
  "bucket_find (vfdw_seen_hash hb) vfdw_seen_match (fold (\<lambda>(k, v). bucket_enter (vfdw_seen_hash hb) vfdw_seen_match k v) svs (\<lambda>_. [])) = map_of (rev svs)"
  "bucket_find (vfdw_keyidx_hash hb) vfdw_keyidx_match (fold (\<lambda>(k, v). bucket_enter (vfdw_keyidx_hash hb) vfdw_keyidx_match k v) xvs (\<lambda>_. [])) = map_of (rev xvs)"
  by (rule ledger_keys.find_filled overlay_keys.find_filled seen_keys.find_filled keyidx_keys.find_filled)+

end
