(* ===== verification/Probe.thy ===== *)
theory Probe
  imports Scan
begin

text \<open>
  The probes of the test extension that compute something of their own: the key dump of \<open>src/vfdw_testkeys.c\<close>, the slot
  ranges and routes of \<open>src/vfdw_testcluster.c\<close>, the rows a reply is rendered as in \<open>src/vfdw_testprobe.c\<close>. Leasing the connection
  is with \<open>Conn\<close>; a probe here starts from its batch, and \<open>app\<close> is what appending a command gives.
\<close>

section \<open>Ordering keys\<close>

text \<open>\<open>memcmp\<close> of two strings of the same length.\<close>

fun memcmp :: "bytes \<Rightarrow> bytes \<Rightarrow> int" where
  "memcmp (x # xs) (y # ys) = (if x \<noteq> y then of_char x - of_char y else memcmp xs ys)"
| "memcmp _ _ = 0"

definition vfdw_probe_key_cmp :: "bytes \<Rightarrow> bytes \<Rightarrow> int" where
  "vfdw_probe_key_cmp ka kb =
     (let n = min (length ka) (length kb); cmp = memcmp (take n ka) (take n kb) in
      if cmp \<noteq> 0 then cmp else if length ka = length kb then 0 else if length ka < length kb then - 1 else 1)"

text \<open>\<open>qsort\<close>, by insertion.\<close>

fun qinsert :: "('a \<Rightarrow> 'a \<Rightarrow> int) \<Rightarrow> 'a \<Rightarrow> 'a list \<Rightarrow> 'a list" where
  "qinsert cmp x [] = [x]"
| "qinsert cmp x (y # ys) = (if cmp x y \<le> 0 then x # y # ys else y # qinsert cmp x ys)"

definition qsort :: "('a \<Rightarrow> 'a \<Rightarrow> int) \<Rightarrow> 'a list \<Rightarrow> 'a list" where
  "qsort cmp xs = foldr (qinsert cmp) xs []"

text \<open>The loop of \<open>vfdw_probe_keys_dedupe\<close>: the last key kept, and the keys after it.\<close>

fun dedupe_loop :: "bytes \<Rightarrow> bytes list \<Rightarrow> bytes list" where
  "dedupe_loop k [] = [k]"
| "dedupe_loop k (x # xs) = (if vfdw_probe_key_cmp k x \<noteq> 0 then k # dedupe_loop x xs else dedupe_loop k xs)"

definition vfdw_probe_keys_dedupe :: "bytes list \<Rightarrow> bytes list" where
  "vfdw_probe_keys_dedupe keys =
     (if length keys \<le> 1 then keys else case qsort vfdw_probe_key_cmp keys of [] \<Rightarrow> [] | k # ks \<Rightarrow> dedupe_loop k ks)"

section \<open>The key dump\<close>

definition VFDW_PROBE_KEY_CAP :: nat where "VFDW_PROBE_KEY_CAP = 10000"
definition VFDW_PROBE_TYPE_CHUNK :: nat where "VFDW_PROBE_TYPE_CHUNK = 256"
definition VFDW_PROBE_SCAN_COUNT :: int where "VFDW_PROBE_SCAN_COUNT = 1000"

definition vfdw_probe_keys_add :: "bytes \<Rightarrow> bytes list \<Rightarrow> bytes list result" where
  "vfdw_probe_keys_add k keys =
     (if length keys \<ge> VFDW_PROBE_KEY_CAP then raise ERRCODE_PROGRAM_LIMIT_EXCEEDED ''too many keys match this probe prefix''
      else Inr (keys @ [k]))"

definition vfdw_probe_match :: "bytes \<Rightarrow> bytes" where
  "vfdw_probe_match prefix = concat (map (\<lambda>c. if glob_special c then [BSL, c] else [c]) prefix) @ ''*''"

definition vfdw_probe_is_aggregate :: "reply_type \<Rightarrow> bool" where
  "vfdw_probe_is_aggregate t \<longleftrightarrow>
     t = VALKEY_REPLY_ARRAY \<or> t = VALKEY_REPLY_SET \<or> t = VALKEY_REPLY_MAP \<or> t = VALKEY_REPLY_PUSH \<or> t = VALKEY_REPLY_ATTR"

definition probe_key :: "valkeyReply \<Rightarrow> nat \<Rightarrow> bytes list \<Rightarrow> bytes list result" where
  "probe_key keys i acc =
     result_bind (vfdw_reply_child keys i) (\<lambda>k.
       if rp_type k \<noteq> VALKEY_REPLY_STRING then raise ERRCODE_FDW_INVALID_DATA_TYPE ''SCAN returned a key that is not a string''
       else vfdw_probe_keys_add (the (rp_str k)) acc)"

text \<open>The keys so far and the cursor of the next page, \<open>None\<close> after the last.\<close>

definition vfdw_probe_scan_page ::
  "(bytes list \<Rightarrow> unit result) \<Rightarrow> bytes \<Rightarrow> bytes \<Rightarrow> bytes list \<times> VfdwBatch \<Rightarrow> (bytes option \<times> bytes list \<times> VfdwBatch) result" where
  "vfdw_probe_scan_page app cursor pattern = (\<lambda>(acc, b).
     result_bind (vfdw_batch_add (app [''SCAN'', cursor, ''MATCH'', pattern, ''COUNT'', dec_int VFDW_PROBE_SCAN_COUNT]) b) (\<lambda>b1.
     result_bind (vfdw_batch_next b1) (\<lambda>(r, b2).
     result_bind (vfdw_reply_expect r [VALKEY_REPLY_ARRAY] ''SCAN failed'') (\<lambda>_.
     result_bind (vfdw_reply_child (the r) 0) (\<lambda>cur.
     result_bind (vfdw_reply_child (the r) 1) (\<lambda>keys.
     if rp_type cur \<noteq> VALKEY_REPLY_STRING \<or> \<not> vfdw_probe_is_aggregate (rp_type keys)
     then raise ERRCODE_FDW_INVALID_DATA_TYPE ''SCAN did not answer with a cursor and a key list''
     else result_bind (result_fold (probe_key keys) [0..<length (rp_element keys)] acc) (\<lambda>acc1.
       Inr (if the (rp_str cur) = ''0'' then None else Some (cstr (the (rp_str cur))), acc1, b2))))))))"

fun probe_scan_loop ::
  "nat \<Rightarrow> (bytes list \<Rightarrow> unit result) \<Rightarrow> bytes \<Rightarrow> bytes \<Rightarrow> bytes list \<times> VfdwBatch \<Rightarrow> (bytes list \<times> VfdwBatch) result option" where
  "probe_scan_loop 0 app cursor pattern s = None"
| "probe_scan_loop (Suc n) app cursor pattern s =
     (case vfdw_probe_scan_page app cursor pattern s of
        Inl e \<Rightarrow> Some (Inl e)
      | Inr (None, s1) \<Rightarrow> Some (Inr s1)
      | Inr (Some next, s1) \<Rightarrow> probe_scan_loop n app next pattern s1)"

definition vfdw_probe_type_queue :: "(bytes list \<Rightarrow> unit result) \<Rightarrow> bytes list \<Rightarrow> VfdwBatch \<Rightarrow> VfdwBatch result" where
  "vfdw_probe_type_queue app keys = result_fold (\<lambda>k. vfdw_batch_add (app [''TYPE'', k])) keys"

fun vfdw_probe_type_emit :: "bytes list \<Rightarrow> VfdwBatch \<Rightarrow> ((bytes \<times> bytes) list \<times> VfdwBatch) result" where
  "vfdw_probe_type_emit [] b = Inr ([], b)"
| "vfdw_probe_type_emit (k # ks) b =
     result_bind (vfdw_batch_next b) (\<lambda>(r, b1).
     result_bind (vfdw_reply_expect r [VALKEY_REPLY_STATUS] ''TYPE failed'') (\<lambda>_.
     result_bind (vfdw_probe_type_emit ks b1) (\<lambda>(rows, b2). Inr ((k, the (rp_str (the r))) # rows, b2))))"

function probe_types :: "(bytes list \<Rightarrow> unit result) \<Rightarrow> bytes list \<Rightarrow> VfdwBatch \<Rightarrow> ((bytes \<times> bytes) list \<times> VfdwBatch) result" where
  "probe_types app keys b =
     (if keys = [] then Inr ([], b)
      else result_bind (vfdw_probe_type_queue app (take VFDW_PROBE_TYPE_CHUNK keys) b) (\<lambda>b1.
           result_bind (vfdw_probe_type_emit (take VFDW_PROBE_TYPE_CHUNK keys) b1) (\<lambda>(rows, b2).
           result_bind (probe_types app (drop VFDW_PROBE_TYPE_CHUNK keys) b2) (\<lambda>(rest, b3). Inr (rows @ rest, b3)))))"
  by pat_completeness auto
termination
  by (relation "measure (\<lambda>(_, keys, _). length keys)") (auto simp: VFDW_PROBE_TYPE_CHUNK_def)

text \<open>The rows of the dump, and the connection's stream after it.\<close>

definition valkey_fdw_test_keys :: "nat \<Rightarrow> (bytes list \<Rightarrow> unit result) \<Rightarrow> bytes \<Rightarrow> VfdwBatch \<Rightarrow> ((bytes \<times> bytes) list \<times> wire) result option" where
  "valkey_fdw_test_keys fuel app prefix b =
     (case probe_scan_loop fuel app ''0'' (vfdw_probe_match prefix) ([], b) of
        None \<Rightarrow> None
      | Some (Inl e) \<Rightarrow> Some (Inl e)
      | Some (Inr (keys, b1)) \<Rightarrow>
          Some (result_bind (probe_types app (vfdw_probe_keys_dedupe keys) b1) (\<lambda>(rows, b2).
                result_bind (vfdw_batch_end b2) (\<lambda>w. Inr (rows, w)))))"

declare probe_types.simps [simp del]

section \<open>The ranges of the slot map\<close>

definition NSLOTS :: nat where "NSLOTS = nat VFDW_CLUSTER_NSLOTS"

text \<open>The first slot from \<open>i\<close> on that \<open>w\<close> does not own.\<close>

function run_end :: "(nat \<Rightarrow> int) \<Rightarrow> int \<Rightarrow> nat \<Rightarrow> nat" where
  "run_end own w i = (if i < NSLOTS \<and> own i = w then run_end own w (i + 1) else i)"
  by pat_completeness auto
termination
  by (relation "measure (\<lambda>(_, _, i). NSLOTS - i)") auto

declare run_end.simps [simp del]

lemma run_end_run:
  "i \<le> run_end own w i \<and> (\<forall>s. i \<le> s \<and> s < run_end own w i \<longrightarrow> s < NSLOTS \<and> own s = w)"
proof (induction own w i rule: run_end.induct)
  case (1 own w i)
  show ?case
  proof (cases "i < NSLOTS \<and> own i = w")
    case True
    then have e: "run_end own w i = run_end own w (i + 1)" by (subst run_end.simps) simp
    have step: "i + 1 \<le> run_end own w i"
      and run: "i + 1 \<le> s \<and> s < run_end own w i \<longrightarrow> s < NSLOTS \<and> own s = w" for s using "1.IH" [OF True] unfolding e by blast+
    have "s < NSLOTS \<and> own s = w" if "i \<le> s" "s < run_end own w i" for s
      using run [of s] True that by (cases "s = i") simp_all
    then show ?thesis using step by simp
  next
    case False
    then have "run_end own w i = i" by (subst run_end.simps) (simp only: if_False)
    then show ?thesis by simp
  qed
qed

lemma run_end_gt:
  assumes "i < NSLOTS" "own i = w"
  shows "i < run_end own w i"
proof -
  have "run_end own w i = run_end own w (i + 1)" using assms by (subst run_end.simps) simp
  then show ?thesis using run_end_run [of "i + 1" own w] by simp
qed

function map_rows :: "VfdwSlotMap \<Rightarrow> nat \<Rightarrow> (nat \<times> nat \<times> bytes \<times> int) list" where
  "map_rows m i =
     (if i \<ge> NSLOTS then []
      else if sm_owner m i < 0 then map_rows m (i + 1)
      else let e = run_end (sm_owner m) (sm_owner m i) i; node = sm_nodes m ! nat (sm_owner m i) in
        (i, e - 1, cn_host node, cn_port node) # map_rows m e)"
  by pat_completeness auto
termination
  by (relation "measure (\<lambda>(_, i). NSLOTS - i)") (simp_all add: run_end_gt diff_less_mono2)

declare map_rows.simps [simp del]

definition valkey_fdw_test_cluster_map :: "VfdwSlotMap \<Rightarrow> (nat \<times> nat \<times> bytes \<times> int) list" where
  "valkey_fdw_test_cluster_map m = map_rows m 0"

definition valkey_fdw_test_cluster_route :: "VfdwSlotMap \<Rightarrow> bytes \<Rightarrow> int \<times> (bytes \<times> int) option" where
  "valkey_fdw_test_cluster_route m key =
     (uint (vfdw_val_slot key), map_option (\<lambda>node. (cn_host node, cn_port node)) (vfdw_cluster_route (Some m) key))"

section \<open>A reply as rows\<close>

text \<open>
  \<open>dval\<close> and \<open>vtype\<close> are the fields of a reply that only this probe reads. A number column that is not set is \<open>None\<close>.
\<close>

record 'd VfdwProbeCols =
  pc_type :: string
  pc_keypart :: "bytes option"
  pc_valpart :: "bytes option"
  pc_num :: "int option"
  pc_dbl :: "'d option"

definition vfdw_probe_columns :: "(valkeyReply \<Rightarrow> 'd) \<Rightarrow> (valkeyReply \<Rightarrow> bytes) \<Rightarrow> valkeyReply \<Rightarrow> 'd VfdwProbeCols" where
  "vfdw_probe_columns dval vtype r =
     (let out = \<lparr>pc_type = vfdw_reply_type_name (rp_type r), pc_keypart = None, pc_valpart = None, pc_num = None, pc_dbl = None\<rparr> in
      case rp_type r of
        VALKEY_REPLY_INTEGER \<Rightarrow> out\<lparr>pc_num := Some (rp_integer r)\<rparr>
      | VALKEY_REPLY_BOOL \<Rightarrow> out\<lparr>pc_num := Some (if rp_integer r \<noteq> 0 then 1 else 0)\<rparr>
      | VALKEY_REPLY_DOUBLE \<Rightarrow> out\<lparr>pc_dbl := Some (dval r), pc_valpart := rp_str r\<rparr>
      | VALKEY_REPLY_VERB \<Rightarrow> out\<lparr>pc_keypart := Some (cstr (take 3 (vtype r))), pc_valpart := rp_str r\<rparr>
      | VALKEY_REPLY_STRING \<Rightarrow> out\<lparr>pc_valpart := rp_str r\<rparr>
      | VALKEY_REPLY_STATUS \<Rightarrow> out\<lparr>pc_valpart := rp_str r\<rparr>
      | VALKEY_REPLY_ERROR \<Rightarrow> out\<lparr>pc_valpart := rp_str r\<rparr>
      | VALKEY_REPLY_BIGNUM \<Rightarrow> out\<lparr>pc_valpart := rp_str r\<rparr>
      | VALKEY_REPLY_NIL \<Rightarrow> out
      | _ \<Rightarrow> if vfdw_probe_is_aggregate (rp_type r) then out\<lparr>pc_num := Some (int (length (rp_element r)))\<rparr> else out)"

record 'd probe_row =
  pr_type :: string
  pr_ordinal :: nat
  pr_keypart :: "bytes option"
  pr_valpart :: "bytes option"
  pr_num :: "int option"
  pr_dbl :: "'d option"

definition vfdw_probe_row :: "string \<Rightarrow> nat \<Rightarrow> 'd VfdwProbeCols \<Rightarrow> bytes option \<Rightarrow> 'd probe_row" where
  "vfdw_probe_row type ordinal cols keypart =
     \<lparr>pr_type = type, pr_ordinal = ordinal, pr_keypart = keypart, pr_valpart = pc_valpart cols, pr_num = pc_num cols, pr_dbl = pc_dbl cols\<rparr>"

text \<open>The loop, from element \<open>i\<close> with \<open>ordinal\<close> rows already given.\<close>

function vfdw_probe_elements ::
  "(valkeyReply \<Rightarrow> 'd VfdwProbeCols) \<Rightarrow> valkeyReply \<Rightarrow> bool \<Rightarrow> nat \<Rightarrow> nat \<Rightarrow> 'd probe_row list result" where
  "vfdw_probe_elements columns reply pairs i ordinal =
     (if i \<ge> length (rp_element reply) then Inr []
      else result_bind (vfdw_reply_child reply i) (\<lambda>e.
        if \<not> pairs
        then result_bind (vfdw_probe_elements columns reply pairs (i + 1) (ordinal + 1)) (\<lambda>rows.
          Inr (vfdw_probe_row (pc_type (columns e)) (ordinal + 1) (columns e) (pc_keypart (columns e)) # rows))
        else result_bind (vfdw_reply_child reply (i + 1)) (\<lambda>v.
          result_bind (vfdw_probe_elements columns reply pairs (i + 2) (ordinal + 1)) (\<lambda>rows.
          Inr (vfdw_probe_row (pc_type (columns v)) (ordinal + 1) (columns v) (pc_valpart (columns e)) # rows)))))"
  by pat_completeness auto
termination
  by (relation "measure (\<lambda>(_, reply, _, i, _). length (rp_element reply) - i)") auto

declare vfdw_probe_elements.simps [simp del]

definition vfdw_probe_render :: "(valkeyReply \<Rightarrow> 'd VfdwProbeCols) \<Rightarrow> valkeyReply \<Rightarrow> bool \<Rightarrow> 'd probe_row list result" where
  "vfdw_probe_render columns reply pairs =
     (let aggregate = vfdw_probe_is_aggregate (rp_type reply); cols = columns reply; n = length (rp_element reply) in
      if aggregate \<and> pairs \<and> odd n
      then raise ERRCODE_FDW_INVALID_DATA_TYPE ''a paired reply must have an even number of elements''
      else let cols1 = (if aggregate \<and> pairs then cols\<lparr>pc_type := ''map'', pc_num := Some (int (n div 2))\<rparr> else cols);
               top = vfdw_probe_row (pc_type cols1) 0 cols1 (pc_keypart cols1)
        in if aggregate then result_bind (vfdw_probe_elements columns reply pairs 0 0) (\<lambda>rows. Inr (top # rows)) else Inr [top])"

fun probe_arg :: "bytes option \<Rightarrow> bytes list \<Rightarrow> bytes list result" where
  "probe_arg None argv = raise ERRCODE_NULL_VALUE_NOT_ALLOWED ''a probe argument must not be NULL''"
| "probe_arg (Some a) argv = Inr (argv @ [a])"

definition vfdw_probe_args :: "bytes option list \<Rightarrow> bytes list result" where
  "vfdw_probe_args elems =
     (if elems = [] then raise ERRCODE_INVALID_PARAMETER_VALUE ''a probe needs at least a command verb''
      else result_fold probe_arg elems [])"

text \<open>From the leased connection on; the batch is begun after the arguments are read.\<close>

definition vfdw_probe_run ::
  "(bytes list \<Rightarrow> unit result) \<Rightarrow> (valkeyReply \<Rightarrow> 'd VfdwProbeCols) \<Rightarrow> bytes option list \<Rightarrow> bool \<Rightarrow> VfdwBatch \<Rightarrow>
   ('d probe_row list \<times> wire) result" where
  "vfdw_probe_run app columns args pairs b =
     result_bind (vfdw_probe_args args) (\<lambda>argv.
     result_bind (vfdw_batch_add (app argv) b) (\<lambda>b1.
     result_bind (vfdw_batch_next b1) (\<lambda>(r, b2).
     case r of
       None \<Rightarrow> raise ERRCODE_FDW_ERROR ''Valkey sent no reply to a probe command''
     | Some reply \<Rightarrow>
         result_bind (vfdw_probe_render columns reply pairs) (\<lambda>rows.
         result_bind (vfdw_batch_end b2) (\<lambda>w. Inr (rows, w))))))"

section \<open>Lemmas on the slot map's ranges\<close>

definition covers :: "nat \<Rightarrow> nat \<times> nat \<times> bytes \<times> int \<Rightarrow> bool" where
  "covers s = (\<lambda>(lo, hi, _). lo \<le> s \<and> s \<le> hi)"

definition owner_of :: "VfdwSlotMap \<Rightarrow> nat \<Rightarrow> (bytes \<times> int) list" where
  "owner_of m s = (if sm_owner m s < 0 then [] else let node = sm_nodes m ! nat (sm_owner m s) in [(cn_host node, cn_port node)])"

lemma map_rows_cover:
  "s < NSLOTS \<Longrightarrow> map (\<lambda>r. snd (snd r)) (filter (covers s) (map_rows m i)) = (if i \<le> s then owner_of m s else [])"
proof (induction m i rule: map_rows.induct)
  case (1 m i)
  consider (past) "NSLOTS \<le> i" | (free) "i < NSLOTS" "sm_owner m i < 0" | (owned) "i < NSLOTS" "0 \<le> sm_owner m i" by linarith
  then show ?case
  proof cases
    case past
    then have "map_rows m i = []" by (subst map_rows.simps) simp
    then show ?thesis using past "1.prems" by simp
  next
    case free
    then have "map_rows m i = map_rows m (i + 1)" by (subst map_rows.simps) simp
    then show ?thesis using "1.IH"(1) [OF _ _ "1.prems"] free by (cases "s = i") (simp_all add: owner_of_def)
  next
    case owned
    define e node where "e = run_end (sm_owner m) (sm_owner m i) i" and "node = sm_nodes m ! nat (sm_owner m i)"
    have rows: "map_rows m i = (i, e - 1, cn_host node, cn_port node) # map_rows m e"
      using owned by (subst map_rows.simps) (simp add: e_def node_def Let_def)
    have gt: "i < e" using owned(1) unfolding e_def by (rule run_end_gt) simp
    have own: "owner_of m s = [(cn_host node, cn_port node)]" if "i \<le> s" "s < e"
    proof -
      have "sm_owner m s = sm_owner m i" using run_end_run [of i "sm_owner m" "sm_owner m i"] that unfolding e_def by blast
      then show ?thesis using owned by (simp add: owner_of_def node_def Let_def)
    qed
    have rest: "map (\<lambda>r. snd (snd r)) (filter (covers s) (map_rows m e)) = (if e \<le> s then owner_of m s else [])"
      by (rule "1.IH"(2) [OF _ _ e_def node_def "1.prems"]) (use owned in simp_all)
    have head: "covers s (i, e - Suc 0, cn_host node, cn_port node) \<longleftrightarrow> i \<le> s \<and> s < e" using gt by (auto simp: covers_def)
    show ?thesis using gt own rest by (cases "e \<le> s"; cases "i \<le> s") (simp_all add: rows head)
  qed
qed

text \<open>
  The ranges the probe lists and the node the router picks agree: the slot of a key lies in exactly one range, that of
  the node the key is routed to, or in none when the key has no route.
\<close>

lemma cluster_map_routes:
  "map (\<lambda>r. snd (snd r)) (filter (covers (unat (vfdw_val_slot key))) (valkey_fdw_test_cluster_map m)) =
   (case snd (valkey_fdw_test_cluster_route m key) of None \<Rightarrow> [] | Some n \<Rightarrow> [n])"
  using map_rows_cover [of "unat (vfdw_val_slot key)" m 0]
  by (simp add: valkey_fdw_test_cluster_map_def valkey_fdw_test_cluster_route_def vfdw_cluster_route_def owner_of_def NSLOTS_def
      slot_bound Let_def)

section \<open>Lemmas on the key dump\<close>

text \<open>The order of the dump, byte by byte.\<close>

fun lexcmp :: "bytes \<Rightarrow> bytes \<Rightarrow> int" where
  "lexcmp [] [] = 0"
| "lexcmp [] (y # ys) = - 1"
| "lexcmp (x # xs) [] = 1"
| "lexcmp (x # xs) (y # ys) = (if x \<noteq> y then of_char x - of_char y else lexcmp xs ys)"

lemma of_char_diff [simp]: "(of_char x - of_char y = (0 :: int)) = (x = y)"
  by simp

lemma key_cmp_lex: "vfdw_probe_key_cmp ka kb = lexcmp ka kb"
proof (induction ka kb rule: lexcmp.induct)
  case (4 x xs y ys)
  then show ?case by (auto simp: vfdw_probe_key_cmp_def Let_def)
qed (simp_all add: vfdw_probe_key_cmp_def)

lemma lexcmp_eq: "lexcmp ka kb = 0 \<longleftrightarrow> ka = kb"
  by (induction ka kb rule: lexcmp.induct) auto

lemma lexcmp_swap: "lexcmp ka kb < 0 \<longleftrightarrow> 0 < lexcmp kb ka"
  by (induction ka kb rule: lexcmp.induct) auto

lemma lexcmp_trans: "lexcmp ka kb < 0 \<Longrightarrow> lexcmp kb kc < 0 \<Longrightarrow> lexcmp ka kc < 0"
proof (induction ka kb arbitrary: kc rule: lexcmp.induct)
  case (2 y ys)
  then show ?case by (cases kc) simp_all
next
  case (4 x xs y ys)
  then show ?case by (cases kc) (auto split: if_splits)
qed simp_all

lemma lexcmp_total: "lexcmp ka kb \<le> 0 \<or> lexcmp kb ka < 0"
  using lexcmp_swap [of kb ka] by linarith

lemma lexcmp_le_trans: "lexcmp ka kb \<le> 0 \<Longrightarrow> lexcmp kb kc \<le> 0 \<Longrightarrow> lexcmp ka kc \<le> 0"
  using lexcmp_trans [of ka kb kc] lexcmp_eq by (metis order_le_less)

abbreviation key_sorted :: "bytes list \<Rightarrow> bool" where
  "key_sorted \<equiv> sorted_wrt (\<lambda>a b. lexcmp a b \<le> 0)"

lemma qinsert_set: "set (qinsert cmp x ys) = insert x (set ys)"
  by (induction ys) auto

lemma qinsert_sorted: "key_sorted ys \<Longrightarrow> key_sorted (qinsert vfdw_probe_key_cmp x ys)"
proof (induction ys)
  case (Cons y ys)
  then show ?case using lexcmp_total [of x y] by (auto simp: key_cmp_lex qinsert_set intro: lexcmp_le_trans order_less_imp_le)
qed simp

lemma qsort_sorted: "key_sorted (qsort vfdw_probe_key_cmp ks) \<and> set (qsort vfdw_probe_key_cmp ks) = set ks"
  unfolding qsort_def by (induction ks) (simp_all add: qinsert_sorted qinsert_set)

lemma dedupe_loop_strict:
  "key_sorted (k # ks) \<Longrightarrow>
   sorted_wrt (\<lambda>a b. lexcmp a b < 0) (dedupe_loop k ks) \<and> set (dedupe_loop k ks) = insert k (set ks)"
proof (induction k ks rule: dedupe_loop.induct)
  case (2 k x xs)
  show ?case
  proof (cases "k = x")
    case True
    then show ?thesis using 2 by (simp add: key_cmp_lex lexcmp_eq)
  next
    case False
    have lt: "lexcmp k x < 0" using "2.prems" False lexcmp_eq [of k x] by (simp add: order_le_less)
    have "lexcmp k z < 0" if "z \<in> insert x (set xs)" for z
    proof (cases "z = x")
      case False
      then have "lexcmp x z < 0" using "2.prems" that lexcmp_eq [of x z] by (auto simp: order_le_less)
      then show ?thesis using lt lexcmp_trans by blast
    qed (use lt in simp)
    moreover have "lexcmp k x \<noteq> 0" using lt by simp
    ultimately show ?thesis using 2 by (simp add: key_cmp_lex)
  qed
qed simp

lemma dedupe_strict:
  "sorted_wrt (\<lambda>a b. lexcmp a b < 0) (vfdw_probe_keys_dedupe ks) \<and> set (vfdw_probe_keys_dedupe ks) = set ks"
proof (cases "length ks \<le> 1")
  case True
  then show ?thesis by (cases ks) (simp_all add: vfdw_probe_keys_dedupe_def)
next
  case False
  then show ?thesis using qsort_sorted [of ks] dedupe_loop_strict
    by (cases "qsort vfdw_probe_key_cmp ks") (auto simp: vfdw_probe_keys_dedupe_def)
qed

text \<open>The replies of a server that pages the keys \<open>ks\<close> and gives the cursor \<open>cur\<close>, and that of \<open>TYPE\<close>.\<close>

definition page_reply :: "bytes \<times> bytes list \<Rightarrow> valkeyReply" where
  "page_reply = (\<lambda>(cur, ks). Reply VALKEY_REPLY_ARRAY None 0
     [Some (Reply VALKEY_REPLY_STRING (Some cur) 0 []),
      Some (Reply VALKEY_REPLY_ARRAY None 0 (map (\<lambda>k. Some (Reply VALKEY_REPLY_STRING (Some k) 0 [])) ks))])"

definition type_reply :: "(bytes \<Rightarrow> bytes) \<Rightarrow> bytes \<Rightarrow> valkeyReply" where
  "type_reply ty k = Reply VALKEY_REPLY_STATUS (Some (ty k)) 0 []"

lemma type_queue_ready:
  "ready b n rs \<Longrightarrow> \<exists>b'. vfdw_probe_type_queue (\<lambda>_. Inr ()) ks b = Inr b' \<and> ready b' (n + length ks) rs"
proof (induction ks arbitrary: b n)
  case (Cons k ks)
  obtain b1 where b1: "vfdw_batch_add (Inr ()) b = Inr b1" "ready b1 (n + 1) rs" using br.enq_ready [OF Cons.prems] by blast
  show ?case using Cons.IH [OF b1(2)] b1(1) by (simp add: vfdw_probe_type_queue_def)
qed (simp add: vfdw_probe_type_queue_def)

lemma type_emit_ready:
  "ready b (length ks) (map (type_reply ty) ks @ rs) \<Longrightarrow>
   \<exists>b'. vfdw_probe_type_emit ks b = Inr (map (\<lambda>k. (k, ty k)) ks, b') \<and> ready b' 0 rs"
proof (induction ks arbitrary: b)
  case (Cons k ks)
  obtain b1 where b1: "vfdw_batch_next b = Inr (Some (type_reply ty k), b1)" "ready b1 (length ks) (map (type_reply ty) ks @ rs)"
    using br.deq_ready [of b "length ks" "type_reply ty k" "map (type_reply ty) ks @ rs"] Cons.prems by auto
  show ?case using Cons.IH [OF b1(2)] b1(1) by (auto simp: type_reply_def vfdw_reply_expect_def vfdw_reply_is_error_def)
qed simp

lemma probe_types_ready:
  "ready b 0 (map (type_reply ty) ks @ rs) \<Longrightarrow>
   \<exists>b'. probe_types (\<lambda>_. Inr ()) ks b = Inr (map (\<lambda>k. (k, ty k)) ks, b') \<and> ready b' 0 rs"
proof (induction "length ks" arbitrary: ks b rule: less_induct)
  case less
  show ?case
  proof (cases "ks = []")
    case True
    then show ?thesis using less.prems by (subst probe_types.simps) simp
  next
    case False
    let ?c = "take VFDW_PROBE_TYPE_CHUNK ks" and ?d = "drop VFDW_PROBE_TYPE_CHUNK ks"
    have split: "map (type_reply ty) ks @ rs = map (type_reply ty) ?c @ (map (type_reply ty) ?d @ rs)"
      by (metis append.assoc append_take_drop_id map_append)
    obtain b1 where b1: "vfdw_probe_type_queue (\<lambda>_. Inr ()) ?c b = Inr b1" "ready b1 (length ?c) (map (type_reply ty) ?c @ (map (type_reply ty) ?d @ rs))"
      using type_queue_ready [OF less.prems, of ?c] unfolding split by auto
    obtain b2 where b2: "vfdw_probe_type_emit ?c b1 = Inr (map (\<lambda>k. (k, ty k)) ?c, b2)" "ready b2 0 (map (type_reply ty) ?d @ rs)"
      using type_emit_ready [OF b1(2)] by blast
    have "length ?d < length ks" using False by (simp add: VFDW_PROBE_TYPE_CHUNK_def)
    from less.hyps [OF this b2(2)] obtain b3
      where b3: "probe_types (\<lambda>_. Inr ()) ?d b2 = Inr (map (\<lambda>k. (k, ty k)) ?d, b3)" "ready b3 0 rs" by blast
    have "map (\<lambda>k. (k, ty k)) ?c @ map (\<lambda>k. (k, ty k)) ?d = map (\<lambda>k. (k, ty k)) ks"
      by (metis append_take_drop_id map_append)
    then show ?thesis using False b1(1) b2(1) b3 by (subst probe_types.simps) simp
  qed
qed

lemma probe_keys_fold:
  assumes "length acc + length ks \<le> VFDW_PROBE_KEY_CAP" "n \<le> length ks"
  shows "result_fold (probe_key (Reply t u i (map (\<lambda>k. Some (Reply VALKEY_REPLY_STRING (Some k) 0 [])) ks))) [0..<n] acc = Inr (acc @ take n ks)"
  using assms(2)
proof (induction n)
  case (Suc n)
  then show ?case using assms(1)
    by (simp add: result_fold_snoc probe_key_def vfdw_reply_child_def vfdw_probe_keys_add_def take_Suc_conv_app_nth)
qed simp

lemma scan_page_ready:
  assumes "ready b 0 (page_reply (cur, ks) # rs)" "length acc + length ks \<le> VFDW_PROBE_KEY_CAP"
  obtains b' where "vfdw_probe_scan_page (\<lambda>_. Inr ()) c pat (acc, b) = Inr (if cur = ''0'' then None else Some (cstr cur), acc @ ks, b')"
    and "ready b' 0 rs"
proof -
  obtain b1 where b1: "vfdw_batch_add (Inr ()) b = Inr b1" "ready b1 (Suc 0) (page_reply (cur, ks) # rs)"
    using br.enq_ready [OF assms(1)] by auto
  obtain b2 where b2: "vfdw_batch_next b1 = Inr (Some (page_reply (cur, ks)), b2)" "ready b2 0 rs"
    using br.deq_ready [OF b1(2)] by blast
  have "vfdw_probe_scan_page (\<lambda>_. Inr ()) c pat (acc, b) = Inr (if cur = ''0'' then None else Some (cstr cur), acc @ ks, b2)"
    using probe_keys_fold [OF assms(2) order_refl]
    by (simp add: vfdw_probe_scan_page_def b1(1) b2(1) page_reply_def vfdw_reply_expect_def vfdw_reply_is_error_def
        vfdw_reply_child_def vfdw_probe_is_aggregate_def)
  then show thesis using that b2(2) by blast
qed

text \<open>The pages a server gives: only the last has the cursor \<open>0\<close>.\<close>

fun pages_end :: "(bytes \<times> bytes list) list \<Rightarrow> bool" where
  "pages_end [] \<longleftrightarrow> False"
| "pages_end [p] \<longleftrightarrow> fst p = ''0''"
| "pages_end (p # ps) \<longleftrightarrow> fst p \<noteq> ''0'' \<and> pages_end ps"

lemma scan_loop_ready:
  "pages_end ps \<Longrightarrow> ready b 0 (map page_reply ps @ rs) \<Longrightarrow> length acc + length (concat (map snd ps)) \<le> VFDW_PROBE_KEY_CAP \<Longrightarrow>
   \<exists>b'. probe_scan_loop (length ps) (\<lambda>_. Inr ()) c pat (acc, b) = Some (Inr (acc @ concat (map snd ps), b')) \<and> ready b' 0 rs"
proof (induction ps arbitrary: acc b c)
  case (Cons p ps)
  obtain cur ks where p: "p = (cur, ks)" by fastforce
  have r: "ready b 0 (page_reply (cur, ks) # map page_reply ps @ rs)" and l: "length acc + length ks \<le> VFDW_PROBE_KEY_CAP"
    using Cons.prems by (simp_all add: p)
  from scan_page_ready [OF r l] obtain b1
    where b1: "vfdw_probe_scan_page (\<lambda>_. Inr ()) c pat (acc, b) = Inr (if cur = ''0'' then None else Some (cstr cur), acc @ ks, b1)"
      "ready b1 0 (map page_reply ps @ rs)" by blast
  show ?case
  proof (cases ps)
    case Nil
    then show ?thesis using Cons.prems(1) b1 by (simp add: p)
  next
    case (Cons q qs)
    have "pages_end ps" "cur \<noteq> ''0''" using Cons.prems(1) \<open>ps = q # qs\<close> by (simp_all add: p)
    then show ?thesis using Cons.IH [OF _ b1(2), of "acc @ ks" "cstr cur"] Cons.prems(3) b1(1) by (simp add: p add.assoc)
  qed
qed simp

text \<open>
  The dump is complete and without repeats. On a server that pages its keys in any order, a key possibly on several pages, and then
  answers \<open>TYPE\<close>, the rows are one per distinct key in byte order, each with its own type, and the connection's stream is left idle.
\<close>

lemma key_dump_complete:
  assumes "pages_end ps" and "length (concat (map snd ps)) \<le> VFDW_PROBE_KEY_CAP"
    and "ready b 0 (map page_reply ps @ map (type_reply ty) (vfdw_probe_keys_dedupe (concat (map snd ps))))"
  shows "\<exists>keys w. valkey_fdw_test_keys (length ps) (\<lambda>_. Inr ()) prefix b = Some (Inr (map (\<lambda>k. (k, ty k)) keys, w)) \<and>
    sorted_wrt (\<lambda>a b. vfdw_probe_key_cmp a b < 0) keys \<and> set keys = \<Union> (set (map (set \<circ> snd) ps)) \<and> \<not> wire_busy w"
proof -
  let ?keys = "vfdw_probe_keys_dedupe (concat (map snd ps))"
  obtain b1 where b1: "probe_scan_loop (length ps) (\<lambda>_. Inr ()) ''0'' (vfdw_probe_match prefix) ([], b) = Some (Inr (concat (map snd ps), b1))"
    "ready b1 0 (map (type_reply ty) ?keys @ [])"
    using scan_loop_ready [OF assms(1), of b _ "[]"] assms(2,3) by fastforce
  obtain b2 where b2: "probe_types (\<lambda>_. Inr ()) ?keys b1 = Inr (map (\<lambda>k. (k, ty k)) ?keys, b2)" "ready b2 0 []"
    using probe_types_ready [OF b1(2)] by blast
  have e: "vfdw_batch_end b2 = Inr ((b_wire b2)\<lparr>wire_busy := False\<rparr>)"
    using b2(2) by (simp add: vfdw_batch_end_def ready_def)
  have s: "sorted_wrt (\<lambda>a b. vfdw_probe_key_cmp a b < 0) ?keys" "set ?keys = \<Union> (set (map (set \<circ> snd) ps))"
    using dedupe_strict [of "concat (map snd ps)"] by (auto simp: key_cmp_lex)
  show ?thesis
    by (intro exI [of _ ?keys] exI [of _ "(b_wire b2)\<lparr>wire_busy := False\<rparr>"]) (simp add: valkey_fdw_test_keys_def b1(1) b2(1) e s)
qed

section \<open>Lemmas on the rows of a reply\<close>

lemma probe_elements_rows:
  "vfdw_probe_elements columns reply pairs i ordinal = Inr rows \<Longrightarrow>
   map pr_ordinal rows = [ordinal + 1..<ordinal + 1 + length rows] \<and>
   (\<not> pairs \<longrightarrow> length rows = length (rp_element reply) - i) \<and>
   (pairs \<longrightarrow> even (length (rp_element reply) - i) \<longrightarrow> length rows = (length (rp_element reply) - i) div 2)"
proof (induction columns reply pairs i ordinal arbitrary: rows rule: vfdw_probe_elements.induct)
  case (1 columns reply pairs i ordinal)
  show ?case
  proof (cases "i \<ge> length (rp_element reply)")
    case True
    then show ?thesis using "1.prems" by (subst (asm) vfdw_probe_elements.simps) simp
  next
    case False
    obtain e where e: "vfdw_reply_child reply i = Inr e"
      using "1.prems" False by (subst (asm) vfdw_probe_elements.simps) (auto simp: result_bind_Inr_iff)
    show ?thesis
    proof (cases pairs)
      case True
      then obtain v r rs where v: "vfdw_reply_child reply (i + 1) = Inr v"
        and rs: "vfdw_probe_elements columns reply pairs (i + 2) (ordinal + 1) = Inr rs" "rows = r # rs" "pr_ordinal r = ordinal + 1"
        using "1.prems" False e by (subst (asm) vfdw_probe_elements.simps) (auto simp: result_bind_Inr_iff vfdw_probe_row_def)
      have "length (rp_element reply) - i = Suc (Suc (length (rp_element reply) - (i + 2)))"
        using v by (auto simp: vfdw_reply_child_def split: if_splits)
      then show ?thesis using "1.IH"(2) [OF False e _ v rs(1)] True rs(2,3) by (simp add: upt_conv_Cons del: upt_Suc)
    next
      case np: False
      then obtain r rs where rs: "vfdw_probe_elements columns reply pairs (i + 1) (ordinal + 1) = Inr rs" "rows = r # rs" "pr_ordinal r = ordinal + 1"
        using "1.prems" False e by (subst (asm) vfdw_probe_elements.simps) (auto simp: result_bind_Inr_iff vfdw_probe_row_def)
      moreover have "length (rp_element reply) - i = Suc (length (rp_element reply) - Suc i)" using False by simp
      ultimately show ?thesis using "1.IH"(1) [OF False e _ rs(1)] np by (simp add: upt_conv_Cons del: upt_Suc)
    qed
  qed
qed

text \<open>A reply gives a row for itself and one per element, or per pair, numbered from 0; a paired reply of odd length is refused.\<close>

lemma probe_render_rows:
  assumes "vfdw_probe_render columns reply pairs = Inr rows"
  shows "map pr_ordinal rows = [0..<length rows] \<and>
    length rows = 1 + (if vfdw_probe_is_aggregate (rp_type reply) then length (rp_element reply) div (if pairs then 2 else 1) else 0)"
proof (cases "vfdw_probe_is_aggregate (rp_type reply)")
  case True
  then obtain r rs where rs: "vfdw_probe_elements columns reply pairs 0 0 = Inr rs" "rows = r # rs" "pr_ordinal r = 0"
    and ev: "pairs \<longrightarrow> even (length (rp_element reply))"
    using assms by (auto simp: vfdw_probe_render_def Let_def result_bind_Inr_iff vfdw_probe_row_def split: if_splits)
  show ?thesis using probe_elements_rows [OF rs(1)] rs(2,3) ev True by (auto simp: upt_conv_Cons simp del: upt_Suc)
next
  case False
  then show ?thesis using assms by (auto simp: vfdw_probe_render_def Let_def vfdw_probe_row_def)
qed

end
